(* ===== verification/Prelude.thy ===== *)
theory Prelude
  imports Main "HOL-Library.Word" "HOL-Library.Monad_Syntax"
begin

unbundle bit_operations_syntax

text \<open>
  What every component of the development shares: the names of the machine integers and of
  \<open>core::Bytes\<close>, the reading of exceptions, the ordered map, the failing list accesses, and
  the generic lemmas on lists, words and options the component proofs rest on.

  Conventions.  A C++ function that may throw is a HOL function into \<open>option\<close>; \<open>None\<close> is "an
  exception leaves the function" (no caller of this code base ever tells two exceptions
  apart, so their text is not modelled).  A member function that changes its object takes the
  object's record and returns the new one.  \<open>std::map\<close> with an iterated-over key order is an
  association list with strictly ascending keys (\<open>omap\<close>).  Clock readings
  (\<open>monotonicNs\<close>, \<open>StepTiming\<close>, \<open>ScopedTimer\<close>) are not modelled.
\<close>

type_synonym u8 = "8 word"
type_synonym u16 = "16 word"
type_synonym u32 = "32 word"
type_synonym u64 = "64 word"
type_synonym bytes = "u8 list"

named_theorems guard_simps \<open>definitions of guards and early returns\<close>
named_theorems frame_simps \<open>what an operation leaves unchanged\<close>

subsection \<open>Exceptions\<close>

text \<open>\<open>if (!c) throw\<close>, as a step of the option monad.\<close>

definition require :: "bool \<Rightarrow> unit option" where
  "require c = (if c then Some () else None)"

lemma require_simps [simp]:
  "require True = Some ()" "require False = None"
  "(require c = Some u) = c" "(require c = None) = (\<not> c)"
  by (simp_all add: require_def)

lemma require_bind [simp]: "(require c \<bind> f) = (if c then f () else None)"
  by (simp add: require_def)

lemma bind_SomeE:
  assumes "(x \<bind> f) = Some y"
  obtains a where "x = Some a" and "f a = Some y"
  using assms by (auto simp: Option.bind_eq_Some_conv)

text \<open>Element access of a vector: out of range there is no value.\<close>

definition nth_opt :: "'a list \<Rightarrow> nat \<Rightarrow> 'a option" where
  "nth_opt xs i = (if i < length xs then Some (xs ! i) else None)"

lemma nth_opt_Some [simp]: "(nth_opt xs i = Some x) = (i < length xs \<and> xs ! i = x)"
  by (auto simp: nth_opt_def)

text \<open>\<open>v.resize(n)\<close> on a vector of bytes.\<close>

definition resize :: "nat \<Rightarrow> bytes \<Rightarrow> bytes" where
  "resize n b = take n b @ replicate (n - length b) 0"

lemma length_resize [simp]: "length (resize n b) = n"
  by (simp add: resize_def)

subsection \<open>Ordered maps (\<open>std::map\<close>)\<close>

type_synonym ('k, 'v) omap = "('k \<times> 'v) list"

text \<open>\<open>m[k] = v\<close>: replaces the value, or inserts the key at its place in the order.\<close>

fun om_set :: "'k::linorder \<Rightarrow> 'v \<Rightarrow> ('k, 'v) omap \<Rightarrow> ('k, 'v) omap" where
  "om_set k v [] = [(k, v)]"
| "om_set k v ((a, b) # m) =
     (if k < a then (k, v) # (a, b) # m
      else if k = a then (k, v) # m
      else (a, b) # om_set k v m)"

text \<open>\<open>m.find(k)\<close>; \<open>None\<close> is \<open>m.end()\<close>.\<close>

abbreviation om_find :: "('k, 'v) omap \<Rightarrow> 'k \<Rightarrow> 'v option" where
  "om_find m k \<equiv> map_of m k"

fun om_wf :: "('k::linorder, 'v) omap \<Rightarrow> bool" where
  "om_wf [] \<longleftrightarrow> True"
| "om_wf (p # m) \<longleftrightarrow> (\<forall>q \<in> set m. fst p < fst q) \<and> om_wf m"

lemma om_find_set [simp]: "om_find (om_set k v m) = (om_find m)(k \<mapsto> v)"
  by (induction m) (auto simp: fun_eq_iff)

lemma om_set_mem: "q \<in> set (om_set k v m) \<Longrightarrow> q = (k, v) \<or> q \<in> set m"
  by (induction m) (auto split: if_splits)

lemma om_wf_set [simp]: "om_wf m \<Longrightarrow> om_wf (om_set k v m)"
  by (induction m) (fastforce dest: om_set_mem)+

lemma om_set_twice [simp]: "om_set k v (om_set k w m) = om_set k v m"
  by (induction m) auto

lemma om_set_length: "om_find m k = None \<Longrightarrow> length (om_set k v m) = Suc (length m)"
  by (induction m) (auto split: if_splits)

lemma om_wf_distinct: "om_wf m \<Longrightarrow> distinct (map fst m)"
  by (induction m) fastforce+

lemma om_find_in: "om_wf m \<Longrightarrow> (k, v) \<in> set m \<longleftrightarrow> om_find m k = Some v"
  by (metis map_of_eq_Some_iff om_wf_distinct)

lemma om_find_None_less:
  "\<forall>q \<in> set (m :: ('k::linorder, 'v) omap). k < fst q \<Longrightarrow> om_find m k = None"
  by (induction m) auto

text \<open>A map is determined by its lookups.\<close>

lemma om_ext: "om_wf m \<Longrightarrow> om_wf m' \<Longrightarrow> om_find m = om_find m' \<Longrightarrow> m = m'"
proof (induction m arbitrary: m')
  case Nil
  then show ?case by (cases m') (auto simp: fun_eq_iff split: if_splits)
next
  case (Cons p m)
  obtain k v where p: "p = (k, v)" by (cases p)
  from Cons.prems(3) p have "om_find m' k = Some v" using fun_cong [of _ _ k] by fastforce
  then obtain k' v' n where m': "m' = (k', v') # n" by (cases m') auto
  have "om_find (p # m) k' = Some v'" using fun_cong [OF Cons.prems(3), of k'] m' by simp
  then have "(k', v') \<in> set (p # m)" using om_find_in [OF Cons.prems(1)] by blast
  moreover have "(k, v) \<in> set m'"
    using \<open>om_find m' k = Some v\<close> om_find_in [OF Cons.prems(2)] by blast
  ultimately have kk: "k = k'" using Cons.prems(1,2) p m' by fastforce
  with Cons.prems(3) p m' have "v = v'" by (metis map_of_Cons_code(2) option.inject)
  moreover have "om_find m = om_find n"
  proof
    fix x show "om_find m x = om_find n x"
    proof (cases "x = k")
      case True
      then show ?thesis using Cons.prems(1,2) p m' kk by (simp add: om_find_None_less)
    next
      case False
      then show ?thesis using fun_cong [OF Cons.prems(3), of x] p m' kk by simp
    qed
  qed
  ultimately show ?case using Cons.IH [of n] Cons.prems(1,2) p m' kk by simp
qed

end
