(* ===== verification/Core.thy ===== *)
theory Core
  imports Prelude
begin

text \<open>
  The library \<open>uavauth::core\<close> (\<open>core/Bytes.h\<close>, \<open>core/Encoding.h\<close>) is used by every source file
  but is not part of the repository, so it is a parameter of the model: the record
  \<open>core_lib\<close>, one field per function the sources call.  What the sources rely on is stated by
  three locales, each with the place that documents it:
  \<^item> \<open>core_bytes\<close>: big-endian integers and the 16-bit length prefix (\<open>tests/test_encoding.cc\<close>
    \<open>testByteHelpers\<close>, \<open>testLengthPrefixAndTranscript\<close>; the throwing reads are what
    \<open>unpackCredentials\<close> in \<open>protocol/Protocol.cc\<close> catches);
  \<^item> \<open>core_bits\<close>: packed bit vectors, MSB first (same test; \<open>fe/BchCodec.h\<close>);
  \<^item> \<open>core_tlv\<close>: the injective and canonical field encoding, a tag, a length and the value per field (\<open>README.md\<close> section 3,
    \<open>testRoundTrip\<close>, \<open>testInjectivity\<close>, \<open>testCanonicalRejection\<close>).
  \<open>Ref_Core\<close> gives a concrete library that satisfies all three.
\<close>

text \<open>The field identifiers the sources and the tests name (the type lives in \<open>core/Encoding.h\<close>).\<close>

datatype field_id =
    TID | TID_NEW | NONCE_1 | NONCE_2 | TIMESTAMP | EPK_A | EPK_B | MAC_TAG | CRED_PKG
  | AEAD_NONCE | SENDER_ID | RECEIVER_ID | HELPER_S | HELPER_SEED | SIGNATURE

text \<open>\<open>FieldMap\<close>, a \<open>std::map\<close> that the sources look up, extend and pass on.\<close>

type_synonym field_map = "field_id \<rightharpoonup> bytes"

record decoded_fields =
  d_suiteId :: u8
  d_typeTag :: u8
  d_fields :: field_map

record core_lib =
  u16be :: "u16 \<Rightarrow> bytes"
  u32be :: "u32 \<Rightarrow> bytes"
  readU16be :: "bytes \<Rightarrow> nat \<Rightarrow> u16 option"
  readU32be :: "bytes \<Rightarrow> nat \<Rightarrow> u32 option"
  lengthPrefixed :: "bytes \<Rightarrow> bytes option"
  fromString :: "string \<Rightarrow> bytes"
  kDomainHash :: u8
  kDomainMac :: u8
  kDomainKdf :: u8
  getBit :: "bytes \<Rightarrow> nat \<Rightarrow> bool"
  setBit :: "bytes \<Rightarrow> nat \<Rightarrow> bool \<Rightarrow> bytes"
  bytesForBits :: "nat \<Rightarrow> nat"
  xorBytes :: "bytes \<Rightarrow> bytes \<Rightarrow> bytes option"
  encodeFields :: "u8 \<Rightarrow> u8 \<Rightarrow> field_map \<Rightarrow> bytes option"
  decodeFields :: "bytes \<Rightarrow> decoded_fields option"

subsection \<open>Big-endian integers and length prefixes\<close>

locale core_bytes =
  fixes C :: core_lib
  assumes u16be: "u16be C v = [ucast (drop_bit 8 v), ucast v]"
    and u32be: "u32be C w = [ucast (drop_bit 24 w), ucast (drop_bit 16 w),
                             ucast (drop_bit 8 w), ucast w]"
    and readU16be: "readU16be C b off =
      (if off + 2 \<le> length b
       then Some (push_bit 8 (ucast (b ! off)) OR ucast (b ! (off + 1))) else None)"
    and readU32be: "readU32be C b off =
      (if off + 4 \<le> length b
       then Some (push_bit 24 (ucast (b ! off)) OR push_bit 16 (ucast (b ! (off + 1)))
                  OR push_bit 8 (ucast (b ! (off + 2))) OR ucast (b ! (off + 3)))
       else None)"
    and lengthPrefixed: "length b \<le> 65535 \<Longrightarrow>
      lengthPrefixed C b = Some (u16be C (of_nat (length b)) @ b)"
    and fromString: "fromString C s = map (of_char :: char \<Rightarrow> u8) s"
    and domains: "distinct [kDomainHash C, kDomainMac C, kDomainKdf C]"

text \<open>The bytes of a word, put together again.\<close>

lemma join_bytes16:
  "push_bit 8 (ucast (ucast (drop_bit 8 (v::u16)) :: u8)) OR ucast (ucast v :: u8) = v"
  by (rule bit_word_eqI) (auto simp: bit_simps)

lemma join_bytes32:
  "push_bit 24 (ucast (ucast (drop_bit 24 (w::u32)) :: u8))
   OR push_bit 16 (ucast (ucast (drop_bit 16 w) :: u8))
   OR push_bit 8 (ucast (ucast (drop_bit 8 w) :: u8)) OR ucast (ucast w :: u8) = w"
  (is "?l = w")
proof (rule bit_word_eqI)
  fix n assume "n < LENGTH(32)"
  then consider "n < 8" | "8 \<le> n" "n < 16" | "16 \<le> n" "n < 24" | "24 \<le> n" "n < 32" by fastforce
  then show "bit ?l n = bit w n"
    by cases (auto simp: bit_simps)
qed

lemma unat_of_nat_u16: "n \<le> 65535 \<Longrightarrow> unat (of_nat n :: u16) = n"
  by (simp add: unat_of_nat take_bit_nat_eq_self)

context core_bytes
begin

lemma length_u16be [simp]: "length (u16be C v) = 2"
  by (simp add: u16be)

lemma length_u32be [simp]: "length (u32be C v) = 4"
  by (simp add: u32be)

lemma read_u16be: "readU16be C (xs @ u16be C v @ ys) (length xs) = Some v"
  by (simp add: readU16be u16be nth_append join_bytes16)

lemma read_u16be_0: "readU16be C (u16be C v @ ys) 0 = Some v"
  using read_u16be [of "[]" v ys] by simp

lemma read_u16be_alone: "readU16be C (u16be C v) 0 = Some v"
  using read_u16be [of "[]" v "[]"] by simp

lemma read_u32be_alone: "readU32be C (u32be C v) 0 = Some v"
  by (simp add: readU32be u32be join_bytes32)

lemma readU16be_Some: "readU16be C b off = Some v \<Longrightarrow> off + 2 \<le> length b"
  by (auto simp: readU16be split: if_splits)

lemma u16be_inject: "u16be C v = u16be C w \<longleftrightarrow> v = w"
  by (metis option.inject read_u16be_alone)

lemma u32be_inject: "u32be C v = u32be C w \<longleftrightarrow> v = w"
  by (metis option.inject read_u32be_alone)

text \<open>A two-byte string is the encoding of what is read from it.\<close>

lemma u16be_read: "length b = 2 \<Longrightarrow> readU16be C b 0 = Some v \<Longrightarrow> u16be C v = b"
proof -
  assume "length b = 2" and r: "readU16be C b 0 = Some v"
  then obtain x y where b: "b = [x, y]" by (auto simp: length_Suc_conv numeral_2_eq_2)
  with r have v: "v = push_bit 8 (ucast x) OR ucast y" by (simp add: readU16be)
  have "ucast (drop_bit 8 v) = x"
    unfolding v by (rule bit_word_eqI) (auto simp: bit_simps dest: bit_imp_le_length)
  moreover have "ucast v = y" unfolding v by (rule bit_word_eqI) (auto simp: bit_simps)
  ultimately show ?thesis using b by (simp add: u16be)
qed

text \<open>Length prefixes make concatenation unambiguous.\<close>

lemma lengthPrefixed_append_inject:
  assumes "lengthPrefixed C a = Some pa" "lengthPrefixed C b = Some pb"
    and "length a \<le> 65535" "length b \<le> 65535" and eq: "pa @ xs = pb @ ys"
  shows "a = b \<and> xs = ys"
proof -
  have e: "u16be C (of_nat (length a)) @ a @ xs = u16be C (of_nat (length b)) @ b @ ys"
    using assms by (auto simp: lengthPrefixed)
  then have "u16be C (of_nat (length a)) = u16be C (of_nat (length b))" and r: "a @ xs = b @ ys"
    using append_eq_append_conv [of "u16be C (of_nat (length a))" "u16be C (of_nat (length b))"]
    by simp_all
  then have "unat (of_nat (length a) :: u16) = unat (of_nat (length b) :: u16)"
    by (simp add: u16be_inject)
  then have "length a = length b" using assms by (simp only: unat_of_nat_u16)
  with r show ?thesis by simp
qed

end

subsection \<open>Packed bit vectors\<close>

locale core_bits =
  fixes C :: core_lib
  assumes getBit: "i < 8 * length b \<Longrightarrow> getBit C b i = bit (b ! (i div 8)) (7 - i mod 8)"
    and setBit: "i < 8 * length b \<Longrightarrow> setBit C b i v =
      b[i div 8 := (if v then set_bit (7 - i mod 8) (b ! (i div 8))
                    else unset_bit (7 - i mod 8) (b ! (i div 8)))]"
    and bytesForBits: "bytesForBits C n = (n + 7) div 8"
    and xorBytes: "xorBytes C a b = (if length a = length b then Some (map2 (XOR) a b) else None)"

lemma bit_index_unique: "(i::nat) div 8 = j div 8 \<Longrightarrow> 7 - i mod 8 = 7 - j mod 8 \<Longrightarrow> i = j"
proof -
  assume "i div 8 = j div 8" and "7 - i mod 8 = 7 - j mod 8"
  moreover from this(2) have "i mod 8 = j mod 8"
    using mod_less_divisor [of 8 i] mod_less_divisor [of 8 j] by linarith
  ultimately show ?thesis by (metis div_mult_mod_eq)
qed

context core_bits
begin

lemma length_setBit [simp]: "i < 8 * length b \<Longrightarrow> length (setBit C b i v) = length b"
  by (simp add: setBit)

lemma getBit_setBit:
  assumes "i < 8 * length b" "j < 8 * length b"
  shows "getBit C (setBit C b i v) j = (if i = j then v else getBit C b j)"
proof (cases "i div 8 = j div 8")
  case True
  have "i div 8 < length b" using assms(1) by simp
  with True assms show ?thesis
    using bit_index_unique [OF True]
    by (auto simp: getBit setBit bit_set_bit_iff bit_unset_bit_iff)
next
  case False
  with assms show ?thesis by (auto simp: getBit setBit)
qed

text \<open>A loop that sets the bits \<open>base .. base + n - 1\<close> one by one.\<close>

lemma length_fold_setBit [simp]:
  "base + n \<le> 8 * length w \<Longrightarrow>
   length (fold (\<lambda>i w. setBit C w (base + i) (f i)) [0..<n] w) = length w"
  by (induction n) simp_all

lemma getBit_fold_setBit:
  "base + n \<le> 8 * length w \<Longrightarrow> j < 8 * length w \<Longrightarrow>
   getBit C (fold (\<lambda>i w. setBit C w (base + i) (f i)) [0..<n] w) j =
     (if base \<le> j \<and> j < base + n then f (j - base) else getBit C w j)"
  by (induction n) (auto simp: getBit_setBit less_Suc_eq)

lemma fold_setBit_0 [simp]:
  "n \<le> 8 * length w \<Longrightarrow> length (fold (\<lambda>i w. setBit C w i (f i)) [0..<n] w) = length w"
  "n \<le> 8 * length w \<Longrightarrow> j < 8 * length w \<Longrightarrow>
   getBit C (fold (\<lambda>i w. setBit C w i (f i)) [0..<n] w) j = (if j < n then f j else getBit C w j)"
  using length_fold_setBit [of 0 n w f] getBit_fold_setBit [of 0 n w j f] by simp_all

lemma getBit_zeros [simp]: "i < 8 * n \<Longrightarrow> \<not> getBit C (replicate n 0) i"
  by (simp add: getBit)

text \<open>A byte string is determined by its bits.\<close>

lemma getBit_ext:
  assumes "length a = length b" and "\<And>i. i < 8 * length a \<Longrightarrow> getBit C a i = getBit C b i"
  shows "a = b"
proof (rule nth_equalityI)
  fix k assume k: "k < length a"
  show "a ! k = b ! k"
  proof (rule bit_word_eqI)
    fix n assume "n < LENGTH(8)"
    then obtain m where m: "n = 7 - m" "m \<le> 7" by (intro that [of "7 - n"]) simp_all
    have i: "8 * k + m < 8 * length a" using k m by linarith
    with assms(2) [OF i] assms(1) m show "bit (a ! k) n = bit (b ! k) n"
      by (simp add: getBit)
  qed
qed (fact assms(1))

lemma getBit_xorBytes:
  assumes "xorBytes C a b = Some c" and "i < 8 * length a"
  shows "getBit C c i = (getBit C a i \<noteq> getBit C b i)"
  using assms by (auto simp: xorBytes getBit bit_xor_iff split: if_splits)

lemma length_xorBytes: "xorBytes C a b = Some c \<Longrightarrow> length c = length a \<and> length b = length a"
  by (auto simp: xorBytes split: if_splits)

lemma xorBytes_Some: "length a = length b \<Longrightarrow> \<exists>c. xorBytes C a b = Some c"
  by (simp add: xorBytes)

text \<open>Exclusive or is undone by repeating it.\<close>

lemma xorBytes_cancel:
  assumes "xorBytes C a b = Some c"
  shows "xorBytes C c b = Some a" "xorBytes C a c = Some b"
proof -
  have l: "length a = length b" and c: "c = map2 (XOR) a b"
    using assms by (auto simp: xorBytes split: if_splits)
  have "map2 (XOR) c b = a"
    using l by (auto intro!: nth_equalityI simp: c xor.assoc)
  moreover have "map2 (XOR) a c = b"
    using l by (auto intro!: nth_equalityI simp: c xor.assoc [symmetric])
  ultimately show "xorBytes C c b = Some a" "xorBytes C a c = Some b"
    using l c by (simp_all add: xorBytes)
qed

lemma bytesForBits_bound: "n \<le> 8 * bytesForBits C n"
  by (simp add: bytesForBits)

end

subsection \<open>The field encoding\<close>

definition fields_fit :: "field_map \<Rightarrow> bool" where
  "fields_fit m \<longleftrightarrow> (\<forall>v \<in> ran m. length v \<le> 65535)"

locale core_tlv =
  fixes C :: core_lib
  assumes encode_fits: "fields_fit m \<Longrightarrow> \<exists>b. encodeFields C s t m = Some b"
    and decode_encode: "encodeFields C s t m = Some b \<Longrightarrow>
      decodeFields C b = Some \<lparr>d_suiteId = s, d_typeTag = t, d_fields = m\<rparr>"
    and encode_decode: "decodeFields C b = Some d \<Longrightarrow>
      encodeFields C (d_suiteId d) (d_typeTag d) (d_fields d) = Some b"
    and encode_nonempty: "encodeFields C s t m \<noteq> Some []"
    and encode_size: "encodeFields C s t m = Some b \<Longrightarrow> (\<And>v. v \<in> ran m \<Longrightarrow> length v \<le> 64) \<Longrightarrow>
      length b \<le> 4096"
begin

lemma encode_inject:
  "encodeFields C s t m = Some b \<Longrightarrow> encodeFields C s' t' m' = Some b \<Longrightarrow>
   s = s' \<and> t = t' \<and> m = m'"
  by (fastforce dest!: decode_encode)

end

text \<open>The whole library.\<close>

locale core_laws = core_bytes C + core_bits C + core_tlv C for C

end
