(* ===== verification/Ref_Core.thy ===== *)
theory Ref_Core
  imports Core
begin

text \<open>
  A concrete \<open>uavauth::core\<close>: the interface of \<open>Core\<close> interpreted on computable functions, so
  that the hypotheses of the properties are known to be satisfiable together and the witnesses
  can be evaluated.  Fields are written in a fixed order as tag, 16-bit length and value.
\<close>

definition all_fields :: "field_id list" where
  "all_fields = [TID, TID_NEW, NONCE_1, NONCE_2, TIMESTAMP, EPK_A, EPK_B, MAC_TAG, CRED_PKG,
     AEAD_NONCE, SENDER_ID, RECEIVER_ID, HELPER_S, HELPER_SEED, SIGNATURE]"

primrec ref_tag :: "field_id \<Rightarrow> u8" where
  "ref_tag TID = 1" | "ref_tag TID_NEW = 2" | "ref_tag NONCE_1 = 3" | "ref_tag NONCE_2 = 4"
| "ref_tag TIMESTAMP = 5" | "ref_tag EPK_A = 6" | "ref_tag EPK_B = 7" | "ref_tag MAC_TAG = 8"
| "ref_tag CRED_PKG = 9" | "ref_tag AEAD_NONCE = 10" | "ref_tag SENDER_ID = 11"
| "ref_tag RECEIVER_ID = 12" | "ref_tag HELPER_S = 13" | "ref_tag HELPER_SEED = 14"
| "ref_tag SIGNATURE = 15"

lemma all_fields_distinct: "distinct all_fields"
  by (simp add: all_fields_def)

lemma all_fields_all: "f \<in> set all_fields"
  by (cases f) (simp_all add: all_fields_def)

lemma ref_tag_inject: "ref_tag f = ref_tag g \<longleftrightarrow> f = g"
  by (cases f; cases g) simp_all

definition ref_u16 :: "u16 \<Rightarrow> bytes" where
  "ref_u16 v = [ucast (drop_bit 8 v), ucast v]"

definition ref_join :: "u8 \<Rightarrow> u8 \<Rightarrow> u16" where
  "ref_join h l = push_bit 8 (ucast h) OR ucast l"

definition ref_len :: "bytes \<Rightarrow> bytes option" where
  "ref_len b = (if length b \<le> 65535 then Some (ref_u16 (of_nat (length b)) @ b) else None)"

fun ref_enc :: "field_id list \<Rightarrow> field_map \<Rightarrow> bytes option" where
  "ref_enc [] m = Some []"
| "ref_enc (f # fs) m =
     (case m f of
        None \<Rightarrow> ref_enc fs m
      | Some v \<Rightarrow> do {
          lv \<leftarrow> ref_len v;
          r \<leftarrow> ref_enc fs m;
          Some (ref_tag f # lv @ r) })"

fun ref_dec :: "field_id list \<Rightarrow> bytes \<Rightarrow> field_map option" where
  "ref_dec [] b = (if b = [] then Some Map.empty else None)"
| "ref_dec (f # fs) b =
     (if b \<noteq> [] \<and> hd b = ref_tag f then
        (case tl b of
           h # l # r \<Rightarrow>
             (let n = unat (ref_join h l) in
              if n \<le> length r
              then map_option (\<lambda>m. m(f \<mapsto> take n r)) (ref_dec fs (drop n r))
              else None)
         | _ \<Rightarrow> None)
      else ref_dec fs b)"

lemma ref_join_u16: "ref_join (ucast (drop_bit 8 v)) (ucast v) = v"
  by (simp add: ref_join_def join_bytes16)

lemma ref_u16_join: "ref_u16 (ref_join h l) = [h, l]"
proof -
  have "ucast (drop_bit 8 (ref_join h l)) = h"
    unfolding ref_join_def by (rule bit_word_eqI) (auto simp: bit_simps dest: bit_imp_le_length)
  moreover have "ucast (ref_join h l) = l"
    unfolding ref_join_def by (rule bit_word_eqI) (auto simp: bit_simps)
  ultimately show ?thesis by (simp add: ref_u16_def)
qed

lemma ref_enc_head: "ref_enc fs m = Some (x # xs) \<Longrightarrow> \<exists>g \<in> set fs. x = ref_tag g"
  by (induction fs) (auto split: option.splits simp: Option.bind_eq_Some_conv)

lemma ref_dec_enc:
  "ref_enc fs m = Some b \<Longrightarrow> distinct fs \<Longrightarrow> ref_dec fs b = Some (m |` set fs)"
proof (induction fs arbitrary: b)
  case (Cons f fs)
  show ?case
  proof (cases "m f")
    case None
    with Cons.prems have e: "ref_enc fs m = Some b" by simp
    have "b \<noteq> [] \<Longrightarrow> hd b \<noteq> ref_tag f"
      using ref_enc_head [of fs m "hd b" "tl b"] e Cons.prems(2) by (auto simp: ref_tag_inject)
    moreover have "m |` set (f # fs) = m |` set fs"
      using None by (auto simp: restrict_map_def fun_eq_iff)
    ultimately show ?thesis using Cons.IH [OF e] Cons.prems(2) by auto
  next
    case (Some v)
    with Cons.prems obtain r where r: "ref_enc fs m = Some r" and l: "length v \<le> 65535"
      and b: "b = ref_tag f # ref_u16 (of_nat (length v)) @ v @ r"
      by (auto simp: Option.bind_eq_Some_conv ref_len_def split: if_splits)
    have "m |` set (f # fs) = (m |` set fs)(f \<mapsto> v)"
      using Some by (auto simp: restrict_map_def fun_eq_iff)
    then show ?thesis using Cons.IH [OF r] Cons.prems(2) b l
      by (simp add: ref_u16_def ref_join_u16 unat_of_nat_u16 fun_upd_def)
  qed
qed simp

lemma ref_enc_irrelevant: "f \<notin> set fs \<Longrightarrow> ref_enc fs (m(f := v)) = ref_enc fs m"
  by (induction fs) (auto split: option.splits)

lemma ref_dec_dom: "ref_dec fs b = Some m \<Longrightarrow> dom m \<subseteq> set fs"
  by (induction fs arbitrary: b m)
    (fastforce split: if_splits list.splits simp: Let_def)+

lemma ref_enc_dec:
  "ref_dec fs b = Some m \<Longrightarrow> distinct fs \<Longrightarrow> ref_enc fs m = Some b"
proof (induction fs arbitrary: b m)
  case (Cons f fs)
  show ?case
  proof (cases "b \<noteq> [] \<and> hd b = ref_tag f")
    case True
    with Cons.prems(1) obtain h l r m' where tl: "tl b = h # l # r"
      and n: "unat (ref_join h l) \<le> length r"
      and m': "ref_dec fs (drop (unat (ref_join h l)) r) = Some m'"
      and m: "m = m'(f \<mapsto> take (unat (ref_join h l)) r)"
      by (auto simp: Let_def split: list.splits if_splits)
    have b: "b = ref_tag f # h # l # r" using True tl by (cases b) auto
    have "unat (ref_join h l) < 2 ^ LENGTH(16)" by (rule unsigned_less)
    then have "unat (ref_join h l) \<le> 65535" by simp
    moreover have "ref_enc fs m = Some (drop (unat (ref_join h l)) r)"
      using Cons.IH [OF m'] Cons.prems(2) ref_enc_irrelevant unfolding m by force
    moreover have "m f = Some (take (unat (ref_join h l)) r)" unfolding m by simp
    ultimately show ?thesis using b n ref_u16_join [of h l]
      by (simp add: ref_len_def)
  next
    case False
    with Cons.prems(1) have d: "ref_dec fs b = Some m" by (simp split: if_splits)
    with ref_dec_dom [OF d] Cons.prems(2) have "m f = None" by auto
    then show ?thesis using Cons.IH [OF d] Cons.prems(2) by simp
  qed
qed (simp split: if_splits)

lemma ref_enc_fits: "fields_fit m \<Longrightarrow> \<exists>b. ref_enc fs m = Some b"
  by (induction fs) (auto split: option.splits simp: ref_len_def fields_fit_def intro: ranI)

lemma ref_enc_size:
  "ref_enc fs m = Some b \<Longrightarrow> (\<And>v. v \<in> ran m \<Longrightarrow> length v \<le> 64) \<Longrightarrow> length b \<le> 67 * length fs"
proof (induction fs arbitrary: b)
  case (Cons f fs)
  show ?case
  proof (cases "m f")
    case (Some v)
    with Cons.prems obtain lv r where r: "ref_len v = Some lv" "ref_enc fs m = Some r" "b = ref_tag f # lv @ r"
      by (auto simp: Option.bind_eq_Some_conv)
    have "length v \<le> 64" using Cons.prems(2) Some by (auto intro: ranI)
    then have "length lv \<le> 66" using r(1) by (auto simp: ref_len_def ref_u16_def split: if_splits)
    moreover have "length r \<le> 67 * length fs" using Cons.IH [OF r(2) Cons.prems(2)] .
    ultimately show ?thesis using r(3) by simp
  qed (use Cons in force)
qed simp

definition ref_core :: core_lib where
  "ref_core = \<lparr>
     u16be = ref_u16,
     u32be = (\<lambda>w. [ucast (drop_bit 24 w), ucast (drop_bit 16 w), ucast (drop_bit 8 w), ucast w]),
     readU16be = (\<lambda>b off. if off + 2 \<le> length b
       then Some (push_bit 8 (ucast (b ! off)) OR ucast (b ! (off + 1))) else None),
     readU32be = (\<lambda>b off. if off + 4 \<le> length b
       then Some (push_bit 24 (ucast (b ! off)) OR push_bit 16 (ucast (b ! (off + 1)))
                  OR push_bit 8 (ucast (b ! (off + 2))) OR ucast (b ! (off + 3))) else None),
     lengthPrefixed = ref_len,
     fromString = map of_char,
     kDomainHash = 1, kDomainMac = 2, kDomainKdf = 3,
     getBit = (\<lambda>b i. bit (b ! (i div 8)) (7 - i mod 8)),
     setBit = (\<lambda>b i v. b[i div 8 := (if v then set_bit (7 - i mod 8) (b ! (i div 8))
                                     else unset_bit (7 - i mod 8) (b ! (i div 8)))]),
     bytesForBits = (\<lambda>n. (n + 7) div 8),
     xorBytes = (\<lambda>a b. if length a = length b then Some (map2 (XOR) a b) else None),
     encodeFields = (\<lambda>s t m. map_option (\<lambda>b. s # t # b) (ref_enc all_fields m)),
     decodeFields = (\<lambda>b. case b of
        s # t # r \<Rightarrow> map_option (\<lambda>m. \<lparr>d_suiteId = s, d_typeTag = t, d_fields = m\<rparr>)
                      (ref_dec all_fields r)
      | _ \<Rightarrow> None) \<rparr>"

lemma ref_core_laws: "core_laws ref_core"
proof -
  have all: "m |` set all_fields = m" for m :: field_map
    using all_fields_all by (simp add: restrict_map_def fun_eq_iff)
  have "core_bytes ref_core"
    by unfold_locales (simp_all add: ref_core_def ref_u16_def ref_len_def)
  moreover have "core_bits ref_core"
    by unfold_locales (simp_all add: ref_core_def)
  moreover have "core_tlv ref_core"
  proof
    show "\<exists>b. encodeFields ref_core s t m = Some b" if "fields_fit m" for s t m
      using ref_enc_fits [OF that, of all_fields] by (auto simp: ref_core_def)
    show "decodeFields ref_core b = Some \<lparr>d_suiteId = s, d_typeTag = t, d_fields = m\<rparr>"
      if "encodeFields ref_core s t m = Some b" for s t m b
      using that ref_dec_enc [OF _ all_fields_distinct] all by (auto simp: ref_core_def)
    show "encodeFields ref_core (d_suiteId d) (d_typeTag d) (d_fields d) = Some b"
      if "decodeFields ref_core b = Some d" for b d
      using that ref_enc_dec [OF _ all_fields_distinct]
      by (auto simp: ref_core_def split: list.splits)
    show "encodeFields ref_core s t m \<noteq> Some []" for s t m
      by (simp add: ref_core_def)
    show "length b \<le> 4096" if "encodeFields ref_core s t m = Some b"
      "\<And>v. v \<in> ran m \<Longrightarrow> length v \<le> 64" for s t m b
      using that ref_enc_size [of all_fields m] by (fastforce simp: ref_core_def all_fields_def)
  qed
  ultimately show ?thesis by (rule core_laws.intro)
qed

interpretation ref: core_laws ref_core
  by (rule ref_core_laws)

lemmas ref_core_eval =
  ref_core_def ref_u16_def ref_join_def ref_len_def all_fields_def

end
