(* ===== verification/Wire.thy ===== *)
theory Wire
  imports Ref_Core
begin

text \<open>
  \<open>protocol/Wire.h\<close>, \<open>protocol/Wire.cc\<close>: the message types and their tags, the abort
  reasons, the transport-agnostic message and its canonical byte form, and the fixed-width
  identity and timestamp fields.  Lemmas: the tag table is injective and \<open>messageTypeFromTag\<close>
  inverts it, messages and identities round-trip, and a MAC input determines suite, type and
  fields (the domain separation of the transcript).
\<close>

subsection \<open>Message types\<close>

datatype message_type =
    ENROLL_REQUEST
  | ENROLL_CHALLENGE
  | ENROLL_RESPONSE
  | ENROLL_COMMIT
  | P2_M1_AUTH_REQUEST
  | P2_M2_GS_RESPONSE
  | P2_M3_UAV_CONFIRM
  | P2_M4_GS_CONFIRM
  | P3_P1_PEER_REQUEST
  | P3_P2_PEER_RESPONSE
  | P3_P3_PEER_COMPLETE
  | B1_M1_AUTH_REQUEST
  | B1_M2_GS_RESPONSE
  | B1_M3_UAV_CONFIRM
  | B1_M4_GS_CONFIRM
  | CTRL_ABORT

text \<open>The enumerators' values; each phase has its own hundred.\<close>

primrec messageTypeValue :: "message_type \<Rightarrow> int" where
  "messageTypeValue ENROLL_REQUEST = 100"
| "messageTypeValue ENROLL_CHALLENGE = 101"
| "messageTypeValue ENROLL_RESPONSE = 102"
| "messageTypeValue ENROLL_COMMIT = 103"
| "messageTypeValue P2_M1_AUTH_REQUEST = 200"
| "messageTypeValue P2_M2_GS_RESPONSE = 201"
| "messageTypeValue P2_M3_UAV_CONFIRM = 202"
| "messageTypeValue P2_M4_GS_CONFIRM = 203"
| "messageTypeValue P3_P1_PEER_REQUEST = 300"
| "messageTypeValue P3_P2_PEER_RESPONSE = 301"
| "messageTypeValue P3_P3_PEER_COMPLETE = 302"
| "messageTypeValue B1_M1_AUTH_REQUEST = 400"
| "messageTypeValue B1_M2_GS_RESPONSE = 401"
| "messageTypeValue B1_M3_UAV_CONFIRM = 402"
| "messageTypeValue B1_M4_GS_CONFIRM = 403"
| "messageTypeValue CTRL_ABORT = 900"

primrec messageTypeName :: "message_type \<Rightarrow> string" where
  "messageTypeName ENROLL_REQUEST = ''ENROLL_REQUEST''"
| "messageTypeName ENROLL_CHALLENGE = ''ENROLL_CHALLENGE''"
| "messageTypeName ENROLL_RESPONSE = ''ENROLL_RESPONSE''"
| "messageTypeName ENROLL_COMMIT = ''ENROLL_COMMIT''"
| "messageTypeName P2_M1_AUTH_REQUEST = ''P2_M1_AUTH_REQUEST''"
| "messageTypeName P2_M2_GS_RESPONSE = ''P2_M2_GS_RESPONSE''"
| "messageTypeName P2_M3_UAV_CONFIRM = ''P2_M3_UAV_CONFIRM''"
| "messageTypeName P2_M4_GS_CONFIRM = ''P2_M4_GS_CONFIRM''"
| "messageTypeName P3_P1_PEER_REQUEST = ''P3_P1_PEER_REQUEST''"
| "messageTypeName P3_P2_PEER_RESPONSE = ''P3_P2_PEER_RESPONSE''"
| "messageTypeName P3_P3_PEER_COMPLETE = ''P3_P3_PEER_COMPLETE''"
| "messageTypeName B1_M1_AUTH_REQUEST = ''B1_M1_AUTH_REQUEST''"
| "messageTypeName B1_M2_GS_RESPONSE = ''B1_M2_GS_RESPONSE''"
| "messageTypeName B1_M3_UAV_CONFIRM = ''B1_M3_UAV_CONFIRM''"
| "messageTypeName B1_M4_GS_CONFIRM = ''B1_M4_GS_CONFIRM''"
| "messageTypeName CTRL_ABORT = ''CTRL_ABORT''"

primrec messageLabel :: "message_type \<Rightarrow> string" where
  "messageLabel ENROLL_REQUEST = ''e1''"
| "messageLabel ENROLL_CHALLENGE = ''e2''"
| "messageLabel ENROLL_RESPONSE = ''e3''"
| "messageLabel ENROLL_COMMIT = ''e4''"
| "messageLabel P2_M1_AUTH_REQUEST = ''m1''"
| "messageLabel P2_M2_GS_RESPONSE = ''m2''"
| "messageLabel P2_M3_UAV_CONFIRM = ''m3''"
| "messageLabel P2_M4_GS_CONFIRM = ''m4''"
| "messageLabel P3_P1_PEER_REQUEST = ''p1''"
| "messageLabel P3_P2_PEER_RESPONSE = ''p2''"
| "messageLabel P3_P3_PEER_COMPLETE = ''p3''"
| "messageLabel B1_M1_AUTH_REQUEST = ''b1''"
| "messageLabel B1_M2_GS_RESPONSE = ''b2''"
| "messageLabel B1_M3_UAV_CONFIRM = ''b3''"
| "messageLabel B1_M4_GS_CONFIRM = ''b4''"
| "messageLabel CTRL_ABORT = ''abort''"

text \<open>The enumeration is closed, so the \<open>0xFF\<close> after the C++ \<open>switch\<close> is never reached.\<close>

primrec macTypeTag :: "message_type \<Rightarrow> u8" where
  "macTypeTag ENROLL_REQUEST = 0x1"
| "macTypeTag ENROLL_CHALLENGE = 0x2"
| "macTypeTag ENROLL_RESPONSE = 0x3"
| "macTypeTag ENROLL_COMMIT = 0x4"
| "macTypeTag P2_M1_AUTH_REQUEST = 0x11"
| "macTypeTag P2_M2_GS_RESPONSE = 0x12"
| "macTypeTag P2_M3_UAV_CONFIRM = 0x13"
| "macTypeTag P2_M4_GS_CONFIRM = 0x14"
| "macTypeTag P3_P1_PEER_REQUEST = 0x21"
| "macTypeTag P3_P2_PEER_RESPONSE = 0x22"
| "macTypeTag P3_P3_PEER_COMPLETE = 0x23"
| "macTypeTag B1_M1_AUTH_REQUEST = 0x31"
| "macTypeTag B1_M2_GS_RESPONSE = 0x32"
| "macTypeTag B1_M3_UAV_CONFIRM = 0x33"
| "macTypeTag B1_M4_GS_CONFIRM = 0x34"
| "macTypeTag CTRL_ABORT = 0x7f"

definition messageTypeFromTag :: "u8 \<Rightarrow> message_type option" where
  "messageTypeFromTag tag =
     (if tag = 0x1 then Some ENROLL_REQUEST
    else if tag = 0x2 then Some ENROLL_CHALLENGE
    else if tag = 0x3 then Some ENROLL_RESPONSE
    else if tag = 0x4 then Some ENROLL_COMMIT
    else if tag = 0x11 then Some P2_M1_AUTH_REQUEST
    else if tag = 0x12 then Some P2_M2_GS_RESPONSE
    else if tag = 0x13 then Some P2_M3_UAV_CONFIRM
    else if tag = 0x14 then Some P2_M4_GS_CONFIRM
    else if tag = 0x21 then Some P3_P1_PEER_REQUEST
    else if tag = 0x22 then Some P3_P2_PEER_RESPONSE
    else if tag = 0x23 then Some P3_P3_PEER_COMPLETE
    else if tag = 0x31 then Some B1_M1_AUTH_REQUEST
    else if tag = 0x32 then Some B1_M2_GS_RESPONSE
    else if tag = 0x33 then Some B1_M3_UAV_CONFIRM
    else if tag = 0x34 then Some B1_M4_GS_CONFIRM
     else None)"

subsection \<open>Abort reasons\<close>

text \<open>\<open>NoAbort\<close> is \<open>AbortReason::None\<close>.\<close>

datatype abort_reason =
    NoAbort
  | UnknownIdentity
  | StaleTimestamp
  | ReplayedNonce
  | MacVerifyFailed
  | AeadOpenFailed
  | MissingField
  | MalformedField
  | DhFailed
  | FuzzyExtractorFailed
  | NoSuchPeer
  | NotAuthenticated
  | UnexpectedMessage

primrec abortReasonName :: "abort_reason \<Rightarrow> string" where
  "abortReasonName NoAbort = ''none''"
| "abortReasonName UnknownIdentity = ''unknown_identity''"
| "abortReasonName StaleTimestamp = ''stale_timestamp''"
| "abortReasonName ReplayedNonce = ''replayed_nonce''"
| "abortReasonName MacVerifyFailed = ''mac_verify_failed''"
| "abortReasonName AeadOpenFailed = ''aead_open_failed''"
| "abortReasonName MissingField = ''missing_field''"
| "abortReasonName MalformedField = ''malformed_field''"
| "abortReasonName DhFailed = ''dh_failed''"
| "abortReasonName FuzzyExtractorFailed = ''fuzzy_extractor_failed''"
| "abortReasonName NoSuchPeer = ''no_such_peer''"
| "abortReasonName NotAuthenticated = ''not_authenticated''"
| "abortReasonName UnexpectedMessage = ''unexpected_message''"

subsection \<open>Messages\<close>

record message =
  m_type :: message_type
  m_suiteId :: u8
  m_senderId :: int
  m_receiverId :: int
  m_sessionId :: u32
  m_fields :: field_map

text \<open>A message as the default member initialisers leave it.\<close>

definition emptyMessage :: message where
  "emptyMessage = \<lparr>m_type = CTRL_ABORT, m_suiteId = 0, m_senderId = - 1, m_receiverId = - 1,
     m_sessionId = 0, m_fields = Map.empty\<rparr>"

definition msg_has :: "message \<Rightarrow> field_id \<Rightarrow> bool" where
  "msg_has m i \<longleftrightarrow> m_fields m i \<noteq> None"

definition msg_get :: "message \<Rightarrow> field_id \<Rightarrow> bytes option" where
  "msg_get m i = m_fields m i"

definition msg_getOr :: "message \<Rightarrow> field_id \<Rightarrow> bytes \<Rightarrow> bytes" where
  "msg_getOr m i fallback = (case m_fields m i of None \<Rightarrow> fallback | Some v \<Rightarrow> v)"

definition msg_set :: "field_id \<Rightarrow> bytes \<Rightarrow> message \<Rightarrow> message" where
  "msg_set i v m = m\<lparr>m_fields := (m_fields m)(i \<mapsto> v)\<rparr>"

definition msg_encode :: "core_lib \<Rightarrow> message \<Rightarrow> bytes option" where
  "msg_encode C m = encodeFields C (m_suiteId m) (macTypeTag (m_type m)) (m_fields m)"

definition msg_wireBytes :: "core_lib \<Rightarrow> message \<Rightarrow> nat option" where
  "msg_wireBytes C m = map_option length (msg_encode C m)"

definition macInput :: "core_lib \<Rightarrow> u8 \<Rightarrow> message_type \<Rightarrow> field_map \<Rightarrow> bytes option" where
  "macInput C suite t fs = encodeFields C suite (macTypeTag t) fs"

definition decodeMessage :: "core_lib \<Rightarrow> bytes \<Rightarrow> int \<Rightarrow> int \<Rightarrow> message option" where
  "decodeMessage C buf sender receiver = do {
     d \<leftarrow> decodeFields C buf;
     t \<leftarrow> messageTypeFromTag (d_typeTag d);
     Some (emptyMessage\<lparr>m_type := t, m_suiteId := d_suiteId d, m_senderId := sender,
             m_receiverId := receiver, m_fields := d_fields d\<rparr>) }"

subsection \<open>Identities and timestamps\<close>

text \<open>\<open>static_cast<uint16_t>\<close> of a non-negative \<open>int\<close> keeps the low 16 bits.\<close>

definition encodeId :: "core_lib \<Rightarrow> int \<Rightarrow> bytes" where
  "encodeId C i = u16be C (if i < 0 then 0xFFFF else word_of_int i)"

definition decodeId :: "core_lib \<Rightarrow> bytes \<Rightarrow> int option" where
  "decodeId C b = do {
     require (length b = 2);
     v \<leftarrow> readU16be C b 0;
     Some (if v = 0xFFFF then - 1 else uint v) }"

definition encodeTimestamp :: "core_lib \<Rightarrow> u32 \<Rightarrow> bytes" where
  "encodeTimestamp C ms = u32be C ms"

definition decodeTimestamp :: "core_lib \<Rightarrow> bytes \<Rightarrow> u32 option" where
  "decodeTimestamp C b = do {
     require (length b = 4);
     readU32be C b 0 }"

subsection \<open>Lemmas\<close>

lemma msg_get_has: "msg_has m i \<longleftrightarrow> (\<exists>v. msg_get m i = Some v)"
  by (simp add: msg_has_def msg_get_def)

lemma msg_get_set [simp]: "msg_get (msg_set i v m) j = (if i = j then Some v else msg_get m j)"
  by (simp add: msg_get_def msg_set_def)

lemma macTypeTag_inject: "macTypeTag t = macTypeTag u \<longleftrightarrow> t = u"
  by (cases t; cases u) simp_all

lemma messageTypeFromTag_macTypeTag:
  "messageTypeFromTag (macTypeTag t) = (if t = CTRL_ABORT then None else Some t)"
  by (cases t) (simp_all add: messageTypeFromTag_def)

lemma messageTypeFromTag_Some: "messageTypeFromTag g = Some t \<Longrightarrow> macTypeTag t = g"
  by (auto simp: messageTypeFromTag_def split: if_splits)

lemma messageTypeFromTag_not_abort: "messageTypeFromTag g \<noteq> Some CTRL_ABORT"
  by (auto simp: messageTypeFromTag_def)

lemma uint_16_below: "(v::u16) \<noteq> 0xFFFF \<Longrightarrow> uint v < 65535"
proof -
  assume "v \<noteq> 0xFFFF"
  then have "uint v \<noteq> uint (0xFFFF :: u16)" by (simp only: word_uint_eq_iff simp_thms)
  moreover have "uint v < 2 ^ LENGTH(16)" by (rule unsigned_less)
  ultimately show ?thesis by simp
qed

context core_bytes
begin

lemma decodeId_encodeId:
  "- 1 \<le> i \<Longrightarrow> i < 65535 \<Longrightarrow> decodeId C (encodeId C i) = Some i"
  by (auto simp: decodeId_def encodeId_def read_u16be_alone uint_word_of_int
      dest: arg_cong [of _ _ uint])

lemma encodeId_decodeId: "decodeId C b = Some i \<Longrightarrow> encodeId C i = b"
  by (auto simp: decodeId_def encodeId_def u16be_read Option.bind_eq_Some_conv split: if_splits)

lemma decodeId_range: "decodeId C b = Some i \<Longrightarrow> - 1 \<le> i \<and> i < 65535"
  using uint_16_below
  by (fastforce simp: decodeId_def Option.bind_eq_Some_conv split: if_splits
      intro: order_trans [OF _ unsigned_greater_eq])

lemma decodeTimestamp_encodeTimestamp [simp]:
  "decodeTimestamp C (encodeTimestamp C ms) = Some ms"
  by (simp add: decodeTimestamp_def encodeTimestamp_def read_u32be_alone)

end

context core_tlv
begin

lemma decodeMessage_encode:
  assumes "msg_encode C m = Some b" and "m_type m \<noteq> CTRL_ABORT"
  shows "decodeMessage C b s r =
    Some (m\<lparr>m_senderId := s, m_receiverId := r, m_sessionId := 0\<rparr>)"
  using assms
  by (auto simp: msg_encode_def decodeMessage_def emptyMessage_def
      messageTypeFromTag_macTypeTag dest!: decode_encode)

lemma encode_decodeMessage:
  "decodeMessage C b s r = Some m \<Longrightarrow> msg_encode C m = Some b"
  by (auto simp: decodeMessage_def msg_encode_def emptyMessage_def Option.bind_eq_Some_conv
      dest!: messageTypeFromTag_Some encode_decode)

lemma macInput_inject:
  assumes "macInput C s t fs = Some b" "macInput C s' t' fs' = Some b"
  shows "s = s' \<and> t = t' \<and> fs = fs'"
  using encode_inject [of s "macTypeTag t" fs b s' "macTypeTag t'" fs'] assms
  by (simp add: macInput_def macTypeTag_inject)

lemma macInput_nonempty: "macInput C s t fs \<noteq> Some []"
  by (simp add: macInput_def encode_nonempty)

end

subsection \<open>Properties\<close>

text \<open>The type tags are a bijection between the wire messages and the recognised tags:
  \<open>messageTypeFromTag\<close> accepts exactly the tags that \<open>macTypeTag\<close> gives to a message that is
  sent, and returns that message's type; the control tag \<open>0x7F\<close> and every other byte are
  rejected.\<close>

theorem type_tag_bijection:
  "messageTypeFromTag g = Some t \<longleftrightarrow> macTypeTag t = g \<and> t \<noteq> CTRL_ABORT"
  using messageTypeFromTag_Some messageTypeFromTag_not_abort messageTypeFromTag_macTypeTag
  by (metis (full_types))

text \<open>C28. \<open>decodeMessage\<close> is the exact inverse of \<open>Message::encode\<close>: it accepts a byte string
  if and only if that string is the canonical encoding of the message it returns, with the
  sender and receiver the transport supplied and no session identifier, and never returns a
  control message.\<close>

theorem decodeMessage_exact:
  assumes "core_laws C"
  shows "decodeMessage C b s r = Some m \<longleftrightarrow>
    msg_encode C m = Some b \<and> m_type m \<noteq> CTRL_ABORT \<and>
    m_senderId m = s \<and> m_receiverId m = r \<and> m_sessionId m = 0"
  using core_tlv.decodeMessage_encode [of C m b s r] core_tlv.encode_decodeMessage [of C b s r m]
    messageTypeFromTag_not_abort assms
  by (fastforce simp: core_laws_def decodeMessage_def emptyMessage_def Option.bind_eq_Some_conv)

theorem decodeMessage_exact_witness:
  "decodeMessage ref_core [1, 0x13, 8, 0, 2, 0xAA, 0xBB] 3 (- 1) =
     Some (emptyMessage\<lparr>m_type := P2_M3_UAV_CONFIRM, m_suiteId := 1, m_senderId := 3,
       m_fields := [MAC_TAG \<mapsto> [0xAA, 0xBB]]\<rparr>)"
  using decodeMessage_exact [OF ref_core_laws]
  by (simp add: msg_encode_def emptyMessage_def ref_core_eval)

text \<open>A MAC input determines the suite, the message type and every field: two MAC inputs
  are equal only when suite, type and field map are, so a tag computed for one protocol step
  is never a tag for another step.\<close>

theorem macInput_separates:
  assumes "core_laws C"
    and "macInput C s t fs = Some b" and "macInput C s' t' fs' = Some b"
  shows "s = s' \<and> t = t' \<and> fs = fs'"
  using core_tlv.macInput_inject [of C s t fs b s' t' fs'] assms by (simp add: core_laws_def)

theorem macInput_separates_witness:
  "\<exists>b. macInput ref_core 1 P3_P1_PEER_REQUEST [TID \<mapsto> [7]] = Some b \<and>
       macInput ref_core 1 P3_P2_PEER_RESPONSE [TID \<mapsto> [7]] \<noteq> Some b"
proof -
  have "\<exists>b. macInput ref_core 1 P3_P1_PEER_REQUEST [TID \<mapsto> [7]] = Some b"
    by (simp add: macInput_def ref_core_eval)
  then show ?thesis
    using macInput_separates [OF ref_core_laws, of 1 P3_P1_PEER_REQUEST "[TID \<mapsto> [7]]" _
        1 P3_P2_PEER_RESPONSE "[TID \<mapsto> [7]]"] by fastforce
qed

text \<open>An identity field decodes to \<open>i\<close> exactly when it is the two-byte encoding of \<open>i\<close> and
  \<open>i\<close> is the ground station (-1) or an identity below 65535; 65535 itself is not
  representable, because its encoding is the ground station's.\<close>

theorem decodeId_exact:
  assumes "core_laws C"
  shows "decodeId C b = Some i \<longleftrightarrow> encodeId C i = b \<and> - 1 \<le> i \<and> i < 65535"
  using core_bytes.decodeId_encodeId [of C i] core_bytes.encodeId_decodeId [of C b i]
    core_bytes.decodeId_range [of C b i] assms by (auto simp: core_laws_def)

theorem decodeId_exact_witness:
  "decodeId ref_core [0x01, 0x02] = Some 258 \<and> encodeId ref_core 65535 = encodeId ref_core (- 1)"
  using decodeId_exact [OF ref_core_laws, of "[0x01, 0x02]" 258]
  by (simp add: encodeId_def ref_core_eval)

end
