(* ===== verification/Fpu.thy ===== *)
theory Fpu
  imports Complex_Main Prelude
begin

text \<open>
  Arithmetic on \<open>double\<close>.  A double is its 64 bit representation; the arithmetic unit and
  \<open>libm\<close> are not part of the repository and are the record \<open>fpu\<close>, a parameter of every definition
  that computes with doubles, so each operation appears where the source has it and rounding is
  whatever the machine does.  \<open>fp_of_rat\<close> is the double a literal or a converted integer denotes.
  The locale \<open>fpu_laws\<close> states the exact facts of IEEE 754 and \<open>libm\<close> the sources rely on;
  \<open>ref_fpu\<close> is a computable instance.
\<close>

type_synonym double = "64 word"

record fpu =
  fp_of_rat :: "rat \<Rightarrow> double"
  fp_to_nat :: "double \<Rightarrow> nat"
  fp_add :: "double \<Rightarrow> double \<Rightarrow> double"
  fp_sub :: "double \<Rightarrow> double \<Rightarrow> double"
  fp_mul :: "double \<Rightarrow> double \<Rightarrow> double"
  fp_div :: "double \<Rightarrow> double \<Rightarrow> double"
  fp_neg :: "double \<Rightarrow> double"
  fp_fabs :: "double \<Rightarrow> double"
  fp_less :: "double \<Rightarrow> double \<Rightarrow> bool"
  fp_le :: "double \<Rightarrow> double \<Rightarrow> bool"
  fp_sqrt :: "double \<Rightarrow> double"
  fp_log :: "double \<Rightarrow> double"
  fp_log2 :: "double \<Rightarrow> double"
  fp_sin :: "double \<Rightarrow> double"
  fp_cos :: "double \<Rightarrow> double"
  fp_erfc :: "double \<Rightarrow> double"
  fp_pow :: "double \<Rightarrow> double \<Rightarrow> double"

definition fp_zero :: double where "fp_zero = 0"

abbreviation fp_nat :: "fpu \<Rightarrow> nat \<Rightarrow> double" where
  "fp_nat F n \<equiv> fp_of_rat F (of_nat n)"

text \<open>\<open>std::max(a, b)\<close> and \<open>std::min(a, b)\<close>, whose argument order matters for a NaN.\<close>

definition fp_max :: "fpu \<Rightarrow> double \<Rightarrow> double \<Rightarrow> double" where
  "fp_max F a b = (if fp_less F a b then b else a)"

definition fp_min :: "fpu \<Rightarrow> double \<Rightarrow> double \<Rightarrow> double" where
  "fp_min F a b = (if fp_less F b a then b else a)"

text \<open>Not infinite and not a NaN: the exponent is not all ones.\<close>

definition fp_finite :: "double \<Rightarrow> bool" where
  "fp_finite x \<longleftrightarrow> x AND 0x7FF0000000000000 \<noteq> 0x7FF0000000000000"

text \<open>The literals of the Box-Muller transform; \<open>M_PI\<close> is the literal of \<open>math.h\<close>.\<close>

definition kMinUniform :: rat where "kMinUniform = 1 / 10 ^ 300"
definition kPi :: rat where "kPi = 314159265358979323846 / 10 ^ 20"

definition bm_radius :: "fpu \<Rightarrow> double \<Rightarrow> double" where
  "bm_radius F u1 = fp_sqrt F (fp_mul F (fp_of_rat F (- 2)) (fp_log F u1))"

definition bm_angle :: "fpu \<Rightarrow> double \<Rightarrow> double" where
  "bm_angle F u2 = fp_mul F (fp_mul F (fp_of_rat F 2) (fp_of_rat F kPi)) u2"

definition bm_guard :: "fpu \<Rightarrow> double \<Rightarrow> double" where
  "bm_guard F u1 = (if fp_less F u1 (fp_of_rat F kMinUniform) then fp_of_rat F kMinUniform else u1)"

text \<open>What the sources rely on: negation is exact, the order is that of numbers, a finite number times zero is a
  zero, adding it does not move a number across zero, and the transform of guarded
  uniform doubles is finite.\<close>

locale fpu_laws =
  fixes F :: fpu
  assumes neg_neg: "fp_neg F (fp_neg F x) = x"
    and less_asym: "fp_less F x y \<Longrightarrow> \<not> fp_less F y x"
    and zero_noise: "fp_finite x \<Longrightarrow>
      fp_less F fp_zero (fp_add F d (fp_mul F fp_zero x)) = fp_less F fp_zero d"
    and finite_normal: "0 \<le> r \<Longrightarrow> r < 1 \<Longrightarrow> 0 \<le> s \<Longrightarrow> s < 1 \<Longrightarrow>
      fp_finite (fp_mul F (bm_radius F (bm_guard F (fp_of_rat F r))) (fp_cos F (bm_angle F (fp_of_rat F s)))) \<and>
      fp_finite (fp_mul F (bm_radius F (bm_guard F (fp_of_rat F r))) (fp_sin F (bm_angle F (fp_of_rat F s))))"

subsection \<open>A computable instance\<close>

text \<open>Signed fixed point numbers with twenty fractional bits; \<open>libm\<close> is constant.\<close>

definition ref_fpu :: fpu where
  "ref_fpu = \<lparr>
     fp_of_rat = (\<lambda>r. word_of_int \<lfloor>r * 2 ^ 20\<rfloor>),
     fp_to_nat = (\<lambda>x. nat (sint x div 2 ^ 20)),
     fp_add = (+), fp_sub = (-),
     fp_mul = (\<lambda>x y. word_of_int (sint x * sint y div 2 ^ 20)),
     fp_div = (\<lambda>x y. word_of_int (sint x * 2 ^ 20 div sint y)),
     fp_neg = uminus, fp_fabs = (\<lambda>x. if sint x < 0 then - x else x),
     fp_less = (\<lambda>x y. sint x < sint y), fp_le = (\<lambda>x y. sint x \<le> sint y),
     fp_sqrt = (\<lambda>x. 0x100000), fp_log = (\<lambda>x. 0), fp_log2 = (\<lambda>x. 0),
     fp_sin = (\<lambda>x. 0x100000), fp_cos = (\<lambda>x. 0x100000), fp_erfc = (\<lambda>x. 0), fp_pow = (\<lambda>x y. x)\<rparr>"

interpretation ref_fp: fpu_laws ref_fpu
proof
  fix r s :: rat
  have "sint (0x100000 :: double) = 0x100000" by simp
  then have "fp_mul ref_fpu 0x100000 0x100000 = 0x100000" by (simp add: ref_fpu_def)
  moreover have "fp_finite 0x100000" by (simp add: fp_finite_def)
  ultimately show "fp_finite (fp_mul ref_fpu (bm_radius ref_fpu (bm_guard ref_fpu (fp_of_rat ref_fpu r)))
      (fp_cos ref_fpu (bm_angle ref_fpu (fp_of_rat ref_fpu s)))) \<and>
    fp_finite (fp_mul ref_fpu (bm_radius ref_fpu (bm_guard ref_fpu (fp_of_rat ref_fpu r)))
      (fp_sin ref_fpu (bm_angle ref_fpu (fp_of_rat ref_fpu s))))"
    by (simp add: bm_radius_def ref_fpu_def)
qed (simp_all add: ref_fpu_def fp_zero_def)

end
