(* ===== verification/Ossl.thy ===== *)
theory Ossl
  imports Core
begin

text \<open>
  OpenSSL (\<open>crypto/OsslCommon.h\<close> caches its handles) is not part of the repository: the record
  \<open>ossl\<close> has one field per primitive the sources reach through \<open>EVP_*\<close> and
  \<open>CRYPTO_memcmp\<close>, \<open>None\<close> being a failing call.  The locale \<open>ossl_laws\<close> states what its
  documentation promises and the sources rely on: output lengths, success on well-formed
  input, authenticated decryption of an honest ciphertext, and the Diffie-Hellman law of
  RFC 7748.  No secrecy or unforgeability is assumed anywhere.  \<open>ref_ossl\<close> is a computable
  instance.
\<close>

datatype hkdf_mode = HKDF_EXTRACT_AND_EXPAND | HKDF_EXTRACT_ONLY | HKDF_EXPAND_ONLY

record ossl =
  o_sha3_256 :: "bytes \<Rightarrow> bytes option"
  o_hmac_sha3_256 :: "bytes \<Rightarrow> bytes \<Rightarrow> bytes option"
  o_kmac256 :: "bytes \<Rightarrow> bytes \<Rightarrow> nat \<Rightarrow> bytes option \<Rightarrow> bytes option"
  o_hkdf :: "hkdf_mode \<Rightarrow> string \<Rightarrow> bytes \<Rightarrow> bytes option \<Rightarrow> bytes option \<Rightarrow> nat \<Rightarrow> bytes option"
  o_chacha_seal :: "bytes \<Rightarrow> bytes \<Rightarrow> bytes \<Rightarrow> bytes \<Rightarrow> (bytes \<times> bytes) option"
  o_chacha_open :: "bytes \<Rightarrow> bytes \<Rightarrow> bytes \<Rightarrow> bytes \<Rightarrow> bytes \<Rightarrow> bytes option"
  o_x25519_public :: "bytes \<Rightarrow> bytes option"
  o_x25519_derive :: "bytes \<Rightarrow> bytes \<Rightarrow> bytes option"
  o_memcmp_eq :: "bytes \<Rightarrow> bytes \<Rightarrow> nat \<Rightarrow> bool"

locale ossl_laws =
  fixes L :: ossl
  assumes sha3: "\<exists>d. o_sha3_256 L m = Some d \<and> length d = 32"
    and hmac: "\<exists>d. o_hmac_sha3_256 L k m = Some d \<and> length d = 32"
    and kmac_len: "o_kmac256 L k m n c = Some t \<Longrightarrow> length t = n"
    and hkdf_len: "o_hkdf L mode dg ikm salt info n = Some k \<Longrightarrow> length k = n"
    and hkdf_ok: "dg = ''SHA3-256'' \<Longrightarrow> ikm \<noteq> [] \<Longrightarrow> 0 < n \<Longrightarrow> n \<le> 8160 \<Longrightarrow>
      (\<And>i. info = Some i \<Longrightarrow> length i \<le> 1024) \<Longrightarrow>
      mode = HKDF_EXTRACT_ONLY \<longrightarrow> n = 32 \<Longrightarrow> o_hkdf L mode dg ikm salt info n \<noteq> None"
    and chacha_seal: "length k = 32 \<Longrightarrow> length nc = 12 \<Longrightarrow>
      \<exists>ct tag. o_chacha_seal L k nc aad pt = Some (ct, tag)"
    and chacha_len: "o_chacha_seal L k nc aad pt = Some (ct, tag) \<Longrightarrow>
      length ct = length pt \<and> length tag = 16"
    and chacha_open: "o_chacha_seal L k nc aad pt = Some (ct, tag) \<Longrightarrow>
      o_chacha_open L k nc aad ct tag = Some pt"
    and chacha_open_len: "o_chacha_open L k nc aad ct tag = Some pt \<Longrightarrow> length pt = length ct"
    and x25519_public: "length s = 32 \<Longrightarrow> \<exists>p. o_x25519_public L s = Some p \<and> length p = 32"
    and x25519_len: "o_x25519_derive L s p = Some z \<Longrightarrow> length z = 32"
    and x25519_agree: "length a = 32 \<Longrightarrow> length b = 32 \<Longrightarrow>
      o_x25519_public L a = Some pa \<Longrightarrow> o_x25519_public L b = Some pb \<Longrightarrow>
      \<exists>z. o_x25519_derive L a pb = Some z \<and> o_x25519_derive L b pa = Some z"
    and memcmp: "n \<le> length a \<Longrightarrow> n \<le> length b \<Longrightarrow>
      o_memcmp_eq L a b n \<longleftrightarrow> take n a = take n b"
begin

lemma sha3_len: "o_sha3_256 L m = Some d \<Longrightarrow> length d = 32"
  using sha3 [of m] by auto

lemma hmac_len: "o_hmac_sha3_256 L k m = Some d \<Longrightarrow> length d = 32"
  using hmac [of k m] by auto

end

subsection \<open>A computable instance\<close>

text \<open>A rolling sum stretched to the wanted length stands for every digest, exclusive or for
  the group; the laws hold, nothing is secret.\<close>

definition ref_digest :: "nat \<Rightarrow> bytes \<Rightarrow> bytes" where
  "ref_digest n b =
     (let h = fold (\<lambda>x h. 5 * h + x + 1) b 7 in map (\<lambda>i. h + 3 * of_nat i) [0..<n])"

definition ref_tagged :: "bytes list \<Rightarrow> bytes" where
  "ref_tagged bs = concat (map (\<lambda>b. of_nat (length b) # b) bs)"

definition ref_opt :: "bytes option \<Rightarrow> bytes" where
  "ref_opt x = (case x of None \<Rightarrow> [0] | Some b \<Rightarrow> 1 # b)"

definition ref_ossl :: ossl where
  "ref_ossl = \<lparr>
     o_sha3_256 = (\<lambda>m. Some (ref_digest 32 m)),
     o_hmac_sha3_256 = (\<lambda>k m. Some (ref_digest 32 (ref_tagged [k, m]))),
     o_kmac256 = (\<lambda>k m n c. Some (ref_digest n (ref_tagged [k, m, ref_opt c]))),
     o_hkdf = (\<lambda>mode dg ikm salt info n.
       Some (ref_digest n (ref_tagged [ikm, ref_opt salt, ref_opt info]))),
     o_chacha_seal = (\<lambda>k n aad pt. Some (pt, ref_digest 16 (ref_tagged [k, n, aad, pt]))),
     o_chacha_open = (\<lambda>k n aad ct tag.
       if tag = ref_digest 16 (ref_tagged [k, n, aad, ct]) then Some ct else None),
     o_x25519_public = (\<lambda>s. if length s = 32 then Some s else None),
     o_x25519_derive = (\<lambda>s p. if length s = 32 \<and> length p = 32
       then Some (map2 (XOR) s p) else None),
     o_memcmp_eq = (\<lambda>a b n. take n a = take n b) \<rparr>"

lemma length_ref_digest [simp]: "length (ref_digest n b) = n"
  by (simp add: ref_digest_def Let_def)

interpretation refo: ossl_laws ref_ossl
proof
  show "\<exists>z. o_x25519_derive ref_ossl a pb = Some z \<and> o_x25519_derive ref_ossl b pa = Some z"
    if "length a = 32" "length b = 32" "o_x25519_public ref_ossl a = Some pa"
      "o_x25519_public ref_ossl b = Some pb" for a b pa pb
  proof -
    have "map2 (XOR) a b = map2 (XOR) b a"
      using that(1,2) by (intro nth_equalityI) (simp_all add: xor.commute)
    then show ?thesis using that by (simp add: ref_ossl_def)
  qed
qed (auto simp: ref_ossl_def split: if_splits)

lemmas ref_ossl_eval = ref_ossl_def ref_digest_def ref_tagged_def ref_opt_def

end
