(* ===== verification/Drbg.thy ===== *)
theory Drbg
  imports Fpu Ossl
begin

text \<open>
  \<open>crypto/Drbg.h\<close>, \<open>crypto/Drbg.cc\<close>: the deterministic generator behind every nonce, scalar,
  seed and challenge, SHA3-256 in counter mode with a block buffer.  The abstract view is an
  infinite byte stream per key and a position in it (\<open>drbg_at\<close>); the lemmas show that
  \<open>bytes(n)\<close> always returns and yields the next \<open>n\<close> bytes of that stream, whatever the block
  boundaries.  \<open>normal()\<close> computes with the \<open>fpu\<close> of theory \<open>Fpu\<close>.
\<close>

record drbg =
  dk_key :: bytes
  dk_buffer :: bytes
  dk_offset :: nat
  dk_counter :: u64
  dk_drawn :: u64
  dk_haveSpareNormal :: bool
  dk_spareNormal :: double

definition drbg_sha3_256 :: "ossl \<Rightarrow> bytes \<Rightarrow> bytes option" where
  "drbg_sha3_256 L input = o_sha3_256 L input"

definition drbg_reseed :: "ossl \<Rightarrow> bytes \<Rightarrow> drbg option" where
  "drbg_reseed L seed = do {
     k \<leftarrow> drbg_sha3_256 L seed;
     Some \<lparr>dk_key = k, dk_buffer = [], dk_offset = 0, dk_counter = 0, dk_drawn = 0,
           dk_haveSpareNormal = False, dk_spareNormal = fp_zero\<rparr> }"

text \<open>The counter, most significant byte first: the loop over \<open>shift = 56, 48, \<dots>, 0\<close>.\<close>

definition be64 :: "u64 \<Rightarrow> bytes" where
  "be64 c = map (\<lambda>shift. ucast (drop_bit shift c AND 0xFF)) [56, 48, 40, 32, 24, 16, 8, 0]"

definition drbg_refill :: "ossl \<Rightarrow> drbg \<Rightarrow> drbg option" where
  "drbg_refill L st = do {
     b \<leftarrow> drbg_sha3_256 L (dk_key st @ be64 (dk_counter st));
     Some (st\<lparr>dk_buffer := b, dk_offset := 0, dk_counter := dk_counter st + 1\<rparr>) }"

text \<open>The \<open>while (out.size() < n)\<close> loop: it ends only because a digest is not empty, so it is
  a partial function here and its termination is a lemma.\<close>

partial_function (option) drbg_loop ::
    "ossl \<Rightarrow> nat \<Rightarrow> bytes \<Rightarrow> drbg \<Rightarrow> (bytes \<times> drbg) option" where
  "drbg_loop L n out st =
     (if length out < n then do {
        st \<leftarrow> (if length (dk_buffer st) \<le> dk_offset st then drbg_refill L st else Some st);
        let k = min (n - length out) (length (dk_buffer st) - dk_offset st);
        drbg_loop L n (out @ take k (drop (dk_offset st) (dk_buffer st)))
          (st\<lparr>dk_offset := dk_offset st + k\<rparr>)
      }
      else Some (out, st))"

definition drbg_bytes :: "ossl \<Rightarrow> nat \<Rightarrow> drbg \<Rightarrow> (bytes \<times> drbg) option" where
  "drbg_bytes L n st = do {
     (out, st) \<leftarrow> drbg_loop L n [] st;
     Some (out, st\<lparr>dk_drawn := dk_drawn st + of_nat n\<rparr>) }"

definition be32_word :: "bytes \<Rightarrow> u32" where
  "be32_word b = push_bit 24 (ucast (b ! 0)) OR push_bit 16 (ucast (b ! 1))
                 OR push_bit 8 (ucast (b ! 2)) OR ucast (b ! 3)"

definition uniform_limit :: "u32 \<Rightarrow> u32" where
  "uniform_limit bound = 0xFFFFFFFF - 0xFFFFFFFF mod bound"

partial_function (option) uniform_loop ::
    "ossl \<Rightarrow> u32 \<Rightarrow> drbg \<Rightarrow> (u32 \<times> drbg) option" where
  "uniform_loop L bound st = do {
     (b, st) \<leftarrow> drbg_bytes L 4 st;
     (if be32_word b < uniform_limit bound then Some (be32_word b mod bound, st)
      else uniform_loop L bound st) }"

definition drbg_uniform :: "ossl \<Rightarrow> u32 \<Rightarrow> drbg \<Rightarrow> (u32 \<times> drbg) option" where
  "drbg_uniform L bound st = (if bound = 0 then Some (0, st) else uniform_loop L bound st)"

text \<open>The double \<open>(v >> 11) * 2^-53\<close> is exact, so its value is a rational.\<close>

definition drbg_uniformDouble :: "ossl \<Rightarrow> drbg \<Rightarrow> (rat \<times> drbg) option" where
  "drbg_uniformDouble L st = do {
     (b, st) \<leftarrow> drbg_bytes L 8 st;
     let v = fold (\<lambda>x v. push_bit 8 v OR ucast x) b (0::u64);
     Some (of_nat (unat (drop_bit 11 v)) / 9007199254740992, st) }"

text \<open>The Box-Muller transform yields two deviates; the second is kept for the next call.\<close>

definition drbg_normal :: "fpu \<Rightarrow> ossl \<Rightarrow> drbg \<Rightarrow> (double \<times> drbg) option" where
  "drbg_normal F L st =
     (if dk_haveSpareNormal st then Some (dk_spareNormal st, st\<lparr>dk_haveSpareNormal := False\<rparr>)
      else do {
        (v1, st) \<leftarrow> drbg_uniformDouble L st;
        let u1 = bm_guard F (fp_of_rat F v1);
        (v2, st) \<leftarrow> drbg_uniformDouble L st;
        let r = bm_radius F u1;
        let theta = bm_angle F (fp_of_rat F v2);
        Some (fp_mul F r (fp_cos F theta),
          st\<lparr>dk_spareNormal := fp_mul F r (fp_sin F theta), dk_haveSpareNormal := True\<rparr>) })"

subsection \<open>The stream\<close>

definition drbg_block :: "ossl \<Rightarrow> bytes \<Rightarrow> nat \<Rightarrow> bytes" where
  "drbg_block L key i = the (o_sha3_256 L (key @ be64 (of_nat i)))"

definition drbg_stream :: "ossl \<Rightarrow> bytes \<Rightarrow> nat \<Rightarrow> u8" where
  "drbg_stream L key p = drbg_block L key (p div 32) ! (p mod 32)"

text \<open>State \<open>st\<close> is about to produce byte \<open>p\<close> of its key's stream: either inside the block
  that holds it, or with an exhausted buffer at a block boundary.\<close>

definition drbg_at :: "ossl \<Rightarrow> drbg \<Rightarrow> nat \<Rightarrow> bool" where
  "drbg_at L st p \<longleftrightarrow>
     (p mod 32 = 0 \<and> length (dk_buffer st) \<le> dk_offset st \<and> dk_counter st = of_nat (p div 32)) \<or>
     (dk_buffer st = drbg_block L (dk_key st) (p div 32) \<and> dk_offset st = p mod 32 \<and>
      dk_counter st = of_nat (p div 32) + 1)"

lemma div_mod_within:
  assumes "(p::nat) mod 32 + i < 32"
  shows "(p + i) div 32 = p div 32" "(p + i) mod 32 = p mod 32 + i"
  using assms div_add1_eq [of p i 32] mod_add_left_eq [of p 32 i] by simp_all

context ossl_laws
begin

lemma length_drbg_block [simp]: "length (drbg_block L k i) = 32"
  using sha3 [of "k @ be64 (of_nat i)"] by (auto simp: drbg_block_def)

lemma drbg_refill_at:
  assumes "p mod 32 = 0" "dk_counter st = of_nat (p div 32)"
  shows "drbg_refill L st =
    Some (st\<lparr>dk_buffer := drbg_block L (dk_key st) (p div 32), dk_offset := p mod 32,
             dk_counter := of_nat (p div 32) + 1\<rparr>)"
  using sha3 [of "dk_key st @ be64 (of_nat (p div 32))"] assms
  by (auto simp: drbg_refill_def drbg_sha3_256_def drbg_block_def)

lemma drbg_slice:
  assumes "k \<le> 32 - p mod 32"
  shows "take k (drop (p mod 32) (drbg_block L key (p div 32))) = map (drbg_stream L key) [p..<p + k]"
proof (rule nth_equalityI)
  show "length (take k (drop (p mod 32) (drbg_block L key (p div 32)))) =
    length (map (drbg_stream L key) [p..<p + k])" using assms by simp
  fix i assume "i < length (take k (drop (p mod 32) (drbg_block L key (p div 32))))"
  then have i: "i < k" "p mod 32 + i < 32" using assms by simp_all
  show "take k (drop (p mod 32) (drbg_block L key (p div 32))) ! i =
    map (drbg_stream L key) [p..<p + k] ! i"
    using i div_mod_within [OF i(2)] by (simp add: drbg_stream_def)
qed

text \<open>After the optional refill the buffer is the block of the current position.\<close>

lemma drbg_at_filled:
  assumes "drbg_at L st p"
  obtains st' where
    "(if length (dk_buffer st) \<le> dk_offset st then drbg_refill L st else Some st) = Some st'"
    "dk_buffer st' = drbg_block L (dk_key st) (p div 32)" "dk_offset st' = p mod 32"
    "dk_counter st' = of_nat (p div 32) + 1" "dk_key st' = dk_key st"
    "dk_drawn st' = dk_drawn st"
proof (cases "length (dk_buffer st) \<le> dk_offset st")
  case True
  then have "p mod 32 = 0 \<and> dk_counter st = of_nat (p div 32)"
    using assms mod_less_divisor [of 32 p] by (auto simp: drbg_at_def)
  with True show ?thesis
    by (intro that [of "st\<lparr>dk_buffer := drbg_block L (dk_key st) (p div 32),
        dk_offset := p mod 32, dk_counter := of_nat (p div 32) + 1\<rparr>"])
      (simp_all add: drbg_refill_at [of p])
next
  case False
  with assms that [of st] show ?thesis by (simp add: drbg_at_def)
qed

lemma drbg_at_advance:
  assumes "dk_buffer st = drbg_block L (dk_key st) (p div 32)" "dk_offset st = p mod 32"
    "dk_counter st = of_nat (p div 32) + 1" and k: "k \<le> 32 - p mod 32"
  shows "drbg_at L (st\<lparr>dk_offset := dk_offset st + k\<rparr>) (p + k)"
proof (cases "k = 32 - p mod 32")
  case True
  then have "p + k = 32 * (p div 32 + 1)"
    by presburger
  then have "(p + k) mod 32 = 0" "(p + k) div 32 = p div 32 + 1" by simp_all
  then show ?thesis using assms True by (simp add: drbg_at_def add.commute)
next
  case False
  then have i: "p mod 32 + k < 32" using k by linarith
  show ?thesis using assms div_mod_within [OF i] by (simp add: drbg_at_def)
qed

lemma drbg_loop_stream:
  "drbg_at L st p \<Longrightarrow> length out \<le> n \<Longrightarrow>
   \<exists>st'. drbg_loop L n out st =
      Some (out @ map (drbg_stream L (dk_key st)) [p..<p + (n - length out)], st') \<and>
     drbg_at L st' (p + (n - length out)) \<and> dk_key st' = dk_key st \<and> dk_drawn st' = dk_drawn st"
proof (induction "n - length out" arbitrary: st p out rule: less_induct)
  case less
  show ?case
  proof (cases "length out < n")
    case False
    then show ?thesis using less.prems by (simp add: drbg_loop.simps)
  next
    case True
    obtain st1 where r: "(if length (dk_buffer st) \<le> dk_offset st then drbg_refill L st
        else Some st) = Some st1"
      and st1: "dk_buffer st1 = drbg_block L (dk_key st) (p div 32)" "dk_offset st1 = p mod 32"
        "dk_counter st1 = of_nat (p div 32) + 1" "dk_key st1 = dk_key st" "dk_drawn st1 = dk_drawn st"
      using drbg_at_filled [OF less.prems(1)] .
    define k where "k = min (n - length out) (32 - p mod 32)"
    have k: "0 < k" "k \<le> 32 - p mod 32" "k \<le> n - length out" using True by (simp_all add: k_def)
    define st2 where "st2 = st1\<lparr>dk_offset := dk_offset st1 + k\<rparr>"
    define out2 where "out2 = out @ map (drbg_stream L (dk_key st)) [p..<p + k]"
    have at2: "drbg_at L st2 (p + k)"
      unfolding st2_def using st1 k(2) by (intro drbg_at_advance) simp_all
    have step: "drbg_loop L n out st = drbg_loop L n out2 st2"
      by (subst drbg_loop.simps)
        (simp only: True if_True r bind.bind_lunit,
         simp add: st1 Let_def drbg_slice k k_def [symmetric] out2_def st2_def)
    have len: "length out2 = length out + k" by (simp add: out2_def)
    then have "n - length out2 < n - length out" "length out2 \<le> n"
      and q: "p + k + (n - length out2) = p + (n - length out)" using k by simp_all
    from less.hyps [OF this(1) at2 this(2), unfolded q] obtain st' where
      "drbg_loop L n out2 st2 =
         Some (out2 @ map (drbg_stream L (dk_key st2)) [p + k..<p + (n - length out)], st')"
      "drbg_at L st' (p + (n - length out))"
      "dk_key st' = dk_key st2" "dk_drawn st' = dk_drawn st2" by blast
    moreover have "[p..<p + k] @ [p + k..<p + (n - length out)] = [p..<p + (n - length out)]"
      using k upt_add_eq_append [of p "p + k" "n - length out - k"] by simp
    ultimately show ?thesis
      by (simp add: step st2_def st1 out2_def flip: map_append)
  qed
qed

text \<open>\<open>bytes(n)\<close> returns the next \<open>n\<close> bytes of the stream.\<close>

lemma drbg_bytes_stream:
  assumes "drbg_at L st p"
  obtains st' where
    "drbg_bytes L n st = Some (map (drbg_stream L (dk_key st)) [p..<p + n], st')"
    "drbg_at L st' (p + n)" "dk_key st' = dk_key st" "dk_drawn st' = dk_drawn st + of_nat n"
proof -
  from drbg_loop_stream [OF assms, of "[]" n] obtain st' where
    "drbg_loop L n [] st = Some (map (drbg_stream L (dk_key st)) [p..<p + n], st')"
    "drbg_at L st' (p + n)" "dk_key st' = dk_key st" "dk_drawn st' = dk_drawn st" by auto
  then show thesis
    using that [of "st'\<lparr>dk_drawn := dk_drawn st' + of_nat n\<rparr>"]
    by (simp add: drbg_bytes_def drbg_at_def)
qed

lemma drbg_reseed_at:
  "drbg_reseed L seed = Some st \<Longrightarrow> drbg_at L st 0"
  by (auto simp: drbg_reseed_def drbg_at_def Option.bind_eq_Some_conv)

lemma drbg_reseed_total: "\<exists>st. drbg_reseed L seed = Some st \<and> drbg_at L st 0"
  using sha3 [of seed] by (auto simp: drbg_reseed_def drbg_sha3_256_def drbg_at_def)

lemma drbg_bytes_length:
  assumes "drbg_at L st p" "drbg_bytes L n st = Some (b, st')"
  shows "length b = n"
  by (rule drbg_bytes_stream [OF assms(1), of n]) (use assms(2) in simp)

text \<open>The rejection loop returns at the first draw below the limit.\<close>

lemma uniform_loop_first:
  assumes "drbg_at L st p"
    and "\<And>j. j < i \<Longrightarrow> \<not> be32_word (map (drbg_stream L (dk_key st)) [p + 4 * j..<p + 4 * j + 4])
                     < uniform_limit bound"
    and "be32_word (map (drbg_stream L (dk_key st)) [p + 4 * i..<p + 4 * i + 4])
         < uniform_limit bound"
  shows "\<exists>st'. uniform_loop L bound st = Some
      (be32_word (map (drbg_stream L (dk_key st)) [p + 4 * i..<p + 4 * i + 4]) mod bound, st') \<and>
    drbg_at L st' (p + 4 * i + 4)"
  using assms
proof (induction i arbitrary: st p)
  case 0
  obtain st' where "drbg_bytes L 4 st = Some (map (drbg_stream L (dk_key st)) [p..<p + 4], st')"
    "drbg_at L st' (p + 4)" by (rule drbg_bytes_stream [OF "0.prems"(1), of 4])
  then show ?case using "0.prems"(3) by (subst uniform_loop.simps) simp
next
  case (Suc i)
  obtain st' where b: "drbg_bytes L 4 st = Some (map (drbg_stream L (dk_key st)) [p..<p + 4], st')"
    and at: "drbg_at L st' (p + 4)" and k: "dk_key st' = dk_key st"
    by (rule drbg_bytes_stream [OF Suc.prems(1), of 4])
  have "\<not> be32_word (map (drbg_stream L (dk_key st)) [p..<p + 4]) < uniform_limit bound"
    using Suc.prems(2) [of 0] by simp
  then have step: "uniform_loop L bound st = uniform_loop L bound st'"
    by (subst uniform_loop.simps) (simp add: b)
  have sh: "p + 4 + 4 * j = p + 4 * Suc j" for j by simp
  show ?case
    unfolding step sh [of i, symmetric] k [symmetric]
  proof (rule Suc.IH [OF at])
    fix j assume "j < i"
    then show "\<not> be32_word (map (drbg_stream L (dk_key st')) [p + 4 + 4 * j..<p + 4 + 4 * j + 4])
      < uniform_limit bound" using Suc.prems(2) [of "Suc j"] unfolding sh k by simp
  qed (use Suc.prems(3) in \<open>simp only: sh k\<close>)
qed

end

lemma uniform_limit_unat:
  "unat (uniform_limit bound) = 4294967295 - 4294967295 mod unat bound"
proof -
  have "0xFFFFFFFF mod bound \<le> 0xFFFFFFFF"
    by (simp add: word_le_nat_alt unat_mod mod_less_eq_dividend)
  then show ?thesis by (simp add: uniform_limit_def unat_sub unat_mod)
qed

lemma uniform_limit_multiple:
  "unat (uniform_limit bound) = unat bound * (4294967295 div unat bound)"
  using minus_mod_eq_mult_div [of "4294967295::nat" "unat bound"]
  by (simp only: uniform_limit_unat)

lemma card_residue:
  assumes "r < (b::nat)"
  shows "card {v. v < b * q \<and> v mod b = r} = q"
proof -
  have "{v. v < b * q \<and> v mod b = r} = (\<lambda>k. b * k + r) ` {..<q}"
  proof (intro subset_antisym subsetI)
    fix v assume "v \<in> {v. v < b * q \<and> v mod b = r}"
    then have "v < b * q" "v = b * (v div b) + r" by auto
    moreover from this(1) have "v div b < q"
      by (metis less_mult_imp_div_less mult.commute)
    ultimately show "v \<in> (\<lambda>k. b * k + r) ` {..<q}" by blast
  next
    fix v assume "v \<in> (\<lambda>k. b * k + r) ` {..<q}"
    then obtain k where k: "k < q" "v = b * k + r" by auto
    then have "b * k + r < b * Suc k" "b * Suc k \<le> b * q"
      using assms by (simp, intro mult_le_mono2, simp)
    with k assms show "v \<in> {v. v < b * q \<and> v mod b = r}" by simp
  qed
  moreover have "inj_on (\<lambda>k. b * k + r) {..<q}" using assms by (auto simp: inj_on_def)
  ultimately show ?thesis by (simp add: card_image)
qed

text \<open>Each residue has the same number of accepted draws.\<close>

lemma uniform_unbiased:
  assumes "r < bound"
  shows "card {v. v < uniform_limit bound \<and> v mod bound = r} = 4294967295 div unat bound"
proof -
  have "unat ` {v. v < uniform_limit bound \<and> v mod bound = r} =
    {v. v < unat bound * (4294967295 div unat bound) \<and> v mod unat bound = unat r}" (is "?A = ?B")
  proof (intro subset_antisym subsetI)
    fix n assume "n \<in> ?B"
    then have "n < unat (uniform_limit bound)" "n mod unat bound = unat r"
      by (simp_all only: mem_Collect_eq uniform_limit_multiple)
    moreover from this(1) have "n < 4294967296" using uniform_limit_unat [of bound] by linarith
    then have "unat (of_nat n :: u32) = n" by (simp add: unat_of_nat take_bit_nat_eq_self)
    ultimately show "n \<in> ?A"
      by (intro image_eqI [of _ _ "of_nat n"])
        (simp_all add: word_less_nat_alt unat_mod word_unat_eq_iff)
  qed (auto simp: word_less_nat_alt unat_mod uniform_limit_multiple)
  moreover have "inj_on unat {v. v < uniform_limit bound \<and> v mod bound = r}"
    by (simp add: inj_on_def word_unat_eq_iff)
  then have "card (unat ` {v. v < uniform_limit bound \<and> v mod bound = r}) =
    card {v. v < uniform_limit bound \<and> v mod bound = r}" by (rule card_image)
  moreover have "unat r < unat bound" using assms by (simp only: word_less_nat_alt)
  ultimately show ?thesis
    using card_residue [of "unat r" "unat bound" "4294967295 div unat bound"] by argo
qed

subsection \<open>Requests in sequence\<close>

fun drbg_requests :: "ossl \<Rightarrow> nat list \<Rightarrow> drbg \<Rightarrow> (bytes list \<times> drbg) option" where
  "drbg_requests L [] st = Some ([], st)"
| "drbg_requests L (n # ns) st = do {
     (b, st) \<leftarrow> drbg_bytes L n st;
     (bs, st) \<leftarrow> drbg_requests L ns st;
     Some (b # bs, st) }"

lemma map_upt_add:
  "map f [p..<p + m] @ map f [p + m..<p + m + n] = map f [p..<p + (m + n)]"
  by (simp add: upt_add_eq_append [of p "p + m" n] flip: map_append add.assoc)

context ossl_laws
begin

lemma drbg_requests_stream:
  "drbg_at L st p \<Longrightarrow>
   \<exists>bs st'. drbg_requests L ns st = Some (bs, st') \<and> map length bs = ns \<and>
     concat bs = map (drbg_stream L (dk_key st)) [p..<p + sum_list ns] \<and>
     drbg_at L st' (p + sum_list ns) \<and> dk_drawn st' = dk_drawn st + of_nat (sum_list ns)"
proof (induction ns arbitrary: st p)
  case (Cons n ns)
  obtain st1 where b: "drbg_bytes L n st = Some (map (drbg_stream L (dk_key st)) [p..<p + n], st1)"
    and at: "drbg_at L st1 (p + n)" and k: "dk_key st1 = dk_key st"
    and d: "dk_drawn st1 = dk_drawn st + of_nat n"
    by (rule drbg_bytes_stream [OF Cons.prems, of n])
  from Cons.IH [OF at] obtain bs st' where
    "drbg_requests L ns st1 = Some (bs, st')" "map length bs = ns"
    "concat bs = map (drbg_stream L (dk_key st1)) [p + n..<p + n + sum_list ns]"
    "drbg_at L st' (p + n + sum_list ns)" "dk_drawn st' = dk_drawn st1 + of_nat (sum_list ns)"
    by blast
  then show ?case using b k d
    by (auto simp: map_upt_add [of _ p n, symmetric] add.assoc)
qed auto

end

subsection \<open>Properties\<close>

text \<open>The generator is one fixed byte stream per seed: after \<open>reseed\<close>, any sequence of
  \<open>bytes(n)\<close> calls returns (none of the refill loops runs forever), each call yields the length
  asked for, and the concatenation of all results is the prefix of the stream of SHA3-256
  blocks, however the requests straddle the block boundaries; the byte count is the sum.\<close>

theorem drbg_requests_are_stream:
  assumes "ossl_laws L" and "drbg_reseed L seed = Some st"
  shows "\<exists>bs st'. drbg_requests L ns st = Some (bs, st') \<and> map length bs = ns \<and>
    concat bs = map (drbg_stream L (dk_key st)) [0..<sum_list ns] \<and>
    dk_drawn st' = of_nat (sum_list ns)"
  using ossl_laws.drbg_requests_stream [OF assms(1) ossl_laws.drbg_reseed_at [OF assms], of ns]
    assms(2) by (auto simp: drbg_reseed_def Option.bind_eq_Some_conv)

theorem drbg_requests_are_stream_witness:
  "\<exists>st bs st'. drbg_reseed ref_ossl [1, 2] = Some st \<and>
     drbg_requests ref_ossl [20, 0, 30] st = Some (bs, st') \<and> map length bs = [20, 0, 30] \<and>
     length (concat bs) = 50"
proof -
  obtain st where st: "drbg_reseed ref_ossl [1, 2] = Some st" using refo.drbg_reseed_total by blast
  from drbg_requests_are_stream [OF refo.ossl_laws_axioms st, of "[20, 0, 30]"] st
  show ?thesis by fastforce
qed

text \<open>\<open>uniform(bound)\<close> for a positive bound returns at the first 32-bit draw below the limit,
  and returns that draw modulo the bound; and it is unbiased: every residue \<open>r < bound\<close> is the
  image of exactly the same number of accepted draws.\<close>

theorem drbg_uniform_correct:
  assumes "ossl_laws L" and "drbg_at L st p" and "bound \<noteq> 0"
    and "draw = (\<lambda>j. be32_word (map (drbg_stream L (dk_key st)) [p + 4 * j..<p + 4 * j + 4]))"
    and "\<forall>j < i. \<not> draw j < uniform_limit bound" and "draw i < uniform_limit bound"
  shows "\<exists>st'. drbg_uniform L bound st = Some (draw i mod bound, st') \<and> draw i mod bound < bound \<and>
    (\<forall>r < bound. card {v. v < uniform_limit bound \<and> v mod bound = r} = 4294967295 div unat bound)"
proof -
  have "draw i mod bound < bound"
    using assms(3) by (simp add: word_less_nat_alt unat_mod unat_gt_0)
  then show ?thesis
    using ossl_laws.uniform_loop_first [OF assms(1,2), of i bound] assms(3-) uniform_unbiased
    by (auto simp: drbg_uniform_def)
qed

theorem drbg_uniform_correct_witness:
  "\<exists>st st' r. drbg_reseed ref_ossl [1] = Some st \<and>
     drbg_uniform ref_ossl 10 st = Some (r, st') \<and> r < 10"
proof -
  obtain st where st: "drbg_reseed ref_ossl [1] = Some st" "drbg_at ref_ossl st 0"
    using refo.drbg_reseed_total by blast
  have key: "dk_key st = ref_digest 32 [1]"
    using st(1) by (auto simp: drbg_reseed_def drbg_sha3_256_def ref_ossl_def)
  have "be32_word (map (drbg_stream ref_ossl (ref_digest 32 [1])) [0..<4]) < uniform_limit 10"
    by (simp add: drbg_stream_def drbg_block_def be64_def ref_ossl_eval upt_rec be32_word_def
        uniform_limit_def)
  then show ?thesis
    using drbg_uniform_correct [OF refo.ossl_laws_axioms st(2), of 10 _ 0] st(1) key by auto
qed

end
