(* ===== verification/X25519.thy ===== *)
theory X25519
  imports Ossl
begin

text \<open>
  \<open>crypto/X25519.h\<close>, \<open>crypto/X25519.cc\<close>: the ephemeral key pair, its erasure, generation from
  caller-supplied bytes and the derivation of the shared secret.  Lemmas: an erased pair has
  no scalar left and derives nothing; two honest pairs agree.
\<close>

definition kX25519KeyLen :: nat where
  "kX25519KeyLen = 32"

record x25519_pair =
  kp_secret :: bytes
  kp_public :: bytes
  kp_erased :: bool

definition x25519_empty :: x25519_pair where
  "x25519_empty = \<lparr>kp_secret = [], kp_public = [], kp_erased = False\<rparr>"

definition x25519_erase :: "x25519_pair \<Rightarrow> x25519_pair" where
  "x25519_erase p = p\<lparr>kp_secret := [], kp_erased := True\<rparr>"

definition x25519Generate :: "ossl \<Rightarrow> bytes \<Rightarrow> x25519_pair option" where
  "x25519Generate L seed = do {
     require (length seed = kX25519KeyLen);
     pub \<leftarrow> o_x25519_public L seed;
     Some \<lparr>kp_secret = seed, kp_public = pub, kp_erased = False\<rparr> }"

text \<open>The result and \<open>sharedOut\<close>, which is cleared on every failure.\<close>

definition x25519Derive :: "ossl \<Rightarrow> bytes \<Rightarrow> bytes \<Rightarrow> bool \<times> bytes" where
  "x25519Derive L secret peer =
     (if length secret \<noteq> kX25519KeyLen \<or> length peer \<noteq> kX25519KeyLen then (False, [])
      else case o_x25519_derive L secret peer of
             None \<Rightarrow> (False, [])
           | Some shared \<Rightarrow> (True, shared))"

lemma x25519_erase_simps [simp]:
  "kp_secret (x25519_erase p) = []" "kp_erased (x25519_erase p)"
  "kp_public (x25519_erase p) = kp_public p"
  by (simp_all add: x25519_erase_def)

lemma x25519Derive_erased [simp]: "x25519Derive L [] p = (False, [])"
  by (simp add: x25519Derive_def kX25519KeyLen_def)

lemma x25519Generate_Some:
  "x25519Generate L seed = Some p \<longleftrightarrow>
     length seed = 32 \<and> kp_secret p = seed \<and> \<not> kp_erased p \<and>
     o_x25519_public L seed = Some (kp_public p)"
  by (cases p) (auto simp: x25519Generate_def kX25519KeyLen_def Option.bind_eq_Some_conv)

context ossl_laws
begin

lemma x25519Generate_total: "length seed = 32 \<Longrightarrow> \<exists>p. x25519Generate L seed = Some p"
  using x25519_public [of seed] by (auto simp: x25519Generate_def kX25519KeyLen_def)

lemma x25519Generate_lengths:
  "x25519Generate L seed = Some p \<Longrightarrow> length (kp_secret p) = 32 \<and> length (kp_public p) = 32"
  using x25519_public [of seed] by (auto simp: x25519Generate_Some)

lemma x25519Derive_len: "x25519Derive L s p = (True, z) \<Longrightarrow> length z = 32"
  by (auto simp: x25519Derive_def x25519_len split: if_splits option.splits)

lemma x25519_honest_agree:
  assumes "x25519Generate L sa = Some a" "x25519Generate L sb = Some b"
  shows "\<exists>z. x25519Derive L (kp_secret a) (kp_public b) = (True, z) \<and>
             x25519Derive L (kp_secret b) (kp_public a) = (True, z)"
  using x25519_agree [of sa sb "kp_public a" "kp_public b"] assms
    x25519Generate_lengths [OF assms(1)] x25519Generate_lengths [OF assms(2)]
  by (auto simp: x25519Generate_Some x25519Derive_def kX25519KeyLen_def)

end

end
