(* ===== verification/Ascon.thy ===== *)
theory Ascon
  imports Ossl
begin

text \<open>
  \<open>crypto/ascon/Ascon128a.h\<close>, \<open>crypto/ascon/Ascon128a.cc\<close>: the vendored Ascon-128a, word for
  word: the round function, the two permutations, initialisation, associated data, the block
  loops of sealing and opening with the partial last block, and the tag check.  A boolean
  result and an output buffer are a pair.  Lemmas: bytes and words convert back and forth,
  encryption and decryption of the body are inverse and reach the same state, hence opening
  accepts exactly the sealed strings.  Overwriting dead stack memory (\<open>wipe\<close>) is not modelled.
\<close>

definition kIv :: u64 where "kIv = 0x80800c0800000000"
definition kRoundsA :: nat where "kRoundsA = 12"
definition kRoundsB :: nat where "kRoundsB = 8"
definition kAsconKeyBytes :: nat where "kAsconKeyBytes = 16"
definition kAsconNonceBytes :: nat where "kAsconNonceBytes = 16"
definition kAsconTagBytes :: nat where "kAsconTagBytes = 16"
definition kAsconRateBytes :: nat where "kAsconRateBytes = 16"

lemmas ascon_consts = kRoundsA_def kRoundsB_def kAsconKeyBytes_def kAsconNonceBytes_def
  kAsconTagBytes_def kAsconRateBytes_def

definition kRoundConstants :: "u64 list" where
  "kRoundConstants = [0xf0, 0xe1, 0xd2, 0xc3, 0xb4, 0xa5, 0x96, 0x87, 0x78, 0x69, 0x5a, 0x4b]"

record ascon =
  x0 :: u64
  x1 :: u64
  x2 :: u64
  x3 :: u64
  x4 :: u64

definition rotr :: "u64 \<Rightarrow> nat \<Rightarrow> u64" where
  "rotr v n = (drop_bit n v OR push_bit (64 - n) v)"

definition load64be :: "bytes \<Rightarrow> u64" where
  "load64be p = fold (\<lambda>b v. push_bit 8 v OR ucast b) (take 8 p) 0"

text \<open>The loop from index 7 down to 0; \<open>acc\<close> holds the bytes already stored.\<close>

fun store64be_loop :: "nat \<Rightarrow> u64 \<Rightarrow> bytes \<Rightarrow> bytes" where
  "store64be_loop 0 v acc = acc"
| "store64be_loop (Suc i) v acc = store64be_loop i (drop_bit 8 v) (ucast (v AND 0xFF) # acc)"

definition store64be :: "u64 \<Rightarrow> bytes" where
  "store64be v = store64be_loop 8 v []"

definition asconRound :: "ascon \<Rightarrow> u64 \<Rightarrow> ascon" where
  "asconRound s constant =
     (let y0 = x0 s; y1 = x1 s; y2 = x2 s; y3 = x3 s; y4 = x4 s;
          y2 = y2 XOR constant;
          y0 = y0 XOR y4; y4 = y4 XOR y3; y2 = y2 XOR y1;
          t0 = NOT y0 AND y1; t1 = NOT y1 AND y2; t2 = NOT y2 AND y3;
          t3 = NOT y3 AND y4; t4 = NOT y4 AND y0;
          y0 = y0 XOR t1; y1 = y1 XOR t2; y2 = y2 XOR t3; y3 = y3 XOR t4; y4 = y4 XOR t0;
          y1 = y1 XOR y0; y0 = y0 XOR y4; y3 = y3 XOR y2; y2 = NOT y2
      in \<lparr>x0 = y0 XOR rotr y0 19 XOR rotr y0 28,
          x1 = y1 XOR rotr y1 61 XOR rotr y1 39,
          x2 = y2 XOR rotr y2 1 XOR rotr y2 6,
          x3 = y3 XOR rotr y3 10 XOR rotr y3 17,
          x4 = y4 XOR rotr y4 7 XOR rotr y4 41\<rparr>)"

definition ascon_permute :: "ascon \<Rightarrow> nat \<Rightarrow> ascon" where
  "ascon_permute s rounds =
     fold (\<lambda>i s. asconRound s (kRoundConstants ! i)) [kRoundsA - rounds..<kRoundsA] s"

definition ascon_initialise :: "bytes \<Rightarrow> bytes \<Rightarrow> ascon" where
  "ascon_initialise key nonce =
     (let k0 = load64be key; k1 = load64be (drop 8 key);
          s = ascon_permute \<lparr>x0 = kIv, x1 = k0, x2 = k1, x3 = load64be nonce,
                             x4 = load64be (drop 8 nonce)\<rparr> kRoundsA
      in s\<lparr>x3 := x3 s XOR k0, x4 := x4 s XOR k1\<rparr>)"

text \<open>\<open>s.x[0] ^= load64be(p); s.x[1] ^= load64be(p + 8)\<close>\<close>

definition ascon_xor_rate :: "bytes \<Rightarrow> ascon \<Rightarrow> ascon" where
  "ascon_xor_rate p s =
     s\<lparr>x0 := x0 s XOR load64be p, x1 := x1 s XOR load64be (drop 8 p)\<rparr>"

text \<open>The 16-byte block with the remainder, the padding byte and zeros.\<close>

definition ascon_pad :: "bytes \<Rightarrow> bytes" where
  "ascon_pad rest = rest @ 0x80 # replicate (kAsconRateBytes - 1 - length rest) 0"

fun ascon_absorb_loop :: "ascon \<Rightarrow> bytes \<Rightarrow> ascon \<times> bytes" where
  "ascon_absorb_loop s ad =
     (if 16 \<le> length ad
      then ascon_absorb_loop (ascon_permute (ascon_xor_rate ad s) kRoundsB) (drop 16 ad)
      else (s, ad))"

definition absorbAssociatedData :: "ascon \<Rightarrow> bytes \<Rightarrow> ascon" where
  "absorbAssociatedData s ad =
     (let s = (if ad \<noteq> [] then
                 (let (s, rest) = ascon_absorb_loop s ad
                  in ascon_permute (ascon_xor_rate (ascon_pad rest) s) kRoundsB)
               else s)
      in s\<lparr>x4 := x4 s XOR 1\<rparr>)"

definition ascon_finalise :: "ascon \<Rightarrow> bytes \<Rightarrow> bytes" where
  "ascon_finalise s key =
     (let k0 = load64be key; k1 = load64be (drop 8 key);
          s = ascon_permute (s\<lparr>x2 := x2 s XOR k0, x3 := x3 s XOR k1\<rparr>) kRoundsA
      in store64be (x3 s XOR k0) @ store64be (x4 s XOR k1))"

definition ascon_rate :: "ascon \<Rightarrow> bytes" where
  "ascon_rate s = store64be (x0 s) @ store64be (x1 s)"

subsection \<open>Sealing\<close>

text \<open>The loop over whole blocks: state, ciphertext so far, plaintext left.\<close>

fun ascon_enc_loop :: "ascon \<Rightarrow> bytes \<Rightarrow> bytes \<Rightarrow> ascon \<times> bytes \<times> bytes" where
  "ascon_enc_loop s ct pt =
     (if 16 \<le> length pt then
        (let s = ascon_xor_rate pt s
         in ascon_enc_loop (ascon_permute s kRoundsB) (ct @ ascon_rate s) (drop 16 pt))
      else (s, ct, pt))"

text \<open>The padded last block.\<close>

definition ascon_enc_last :: "ascon \<Rightarrow> bytes \<Rightarrow> ascon \<times> bytes" where
  "ascon_enc_last s rest =
     (let s = ascon_xor_rate (ascon_pad rest) s in (s, take (length rest) (ascon_rate s)))"

definition ascon128aEncrypt :: "bytes \<Rightarrow> bytes \<Rightarrow> bytes \<Rightarrow> bytes \<Rightarrow> bool \<times> bytes" where
  "ascon128aEncrypt key nonce ad pt =
     (if length key \<noteq> kAsconKeyBytes \<or> length nonce \<noteq> kAsconNonceBytes then (False, [])
      else
        let s = absorbAssociatedData (ascon_initialise key nonce) ad;
            (s, ct, rest) = ascon_enc_loop s [] pt;
            (s, last_block) = ascon_enc_last s rest
        in (True, ct @ last_block @ ascon_finalise s key))"

subsection \<open>Opening\<close>

fun ascon_dec_loop :: "ascon \<Rightarrow> bytes \<Rightarrow> bytes \<Rightarrow> ascon \<times> bytes \<times> bytes" where
  "ascon_dec_loop s pt ct =
     (if 16 \<le> length ct then
        (let c0 = load64be ct; c1 = load64be (drop 8 ct);
             p = store64be (x0 s XOR c0) @ store64be (x1 s XOR c1)
         in ascon_dec_loop (ascon_permute (s\<lparr>x0 := c0, x1 := c1\<rparr>) kRoundsB) (pt @ p)
              (drop 16 ct))
      else (s, pt, ct))"

text \<open>The partial last block: recover the plaintext, then rebuild the rate.\<close>

definition ascon_dec_last :: "ascon \<Rightarrow> bytes \<Rightarrow> ascon \<times> bytes" where
  "ascon_dec_last s rest =
     (let rate = ascon_rate s; n = length rest;
          p = map2 (XOR) (take n rate) rest;
          rate = rest @ drop n rate;
          rate = rate[n := rate ! n XOR 0x80]
      in (s\<lparr>x0 := load64be rate, x1 := load64be (drop 8 rate)\<rparr>, p))"

definition ascon128aDecrypt ::
    "ossl \<Rightarrow> bytes \<Rightarrow> bytes \<Rightarrow> bytes \<Rightarrow> bytes \<Rightarrow> bool \<times> bytes" where
  "ascon128aDecrypt L key nonce ad ct =
     (if length key \<noteq> kAsconKeyBytes \<or> length nonce \<noteq> kAsconNonceBytes then (False, [])
      else if length ct < kAsconTagBytes then (False, [])
      else
        let bodyLen = length ct - kAsconTagBytes;
            s = absorbAssociatedData (ascon_initialise key nonce) ad;
            (s, pt, rest) = ascon_dec_loop s [] (take bodyLen ct);
            (s, last_block) = ascon_dec_last s rest;
            tag = ascon_finalise s key
        in if o_memcmp_eq L tag (drop bodyLen ct) kAsconTagBytes then (True, pt @ last_block)
           else (False, []))"

declare ascon_absorb_loop.simps [simp del]
declare ascon_enc_loop.simps [simp del]
declare ascon_dec_loop.simps [simp del]

subsection \<open>Bytes and words\<close>

lemma store64be_bytes:
  "store64be v = [ucast (drop_bit 56 v), ucast (drop_bit 48 v), ucast (drop_bit 40 v),
    ucast (drop_bit 32 v), ucast (drop_bit 24 v), ucast (drop_bit 16 v),
    ucast (drop_bit 8 v), ucast v]"
proof -
  have "ucast (w AND 0xFF) = (ucast w :: u8)" for w :: u64
  proof (rule bit_word_eqI)
    have m: "(0xFF :: u64) = mask 8" by (simp add: mask_eq_exp_minus_1)
    fix n show "bit (ucast (w AND 0xFF) :: u8) n = bit (ucast w :: u8) n"
      unfolding m by (auto simp: bit_simps)
  qed
  then show ?thesis by (simp add: store64be_def eval_nat_numeral)
qed

lemma length_store64be [simp]: "length (store64be v) = 8"
  by (simp add: store64be_bytes)

lemma list8:
  assumes "length b = 8"
  obtains b0 b1 b2 b3 b4 b5 b6 b7 where "b = [b0, b1, b2, b3, b4, b5, b6, b7]"
  using assms by (auto simp: eval_nat_numeral length_Suc_conv)

lemma load64be_8:
  "load64be [b0, b1, b2, b3, b4, b5, b6, b7] =
     push_bit 56 (ucast b0) OR push_bit 48 (ucast b1) OR push_bit 40 (ucast b2)
     OR push_bit 32 (ucast b3) OR push_bit 24 (ucast b4) OR push_bit 16 (ucast b5)
     OR push_bit 8 (ucast b6) OR ucast b7"
  by (simp add: load64be_def push_bit_or or.assoc)

lemma load64be_append [simp]: "length a = 8 \<Longrightarrow> load64be (a @ b) = load64be a"
  by (simp add: load64be_def)

lemma load64be_take: "load64be (take 16 a) = load64be a"
  by (simp add: load64be_def min_def)

lemma store_load [simp]: "length b = 8 \<Longrightarrow> store64be (load64be b) = b"
proof -
  assume "length b = 8"
  then obtain b0 b1 b2 b3 b4 b5 b6 b7 where b: "b = [b0, b1, b2, b3, b4, b5, b6, b7]"
    by (rule list8)
  show ?thesis unfolding b load64be_8 store64be_bytes
    by (simp, intro conjI; rule bit_word_eqI; auto simp: bit_simps dest: bit_imp_le_length)
qed

lemma store_inject: "store64be v = store64be w \<Longrightarrow> v = w"
proof (rule bit_word_eqI)
  fix n assume e: "store64be v = store64be w" and "n < LENGTH(64)"
  then have n: "n < 64" by simp
  have b: "bit (ucast (drop_bit k v) :: u8) (n - k) = bit (ucast (drop_bit k w) :: u8) (n - k)"
    if "k \<in> {0, 8, 16, 24, 32, 40, 48, 56}" for k
    using that e by (auto simp: store64be_bytes)
  have "8 * (n div 8) \<in> {0, 8, 16, 24, 32, 40, 48, 56}"
  proof -
    have "n div 8 < 8" using n by auto
    then have "n div 8 \<in> {0, 1, 2, 3, 4, 5, 6, 7}" by auto
    then show ?thesis by auto
  qed
  from b [OF this] show "bit v n = bit w n"
    using n by (simp add: bit_simps minus_mod_eq_mult_div [symmetric])
qed

lemma load_store [simp]: "load64be (store64be v) = v"
  by (rule store_inject) simp

text \<open>Exclusive or of a word is exclusive or of its bytes.\<close>

lemma store_xor: "store64be (v XOR w) = map2 (XOR) (store64be v) (store64be w)"
  by (simp add: store64be_bytes, intro conjI; rule bit_word_eqI; auto simp: bit_simps)

lemma length_ascon_rate [simp]: "length (ascon_rate s) = 16"
  by (simp add: ascon_rate_def)

lemma ascon_rate_xor:
  "length p = 16 \<Longrightarrow> ascon_rate (ascon_xor_rate p s) = map2 (XOR) (ascon_rate s) p"
proof -
  assume p: "length p = 16"
  define a b where "a = take 8 p" and "b = drop 8 p"
  have "p = a @ b" "length a = 8" "length b = 8" using p by (simp_all add: a_def b_def)
  then show ?thesis by (simp add: ascon_rate_def ascon_xor_rate_def store_xor)
qed

lemma length_ascon_pad: "length rest < 16 \<Longrightarrow> length (ascon_pad rest) = 16"
  by (simp add: ascon_pad_def ascon_consts)

lemma ascon_reload:
  "s\<lparr>x0 := load64be (ascon_rate t), x1 := load64be (drop 8 (ascon_rate t))\<rparr> = s\<lparr>x0 := x0 t, x1 := x1 t\<rparr>"
  by (simp add: ascon_rate_def)

lemma ascon_xor_rate_frame:
  "s\<lparr>x0 := x0 (ascon_xor_rate p s), x1 := x1 (ascon_xor_rate p s)\<rparr> = ascon_xor_rate p s"
  by (simp add: ascon_xor_rate_def)

subsection \<open>The block loops are inverse\<close>

text \<open>The accumulator of a block loop only collects.\<close>

lemma ascon_enc_loop_acc:
  "ascon_enc_loop s (a @ ct) pt = (let (s', c, r) = ascon_enc_loop s ct pt in (s', a @ c, r))"
proof (induction s ct pt rule: ascon_enc_loop.induct)
  case (1 s ct pt)
  then show ?case
    by (simp add: ascon_enc_loop.simps [of s _ pt] Let_def)
qed

lemma ascon_dec_loop_acc:
  "ascon_dec_loop s (a @ pt) ct = (let (s', p, r) = ascon_dec_loop s pt ct in (s', a @ p, r))"
proof (induction s pt ct rule: ascon_dec_loop.induct)
  case (1 s pt ct)
  then show ?case
    by (simp add: ascon_dec_loop.simps [of s _ ct] Let_def)
qed

text \<open>Sealing and opening a body, as one function of state and input.\<close>

definition ascon_seal_body :: "ascon \<Rightarrow> bytes \<Rightarrow> ascon \<times> bytes" where
  "ascon_seal_body s pt =
     (let (s, ct, rest) = ascon_enc_loop s [] pt; (s, l) = ascon_enc_last s rest in (s, ct @ l))"

definition ascon_open_body :: "ascon \<Rightarrow> bytes \<Rightarrow> ascon \<times> bytes" where
  "ascon_open_body s ct =
     (let (s, pt, rest) = ascon_dec_loop s [] ct; (s, l) = ascon_dec_last s rest in (s, pt @ l))"

lemma ascon_seal_body_short: "length pt < 16 \<Longrightarrow> ascon_seal_body s pt = ascon_enc_last s pt"
  by (simp add: ascon_seal_body_def ascon_enc_loop.simps [of s "[]" pt])

lemma ascon_open_body_short: "length ct < 16 \<Longrightarrow> ascon_open_body s ct = ascon_dec_last s ct"
  by (simp add: ascon_open_body_def ascon_dec_loop.simps [of s "[]" ct])

lemma ascon_seal_body_long:
  assumes "16 \<le> length pt" and t: "t = ascon_xor_rate pt s"
    and r: "ascon_seal_body (ascon_permute t kRoundsB) (drop 16 pt) = (s', c)"
  shows "ascon_seal_body s pt = (s', ascon_rate t @ c)"
proof -
  obtain s1 c1 r1 where e: "ascon_enc_loop (ascon_permute t kRoundsB) [] (drop 16 pt) = (s1, c1, r1)"
    by (metis prod_cases3)
  have "ascon_enc_loop s [] pt = (s1, ascon_rate t @ c1, r1)"
    using ascon_enc_loop.simps [of s "[]" pt] assms(1) t
      ascon_enc_loop_acc [of "ascon_permute t kRoundsB" "ascon_rate t" "[]" "drop 16 pt"]
    by (simp add: e [unfolded t] Let_def)
  with r e show ?thesis by (simp add: ascon_seal_body_def split: prod.splits)
qed

lemma ascon_open_body_long:
  assumes "16 \<le> length ct" and t: "t = s\<lparr>x0 := load64be ct, x1 := load64be (drop 8 ct)\<rparr>"
    and r: "ascon_open_body (ascon_permute t kRoundsB) (drop 16 ct) = (s', p)"
  shows "ascon_open_body s ct =
    (s', store64be (x0 s XOR load64be ct) @ store64be (x1 s XOR load64be (drop 8 ct)) @ p)"
proof -
  define q where "q = store64be (x0 s XOR load64be ct) @ store64be (x1 s XOR load64be (drop 8 ct))"
  obtain s1 p1 r1 where e: "ascon_dec_loop (ascon_permute t kRoundsB) [] (drop 16 ct) = (s1, p1, r1)"
    by (metis prod_cases3)
  have "ascon_dec_loop s [] ct = (s1, q @ p1, r1)"
    using ascon_dec_loop.simps [of s "[]" ct] assms(1) t
      ascon_dec_loop_acc [of "ascon_permute t kRoundsB" q "[]" "drop 16 ct"]
    by (simp add: e [unfolded t] Let_def q_def)
  with r e show ?thesis by (simp add: ascon_open_body_def q_def split: prod.splits)
qed

text \<open>The partial last block.\<close>

lemma map2_xor_cancel:
  "length a = length (b :: 'a :: len word list) \<Longrightarrow> map2 (XOR) a (map2 (XOR) a b) = b"
  by (rule nth_equalityI) (simp_all add: xor.assoc [symmetric])

lemma take_map2: "take n (map2 f a b) = map2 f (take n a) (take n b)"
  by (simp add: take_map take_zip)

lemma ascon_enc_last_eq:
  assumes "length p < 16"
  shows "ascon_enc_last s p =
    (ascon_xor_rate (ascon_pad p) s, map2 (XOR) (take (length p) (ascon_rate s)) p)"
proof -
  have "take (length p) (ascon_pad p) = p" by (simp add: ascon_pad_def)
  then show ?thesis
    using assms by (simp add: ascon_enc_last_def Let_def ascon_rate_xor length_ascon_pad take_map2)
qed

text \<open>The rate with the padded block added is the ciphertext remainder followed by the old rate
  with one bit of the first byte flipped.\<close>

lemma ascon_rate_last:
  assumes n: "length p < 16" and r: "length r = 16"
  shows "map2 (XOR) r (ascon_pad p) =
    (map2 (XOR) (take (length p) r) p @ drop (length p) r)[length p := r ! length p XOR 0x80]"
proof (rule nth_equalityI)
  show "length (map2 (XOR) r (ascon_pad p)) = length ((map2 (XOR) (take (length p) r) p
    @ drop (length p) r)[length p := r ! length p XOR 0x80])"
    using n r by (simp add: length_ascon_pad)
  fix i assume "i < length (map2 (XOR) r (ascon_pad p))"
  then have i: "i < 16" using n r by (simp add: length_ascon_pad)
  consider "i < length p" | "i = length p" | "length p < i" by linarith
  then show "map2 (XOR) r (ascon_pad p) ! i = (map2 (XOR) (take (length p) r) p
    @ drop (length p) r)[length p := r ! length p XOR 0x80] ! i"
    by cases (use n r i in \<open>auto simp: ascon_pad_def ascon_consts nth_append nth_Cons'\<close>)
qed

lemma ascon_dec_last_eq:
  assumes "length c < 16" and p: "p = map2 (XOR) (take (length c) (ascon_rate s)) c"
  shows "ascon_dec_last s c = (ascon_xor_rate (ascon_pad p) s, p)"
proof -
  have len: "length p = length c" using assms by simp
  have c: "map2 (XOR) (take (length c) (ascon_rate s)) p = c"
    using assms by (simp add: map2_xor_cancel)
  have "ascon_rate (ascon_xor_rate (ascon_pad p) s) =
    (c @ drop (length c) (ascon_rate s))[length c := ascon_rate s ! length c XOR 0x80]"
    using ascon_rate_last [of p "ascon_rate s"] assms(1) len c
    by (simp add: ascon_rate_xor length_ascon_pad)
  moreover have "(c @ drop (length c) (ascon_rate s)) ! length c = ascon_rate s ! length c"
    using assms(1) by (simp add: nth_append)
  ultimately show ?thesis
    using ascon_reload [where s = s and t = "ascon_xor_rate (ascon_pad p) s"] ascon_xor_rate_frame [where s = s and p = "ascon_pad p"]
    by (simp add: ascon_dec_last_def Let_def p)
qed

lemma split_rate: "x = take 8 x @ take 8 (drop 8 x) @ drop 16 x"
  using append_take_drop_id [of 8 x] append_take_drop_id [of 8 "drop 8 x"] by simp

text \<open>Opening what was sealed gives the plaintext back and reaches the same state; sealing what
  was opened gives the ciphertext back.\<close>

lemma ascon_open_seal: "ascon_seal_body s pt = (s', ct) \<Longrightarrow> ascon_open_body s ct = (s', pt)"
proof (induction "length pt" arbitrary: s pt ct rule: less_induct)
  case less
  show ?case
  proof (cases "16 \<le> length pt")
    case False
    with less.prems show ?thesis
      by (auto simp: ascon_seal_body_short ascon_open_body_short ascon_enc_last_eq
          intro!: ascon_dec_last_eq simp: map2_xor_cancel [symmetric])
  next
    case True
    define t where "t = ascon_xor_rate pt s"
    obtain c where r: "ascon_seal_body (ascon_permute t kRoundsB) (drop 16 pt) = (s', c)"
      and ct: "ct = ascon_rate t @ c"
      using ascon_seal_body_long [OF True t_def] less.prems by (metis prod.collapse prod.inject)
    have IH: "ascon_open_body (ascon_permute t kRoundsB) (drop 16 ct) = (s', drop 16 pt)"
      using less.hyps [OF _ r] True ct by simp
    have t: "t = s\<lparr>x0 := load64be ct, x1 := load64be (drop 8 ct)\<rparr>"
      unfolding ct by (simp add: ascon_rate_def t_def ascon_xor_rate_def)
    define a b where "a = take 8 pt" and "b = take 8 (drop 8 pt)"
    have pt: "pt = a @ b @ drop 16 pt" unfolding a_def b_def by (rule split_rate)
    have ab: "length a = 8" "length b = 8" using True by (simp_all add: a_def b_def)
    have "load64be pt = load64be a" "load64be (drop 8 pt) = load64be b"
      by (simp_all add: load64be_def a_def b_def)
    then have "store64be (x0 s XOR load64be ct) = a" "store64be (x1 s XOR load64be (drop 8 ct)) = b"
      using ab unfolding ct
      by (simp_all add: ascon_rate_def t_def ascon_xor_rate_def xor.assoc [symmetric])
    then show ?thesis
      using ascon_open_body_long [OF _ t IH] ct pt by simp
  qed
qed

lemma ascon_seal_open: "ascon_open_body s ct = (s', pt) \<Longrightarrow> ascon_seal_body s pt = (s', ct)"
proof (induction "length ct" arbitrary: s pt ct rule: less_induct)
  case less
  show ?case
  proof (cases "16 \<le> length ct")
    case False
    with less.prems show ?thesis
      by (auto simp: ascon_open_body_short ascon_seal_body_short ascon_enc_last_eq
          ascon_dec_last_eq [OF _ refl] map2_xor_cancel)
  next
    case True
    define t where "t = s\<lparr>x0 := load64be ct, x1 := load64be (drop 8 ct)\<rparr>"
    obtain p where r: "ascon_open_body (ascon_permute t kRoundsB) (drop 16 ct) = (s', p)"
      and pt: "pt = store64be (x0 s XOR load64be ct) @ store64be (x1 s XOR load64be (drop 8 ct)) @ p"
      using ascon_open_body_long [OF True t_def] less.prems by (metis prod.collapse prod.inject)
    have IH: "ascon_seal_body (ascon_permute t kRoundsB) (drop 16 pt) = (s', drop 16 ct)"
      using less.hyps [OF _ r] True pt by simp
    have t: "t = ascon_xor_rate pt s"
      unfolding pt by (simp add: t_def ascon_xor_rate_def xor.assoc [symmetric])
    define a b where "a = take 8 ct" and "b = take 8 (drop 8 ct)"
    have ab: "length a = 8" "length b = 8" using True by (simp_all add: a_def b_def)
    have "ct = a @ b @ drop 16 ct" unfolding a_def b_def by (rule split_rate)
    moreover have "load64be ct = load64be a" "load64be (drop 8 ct) = load64be b"
      by (simp_all add: load64be_def a_def b_def)
    then have "ascon_rate t = a @ b" using ab by (simp add: ascon_rate_def t_def)
    ultimately show ?thesis
      using ascon_seal_body_long [OF _ t IH] pt by simp
  qed
qed

lemma ascon_body_length: "ascon_seal_body s pt = (s', ct) \<Longrightarrow> length ct = length pt"
proof (induction "length pt" arbitrary: s pt ct rule: less_induct)
  case less
  show ?case
  proof (cases "16 \<le> length pt")
    case False
    with less.prems show ?thesis by (auto simp: ascon_seal_body_short ascon_enc_last_eq)
  next
    case True
    define t where "t = ascon_xor_rate pt s"
    obtain c where r: "ascon_seal_body (ascon_permute t kRoundsB) (drop 16 pt) = (s', c)"
      and ct: "ct = ascon_rate t @ c"
      using ascon_seal_body_long [OF True t_def] less.prems by (metis prod.collapse prod.inject)
    from less.hyps [OF _ r] True ct show ?thesis by simp
  qed
qed

subsection \<open>Sealing and opening\<close>

lemma length_ascon_finalise [simp]: "length (ascon_finalise s key) = 16"
  by (simp add: ascon_finalise_def Let_def)

lemma ascon128aEncrypt_body:
  assumes "length key = 16" "length nonce = 16"
  shows "ascon128aEncrypt key nonce ad pt =
    (let (s, c) = ascon_seal_body (absorbAssociatedData (ascon_initialise key nonce) ad) pt
     in (True, c @ ascon_finalise s key))"
  using assms
  by (simp add: ascon128aEncrypt_def ascon_seal_body_def ascon_consts Let_def split: prod.splits)

lemma ascon128aDecrypt_body:
  assumes "length key = 16" "length nonce = 16" "16 \<le> length ct"
  shows "ascon128aDecrypt L key nonce ad ct =
    (let n = length ct - 16;
         (s, p) = ascon_open_body (absorbAssociatedData (ascon_initialise key nonce) ad) (take n ct)
     in if o_memcmp_eq L (ascon_finalise s key) (drop n ct) 16 then (True, p) else (False, []))"
  using assms
  by (simp add: ascon128aDecrypt_def ascon_open_body_def ascon_consts Let_def split: prod.splits)

lemma ascon128aEncrypt_length:
  assumes "ascon128aEncrypt key nonce ad pt = (True, ct)"
  shows "length ct = length pt + 16" "length key = 16" "length nonce = 16"
proof -
  from assms show k: "length key = 16" "length nonce = 16"
    by (auto simp: ascon128aEncrypt_def ascon_consts split: if_splits)
  from assms show "length ct = length pt + 16"
    by (auto simp: ascon128aEncrypt_body [OF k] dest: ascon_body_length split: prod.splits)
qed

lemma ascon128aDecrypt_False: "ascon128aDecrypt L key nonce ad ct = (False, pt) \<Longrightarrow> pt = []"
  by (auto simp: ascon128aDecrypt_def Let_def split: if_splits prod.splits)

context ossl_laws
begin

lemma ascon_open_sealed:
  assumes "ascon128aEncrypt key nonce ad pt = (True, ct)"
  shows "ascon128aDecrypt L key nonce ad ct = (True, pt)"
proof -
  note k = ascon128aEncrypt_length [OF assms]
  obtain s c where b: "ascon_seal_body (absorbAssociatedData (ascon_initialise key nonce) ad) pt = (s, c)"
    and ct: "ct = c @ ascon_finalise s key"
    using assms by (auto simp: ascon128aEncrypt_body k split: prod.splits)
  show ?thesis
    using ascon_open_seal [OF b] ascon_body_length [OF b]
    by (simp add: ascon128aDecrypt_body k ct Let_def memcmp)
qed

lemma ascon_opened_sealed:
  assumes "ascon128aDecrypt L key nonce ad ct = (True, pt)"
  shows "ascon128aEncrypt key nonce ad pt = (True, ct)"
proof -
  from assms have k: "length key = 16" "length nonce = 16" "16 \<le> length ct"
    by (auto simp: ascon128aDecrypt_def ascon_consts split: if_splits)
  obtain s p where b: "ascon_open_body (absorbAssociatedData (ascon_initialise key nonce) ad)
      (take (length ct - 16) ct) = (s, p)" by (rule prod.exhaust)
  with assms k have "p = pt" and t: "ascon_finalise s key = drop (length ct - 16) ct"
    by (auto simp: ascon128aDecrypt_body Let_def memcmp split: if_splits)
  with ascon_seal_open [OF b] k show ?thesis
    by (simp add: ascon128aEncrypt_body)
qed

end

subsection \<open>Properties\<close>

text \<open>C25. Opening is exact: \<open>ascon128aDecrypt\<close> accepts a string and returns a plaintext if and
  only if that string is what \<open>ascon128aEncrypt\<close> makes of that plaintext under the same key,
  nonce and associated data; on every rejection (wrong lengths, no room for a tag, wrong tag)
  the output buffer is empty.\<close>

theorem ascon_open_exact:
  assumes "ossl_laws L"
  shows "(ascon128aDecrypt L key nonce ad ct = (True, pt) \<longleftrightarrow>
      ascon128aEncrypt key nonce ad pt = (True, ct)) \<and>
    (\<forall>out. ascon128aDecrypt L key nonce ad ct = (False, out) \<longrightarrow> out = [])"
  using ossl_laws.ascon_open_sealed [OF assms] ossl_laws.ascon_opened_sealed [OF assms]
    ascon128aDecrypt_False by blast

theorem ascon_open_exact_witness:
  "\<exists>ct. ascon128aEncrypt (replicate 16 1) (replicate 16 2) [3] [4, 5] = (True, ct) \<and>
     length ct = 18 \<and> ascon128aDecrypt ref_ossl (replicate 16 1) (replicate 16 2) [3] ct = (True, [4, 5])"
proof -
  obtain ct where ct: "ascon128aEncrypt (replicate 16 1) (replicate 16 2) [3] [4, 5] = (True, ct)"
    by (force simp: ascon128aEncrypt_body split: prod.split)
  then have "ascon128aDecrypt ref_ossl (replicate 16 1) (replicate 16 2) [3] ct = (True, [4, 5])"
    using ascon_open_exact [OF refo.ossl_laws_axioms] by blast
  with ct ascon128aEncrypt_length [OF ct] show ?thesis by simp
qed

end
