(* ===== verification/Suite.thy ===== *)
theory Suite
  imports Ossl Ref_Core
begin

text \<open>
  \<open>crypto/CryptoSuite.h\<close>, \<open>crypto/PrimitiveCounters.h\<close> (the primitive names): the interface of a
  cryptographic suite.  The C++ vtable is the record \<open>suite\<close>; what the protocol and the fuzzy
  extractor rely on is the locale \<open>crypto_suite\<close>, interpreted for each suite in
  \<open>Sha3_Suite\<close> and \<open>Spongent_Suite\<close>.
\<close>

datatype primitive =
    Hash160 | Mac | MacVerify | Kdf | Extract | AeadSeal | AeadOpen | DhKeygen | DhDerive
  | PufEval | FeGen | FeRep | BchEncode | BchDecode | Rng | Sign | Verify | COUNT

primrec primitiveName :: "primitive \<Rightarrow> string" where
  "primitiveName Hash160 = ''hash160''"
| "primitiveName Mac = ''mac''"
| "primitiveName MacVerify = ''mac_verify''"
| "primitiveName Kdf = ''kdf''"
| "primitiveName Extract = ''extract''"
| "primitiveName AeadSeal = ''aead_seal''"
| "primitiveName AeadOpen = ''aead_open''"
| "primitiveName DhKeygen = ''dh_keygen''"
| "primitiveName DhDerive = ''dh_derive''"
| "primitiveName PufEval = ''puf_eval''"
| "primitiveName FeGen = ''fe_gen''"
| "primitiveName FeRep = ''fe_rep''"
| "primitiveName BchEncode = ''bch_encode''"
| "primitiveName BchDecode = ''bch_decode''"
| "primitiveName Rng = ''rng''"
| "primitiveName Sign = ''sign''"
| "primitiveName Verify = ''verify''"
| "primitiveName COUNT = ''unknown''"

text \<open>\<open>SuiteId\<close> with its values.\<close>

datatype suite_id = SHA3 | SPONGENT

primrec suiteIdValue :: "suite_id \<Rightarrow> u8" where
  "suiteIdValue SHA3 = 0x01"
| "suiteIdValue SPONGENT = 0x02"

text \<open>The key-derivation labels.\<close>

definition kFeRoot :: string where "kFeRoot = ''uavauth/v1/fe-root''"
definition kFeExtract :: string where "kFeExtract = ''uavauth/v1/fe-extract''"
definition kP2Auth :: string where "kP2Auth = ''uavauth/v1/p2-auth''"
definition kP2Sess :: string where "kP2Sess = ''uavauth/v1/p2-sess''"
definition kP2Aead :: string where "kP2Aead = ''uavauth/v1/p2-aead''"
definition kPairCred :: string where "kPairCred = ''uavauth/v1/pair-cred''"
definition kPeerAuth :: string where "kPeerAuth = ''uavauth/v1/peer-auth''"
definition kPeerSess :: string where "kPeerSess = ''uavauth/v1/peer-sess''"
definition kTidRotate :: string where "kTidRotate = ''uavauth/v1/tid-rotate''"

lemmas label_defs = kFeRoot_def kFeExtract_def kP2Auth_def kP2Sess_def kP2Aead_def
  kPairCred_def kPeerAuth_def kPeerSess_def kTidRotate_def

text \<open>Both foreign libraries together.\<close>

locale crypto_env = core_laws C + ossl_laws L for C L

interpretation ref_env: crypto_env ref_core ref_ossl
  by (intro crypto_env.intro ref_core_laws refo.ossl_laws_axioms)

text \<open>A suite object; \<open>aeadSeal\<close> and \<open>aeadOpen\<close> get the old content of their output buffer
  last and return the result with the new content.\<close>

record suite =
  su_id :: suite_id
  su_name :: string
  su_securityLevelBits :: nat
  su_hashLen :: nat
  su_macLen :: nat
  su_keyLen :: nat
  su_aeadKeyLen :: nat
  su_aeadNonceLen :: nat
  su_aeadTagLen :: nat
  su_hash160 :: "bytes \<Rightarrow> bytes option"
  su_mac :: "bytes \<Rightarrow> bytes \<Rightarrow> bytes option"
  su_macVerify :: "bytes \<Rightarrow> bytes \<Rightarrow> bytes \<Rightarrow> bool option"
  su_kdf :: "bytes \<Rightarrow> bytes \<Rightarrow> string \<Rightarrow> bytes \<Rightarrow> nat \<Rightarrow> bytes option"
  su_extract :: "bytes \<Rightarrow> bytes \<Rightarrow> bytes option"
  su_aeadSeal :: "bytes \<Rightarrow> bytes \<Rightarrow> bytes \<Rightarrow> bytes \<Rightarrow> bytes \<Rightarrow> bool \<times> bytes"
  su_aeadOpen :: "bytes \<Rightarrow> bytes \<Rightarrow> bytes \<Rightarrow> bytes \<Rightarrow> bytes \<Rightarrow> bool \<times> bytes"

text \<open>The contract.  The size bounds of \<open>kdf_total\<close> are the weakest of the two suites: a 16-bit
  length prefix, HKDF's 255 blocks.\<close>

locale crypto_suite =
  fixes S :: suite
  assumes suite_lens: "su_hashLen S = 20" "su_macLen S = 16" "su_keyLen S = 32"
      "su_aeadTagLen S = 16"
    and aead_lens: "0 < su_aeadKeyLen S" "su_aeadKeyLen S \<le> 32" "su_aeadNonceLen S \<le> 16"
    and hash160_len: "su_hash160 S m = Some h \<Longrightarrow> length h = 20"
    and mac_total: "length k = 32 \<Longrightarrow> \<exists>t. su_mac S k m = Some t"
    and mac_len: "su_mac S k m = Some t \<Longrightarrow> length t = 16"
    and mac_verify: "su_mac S k m = Some e \<Longrightarrow> su_macVerify S k m t = Some (t = e)"
    and mac_verified: "su_macVerify S k m t = Some True \<Longrightarrow> su_mac S k m = Some t"
    and kdf_len: "su_kdf S ikm salt lab info n = Some key \<Longrightarrow> length key = n"
    and kdf_total: "ikm \<noteq> [] \<Longrightarrow> length ikm \<le> 65535 \<Longrightarrow> length salt \<le> 65535 \<Longrightarrow>
      length lab \<le> 64 \<Longrightarrow> length info \<le> 512 \<Longrightarrow> 0 < n \<Longrightarrow> n \<le> 8160 \<Longrightarrow>
      \<exists>key. su_kdf S ikm salt lab info n = Some key"
    and extract_len: "su_extract S salt src = Some key \<Longrightarrow> length key = 32"
    and extract_total: "src \<noteq> [] \<Longrightarrow> length src \<le> 65535 \<Longrightarrow> length salt \<le> 65535 \<Longrightarrow>
      \<exists>key. su_extract S salt src = Some key"
    and seal_total: "length k = su_aeadKeyLen S \<Longrightarrow> length nc = su_aeadNonceLen S \<Longrightarrow>
      \<exists>ct. su_aeadSeal S k nc aad pt out = (True, ct)"
    and seal_len: "su_aeadSeal S k nc aad pt out = (True, ct) \<Longrightarrow> length ct = length pt + 16"
    and open_sealed: "su_aeadSeal S k nc aad pt out = (True, ct) \<Longrightarrow>
      su_aeadOpen S k nc aad ct out' = (True, pt)"
    and open_len: "su_aeadOpen S k nc aad ct out = (True, pt) \<Longrightarrow> length ct = length pt + 16"
begin

lemma mac_verify_own: "su_mac S k m = Some t \<Longrightarrow> su_macVerify S k m t = Some True"
  by (simp add: mac_verify)

text \<open>Key and nonce of M4 are cut from one derivation.\<close>

lemma aead_split:
  assumes "length kn = su_aeadKeyLen S + su_aeadNonceLen S"
  shows "length (take (su_aeadKeyLen S) kn) = su_aeadKeyLen S"
    and "length (drop (su_aeadKeyLen S) kn) = su_aeadNonceLen S"
  using assms by simp_all

end

end
