(* ===== verification/Spongent.thy ===== *)
theory Spongent
  imports Core
begin

text \<open>
  \<open>crypto/spongent/Spongent160.h\<close>, \<open>crypto/spongent/Spongent160.cc\<close>: the vendored
  SPONGENT-160/160/16 permutation with its table-driven bit layer, and the sponge over it.
  Lemmas: the table of byte contributions computes exactly the bit permutation of the header's
  formula; the S-box layer, the bit layer and every round are injective, so the permutation
  is; the round counter never reaches zero; absorbing and squeezing always return the
  requested length, and a shorter output is a prefix of a longer one.
\<close>

definition kSpongentStateBits :: nat where "kSpongentStateBits = 176"
definition kSpongentStateBytes :: nat where "kSpongentStateBytes = 22"
definition kSpongentRateBytes :: nat where "kSpongentRateBytes = 2"
definition kSpongentRounds :: nat where "kSpongentRounds = 90"
definition kSpongentLfsrInit :: u8 where "kSpongentLfsrInit = 0x45"

lemmas spongent_consts = kSpongentStateBits_def kSpongentStateBytes_def kSpongentRateBytes_def
  kSpongentRounds_def kSpongentLfsrInit_def

definition kSbox :: "u8 list" where
  "kSbox = [0xE, 0xD, 0xB, 0x0, 0x2, 0x1, 0x4, 0xF, 0x7, 0xA, 0x8, 0x5, 0x9, 0xC, 0x3, 0x6]"

definition reverseByte :: "u8 \<Rightarrow> u8" where
  "reverseByte v =
     (let v = drop_bit 4 (v AND 0xF0) OR push_bit 4 (v AND 0x0F);
          v = drop_bit 2 (v AND 0xCC) OR push_bit 2 (v AND 0x33)
      in drop_bit 1 (v AND 0xAA) OR push_bit 1 (v AND 0x55))"

definition spongentSbox :: "u8 \<Rightarrow> u8" where
  "spongentSbox nibble = kSbox ! unat (nibble AND 0x0F)"

definition spongentPLayerIndex :: "nat \<Rightarrow> nat" where
  "spongentPLayerIndex bitIndex =
     (if bitIndex = kSpongentStateBits - 1 then kSpongentStateBits - 1
      else (bitIndex * (kSpongentStateBits div 4)) mod (kSpongentStateBits - 1))"

definition spongentLfsrNext :: "u8 \<Rightarrow> u8" where
  "spongentLfsrNext lfsr =
     (let feedback = drop_bit 6 (lfsr AND 0x40) XOR drop_bit 5 (lfsr AND 0x20)
      in (push_bit 1 lfsr OR feedback) AND 0x7F)"

text \<open>One row of the table: the contribution of byte \<open>byteIndex\<close> with value \<open>v\<close>, 24 bytes.\<close>

definition pLayerRow :: "nat \<Rightarrow> u8 \<Rightarrow> bytes" where
  "pLayerRow byteIndex v =
     fold (\<lambda>b row. if \<not> bit v b then row
                   else (let dst = spongentPLayerIndex (byteIndex * 8 + b)
                         in row[dst div 8 := row ! (dst div 8) OR push_bit (dst mod 8) 1]))
       [0..<8] (replicate 24 0)"

text \<open>The exclusive or of the 22 rows (three 64-bit words at a time in the source), of which the
  first 22 bytes are the new state.\<close>

definition spongentPLayer :: "bytes \<Rightarrow> bytes" where
  "spongentPLayer st =
     take kSpongentStateBytes
       (fold (\<lambda>i w. map2 (XOR) w (pLayerRow i (st ! i))) [0..<kSpongentStateBytes] (replicate 24 0))"

definition spongentSboxLayer :: "bytes \<Rightarrow> bytes" where
  "spongentSboxLayer st =
     map (\<lambda>b. push_bit 4 (spongentSbox (drop_bit 4 b)) OR spongentSbox (b AND 0x0F)) st"

definition spongentAddConstant :: "u8 \<Rightarrow> bytes \<Rightarrow> bytes" where
  "spongentAddConstant lfsr st =
     (let st = st[0 := st ! 0 XOR lfsr]
      in st[kSpongentStateBytes - 1 := st ! (kSpongentStateBytes - 1) XOR reverseByte lfsr])"

definition spongentRound :: "u8 \<times> bytes \<Rightarrow> u8 \<times> bytes" where
  "spongentRound = (\<lambda>(lfsr, st).
     (let st = spongentAddConstant lfsr st;
          lfsr = spongentLfsrNext lfsr
      in (lfsr, spongentPLayer (spongentSboxLayer st))))"

definition spongentPermute :: "bytes \<Rightarrow> bytes" where
  "spongentPermute st = snd ((spongentRound ^^ kSpongentRounds) (kSpongentLfsrInit, st))"

subsection \<open>The sponge\<close>

definition spongeXor :: "bytes \<Rightarrow> bytes \<Rightarrow> bytes" where
  "spongeXor block st = (let st = st[0 := st ! 0 XOR block ! 0] in st[1 := st ! 1 XOR block ! 1])"

fun spongeAbsorb :: "bytes \<Rightarrow> bytes \<Rightarrow> bytes \<times> bytes" where
  "spongeAbsorb st (a # b # input) = spongeAbsorb (spongentPermute (spongeXor [a, b] st)) input"
| "spongeAbsorb st rest = (st, rest)"

definition spongePad :: "bytes \<Rightarrow> bytes" where
  "spongePad rest = rest @ 0x80 # replicate (kSpongentRateBytes - 1 - length rest) 0"

text \<open>The squeeze loop; \<open>n\<close> is what is still missing, \<open>outLen - out.size()\<close>.\<close>

fun spongeSqueeze :: "nat \<Rightarrow> bytes \<Rightarrow> bytes" where
  "spongeSqueeze n st =
     (if n = 0 then []
      else (let t = min 2 n
            in take t st @ (if n \<le> t then [] else spongeSqueeze (n - t) (spongentPermute st))))"

declare spongeSqueeze.simps [simp del]

definition spongeAbsorbSqueeze :: "bytes \<Rightarrow> nat \<Rightarrow> bytes" where
  "spongeAbsorbSqueeze input outLen =
     (let st = replicate kSpongentStateBytes 0;
          (st, rest) = spongeAbsorb st input;
          st = spongentPermute (spongeXor (spongePad rest) st)
      in spongeSqueeze outLen st)"

definition spongent_hash :: "bytes \<Rightarrow> bytes" where
  "spongent_hash m = spongeAbsorbSqueeze m 20"

subsection \<open>The bit permutation\<close>

lemma pLayerIndex_lt: "j < 176 \<Longrightarrow> spongentPLayerIndex j < 176"
  using mod_less_divisor [of 175 "j * 44"]
  by (auto simp: spongentPLayerIndex_def spongent_consts simp del: mod_less_divisor)

lemma pLayerIndex_inverse: "j < 175 \<Longrightarrow> (4 * spongentPLayerIndex j) mod 175 = j"
proof -
  assume "j < 175"
  then have "(4 * spongentPLayerIndex j) mod 175 = (4 * (j * 44)) mod 175"
    by (simp add: spongentPLayerIndex_def spongent_consts mod_mult_right_eq)
  moreover have "(4 * (j * 44)) mod 175 = (j + 175 * j) mod 175" by (simp add: algebra_simps)
  moreover have "(j + 175 * j) mod 175 = j" using \<open>j < 175\<close> by (simp only: mod_mult_self2 mod_less)
  ultimately show ?thesis by simp
qed

lemma pLayerIndex_last: "k < 176 \<Longrightarrow> spongentPLayerIndex k = 175 \<longleftrightarrow> k = 175"
proof (cases "k = 175")
  case False
  have "(k * 44) mod 175 < 175" by (rule mod_less_divisor) simp
  with False show ?thesis by (simp add: spongentPLayerIndex_def spongent_consts)
qed (simp add: spongentPLayerIndex_def spongent_consts)

lemma pLayerIndex_inj:
  assumes "i < 176" "j < 176" "spongentPLayerIndex i = spongentPLayerIndex j"
  shows "i = j"
proof (cases "i = 175 \<or> j = 175")
  case True
  then show ?thesis
    using pLayerIndex_last [OF assms(1)] pLayerIndex_last [OF assms(2)] assms(3) by metis
next
  case False
  then have "i < 175" "j < 175" using assms by linarith+
  then show ?thesis using pLayerIndex_inverse assms(3) by metis
qed

text \<open>State bit \<open>j\<close>: byte \<open>j div 8\<close>, counted from its least significant bit.\<close>

definition sbit :: "bytes \<Rightarrow> nat \<Rightarrow> bool" where
  "sbit st j = bit (st ! (j div 8)) (j mod 8)"

lemma sbit_ext:
  assumes "length a = length b" and "\<And>j. j < 8 * length a \<Longrightarrow> sbit a j = sbit b j"
  shows "a = b"
proof (rule nth_equalityI)
  fix i assume i: "i < length a"
  show "a ! i = b ! i"
  proof (rule bit_word_eqI)
    fix n assume "n < LENGTH(8)"
    then have "n < 8" by simp
    with i have "8 * i + n < 8 * length a" by linarith
    from assms(2) [OF this] \<open>n < 8\<close> show "bit (a ! i) n = bit (b ! i) n" by (simp add: sbit_def)
  qed
qed (fact assms(1))

lemma sbit_or_update:
  assumes "d < 8 * length row" "k < 8 * length row"
  shows "sbit (row[d div 8 := row ! (d div 8) OR 2 ^ (d mod 8)]) k \<longleftrightarrow> sbit row k \<or> k = d"
proof (cases "k div 8 = d div 8")
  case True
  have "k = d \<longleftrightarrow> k mod 8 = d mod 8" using True by (metis div_mult_mod_eq)
  moreover have "k div 8 < length row" using assms by auto
  ultimately show ?thesis using True
    by (auto simp: sbit_def bit_simps simp flip: push_bit_of_1)
next
  case False
  then show ?thesis by (auto simp: sbit_def)
qed

lemma sbit_zero [simp]: "k < 8 * n \<Longrightarrow> \<not> sbit (replicate n 0) k"
  by (simp add: sbit_def)

lemma length_fold_row:
  "length (fold (\<lambda>b row. if \<not> bit v b then row else (let dst = f b
     in row[dst div 8 := row ! (dst div 8) OR push_bit (dst mod 8) 1])) bs row) = length row"
  by (induction bs arbitrary: row) (simp_all add: Let_def)

lemma length_pLayerRow [simp]: "length (pLayerRow i v) = 24"
  unfolding pLayerRow_def by (subst length_fold_row) simp

text \<open>A row has exactly the images of the set bits of its byte.\<close>

lemma sbit_fold_row:
  assumes "\<And>b. b \<in> set bs \<Longrightarrow> f b < 8 * length row" and "k < 8 * length row"
  shows "sbit (fold (\<lambda>b row. if \<not> bit v b then row else (let dst = f b
     in row[dst div 8 := row ! (dst div 8) OR push_bit (dst mod 8) 1])) bs row) k \<longleftrightarrow>
   sbit row k \<or> (\<exists>b \<in> set bs. bit v b \<and> f b = k)"
  using assms
  by (induction bs arbitrary: row) (auto simp: Let_def sbit_or_update)

lemma sbit_pLayerRow:
  assumes "i < 22" "k < 192"
  shows "sbit (pLayerRow i v) k \<longleftrightarrow> (\<exists>b < 8. bit v b \<and> spongentPLayerIndex (i * 8 + b) = k)"
proof -
  have "spongentPLayerIndex (i * 8 + b) < 192" if "b < 8" for b
    using pLayerIndex_lt [of "i * 8 + b"] that assms by simp
  then show ?thesis unfolding pLayerRow_def
    by (subst sbit_fold_row) (use assms in auto)
qed

lemma sbit_map2_xor:
  "length a = length b \<Longrightarrow> k < 8 * length a \<Longrightarrow> sbit (map2 (XOR) a b) k = (sbit a k \<noteq> sbit b k)"
  by (auto simp: sbit_def bit_xor_iff)

lemma length_fold_xor:
  "(\<And>i. length (r i) = length w) \<Longrightarrow> length (fold (\<lambda>i w. map2 (XOR) w (r i)) is w) = length w"
  by (induction "is" arbitrary: w) simp_all

lemma sbit_pLayer_fold:
  assumes "n \<le> 22" "k < 192"
  shows "sbit (fold (\<lambda>i w. map2 (XOR) w (pLayerRow i (st ! i))) [0..<n] (replicate 24 0)) k \<longleftrightarrow>
    (\<exists>j < 8 * n. sbit st j \<and> spongentPLayerIndex j = k)"
  using assms(1)
proof (induction n)
  case (Suc n)
  let ?w = "fold (\<lambda>i w. map2 (XOR) w (pLayerRow i (st ! i))) [0..<n] (replicate 24 0)"
  have len: "length ?w = 24" by (subst length_fold_xor) simp_all
  have row: "sbit (pLayerRow n (st ! n)) k \<longleftrightarrow>
      (\<exists>j. 8 * n \<le> j \<and> j < 8 * Suc n \<and> sbit st j \<and> spongentPLayerIndex j = k)"
  proof
    assume "sbit (pLayerRow n (st ! n)) k"
    then obtain b where "b < 8" "bit (st ! n) b" "spongentPLayerIndex (n * 8 + b) = k"
      using sbit_pLayerRow [of n k] assms Suc.prems by auto
    then show "\<exists>j. 8 * n \<le> j \<and> j < 8 * Suc n \<and> sbit st j \<and> spongentPLayerIndex j = k"
      by (intro exI [of _ "n * 8 + b"]) (simp add: sbit_def)
  next
    assume "\<exists>j. 8 * n \<le> j \<and> j < 8 * Suc n \<and> sbit st j \<and> spongentPLayerIndex j = k"
    then obtain j where j: "8 * n \<le> j" "j < 8 * Suc n" "sbit st j" "spongentPLayerIndex j = k" by blast
    then have d: "j div 8 = n" by auto
    then have "j mod 8 < 8" "n * 8 + j mod 8 = j" using div_mult_mod_eq [of j 8] by simp_all
    then have "\<exists>b < 8. bit (st ! n) b \<and> spongentPLayerIndex (n * 8 + b) = k"
      using j d by (intro exI [of _ "j mod 8"]) (simp add: sbit_def)
    then show "sbit (pLayerRow n (st ! n)) k"
      using sbit_pLayerRow [of n k] assms Suc.prems by simp
  qed
  have "\<not> (sbit (pLayerRow n (st ! n)) k \<and> (\<exists>j < 8 * n. sbit st j \<and> spongentPLayerIndex j = k))"
  proof
    assume "sbit (pLayerRow n (st ! n)) k \<and> (\<exists>j < 8 * n. sbit st j \<and> spongentPLayerIndex j = k)"
    then obtain i j where "8 * n \<le> i" "i < 8 * Suc n" "j < 8 * n"
      "spongentPLayerIndex i = spongentPLayerIndex j" using row by auto
    with pLayerIndex_inj [of i j] Suc.prems show False by simp
  qed
  moreover have "sbit (map2 (XOR) ?w (pLayerRow n (st ! n))) k =
      (sbit ?w k \<noteq> sbit (pLayerRow n (st ! n)) k)"
    using len assms(2) by (intro sbit_map2_xor) simp_all
  moreover have "(\<exists>j < 8 * Suc n. Q j) \<longleftrightarrow> (\<exists>j < 8 * n. Q j) \<or> (\<exists>j. 8 * n \<le> j \<and> j < 8 * Suc n \<and> Q j)"
    for Q
  proof -
    have "j < 8 * Suc n \<longleftrightarrow> j < 8 * n \<or> 8 * n \<le> j \<and> j < 8 * Suc n" for j by auto
    then show ?thesis by blast
  qed
  ultimately show ?case using Suc row by auto
qed (use assms in simp)

lemma length_spongentPLayer [simp]: "length (spongentPLayer st) = 22"
  unfolding spongentPLayer_def by (simp add: spongent_consts length_fold_xor)

text \<open>The table-driven layer is the bit permutation.\<close>

lemma sbit_spongentPLayer:
  assumes "j < 176"
  shows "sbit (spongentPLayer st) (spongentPLayerIndex j) = sbit st j"
proof -
  have k: "spongentPLayerIndex j < 176" using assms by (rule pLayerIndex_lt)
  then have "sbit (spongentPLayer st) (spongentPLayerIndex j) \<longleftrightarrow>
    (\<exists>i < 8 * 22. sbit st i \<and> spongentPLayerIndex i = spongentPLayerIndex j)"
    using sbit_pLayer_fold [of 22 "spongentPLayerIndex j" st]
    by (simp add: spongentPLayer_def spongent_consts sbit_def [of "take _ _"]) (simp add: sbit_def)
  also have "\<dots> \<longleftrightarrow> sbit st j" using assms pLayerIndex_inj by auto
  finally show ?thesis .
qed

subsection \<open>The round is injective\<close>

definition sboxByte :: "u8 \<Rightarrow> u8" where
  "sboxByte b = push_bit 4 (spongentSbox (drop_bit 4 b)) OR spongentSbox (b AND 0x0F)"

lemma spongentSboxLayer_map: "spongentSboxLayer st = map sboxByte st"
  by (simp add: spongentSboxLayer_def sboxByte_def)

lemma low_nibble: "(x :: u8) AND 0x0F = take_bit 4 x"
  by (simp add: take_bit_eq_mask mask_eq_exp_minus_1)

lemma unat_low_nibble: "unat ((x :: u8) AND 0x0F) < 16"
  by (simp add: low_nibble unsigned_take_bit_eq) (simp add: take_bit_eq_mod)

lemma spongentSbox_inj: "spongentSbox x = spongentSbox y \<Longrightarrow> x AND 0x0F = y AND 0x0F"
proof -
  assume "spongentSbox x = spongentSbox y"
  moreover have "distinct kSbox" "length kSbox = 16" by (simp_all add: kSbox_def)
  ultimately have "unat (x AND 0x0F) = unat (y AND 0x0F)"
    using nth_eq_iff_index_eq [of kSbox] unat_low_nibble by (simp add: spongentSbox_def)
  then show ?thesis by (simp only: word_unat_eq_iff)
qed

lemma spongentSbox_nibble: "take_bit 4 (spongentSbox x) = spongentSbox x"
proof -
  have "\<forall>v \<in> set kSbox. take_bit 4 v = v" by (simp add: kSbox_def)
  moreover have "spongentSbox x \<in> set kSbox"
    unfolding spongentSbox_def using unat_low_nibble [of x] by (intro nth_mem) (simp add: kSbox_def)
  ultimately show ?thesis by blast
qed

lemma nibble_bits: "take_bit 4 (x :: u8) = x \<Longrightarrow> bit x n \<Longrightarrow> n < 4"
  by (metis bit_take_bit_iff)

lemma sboxByte_parts:
  "take_bit 4 (sboxByte b) = spongentSbox b" "drop_bit 4 (sboxByte b) = spongentSbox (drop_bit 4 b)"
proof -
  have l: "spongentSbox (b AND 0x0F) = spongentSbox b" by (simp add: spongentSbox_def and.assoc)
  show "take_bit 4 (sboxByte b) = spongentSbox b"
    unfolding sboxByte_def l using nibble_bits [OF spongentSbox_nibble]
    by (intro bit_word_eqI) (auto simp: bit_simps)
  show "drop_bit 4 (sboxByte b) = spongentSbox (drop_bit 4 b)"
    unfolding sboxByte_def l using nibble_bits [OF spongentSbox_nibble]
    by (intro bit_word_eqI) (fastforce simp: bit_simps dest: bit_imp_le_length)
qed

lemma sboxByte_inj: "sboxByte a = sboxByte b \<Longrightarrow> a = b"
proof -
  assume e: "sboxByte a = sboxByte b"
  then have "spongentSbox a = spongentSbox b" "spongentSbox (drop_bit 4 a) = spongentSbox (drop_bit 4 b)"
    using sboxByte_parts by metis+
  then have "take_bit 4 a = take_bit 4 b" "take_bit 4 (drop_bit 4 a) = take_bit 4 (drop_bit 4 b)"
    using spongentSbox_inj [unfolded low_nibble] by blast+
  moreover have "take_bit 4 (drop_bit 4 (x::u8)) = drop_bit 4 x" for x
    by (rule bit_word_eqI) (auto simp: bit_simps dest: bit_imp_le_length)
  ultimately have "take_bit 4 a = take_bit 4 b" "drop_bit 4 a = drop_bit 4 b" by simp_all
  then show "a = b" using bits_ident [of 4 a] bits_ident [of 4 b] by argo
qed

lemma spongentSboxLayer_inj: "spongentSboxLayer a = spongentSboxLayer b \<Longrightarrow> a = b"
  using sboxByte_inj by (simp add: spongentSboxLayer_map inj_def inj_map_eq_map)

lemma spongentPLayer_inj:
  assumes "length a = 22" "length b = 22" "spongentPLayer a = spongentPLayer b"
  shows "a = b"
proof (rule sbit_ext)
  fix j assume "j < 8 * length a"
  then have j: "j < 176" using assms by simp
  show "sbit a j = sbit b j"
    using sbit_spongentPLayer [OF j, of a] sbit_spongentPLayer [OF j, of b] assms(3) by simp
qed (use assms in simp)

lemma length_spongentAddConstant [simp]: "length (spongentAddConstant l st) = length st"
  by (simp add: spongentAddConstant_def Let_def)

lemma spongentAddConstant_cancel:
  "length st = 22 \<Longrightarrow> spongentAddConstant l (spongentAddConstant l st) = st"
  by (rule nth_equalityI)
    (auto simp: spongentAddConstant_def Let_def spongent_consts nth_list_update xor.assoc)

definition spongentRoundState :: "u8 \<Rightarrow> bytes \<Rightarrow> bytes" where
  "spongentRoundState l st = spongentPLayer (spongentSboxLayer (spongentAddConstant l st))"

lemma spongentRound_pair: "spongentRound (l, st) = (spongentLfsrNext l, spongentRoundState l st)"
  by (simp add: spongentRound_def spongentRoundState_def Let_def)

lemma length_spongentRoundState [simp]: "length (spongentRoundState l st) = 22"
  by (simp add: spongentRoundState_def)

lemma spongentRoundState_inj:
  assumes "length a = 22" "length b = 22" "spongentRoundState l a = spongentRoundState l b"
  shows "a = b"
proof -
  have "spongentAddConstant l a = spongentAddConstant l b"
    using assms spongentPLayer_inj [of "spongentSboxLayer (spongentAddConstant l a)"
        "spongentSboxLayer (spongentAddConstant l b)"]
    by (auto simp: spongentRoundState_def spongentSboxLayer_map intro: spongentSboxLayer_inj)
  then show ?thesis using assms spongentAddConstant_cancel by metis
qed

lemma spongentRounds_fst: "fst ((spongentRound ^^ n) (l, st)) = (spongentLfsrNext ^^ n) l"
  by (induction n) (simp, metis (no_types) fst_conv funpow.simps(2) o_apply prod.collapse spongentRound_pair)

lemma spongentRounds_length:
  "length st = 22 \<Longrightarrow> length (snd ((spongentRound ^^ n) (l, st))) = 22"
  by (cases n) (simp_all add: split_beta spongentRound_def Let_def)

lemma spongentRounds_inj:
  assumes "length a = 22" "length b = 22"
    and "snd ((spongentRound ^^ n) (l, a)) = snd ((spongentRound ^^ n) (l, b))"
  shows "a = b"
  using assms(3)
proof (induction n)
  case (Suc n)
  obtain la sa lb sb where p: "(spongentRound ^^ n) (l, a) = (la, sa)" "(spongentRound ^^ n) (l, b) = (lb, sb)"
    by (metis prod.exhaust)
  have "la = lb" using spongentRounds_fst [of n l a] spongentRounds_fst [of n l b] p by simp
  moreover have "length sa = 22" "length sb = 22"
    using spongentRounds_length [OF assms(1), of n l] spongentRounds_length [OF assms(2), of n l] p by simp_all
  ultimately have "sa = sb" using Suc.prems p spongentRoundState_inj [of sa sb lb]
    by (simp add: spongentRound_pair)
  then show ?case using Suc.IH p by simp
qed simp

lemma length_spongentPermute [simp]: "length st = 22 \<Longrightarrow> length (spongentPermute st) = 22"
  by (simp add: spongentPermute_def spongentRounds_length)

lemma spongentPermute_inj:
  "length a = 22 \<Longrightarrow> length b = 22 \<Longrightarrow> spongentPermute a = spongentPermute b \<Longrightarrow> a = b"
  by (simp add: spongentPermute_def spongentRounds_inj)

text \<open>The round counter stays in \<open>1 .. 127\<close>.\<close>

lemma lfsr_table:
  "list_all (\<lambda>n. spongentLfsrNext (of_nat n) \<noteq> 0 \<and> spongentLfsrNext (of_nat n) < 128) [1..<128]"
  by code_simp

lemma lfsrNext_range: "l \<noteq> 0 \<Longrightarrow> l < 128 \<Longrightarrow> spongentLfsrNext l \<noteq> 0 \<and> spongentLfsrNext l < 128"
proof -
  assume "l \<noteq> 0" "l < 128"
  then have "unat l \<in> set [1..<128]"
    by (simp add: word_less_nat_alt) (metis unat_eq_0 not_gr_zero Suc_leI)
  with lfsr_table have "spongentLfsrNext (of_nat (unat l)) \<noteq> 0 \<and> spongentLfsrNext (of_nat (unat l)) < 128"
    unfolding list_all_iff by blast
  then show ?thesis by simp
qed

lemma lfsr_range: "(spongentLfsrNext ^^ n) kSpongentLfsrInit \<noteq> 0 \<and>
  (spongentLfsrNext ^^ n) kSpongentLfsrInit < 128"
  by (induction n) (simp add: spongent_consts, simp add: lfsrNext_range)

subsection \<open>The sponge\<close>

lemma length_spongeXor [simp]: "length (spongeXor b st) = length st"
  by (simp add: spongeXor_def Let_def)

lemma length_spongeAbsorb:
  "length st = 22 \<Longrightarrow> spongeAbsorb st input = (st', rest) \<Longrightarrow> length st' = 22 \<and> length rest < 2"
  by (induction st input rule: spongeAbsorb.induct) auto

lemma length_spongeSqueeze: "length st = 22 \<Longrightarrow> length (spongeSqueeze n st) = n"
proof (induction n st rule: spongeSqueeze.induct)
  case (1 n st)
  then show ?case by (cases "n \<le> 2") (simp_all add: spongeSqueeze.simps [of n st] Let_def)
qed

text \<open>A shorter output is a prefix of a longer one.\<close>

lemma spongeSqueeze_prefix:
  "length st = 22 \<Longrightarrow> m \<le> n \<Longrightarrow> spongeSqueeze m st = take m (spongeSqueeze n st)"
proof (induction n st arbitrary: m rule: spongeSqueeze.induct)
  case (1 n st)
  show ?case
  proof (cases "m \<le> 2")
    case True
    with "1.prems" show ?thesis
      by (simp add: spongeSqueeze.simps [of n st] spongeSqueeze.simps [of m st] Let_def min_def)
  next
    case False
    then have n: "\<not> n \<le> 2" "n \<noteq> 0" using "1.prems" by simp_all
    have "spongeSqueeze (m - 2) (spongentPermute st) = take (m - 2) (spongeSqueeze (n - 2) (spongentPermute st))"
      using "1.IH" [of 2 "m - 2"] n "1.prems" by (simp add: min_def)
    then show ?thesis using False n "1.prems"
      by (simp add: spongeSqueeze.simps [of n st] spongeSqueeze.simps [of m st] Let_def min_def)
  qed
qed

lemma spongeAbsorb_state:
  obtains st where "length st = 22"
    "\<And>n. spongeAbsorbSqueeze input n = spongeSqueeze n st"
proof -
  obtain st rest where a: "spongeAbsorb (replicate 22 0) input = (st, rest)" by (rule prod.exhaust)
  then have "length st = 22" using length_spongeAbsorb [of "replicate 22 0" input] by simp
  with a show thesis
    by (intro that [of "spongentPermute (spongeXor (spongePad rest) st)"])
      (simp_all add: spongeAbsorbSqueeze_def spongent_consts)
qed

lemma length_sponge [simp]: "length (spongeAbsorbSqueeze input n) = n"
  by (rule spongeAbsorb_state [of input]) (simp add: length_spongeSqueeze)

lemma sponge_prefix: "m \<le> n \<Longrightarrow> spongeAbsorbSqueeze input m = take m (spongeAbsorbSqueeze input n)"
  by (rule spongeAbsorb_state [of input]) (simp add: spongeSqueeze_prefix)

lemma length_spongent_hash [simp]: "length (spongent_hash m) = 20"
  by (simp add: spongent_hash_def)

subsection \<open>Properties\<close>

text \<open>\<open>spongentPermute\<close>, ninety rounds of round constant, S-box layer and table-driven bit
  layer, is a permutation of the 22-byte states, and in every round the counter that is added
  is not zero and fits seven bits.\<close>

theorem spongent_permutation:
  "bij_betw spongentPermute {st. length st = kSpongentStateBytes} {st. length st = kSpongentStateBytes} \<and>
   (\<forall>n. (spongentLfsrNext ^^ n) kSpongentLfsrInit \<noteq> 0 \<and>
        (spongentLfsrNext ^^ n) kSpongentLfsrInit < 128)"
proof -
  let ?S = "{st :: bytes. length st = 22}"
  have "finite ?S" using finite_lists_length_eq [of "UNIV :: u8 set" 22] by simp
  moreover have "spongentPermute ` ?S \<subseteq> ?S" by auto
  moreover have i: "inj_on spongentPermute ?S" by (rule inj_onI) (simp add: spongentPermute_inj)
  ultimately have "spongentPermute ` ?S = ?S" by (rule endo_inj_surj)
  with i show ?thesis using lfsr_range by (simp add: bij_betw_def spongent_consts)
qed

text \<open>The precomputed table implements the specified bit permutation: in the output of the
  pLayer, the bit at the position the header's formula gives for \<open>j\<close> is bit \<open>j\<close> of the input,
  for every state and every \<open>j\<close>, and that formula is a permutation of the 176 positions.\<close>

theorem spongent_table_is_permutation:
  "(\<forall>st. \<forall>j < kSpongentStateBits.
      sbit (spongentPLayer st) (spongentPLayerIndex j) = sbit st j) \<and>
   bij_betw spongentPLayerIndex {..<kSpongentStateBits} {..<kSpongentStateBits}"
proof -
  have i: "inj_on spongentPLayerIndex {..<176}"
    by (rule inj_onI) (simp add: pLayerIndex_inj)
  moreover have "spongentPLayerIndex ` {..<176} = {..<176}"
    using pLayerIndex_lt i by (intro endo_inj_surj) auto
  ultimately show ?thesis
    by (simp add: bij_betw_def kSpongentStateBits_def sbit_spongentPLayer)
qed

theorem spongent_table_is_permutation_witness:
  "sbit (spongentPLayer (2 # replicate 21 0)) 44 \<and> spongentPLayerIndex 1 = 44"
proof -
  have "1 < kSpongentStateBits" "spongentPLayerIndex 1 = 44"
    by (simp_all add: spongentPLayerIndex_def spongent_consts)
  moreover have "sbit (2 # replicate 21 0) 1" by (simp add: sbit_def)
  ultimately show ?thesis using spongent_table_is_permutation by metis
qed

end
