(* ===== verification/Spongent_Suite.thy ===== *)
theory Spongent_Suite
  imports Suite Spongent Ascon
begin

text \<open>
  \<open>crypto/SpongentSuite.h\<close>, \<open>crypto/SpongentSuite.cc\<close>: hash, prefix-keyed MAC and labelled KDF
  as modes of the sponge, with Ascon-128a as the AEAD.  Lemmas: the absorbed strings of the
  three modes are injective and disjoint; the suite meets the contract \<open>crypto_suite\<close>.
\<close>

definition spongent_kSuiteVersion :: u8 where
  "spongent_kSuiteVersion = 0x01"

definition spongent_implTag :: "primitive \<Rightarrow> string" where
  "spongent_implTag p = (case p of
     Hash160 \<Rightarrow> ''spongent160-176-16/vendored''
   | Mac \<Rightarrow> ''keyed-sponge-spongent160/vendored''
   | MacVerify \<Rightarrow> ''keyed-sponge-spongent160/vendored''
   | Kdf \<Rightarrow> ''sponge-kdf-spongent160/vendored''
   | Extract \<Rightarrow> ''sponge-kdf-spongent160/vendored''
   | AeadSeal \<Rightarrow> ''ascon128a-v12/vendored''
   | AeadOpen \<Rightarrow> ''ascon128a-v12/vendored''
   | _ \<Rightarrow> primitiveName p @ ''/vendored'')"

definition spongent_hash160 :: "core_lib \<Rightarrow> bytes \<Rightarrow> bytes option" where
  "spongent_hash160 C message = do {
     m \<leftarrow> lengthPrefixed C message;
     Some (spongent_hash (kDomainHash C # m)) }"

text \<open>The absorbed string of the MAC, then the MAC.\<close>

definition spongent_macInput :: "core_lib \<Rightarrow> bytes \<Rightarrow> bytes \<Rightarrow> bytes option" where
  "spongent_macInput C key message = do {
     k \<leftarrow> lengthPrefixed C key;
     Some ([kDomainMac C, spongent_kSuiteVersion] @ k @ message) }"

definition spongent_macRaw :: "core_lib \<Rightarrow> bytes \<Rightarrow> bytes \<Rightarrow> bytes option" where
  "spongent_macRaw C key message = do {
     input \<leftarrow> spongent_macInput C key message;
     Some (spongeAbsorbSqueeze input 16) }"

definition spongent_mac :: "core_lib \<Rightarrow> bytes \<Rightarrow> bytes \<Rightarrow> bytes option" where
  "spongent_mac C key message = spongent_macRaw C key message"

definition spongent_macVerify ::
    "core_lib \<Rightarrow> ossl \<Rightarrow> bytes \<Rightarrow> bytes \<Rightarrow> bytes \<Rightarrow> bool option" where
  "spongent_macVerify C L key message tag =
     (if length tag \<noteq> 16 then Some False
      else do {
        expected \<leftarrow> spongent_macRaw C key message;
        Some (o_memcmp_eq L expected tag 16) })"

definition spongent_kdfInput ::
    "core_lib \<Rightarrow> bytes \<Rightarrow> bytes \<Rightarrow> string \<Rightarrow> bytes \<Rightarrow> nat \<Rightarrow> bytes option" where
  "spongent_kdfInput C ikm salt lab info outLen = do {
     require (\<not> 0xFFFF < outLen);
     i \<leftarrow> lengthPrefixed C ikm;
     s \<leftarrow> lengthPrefixed C salt;
     l \<leftarrow> lengthPrefixed C (fromString C lab);
     f \<leftarrow> lengthPrefixed C info;
     Some ([kDomainKdf C, spongent_kSuiteVersion] @ i @ s @ l @ f @ u16be C (of_nat outLen)) }"

definition spongent_kdfRaw ::
    "core_lib \<Rightarrow> bytes \<Rightarrow> bytes \<Rightarrow> string \<Rightarrow> bytes \<Rightarrow> nat \<Rightarrow> bytes option" where
  "spongent_kdfRaw C ikm salt lab info outLen = do {
     input \<leftarrow> spongent_kdfInput C ikm salt lab info outLen;
     Some (spongeAbsorbSqueeze input outLen) }"

definition spongent_kdf ::
    "core_lib \<Rightarrow> bytes \<Rightarrow> bytes \<Rightarrow> string \<Rightarrow> bytes \<Rightarrow> nat \<Rightarrow> bytes option" where
  "spongent_kdf C ikm salt lab info outLen = spongent_kdfRaw C ikm salt lab info outLen"

definition spongent_extract :: "core_lib \<Rightarrow> bytes \<Rightarrow> bytes \<Rightarrow> bytes option" where
  "spongent_extract C salt source = spongent_kdfRaw C source salt kFeExtract [] 32"

definition spongent_aeadSeal :: "bytes \<Rightarrow> bytes \<Rightarrow> bytes \<Rightarrow> bytes \<Rightarrow> bytes \<Rightarrow> bool \<times> bytes" where
  "spongent_aeadSeal key nonce aad plaintext out =
     (if length key \<noteq> 16 \<or> length nonce \<noteq> 16 then (False, [])
      else ascon128aEncrypt key nonce aad plaintext)"

definition spongent_aeadOpen ::
    "ossl \<Rightarrow> bytes \<Rightarrow> bytes \<Rightarrow> bytes \<Rightarrow> bytes \<Rightarrow> bytes \<Rightarrow> bool \<times> bytes" where
  "spongent_aeadOpen L key nonce aad ciphertext out =
     (if length key \<noteq> 16 \<or> length nonce \<noteq> 16 then (False, [])
      else ascon128aDecrypt L key nonce aad ciphertext)"

definition spongentSuite :: "core_lib \<Rightarrow> ossl \<Rightarrow> suite" where
  "spongentSuite C L = \<lparr>
     su_id = SPONGENT, su_name = ''spongent'', su_securityLevelBits = 80,
     su_hashLen = 20, su_macLen = 16, su_keyLen = 32,
     su_aeadKeyLen = 16, su_aeadNonceLen = 16, su_aeadTagLen = 16,
     su_hash160 = spongent_hash160 C, su_mac = spongent_mac C,
     su_macVerify = spongent_macVerify C L, su_kdf = spongent_kdf C,
     su_extract = spongent_extract C,
     su_aeadSeal = spongent_aeadSeal, su_aeadOpen = spongent_aeadOpen L \<rparr>"

subsection \<open>The absorbed strings\<close>

context core_bytes
begin

lemma spongent_kdfInput_inject:
  assumes "spongent_kdfInput C ikm salt lab info n = Some b"
    and "spongent_kdfInput C ikm' salt' lab' info' n' = Some b"
    and "\<forall>x \<in> {ikm, salt, fromString C lab, info, ikm', salt', fromString C lab', info'}. length x \<le> 65535"
  shows "ikm = ikm' \<and> salt = salt' \<and> fromString C lab = fromString C lab' \<and> info = info' \<and> n = n'"
proof -
  from assms(1) obtain i s l f where p: "lengthPrefixed C ikm = Some i"
    "lengthPrefixed C salt = Some s" "lengthPrefixed C (fromString C lab) = Some l"
    "lengthPrefixed C info = Some f" "n \<le> 65535"
    and b: "b = [kDomainKdf C, spongent_kSuiteVersion] @ i @ s @ l @ f @ u16be C (of_nat n)"
    by (auto simp: spongent_kdfInput_def Option.bind_eq_Some_conv split: if_splits)
  from assms(2) obtain i' s' l' f' where p': "lengthPrefixed C ikm' = Some i'"
    "lengthPrefixed C salt' = Some s'" "lengthPrefixed C (fromString C lab') = Some l'"
    "lengthPrefixed C info' = Some f'" "n' \<le> 65535"
    and b': "b = [kDomainKdf C, spongent_kSuiteVersion] @ i' @ s' @ l' @ f' @ u16be C (of_nat n')"
    by (auto simp: spongent_kdfInput_def Option.bind_eq_Some_conv split: if_splits)
  have 1: "ikm = ikm' \<and> s @ l @ f @ u16be C (of_nat n) = s' @ l' @ f' @ u16be C (of_nat n')"
  proof (rule lengthPrefixed_append_inject [OF p(1) p'(1)])
    show "i @ s @ l @ f @ u16be C (of_nat n) = i' @ s' @ l' @ f' @ u16be C (of_nat n')"
      using b b' by simp
  qed (use assms(3) in simp_all)
  then have 2: "salt = salt' \<and> l @ f @ u16be C (of_nat n) = l' @ f' @ u16be C (of_nat n')"
    by (intro lengthPrefixed_append_inject [OF p(2) p'(2)]) (use assms(3) in simp_all)
  then have 3: "fromString C lab = fromString C lab' \<and> f @ u16be C (of_nat n) = f' @ u16be C (of_nat n')"
    by (intro lengthPrefixed_append_inject [OF p(3) p'(3)]) (use assms(3) in simp_all)
  then have 4: "info = info' \<and> u16be C (of_nat n) = u16be C (of_nat n')"
    by (intro lengthPrefixed_append_inject [OF p(4) p'(4)]) (use assms(3) in simp_all)
  then have "(of_nat n :: u16) = of_nat n'" by (simp add: u16be_inject)
  then have "n = n'" using p(5) p'(5) by (metis unat_of_nat_u16)
  with 1 2 3 4 show ?thesis by simp
qed

lemma lengthPrefixed_len:
  "length b \<le> 65535 \<Longrightarrow> \<exists>p. lengthPrefixed C b = Some p \<and> length p = length b + 2"
  by (simp add: lengthPrefixed)

lemma length_fromString [simp]: "length (fromString C s) = length s"
  by (simp add: fromString)

lemma fromString_inject: "fromString C s = fromString C t \<longleftrightarrow> s = t"
proof -
  have u: "unat (of_char c :: u8) = of_char c" for c
  proof -
    have "(of_char c :: nat) < 256" by (metis mod_less_divisor of_char_mod_256 zero_less_numeral)
    then have "unat (of_nat (of_char c) :: u8) = of_char c"
      by (simp add: unat_of_nat take_bit_nat_eq_self)
    then show ?thesis by (simp only: of_nat_of_char)
  qed
  have "inj (of_char :: char \<Rightarrow> u8)"
  proof (rule injI)
    fix c d assume "(of_char c :: u8) = of_char d"
    then have "(of_char c :: nat) = of_char d" by (metis u)
    then show "c = d" by simp
  qed
  then show ?thesis by (simp add: fromString inj_map_eq_map)
qed

end

subsection \<open>The contract\<close>

context crypto_env
begin

lemma spongent_mac_Some:
  "length k \<le> 65535 \<Longrightarrow> \<exists>t. spongent_mac C k m = Some t"
  using lengthPrefixed_len [of k] by (auto simp: spongent_mac_def spongent_macRaw_def spongent_macInput_def)

lemma spongent_macVerify_eq:
  assumes "spongent_mac C k m = Some e"
  shows "spongent_macVerify C L k m t = Some (t = e)"
proof -
  have "length e = 16"
    using assms by (auto simp: spongent_mac_def spongent_macRaw_def Option.bind_eq_Some_conv)
  then show ?thesis
    using assms memcmp [of 16 e t] by (auto simp: spongent_macVerify_def spongent_mac_def)
qed

lemma spongent_kdf_Some:
  assumes "length ikm \<le> 65535" "length salt \<le> 65535" "length lab \<le> 65535" "length info \<le> 65535"
    "n \<le> 65535"
  shows "\<exists>key. spongent_kdf C ikm salt lab info n = Some key"
  using lengthPrefixed_len [of ikm] lengthPrefixed_len [of salt] lengthPrefixed_len [of info]
    lengthPrefixed_len [of "fromString C lab"] assms
  by (auto simp: spongent_kdf_def spongent_kdfRaw_def spongent_kdfInput_def)

lemma spongentSuite_contract: "crypto_suite (spongentSuite C L)"
proof
  show "\<exists>t. su_mac (spongentSuite C L) k m = Some t" if "length k = 32" for k m
    using spongent_mac_Some [of k m] that by (simp add: spongentSuite_def)
  show "\<exists>key. su_kdf (spongentSuite C L) ikm salt lab info n = Some key"
    if "ikm \<noteq> []" "length ikm \<le> 65535" "length salt \<le> 65535" "length lab \<le> 64"
      "length info \<le> 512" "0 < n" "n \<le> 8160" for ikm salt lab info n
    using spongent_kdf_Some [of ikm salt lab info n] that by (simp add: spongentSuite_def)
  show "\<exists>key. su_extract (spongentSuite C L) salt src = Some key"
    if "src \<noteq> []" "length src \<le> 65535" "length salt \<le> 65535" for src salt
    using spongent_kdf_Some [of src salt kFeExtract "[]" 32] that
    by (simp add: spongentSuite_def spongent_extract_def spongent_kdf_def label_defs)
  show "\<exists>ct. su_aeadSeal (spongentSuite C L) k nc aad pt out = (True, ct)"
    if "length k = su_aeadKeyLen (spongentSuite C L)" "length nc = su_aeadNonceLen (spongentSuite C L)"
    for k nc aad pt out
    using that by (force simp: spongentSuite_def spongent_aeadSeal_def ascon128aEncrypt_body split: prod.split)
  show "su_mac (spongentSuite C L) k m = Some t"
    if "su_macVerify (spongentSuite C L) k m t = Some True" for k m t
  proof -
    from that obtain e where "spongent_mac C k m = Some e"
      by (auto simp: spongentSuite_def spongent_macVerify_def spongent_mac_def
          Option.bind_eq_Some_conv split: if_splits)
    with that spongent_macVerify_eq [OF this, of t] show ?thesis by (simp add: spongentSuite_def)
  qed
qed (auto simp: spongentSuite_def spongent_hash160_def spongent_mac_Some spongent_macVerify_eq
    spongent_kdf_Some spongent_mac_def spongent_macRaw_def spongent_kdf_def spongent_kdfRaw_def
    spongent_extract_def spongent_aeadSeal_def spongent_aeadOpen_def Option.bind_eq_Some_conv
    dest: ascon128aEncrypt_length ascon_open_sealed ascon_opened_sealed split: if_splits)

end

sublocale crypto_env \<subseteq> spongent: crypto_suite "spongentSuite C L"
  by (rule spongentSuite_contract)

subsection \<open>Properties\<close>

text \<open>The string the KDF absorbs is an injective encoding of all its inputs, the output
  length included: two derivations that absorb the same bytes have the same key material,
  salt, label, info and length.  Hence a shorter key is never computed from the absorbed
  string of a longer one.\<close>

theorem spongent_kdf_injective:
  assumes "core_laws C"
    and "spongent_kdfInput C ikm salt lab info n = Some b"
    and "spongent_kdfInput C ikm' salt' lab' info' n' = Some b"
    and "\<forall>x \<in> {ikm, salt, info, ikm', salt', info'}. length x \<le> 65535"
    and "length lab \<le> 65535" and "length lab' \<le> 65535"
  shows "(ikm, salt, lab, info, n) = (ikm', salt', lab', info', n')"
proof -
  have c: "core_bytes C" using assms(1) by (simp add: core_laws_def)
  show ?thesis
    using core_bytes.spongent_kdfInput_inject [OF c assms(2,3)] assms(4-)
      core_bytes.length_fromString [OF c] core_bytes.fromString_inject [OF c] by simp
qed

theorem spongent_kdf_injective_witness:
  "\<exists>b. spongent_kdfInput ref_core [1] [2] kPairCred [3] 16 = Some b \<and>
       spongent_kdfInput ref_core [1] [2] kPairCred [3] 32 \<noteq> Some b"
proof -
  obtain b where b: "spongent_kdfInput ref_core [1] [2] kPairCred [3] 16 = Some b"
    by (simp add: spongent_kdfInput_def ref_core_eval label_defs)
  then show ?thesis
    using spongent_kdf_injective [OF ref_core_laws b, of "[1]" "[2]" kPairCred "[3]" 32]
    by (auto simp: label_defs)
qed

text \<open>MAC verification of the constrained suite accepts exactly the tag that \<open>mac\<close> computes
  for the key and message: every other tag, of whatever length, is rejected, and a key too
  long to be length-prefixed never verifies a 16-byte tag.\<close>

theorem spongent_macVerify_exact:
  assumes "core_laws C" and "ossl_laws L"
  shows "(spongent_macVerify C L key m t = Some True \<longleftrightarrow> spongent_mac C key m = Some t) \<and>
    (\<forall>e. spongent_mac C key m = Some e \<longrightarrow> length e = 16 \<and>
         spongent_macVerify C L key m t = Some (t = e))"
proof -
  have env: "crypto_env C L" using assms by (rule crypto_env.intro)
  have s: "su_mac (spongentSuite C L) = spongent_mac C"
    "su_macVerify (spongentSuite C L) = spongent_macVerify C L" by (simp_all add: spongentSuite_def)
  note c = crypto_env.spongentSuite_contract [OF env]
  show ?thesis
    by (auto simp: crypto_suite.mac_verify [OF c, unfolded s]
        dest: crypto_suite.mac_verified [OF c, unfolded s] crypto_suite.mac_len [OF c, unfolded s])
qed

theorem spongent_macVerify_exact_witness:
  "\<exists>e. spongent_mac ref_core [1, 2] [3] = Some e \<and>
     spongent_macVerify ref_core ref_ossl [1, 2] [3] (e @ [0]) = Some False"
proof -
  obtain e where e: "spongent_mac ref_core [1, 2] [3] = Some e"
    using ref_env.spongent_mac_Some [of "[1, 2]" "[3]"] by auto
  with spongent_macVerify_exact [OF ref_core_laws refo.ossl_laws_axioms, of "[1, 2]" "[3]" "e @ [0]"]
  show ?thesis by simp
qed

end
