(* ===== verification/Bch_GF.thy ===== *)
theory Bch_GF
  imports Prelude
begin

text \<open>
  The arithmetic of \<open>fe/BchCodec.cc\<close>: the antilog and log tables of GF(2^8) the constructor
  fills, and \<open>gfMul\<close>, \<open>gfInv\<close>, \<open>gfPow\<close> on them.  Field elements and table indices are C++
  \<open>int\<close>s that are never negative, so they are \<open>nat\<close> here; an exponent, which can be, is \<open>int\<close>.
  The locale \<open>gf256\<close> states what the tables contain (powers of the generator and their
  logarithms) and derives the field laws; it is interpreted on the tables that the
  constructor's loops build for the default polynomial.
\<close>

subsection \<open>Tables\<close>

record gf =
  gf_exp :: "nat list"
  gf_log :: "nat list"

text \<open>\<open>x <<= 1; if (x & 0x100) x ^= primPoly_\<close>\<close>

definition gf_step :: "nat \<Rightarrow> nat \<Rightarrow> nat" where
  "gf_step poly x = (let x = push_bit 1 x in if x AND 0x100 \<noteq> 0 then x XOR poly else x)"

text \<open>The two table loops of the constructor.\<close>

definition gf_tables :: "nat \<Rightarrow> gf" where
  "gf_tables poly =
     (let (x, e, l) = fold (\<lambda>i (x, e, l). (gf_step poly x, e[i := x], l[x := i]))
                        [0..<255] (1, replicate 512 0, replicate 256 0);
          e = fold (\<lambda>i e. e[i := e ! (i - 255)]) [255..<512] e
      in \<lparr>gf_exp = e, gf_log = l\<rparr>)"

definition gfMul :: "'a gf_scheme \<Rightarrow> nat \<Rightarrow> nat \<Rightarrow> nat" where
  "gfMul G a b =
     (if a = 0 \<or> b = 0 then 0 else gf_exp G ! (gf_log G ! a + gf_log G ! b))"

definition gfInv :: "'a gf_scheme \<Rightarrow> nat \<Rightarrow> nat option" where
  "gfInv G a = do {
     require (a \<noteq> 0);
     Some (gf_exp G ! ((255 - gf_log G ! a) mod 255)) }"

text \<open>The remainder of C++ has the sign of the dividend.\<close>

definition c_rem :: "int \<Rightarrow> int \<Rightarrow> int" where
  "c_rem a b = sgn a * (\<bar>a\<bar> mod \<bar>b\<bar>)"

definition gfPow :: "'a gf_scheme \<Rightarrow> nat \<Rightarrow> int \<Rightarrow> nat" where
  "gfPow G a e =
     (if a = 0 then 0
      else
        let ex = c_rem (int (gf_log G ! a) * e) 255;
            ex = (if ex < 0 then ex + 255 else ex)
        in gf_exp G ! nat ex)"

lemma c_rem_fix: "(let ex = c_rem a 255 in if ex < 0 then ex + 255 else ex) =
  (if a < 0 \<and> 255 dvd a then 0 else a mod 255)"
proof (cases "a < 0")
  case True
  then have "c_rem a 255 = - ((- a) mod 255)" by (simp add: c_rem_def)
  moreover have "(- a) mod 255 = (if 255 dvd a then 0 else 255 - a mod 255)"
    by (simp add: zmod_zminus1_eq_if dvd_eq_mod_eq_0)
  ultimately show ?thesis using True pos_mod_bound [of 255 a] by (auto simp: Let_def)
next
  case False
  then have "c_rem a 255 = a mod 255" "0 \<le> a mod 255" by (auto simp: c_rem_def sgn_if)
  with False show ?thesis by (simp add: Let_def)
qed

lemma c_rem_mod: "(let ex = c_rem a 255 in if ex < 0 then ex + 255 else ex) = a mod 255"
  unfolding c_rem_fix by (auto simp: dvd_eq_mod_eq_0)

subsection \<open>Powers of the generator\<close>

definition pw :: "nat \<Rightarrow> nat" where
  "pw i = (gf_step 0x11D ^^ i) 1"

lemma pw_0 [simp]: "pw 0 = 1"
  by (simp add: pw_def)

lemma pw_Suc: "pw (Suc i) = gf_step 0x11D (pw i)"
  by (simp add: pw_def)

fun gf_iter :: "nat \<Rightarrow> nat \<Rightarrow> nat list" where
  "gf_iter 0 x = []"
| "gf_iter (Suc n) x = x # gf_iter n (gf_step 0x11D x)"

lemma gf_iter_numeral:
  "gf_iter (numeral k) x = x # gf_iter (pred_numeral k) (gf_step 0x11D x)"
  by (simp add: numeral_eq_Suc)

lemma gf_iter_pow: "gf_iter n x = map (\<lambda>i. (gf_step 0x11D ^^ i) x) [0..<n]"
proof (induction n arbitrary: x)
  case (Suc n)
  then show ?case by (simp add: upt_conv_Cons map_Suc_upt [symmetric] funpow_swap1 del: upt_Suc)
qed simp

lemma gf_iter_1: "gf_iter n 1 = map pw [0..<n]"
  by (simp add: gf_iter_pow pw_def)

lemma gf_cycle:
  "distinct (gf_iter 255 1) \<and> list_all (\<lambda>x. 0 < x \<and> x < 256) (gf_iter 255 1) \<and>
   (gf_iter 256 1) ! 255 = 1"
  by (simp add: gf_step_def gf_iter_numeral)

lemma pw_255: "pw 255 = 1"
  using gf_cycle [unfolded gf_iter_1] by simp

lemma pw_period: "pw (i + 255) = pw i"
  by (induction i) (simp_all only: add_Suc pw_255 pw_Suc pw_0 add_0)

lemma pw_mod: "pw (i mod 255) = pw i"
proof (induction i rule: less_induct)
  case (less i)
  show ?case
  proof (cases "i < 255")
    case False
    then have "pw i = pw (i - 255)" using pw_period [of "i - 255"] by simp
    with False less [of "i - 255"] show ?thesis by (simp add: le_mod_geq)
  qed simp
qed

lemma pw_distinct: "distinct (map pw [0..<255])"
  using gf_cycle [unfolded gf_iter_1] by blast

lemma pw_inj: "i < 255 \<Longrightarrow> j < 255 \<Longrightarrow> pw i = pw j \<Longrightarrow> i = j"
  using nth_eq_iff_index_eq [OF pw_distinct, of i j] by simp

lemma pw_range: "0 < pw i" "pw i < 256"
proof -
  have "\<forall>j < 255. 0 < pw j \<and> pw j < 256"
    using gf_cycle [unfolded gf_iter_1] by (simp add: list_all_iff)
  moreover have "i mod 255 < 255" by simp
  ultimately show "0 < pw i" "pw i < 256" using pw_mod [of i] by metis+
qed

lemma pw_eq_iff: "pw i = pw j \<longleftrightarrow> i mod 255 = j mod 255"
  using pw_inj [of "i mod 255" "j mod 255"] pw_mod by (metis mod_less_divisor zero_less_numeral)

text \<open>Every non-zero element is a power.\<close>

lemma pw_surj:
  assumes "0 < x" "x < 256"
  obtains i where "i < 255" "x = pw i"
proof -
  have "pw ` {..<255} = {1..<256}"
  proof (rule card_subset_eq)
    show "pw ` {..<255} \<subseteq> {1..<256}" using pw_range by (auto simp: Suc_le_eq)
    have "inj_on pw {..<255}" by (rule inj_onI) (simp add: pw_inj)
    then show "card (pw ` {..<255}) = card {1..<256::nat}" by (simp add: card_image)
  qed simp
  moreover have "x \<in> {1..<256}" using assms by simp
  ultimately have "x \<in> pw ` {..<255}" by blast
  then show thesis using that by auto
qed

subsection \<open>The step is linear\<close>

lemma gf_step_bits: "gf_step p x = push_bit 1 x XOR (if bit x 7 then p else 0)"
proof -
  have "(0x100 :: nat) = push_bit 8 1" by simp
  then have "(push_bit 1 x AND 0x100 \<noteq> 0) = bit (push_bit 1 x) 8"
    by (metis and.commute bit_iff_and_push_bit_not_eq_0)
  moreover have "bit (push_bit 1 x) 8 = bit x 7" by (simp only: bit_push_bit_iff_nat) simp
  ultimately have b: "(push_bit 1 x AND 0x100 \<noteq> 0) = bit x 7" by (rule trans)
  show ?thesis unfolding gf_step_def Let_def b by simp
qed

lemma gf_step_xor: "gf_step p (x XOR y) = gf_step p x XOR gf_step p y"
proof -
  have d: "push_bit 1 (x XOR y) = push_bit 1 x XOR push_bit 1 y" by (rule push_bit_xor)
  show ?thesis
    by (simp only: gf_step_bits d bit_xor_iff) (auto simp: ac_simps xor.left_commute)
qed

lemma gf_step_0 [simp]: "gf_step p 0 = 0"
  by (simp add: gf_step_def)

lemma gf_steps_xor: "(gf_step p ^^ n) (x XOR y) = (gf_step p ^^ n) x XOR (gf_step p ^^ n) y"
  by (induction n) (simp_all add: gf_step_xor)

lemma gf_steps_0 [simp]: "(gf_step p ^^ n) 0 = 0"
  by (induction n) simp_all

lemma gf_steps_pw: "(gf_step 0x11D ^^ i) (pw j) = pw (i + j)"
  by (simp add: pw_def funpow_add)

subsection \<open>The field laws\<close>

lemma xor_lt_256: "a < 256 \<Longrightarrow> b < 256 \<Longrightarrow> (a XOR b :: nat) < 256"
proof -
  assume "a < 256" "b < 256"
  then have "take_bit 8 a = a" "take_bit 8 b = b" by (simp_all add: take_bit_nat_eq_self_iff)
  then have "take_bit 8 (a XOR b) = a XOR b" by (simp add: take_bit_xor)
  with take_bit_nat_less_exp [of 8 "a XOR b"] show ?thesis by simp
qed

locale gf256 =
  fixes G :: "'a gf_scheme"
  assumes exp_pw: "i < 512 \<Longrightarrow> gf_exp G ! i = pw i"
    and log_pw: "i < 255 \<Longrightarrow> gf_log G ! pw i = i"
begin

lemma log_pw_mod: "gf_log G ! pw i = i mod 255"
  using log_pw [of "i mod 255"] by (simp add: pw_mod)

lemma gfMul_0 [simp]: "gfMul G 0 b = 0" "gfMul G a 0 = 0"
  by (simp_all add: gfMul_def)

lemma gfMul_pw [simp]: "gfMul G (pw i) (pw j) = pw (i + j)"
proof -
  have "i mod 255 < 255" "j mod 255 < 255" by simp_all
  then have "i mod 255 + j mod 255 < 512" by linarith
  then have "gf_exp G ! (i mod 255 + j mod 255) = pw (i + j)"
    by (simp add: exp_pw pw_eq_iff mod_add_eq)
  then show ?thesis using pw_range(1) [of i] pw_range(1) [of j]
    by (simp add: gfMul_def log_pw_mod)
qed

lemma gfMul_lt [simp]: "a < 256 \<Longrightarrow> b < 256 \<Longrightarrow> gfMul G a b < 256"
proof (cases "a = 0 \<or> b = 0")
  case False
  assume "a < 256" "b < 256"
  with False obtain i j where "a = pw i" "b = pw j" by (metis pw_surj neq0_conv)
  then show ?thesis by (simp add: pw_range)
qed auto

lemma gfMul_steps: "b < 256 \<Longrightarrow> gfMul G (pw i) b = (gf_step 0x11D ^^ i) b"
proof (cases "b = 0")
  case False
  assume "b < 256"
  with False obtain j where "b = pw j" by (metis pw_surj neq0_conv)
  then show ?thesis by (simp add: gf_steps_pw)
qed simp

lemma gfMul_comm: "gfMul G a b = gfMul G b a"
  by (simp add: gfMul_def add.commute)

lemma gfMul_1 [simp]: "a < 256 \<Longrightarrow> gfMul G 1 a = a" "a < 256 \<Longrightarrow> gfMul G a 1 = a"
  using gfMul_steps [of a 0] gfMul_comm [of a 1] by simp_all

lemma gfMul_Suc_0 [simp]: "a < 256 \<Longrightarrow> gfMul G (Suc 0) a = a" "a < 256 \<Longrightarrow> gfMul G a (Suc 0) = a"
  using gfMul_1 by simp_all

lemma gfMul_xor:
  assumes "a < 256" "b < 256" "c < 256"
  shows "gfMul G a (b XOR c) = gfMul G a b XOR gfMul G a c"
proof (cases "a = 0")
  case False
  with assms(1) obtain i where "a = pw i" by (metis pw_surj neq0_conv)
  then show ?thesis using assms by (simp add: gfMul_steps xor_lt_256 gf_steps_xor)
qed simp

lemma gfMul_assoc:
  assumes "a < 256" "b < 256" "c < 256"
  shows "gfMul G (gfMul G a b) c = gfMul G a (gfMul G b c)"
proof (cases "a = 0 \<or> b = 0 \<or> c = 0")
  case False
  with assms obtain i j k where "a = pw i" "b = pw j" "c = pw k" by (metis pw_surj neq0_conv)
  then show ?thesis by (simp add: add.assoc)
qed auto

lemma gfMul_eq_0: "a < 256 \<Longrightarrow> b < 256 \<Longrightarrow> gfMul G a b = 0 \<longleftrightarrow> a = 0 \<or> b = 0"
proof (cases "a = 0 \<or> b = 0")
  case False
  assume "a < 256" "b < 256"
  with False obtain i j where "a = pw i" "b = pw j" by (metis pw_surj neq0_conv)
  with False show ?thesis using pw_range(1) [of "i + j"] by simp
qed auto

lemma gfInv_Some:
  assumes "a < 256" "a \<noteq> 0"
  shows "\<exists>b. gfInv G a = Some b \<and> b < 256 \<and> b \<noteq> 0 \<and> gfMul G a b = 1"
proof -
  from assms obtain i where i: "i < 255" "a = pw i" by (metis pw_surj neq0_conv)
  have "(255 - i) mod 255 < 255" by simp
  then have "gf_exp G ! ((255 - i) mod 255) = pw (255 - i)" by (simp add: exp_pw pw_mod)
  moreover have "pw (i + (255 - i)) = 1" using i pw_255 by simp
  ultimately show ?thesis using assms(2) i pw_range [of "255 - i"]
    by (simp add: gfInv_def log_pw)
qed

lemma gfPow_pw: "gfPow G (pw i) (int e) = pw (i * e)"
proof -
  have "int (i mod 255) * int e mod 255 = int (i * e mod 255)"
    by (metis mod_mult_left_eq of_nat_mod of_nat_mult of_nat_numeral)
  then have "gfPow G (pw i) (int e) = gf_exp G ! (i * e mod 255)"
    using pw_range(1) [of i] c_rem_mod [of "int (i mod 255) * int e"]
    by (simp add: gfPow_def log_pw_mod Let_def)
  moreover have "i * e mod 255 < 255" by simp
  ultimately show ?thesis by (simp add: exp_pw pw_mod)
qed

end

subsection \<open>The tables of the constructor\<close>

lemma gf_fill:
  assumes "n \<le> 255"
  shows "\<exists>e l. fold (\<lambda>i (x, e, l). (gf_step 0x11D x, e[i := x], l[x := i]))
      [0..<n] (1, replicate 512 0, replicate 256 0) = (pw n, e, l) \<and>
    length e = 512 \<and> length l = 256 \<and> (\<forall>i < n. e ! i = pw i \<and> l ! pw i = i)"
  using assms
proof (induction n)
  case (Suc n)
  then obtain e l where h: "fold (\<lambda>i (x, e, l). (gf_step 0x11D x, e[i := x], l[x := i]))
      [0..<n] (1, replicate 512 0, replicate 256 0) = (pw n, e, l)"
    "length e = 512" "length l = 256" "\<forall>i < n. e ! i = pw i \<and> l ! pw i = i" by auto
  have "l[pw n := n] ! pw i = i" if "i < n" for i
  proof -
    have "pw n \<noteq> pw i" using that Suc.prems pw_inj [of i n] by auto
    with that h show ?thesis by simp
  qed
  with h Suc.prems pw_range(2) show ?case
    by (auto simp: pw_Suc less_Suc_eq)
qed auto

lemma gf_wrap:
  assumes "length e = 512" "\<forall>i < 255. e ! i = pw i" "n \<le> 512" "255 \<le> n"
  shows "length (fold (\<lambda>i e. e[i := e ! (i - 255)]) [255..<n] e) = 512 \<and>
    (\<forall>i < n. fold (\<lambda>i e. e[i := e ! (i - 255)]) [255..<n] e ! i = pw i)"
  using assms(4,3)
proof (induction n rule: dec_induct)
  case base
  then show ?case using assms by simp
next
  case (step n)
  have "pw (n - 255) = pw n" using step.hyps pw_period [of "n - 255"] by simp
  with step show ?case by (auto simp: less_Suc_eq nth_list_update)
qed

definition gf_default :: gf where
  "gf_default = gf_tables 0x11D"

lemma gf_default_tables: "gf256 gf_default"
proof -
  obtain e l where h: "fold (\<lambda>i (x, e, l). (gf_step 0x11D x, e[i := x], l[x := i]))
      [0..<255] (1, replicate 512 0, replicate 256 0) = (pw 255, e, l)"
    "length e = 512" "\<forall>i < 255. e ! i = pw i \<and> l ! pw i = i"
    using gf_fill [of 255] by auto
  define e2 where "e2 = fold (\<lambda>i e. e[i := e ! (i - 255)]) [255..<512] e"
  have "(255::nat) \<le> 512" by simp
  then have "\<forall>i < 512. e2 ! i = pw i"
    unfolding e2_def using gf_wrap [OF h(2) _ order_refl] h(3) by blast
  moreover have "gf_exp gf_default = e2" "gf_log gf_default = l"
    unfolding gf_default_def gf_tables_def h(1) e2_def by (simp_all only: Let_def prod.case gf.simps)
  ultimately show ?thesis using h(3) by (simp add: gf256_def)
qed

interpretation gf: gf256 gf_default
  by (rule gf_default_tables)

end
