(* ===== verification/Bch_Codec.thy ===== *)
theory Bch_Codec
  imports Bch_GF Ref_Core "HOL-Library.Multiset"
begin

text \<open>
  \<open>fe/BchCodec.h\<close>, \<open>fe/BchCodec.cc\<close>: the binary BCH code of length 255.  The constructor (root
  closure, generator polynomial, its checks), the systematic LFSR encoder, the syndromes, and
  the Berlekamp-Massey / Chien decoder, with exceptions as \<open>None\<close> and the output parameters
  of \<open>decodeCodeword\<close> returned.  Entries of \<open>std::vector<uint8_t>\<close> that only ever hold a bit
  are the naturals 0 and 1.
\<close>

record bch = gf +
  bc_t :: nat
  bc_n :: nat
  bc_k :: nat
  bc_parityBits :: nat
  bc_primPoly :: nat
  bc_generator :: "nat list"

subsection \<open>Constructor\<close>

text \<open>\<open>std::set<int>::insert\<close> on an ascending list.\<close>

definition roots_insert :: "nat \<Rightarrow> nat list \<Rightarrow> nat list" where
  "roots_insert c rs = insort_insert c rs"

text \<open>\<open>while (roots.insert(c).second) c = (c * 2) % 255\<close>\<close>

function closure_loop :: "nat \<Rightarrow> nat list \<Rightarrow> nat list" where
  "closure_loop c rs =
     (if c \<in> set rs then rs else closure_loop ((c * 2) mod 255) (roots_insert c rs))"
  by auto

termination
proof (relation "measure (\<lambda>(c, rs). 2 * card ({..<255} - set rs) + (if c < 255 then 0 else 1))")
  fix c :: nat and rs :: "nat list"
  assume n: "c \<notin> set rs"
  have s: "set (roots_insert c rs) = insert c (set rs)"
    by (simp add: roots_insert_def set_insort_insert)
  have m: "c * 2 mod 255 < 255" by simp
  have "2 * card ({..<255} - insert c (set rs)) < 2 * card ({..<255} - set rs) + (if c < 255 then 0 else 1)"
  proof (cases "c < 255")
    case True
    then have "card ({..<255} - insert c (set rs)) < card ({..<255} - set rs)"
      using n by (intro psubset_card_mono) auto
    with True show ?thesis by simp
  next
    case False
    then have "{..<255} - insert c (set rs) = {..<255} - set rs" by auto
    with False show ?thesis by simp
  qed
  with s m show "((c * 2 mod 255, roots_insert c rs), c, rs)
    \<in> measure (\<lambda>(c, rs). 2 * card ({..<255} - set rs) + (if c < 255 then 0 else 1))"
    by simp
qed simp

declare closure_loop.simps [simp del]

definition bch_roots :: "nat \<Rightarrow> nat list" where
  "bch_roots t = fold (\<lambda>i rs. closure_loop (i mod 255) rs) [1..<2 * t + 1] []"

text \<open>One factor: \<open>next[i] ^= g[i] * alpha^r; next[i + 1] ^= g[i]\<close>.\<close>

definition poly_times_root :: "'a gf_scheme \<Rightarrow> nat \<Rightarrow> nat list \<Rightarrow> nat list" where
  "poly_times_root G ar g = map2 (XOR) (map (\<lambda>c. gfMul G c ar) g @ [0]) (0 # g)"

definition bch_new :: "nat \<Rightarrow> nat \<Rightarrow> bch option" where
  "bch_new t primitivePoly = do {
     require (\<not> (t < 1 \<or> 30 < t));
     let T = gf_tables primitivePoly;
     let g = fold (\<lambda>r g. poly_times_root T (gf_exp T ! r) g) (bch_roots t) [1];
     require (\<forall>coeff \<in> set g. \<not> (coeff \<noteq> 0 \<and> coeff \<noteq> 1));
     let parityBits = length g - 1;
     require (parityBits < 255);
     Some \<lparr>gf_exp = gf_exp T, gf_log = gf_log T, bc_t = t, bc_n = 255, bc_k = 255 - parityBits,
           bc_parityBits = parityBits, bc_primPoly = primitivePoly,
           bc_generator = map (\<lambda>c. c AND 1) g\<rparr> }"

subsection \<open>Encoder\<close>

definition bit_nat :: "bool \<Rightarrow> nat" where
  "bit_nat b = (if b then 1 else 0)"

text \<open>One message bit through the register.\<close>

definition lfsr_step :: "bch \<Rightarrow> nat list \<Rightarrow> nat \<Rightarrow> nat list" where
  "lfsr_step c rem b =
     (let degG = bc_parityBits c;
          feedback = b XOR rem ! (degG - 1);
          rem = 0 # take (degG - 1) rem
      in if feedback \<noteq> 0 then map2 (XOR) rem (take degG (bc_generator c)) else rem)"

definition encode_remainder :: "core_lib \<Rightarrow> bch \<Rightarrow> bytes \<Rightarrow> nat list" where
  "encode_remainder C c dataBits =
     fold (\<lambda>i rem. lfsr_step c rem (bit_nat (getBit C dataBits i))) [0..<bc_k c]
       (replicate (bc_parityBits c) 0)"

definition encodeParity :: "core_lib \<Rightarrow> bch \<Rightarrow> bytes \<Rightarrow> bytes option" where
  "encodeParity C c dataBits = do {
     require (length dataBits = bytesForBits C (bc_k c));
     let degG = bc_parityBits c;
     let remainder = encode_remainder C c dataBits;
     Some (fold (\<lambda>p parity. setBit C parity p (remainder ! (degG - 1 - p) \<noteq> 0)) [0..<degG]
             (replicate (bytesForBits C degG) 0)) }"

definition encodeCodeword :: "core_lib \<Rightarrow> bch \<Rightarrow> bytes \<Rightarrow> bytes option" where
  "encodeCodeword C c dataBits = do {
     parity \<leftarrow> encodeParity C c dataBits;
     let word = replicate (bytesForBits C (bc_n c)) 0;
     let word = fold (\<lambda>i w. setBit C w i (getBit C dataBits i)) [0..<bc_k c] word;
     Some (fold (\<lambda>i w. setBit C w (bc_k c + i) (getBit C parity i)) [0..<bc_parityBits c] word) }"

subsection \<open>Syndromes\<close>

definition syndrome :: "core_lib \<Rightarrow> bch \<Rightarrow> bytes \<Rightarrow> nat \<Rightarrow> nat" where
  "syndrome C c word j =
     fold (\<lambda>i acc. if getBit C word i
                   then acc XOR gfPow c (gf_exp c ! (j mod 255)) (int (bc_n c - 1 - i)) else acc)
       [0..<bc_n c] 0"

definition computeSyndromes :: "core_lib \<Rightarrow> bch \<Rightarrow> bytes \<Rightarrow> nat list" where
  "computeSyndromes C c word = map (syndrome C c word) [1..<2 * bc_t c + 1]"

definition isCodeword :: "core_lib \<Rightarrow> bch \<Rightarrow> bytes \<Rightarrow> bool" where
  "isCodeword C c word = list_all (\<lambda>s. s = 0) (computeSyndromes C c word)"

subsection \<open>Decoder\<close>

text \<open>The variables of the Berlekamp-Massey loop.\<close>

record bm =
  bm_lambda :: "nat list"
  bm_prev :: "nat list"
  bm_L :: nat
  bm_m :: nat
  bm_b :: nat

definition bm_init :: bm where
  "bm_init = \<lparr>bm_lambda = [1], bm_prev = [1], bm_L = 0, bm_m = 1, bm_b = 1\<rparr>"

definition bm_delta :: "'a gf_scheme \<Rightarrow> nat list \<Rightarrow> nat \<Rightarrow> bm \<Rightarrow> nat" where
  "bm_delta G syn r s =
     fold (\<lambda>i delta. if i \<le> r then delta XOR gfMul G (bm_lambda s ! i) (syn ! (r - i)) else delta)
       [1..<min (bm_L s + 1) (length (bm_lambda s))] (syn ! r)"

text \<open>\<open>lambda.resize(...)\<close> when too short, then \<open>lambda[i + m] ^= coeff * prev[i]\<close>.\<close>

definition bm_update :: "'a gf_scheme \<Rightarrow> nat \<Rightarrow> bm \<Rightarrow> nat list" where
  "bm_update G coeff s =
     (let need = length (bm_prev s) + bm_m s;
          lam = (if length (bm_lambda s) < need
                 then bm_lambda s @ replicate (need - length (bm_lambda s)) 0 else bm_lambda s)
      in fold (\<lambda>i lam. lam[i + bm_m s := lam ! (i + bm_m s) XOR gfMul G coeff (bm_prev s ! i)])
           [0..<length (bm_prev s)] lam)"

definition bm_step :: "'a gf_scheme \<Rightarrow> nat list \<Rightarrow> nat \<Rightarrow> bm \<Rightarrow> bm option" where
  "bm_step G syn r s =
     (let delta = bm_delta G syn r s
      in if delta = 0 then Some (s\<lparr>bm_m := bm_m s + 1\<rparr>)
         else if 2 * bm_L s \<le> r then do {
           inv \<leftarrow> gfInv G (bm_b s);
           let coeff = gfMul G delta inv;
           Some \<lparr>bm_lambda = bm_update G coeff s, bm_prev = bm_lambda s, bm_L = r + 1 - bm_L s,
                 bm_m = 1, bm_b = delta\<rparr> }
         else do {
           inv \<leftarrow> gfInv G (bm_b s);
           let coeff = gfMul G delta inv;
           Some (s\<lparr>bm_lambda := bm_update G coeff s, bm_m := bm_m s + 1\<rparr>) })"

fun bm_run :: "'a gf_scheme \<Rightarrow> nat list \<Rightarrow> nat list \<Rightarrow> bm \<Rightarrow> bm option" where
  "bm_run G syn [] s = Some s"
| "bm_run G syn (r # rs) s = do {
     s \<leftarrow> bm_step G syn r s;
     bm_run G syn rs s }"

text \<open>The error locator at \<open>alpha^(-i)\<close>.\<close>

definition chien_sum :: "'a gf_scheme \<Rightarrow> nat list \<Rightarrow> nat \<Rightarrow> nat" where
  "chien_sum G lam i =
     fold (\<lambda>j sum. if lam ! j = 0 then sum
                   else
                     let exponent = c_rem (- int j * int i) 255;
                         exponent = (if exponent < 0 then exponent + 255 else exponent)
                     in sum XOR gfMul G (lam ! j) (gf_exp G ! nat exponent))
       [0..<length lam] 0"

text \<open>The packed bit index of degree \<open>i\<close> is \<open>n - 1 - i\<close>, always in range for \<open>i < n\<close>.\<close>

definition chien_positions :: "bch \<Rightarrow> nat list \<Rightarrow> nat list" where
  "chien_positions c lam =
     map (\<lambda>i. bc_n c - 1 - i) (filter (\<lambda>i. chien_sum c lam i = 0) [0..<bc_n c])"

definition flip_bits :: "core_lib \<Rightarrow> nat list \<Rightarrow> bytes \<Rightarrow> bytes" where
  "flip_bits C ps w = fold (\<lambda>pos w. setBit C w pos (\<not> getBit C w pos)) ps w"

text \<open>Result, \<open>correctedOut\<close> and \<open>errorsCorrected\<close>.\<close>

definition decodeCodeword ::
    "core_lib \<Rightarrow> bch \<Rightarrow> bytes \<Rightarrow> bytes \<Rightarrow> (bool \<times> bytes \<times> int) option" where
  "decodeCodeword C c received out =
     (if length received \<noteq> bytesForBits C (bc_n c) then Some (False, out, - 1)
      else
        let syn = computeSyndromes C c received
        in if list_all (\<lambda>s. s = 0) syn then Some (True, received, 0)
           else do {
             s \<leftarrow> bm_run c syn [0..<2 * bc_t c] bm_init;
             (if bc_t c < bm_L s then Some (False, out, - 1)
              else
                let ps = chien_positions c (bm_lambda s)
                in if ps = [] \<or> length ps \<noteq> bm_L s then Some (False, out, - 1)
                   else
                     let corrected = flip_bits C ps received
                     in if \<not> isCodeword C c corrected then Some (False, out, - 1)
                        else Some (True, corrected, int (length ps))) })"

subsection \<open>Polynomials over the field\<close>

definition gfl :: "nat list \<Rightarrow> bool" where
  "gfl xs \<longleftrightarrow> (\<forall>c \<in> set xs. c < 256)"

lemma gfl_simps [simp]:
  "gfl []" "gfl (c # xs) \<longleftrightarrow> c < 256 \<and> gfl xs" "gfl (xs @ ys) \<longleftrightarrow> gfl xs \<and> gfl ys"
  "gfl (replicate n 0)"
  by (auto simp: gfl_def)

lemma gfl_nth: "gfl xs \<Longrightarrow> i < length xs \<Longrightarrow> xs ! i < 256"
  by (simp add: gfl_def)

lemma gfl_map2_xor: "gfl xs \<Longrightarrow> gfl ys \<Longrightarrow> gfl (map2 (XOR) xs ys)"
  by (fastforce simp: gfl_def dest: set_zip_leftD set_zip_rightD intro: xor_lt_256)

text \<open>Value of a polynomial, lowest coefficient first, and coefficients with zeros beyond.\<close>

definition peval :: "'a gf_scheme \<Rightarrow> nat list \<Rightarrow> nat \<Rightarrow> nat" where
  "peval G xs x = foldr (\<lambda>c acc. c XOR gfMul G x acc) xs 0"

definition coeff :: "nat list \<Rightarrow> nat \<Rightarrow> nat" where
  "coeff g i = (if i < length g then g ! i else 0)"

lemma coeff_ext: "length f = length g \<Longrightarrow> (\<And>i. coeff f i = coeff g i) \<Longrightarrow> f = g"
  by (rule nth_equalityI) (auto simp: coeff_def split: if_splits, metis)

lemma coeff_lt: "gfl g \<Longrightarrow> coeff g i < 256"
  by (simp add: coeff_def gfl_nth)

lemma length_poly_times_root [simp]: "length (poly_times_root G a g) = length g + 1"
  by (simp add: poly_times_root_def)

lemma peval_simps [simp]:
  "peval G [] x = 0" "peval G (c # cs) x = c XOR gfMul G x (peval G cs x)"
  by (simp_all add: peval_def)

context gf256
begin

lemma coeff_poly_times_root:
  "coeff (poly_times_root G a g) i =
     gfMul G (coeff g i) a XOR (if i = 0 then 0 else coeff g (i - 1))"
  by (auto simp: coeff_def poly_times_root_def nth_append nth_Cons')

lemma gfl_poly_times_root [simp]: "a < 256 \<Longrightarrow> gfl g \<Longrightarrow> gfl (poly_times_root G a g)"
  unfolding poly_times_root_def
  by (rule gfl_map2_xor) (auto simp: gfl_def)

lemma poly_times_root_commute:
  assumes "a < 256" "b < 256" "gfl g"
  shows "poly_times_root G a (poly_times_root G b g) = poly_times_root G b (poly_times_root G a g)"
proof (rule coeff_ext)
  fix i
  have c: "coeff g j < 256" for j using assms(3) by (rule coeff_lt)
  have m: "gfMul G (gfMul G (coeff g j) a) b = gfMul G (gfMul G (coeff g j) b) a" for j
    using assms c by (simp add: gfMul_assoc gfMul_comm [of a b])
  have d: "gfMul G (u XOR v) w = gfMul G u w XOR gfMul G v w" if "u < 256" "v < 256" "w < 256" for u v w
    using that gfMul_xor [of w u v] by (simp add: gfMul_comm [of w])
  show "coeff (poly_times_root G a (poly_times_root G b g)) i =
        coeff (poly_times_root G b (poly_times_root G a g)) i"
    by (cases i) (simp_all add: coeff_poly_times_root d c assms m ac_simps)
qed simp

lemma peval_lt: "gfl xs \<Longrightarrow> x < 256 \<Longrightarrow> peval G xs x < 256"
  by (induction xs) (simp_all add: xor_lt_256)

lemma peval_xor:
  "length xs = length ys \<Longrightarrow> gfl xs \<Longrightarrow> gfl ys \<Longrightarrow> x < 256 \<Longrightarrow>
   peval G (map2 (XOR) xs ys) x = peval G xs x XOR peval G ys x"
proof (induction xs ys rule: list_induct2)
  case (Cons a xs b ys)
  then show ?case by (simp add: gfMul_xor peval_lt ac_simps)
qed simp

lemma peval_scale:
  "gfl xs \<Longrightarrow> x < 256 \<Longrightarrow> a < 256 \<Longrightarrow>
   peval G (map (\<lambda>c. gfMul G c a) xs) x = gfMul G (peval G xs x) a"
proof (induction xs)
  case (Cons c xs)
  have "gfMul G (c XOR gfMul G x (peval G xs x)) a =
      gfMul G c a XOR gfMul G (gfMul G x (peval G xs x)) a"
    using Cons.prems gfMul_xor [of a c "gfMul G x (peval G xs x)"]
    by (simp add: gfMul_comm [of a] peval_lt)
  then show ?case using Cons by (simp add: gfMul_assoc peval_lt)
qed simp

lemma peval_append_0 [simp]: "peval G (xs @ [0]) x = peval G xs x"
  by (induction xs) simp_all

lemma peval_poly_times_root:
  assumes "gfl g" "x < 256" "a < 256"
  shows "peval G (poly_times_root G a g) x = gfMul G (x XOR a) (peval G g x)"
proof -
  have m: "gfl (map (\<lambda>c. gfMul G c a) g)" using assms by (auto simp: gfl_def)
  have "peval G (poly_times_root G a g) x = gfMul G (peval G g x) a XOR gfMul G x (peval G g x)"
    unfolding poly_times_root_def using assms m by (simp add: peval_xor peval_scale)
  also have "\<dots> = gfMul G (peval G g x) (a XOR x)"
    using assms by (simp add: gfMul_xor peval_lt gfMul_comm [of x])
  finally show ?thesis by (simp add: gfMul_comm xor.commute)
qed

text \<open>The product over a list of exponents: length, leading coefficient, roots.\<close>

definition roots_poly :: "nat list \<Rightarrow> nat list \<Rightarrow> nat list" where
  "roots_poly rs g = fold (\<lambda>r g. poly_times_root G (pw r) g) rs g"

lemma roots_poly_simps [simp]:
  "roots_poly [] g = g" "roots_poly (r # rs) g = roots_poly rs (poly_times_root G (pw r) g)"
  by (simp_all add: roots_poly_def)

lemma length_roots_poly [simp]: "length (roots_poly rs g) = length g + length rs"
  by (induction rs arbitrary: g) simp_all

lemma gfl_roots_poly [simp]: "gfl g \<Longrightarrow> gfl (roots_poly rs g)"
  by (induction rs arbitrary: g) (simp_all add: pw_range)

lemma last_poly_times_root: "g \<noteq> [] \<Longrightarrow> last (poly_times_root G a g) = last g"
  by (simp add: poly_times_root_def last_conv_nth nth_append nth_Cons')

lemma last_roots_poly: "g \<noteq> [] \<Longrightarrow> last (roots_poly rs g) = last g"
proof (induction rs arbitrary: g)
  case (Cons r rs)
  have "poly_times_root G (pw r) g \<noteq> []" by (metis length_poly_times_root length_0_conv add_is_0 one_neq_zero)
  with Cons show ?case by (simp add: last_poly_times_root)
qed simp

lemma roots_poly_keeps_root:
  "gfl g \<Longrightarrow> x < 256 \<Longrightarrow> peval G g x = 0 \<Longrightarrow> peval G (roots_poly rs g) x = 0"
  by (induction rs arbitrary: g) (simp_all add: pw_range peval_poly_times_root)

lemma roots_poly_root:
  "gfl g \<Longrightarrow> r \<in> set rs \<Longrightarrow> peval G (roots_poly rs g) (pw r) = 0"
proof (induction rs arbitrary: g)
  case (Cons r' rs)
  show ?case
  proof (cases "r = r'")
    case True
    have "peval G (poly_times_root G (pw r) g) (pw r) = 0"
      using Cons.prems by (simp add: peval_poly_times_root pw_range)
    then show ?thesis using True Cons.prems by (simp add: roots_poly_keeps_root pw_range)
  next
    case False
    then show ?thesis using Cons by (simp add: pw_range)
  qed
qed simp

text \<open>The order of the factors does not matter.\<close>

lemma roots_poly_mset:
  assumes "mset rs = mset rs'" and g: "gfl g"
  shows "roots_poly rs g = roots_poly rs' g"
proof -
  define f where "f r h = (if gfl h then poly_times_root G (pw r) h else h)" for r h
  have keep: "gfl (f r h)" if "gfl h" for r h using that by (simp add: f_def pw_range)
  have f: "fold f qs h = roots_poly qs h" if "gfl h" for qs h
    using that by (induction qs arbitrary: h) (simp_all add: f_def pw_range)
  have "f r \<circ> f q = f q \<circ> f r" for r q
    by (rule ext) (simp add: f_def pw_range poly_times_root_commute)
  then have "fold f rs = fold f rs'" using assms(1) by (intro fold_multiset_equiv) auto
  with f [OF g] show ?thesis by metis
qed

subsection \<open>Squaring\<close>

definition sq :: "nat \<Rightarrow> nat" where
  "sq c = gfMul G c c"

lemma sq_pw: "sq (pw r) = pw (2 * r mod 255)"
  by (simp add: sq_def pw_mod mult_2)

lemma sq_lt [simp]: "c < 256 \<Longrightarrow> sq c < 256"
  by (simp add: sq_def)

lemma sq_xor: "a < 256 \<Longrightarrow> b < 256 \<Longrightarrow> sq (a XOR b) = sq a XOR sq b"
proof -
  assume a: "a < 256" and b: "b < 256"
  then have "sq (a XOR b) = gfMul G (a XOR b) a XOR gfMul G (a XOR b) b"
    by (simp add: sq_def gfMul_xor xor_lt_256)
  also have "\<dots> = (sq a XOR gfMul G a b) XOR (gfMul G a b XOR sq b)"
    using a b gfMul_comm [of "a XOR b"] by (simp add: sq_def gfMul_xor gfMul_comm [of b a])
  also have "\<dots> = sq a XOR sq b" by (metis xor.assoc xor_self_eq xor.left_neutral)
  finally show ?thesis .
qed

lemma sq_mult: "a < 256 \<Longrightarrow> b < 256 \<Longrightarrow> sq (gfMul G a b) = gfMul G (sq a) (sq b)"
proof (cases "a = 0 \<or> b = 0")
  case False
  assume "a < 256" "b < 256"
  with False obtain i j where "a = pw i" "b = pw j" by (metis pw_surj neq0_conv)
  then show ?thesis by (simp add: sq_def ac_simps)
qed (auto simp: sq_def)

lemma sq_fixed: "c < 256 \<Longrightarrow> sq c = c \<Longrightarrow> c = 0 \<or> c = 1"
proof (cases "c = 0")
  case False
  assume "c < 256" "sq c = c"
  with False obtain i where i: "i < 255" "c = pw i" by (metis pw_surj neq0_conv)
  with \<open>sq c = c\<close> have "(i + i) mod 255 = i" by (simp add: sq_def pw_eq_iff)
  then have "i = 0" using i(1) by (cases "i + i < 255") (simp_all add: le_mod_geq)
  then show ?thesis using i by simp
qed simp

lemma map_sq_poly_times_root:
  assumes "gfl g" "a < 256"
  shows "map sq (poly_times_root G a g) = poly_times_root G (sq a) (map sq g)"
proof (rule coeff_ext)
  fix i
  have z: "sq 0 = 0" by (simp add: sq_def)
  have c: "coeff (map sq h) j = sq (coeff h j)" for h j by (simp add: coeff_def z)
  show "coeff (map sq (poly_times_root G a g)) i = coeff (poly_times_root G (sq a) (map sq g)) i"
    using assms
    by (cases i) (simp_all add: c coeff_poly_times_root sq_mult sq_xor coeff_lt z)
qed simp

lemma map_sq_roots_poly:
  "gfl g \<Longrightarrow> map sq (roots_poly rs g) = roots_poly (map (\<lambda>r. 2 * r mod 255) rs) (map sq g)"
  by (induction rs arbitrary: g) (simp_all add: pw_range map_sq_poly_times_root sq_pw)

text \<open>A product over a root set that is closed under doubling has coefficients 0 and 1.\<close>

lemma roots_poly_binary:
  assumes "distinct rs" "set rs \<subseteq> {..<255}" "\<forall>r \<in> set rs. 2 * r mod 255 \<in> set rs"
    and "c \<in> set (roots_poly rs [1])"
  shows "c = 0 \<or> c = 1"
proof -
  let ?d = "\<lambda>r. 2 * r mod 255"
  have d: "128 * (2 * i mod 255) mod 255 = i" if "i < 255" for i :: nat
  proof -
    have "128 * (2 * i mod 255) mod 255 = (i + 255 * i) mod 255" by (simp add: mod_mult_right_eq)
    then show ?thesis using that by (simp only: mod_mult_self2 mod_less)
  qed
  have inj: "inj_on ?d (set rs)"
    by (rule inj_on_inverseI [of _ "\<lambda>x. 128 * x mod 255"]) (use d assms(2) in blast)
  have "?d ` set rs \<subseteq> set rs" using assms(3) by blast
  then have "?d ` set rs = set rs" using inj by (rule endo_inj_surj [OF finite_set])
  moreover have "distinct (map ?d rs)" using assms(1) inj by (simp add: distinct_map)
  ultimately have "mset (map ?d rs) = mset rs"
    using assms(1) by (metis list.set_map set_eq_iff_mset_eq_distinct)
  then have "roots_poly (map ?d rs) [1] = roots_poly rs [1]" by (intro roots_poly_mset) simp_all
  moreover have "map sq (roots_poly rs [1]) = roots_poly (map ?d rs) (map sq [1])"
    by (rule map_sq_roots_poly) simp
  moreover have "map sq [1] = [1]" using gfMul_1(1) [of 1] by (simp add: sq_def)
  ultimately have "map sq (roots_poly rs [1]) = roots_poly rs [1]" by (simp only:)
  then have "sq c = c" using assms(4) by (metis in_set_conv_nth nth_map)
  moreover have "c < 256" using gfl_roots_poly [of "[1]" rs] assms(4) by (simp add: gfl_def)
  ultimately show ?thesis by (rule sq_fixed [rotated])
qed

end

subsection \<open>The root closure\<close>

definition doubling_closed :: "nat set \<Rightarrow> nat set \<Rightarrow> bool" where
  "doubling_closed R E \<longleftrightarrow> (\<forall>r \<in> R. 2 * r mod 255 \<in> R \<union> E)"

lemma closure_loop_props:
  "sorted rs \<Longrightarrow> distinct rs \<Longrightarrow> set rs \<subseteq> {..<255} \<Longrightarrow> c < 255 \<Longrightarrow> doubling_closed (set rs) {c} \<Longrightarrow>
   sorted (closure_loop c rs) \<and> distinct (closure_loop c rs) \<and>
   insert c (set rs) \<subseteq> set (closure_loop c rs) \<and> set (closure_loop c rs) \<subseteq> {..<255} \<and>
   doubling_closed (set (closure_loop c rs)) {}"
proof (induction c rs rule: closure_loop.induct)
  case (1 c rs)
  show ?case
  proof (cases "c \<in> set rs")
    case True
    then show ?thesis using "1.prems"
      by (auto simp: closure_loop.simps [of c rs] doubling_closed_def)
  next
    case False
    have s: "set (roots_insert c rs) = insert c (set rs)"
      by (simp add: roots_insert_def set_insort_insert)
    have "sorted (roots_insert c rs)" "distinct (roots_insert c rs)"
      using "1.prems" by (simp_all add: roots_insert_def sorted_insort_insert distinct_insort_insert)
    moreover have "doubling_closed (set (roots_insert c rs)) {c * 2 mod 255}"
      using "1.prems" by (auto simp: s doubling_closed_def mult.commute)
    ultimately show ?thesis
      using "1.IH" [OF False] "1.prems" False
      by (auto simp: closure_loop.simps [of c rs] s)
  qed
qed

lemma closure_loop_within:
  "set rs \<subseteq> U \<Longrightarrow> c \<in> U \<Longrightarrow> (\<And>r. r \<in> U \<Longrightarrow> 2 * r mod 255 \<in> U) \<Longrightarrow> set (closure_loop c rs) \<subseteq> U"
proof (induction c rs rule: closure_loop.induct)
  case (1 c rs)
  then show ?case
    by (cases "c \<in> set rs")
      (auto simp: closure_loop.simps [of c rs] roots_insert_def set_insort_insert mult.commute)
qed

lemma bch_roots_props:
  "sorted (bch_roots t) \<and> distinct (bch_roots t) \<and> set (bch_roots t) \<subseteq> {..<255} \<and>
   doubling_closed (set (bch_roots t)) {} \<and> (\<forall>i \<in> {1..2 * t}. i mod 255 \<in> set (bch_roots t))"
proof -
  have "sorted (fold (\<lambda>i rs. closure_loop (i mod 255) rs) [1..<n + 1] []) \<and>
    distinct (fold (\<lambda>i rs. closure_loop (i mod 255) rs) [1..<n + 1] []) \<and>
    set (fold (\<lambda>i rs. closure_loop (i mod 255) rs) [1..<n + 1] []) \<subseteq> {..<255} \<and>
    doubling_closed (set (fold (\<lambda>i rs. closure_loop (i mod 255) rs) [1..<n + 1] [])) {} \<and>
    (\<forall>i \<in> {1..n}. i mod 255 \<in> set (fold (\<lambda>i rs. closure_loop (i mod 255) rs) [1..<n + 1] []))" for n
  proof (induction n)
    case (Suc n)
    define rs where "rs = fold (\<lambda>i rs. closure_loop (i mod 255) rs) [1..<n + 1] []"
    note IH = Suc [folded rs_def]
    have "doubling_closed (set rs) {Suc n mod 255}" using IH by (auto simp: doubling_closed_def)
    then have c: "sorted (closure_loop (Suc n mod 255) rs) \<and> distinct (closure_loop (Suc n mod 255) rs) \<and>
      insert (Suc n mod 255) (set rs) \<subseteq> set (closure_loop (Suc n mod 255) rs) \<and>
      set (closure_loop (Suc n mod 255) rs) \<subseteq> {..<255} \<and>
      doubling_closed (set (closure_loop (Suc n mod 255) rs)) {}"
      using IH by (intro closure_loop_props) auto
    have step: "fold (\<lambda>i rs. closure_loop (i mod 255) rs) [1..<Suc n + 1] [] =
      closure_loop (Suc n mod 255) rs" unfolding rs_def by simp
    have "i mod 255 \<in> set (closure_loop (Suc n mod 255) rs)" if "i \<in> {1..Suc n}" for i
      using that IH c by (cases "i = Suc n") auto
    with c show ?case unfolding step by blast
  qed (auto simp: doubling_closed_def)
  from this [of "2 * t"] show ?thesis by (simp add: bch_roots_def)
qed

text \<open>At most eight conjugates for each odd exponent below \<open>2t\<close>.\<close>

definition conjugates :: "nat \<Rightarrow> nat set" where
  "conjugates t = (\<lambda>(i, j). (2 * i + 1) * 2 ^ j mod 255) ` ({..<t} \<times> {..<8})"

lemma card_conjugates: "card (conjugates t) \<le> 8 * t"
  unfolding conjugates_def by (rule order_trans [OF card_image_le]) simp_all

lemma conjugates_double: "r \<in> conjugates t \<Longrightarrow> 2 * r mod 255 \<in> conjugates t"
proof -
  assume "r \<in> conjugates t"
  then obtain i j where ij: "i < t" "j < 8" "r = (2 * i + 1) * 2 ^ j mod 255"
    by (auto simp: conjugates_def)
  then have r: "2 * r mod 255 = (2 * i + 1) * 2 ^ Suc j mod 255"
    by (simp add: mod_mult_right_eq mult.left_commute mult.assoc)
  show ?thesis
  proof (cases "j = 7")
    case True
    have "(2 * i + 1) * 2 ^ Suc j = (2 * i + 1) + 255 * (2 * i + 1)" by (simp add: True)
    then have "2 * r mod 255 = (2 * i + 1) * 2 ^ 0 mod 255" unfolding r
      by (simp only: mod_mult_self2 power_0 mult_1_right)
    then show ?thesis unfolding conjugates_def using ij by (intro image_eqI [of _ _ "(i, 0)"]) auto
  next
    case False
    then show ?thesis unfolding conjugates_def r
      using ij by (intro image_eqI [of _ _ "(i, Suc j)"]) auto
  qed
qed

lemma conjugates_all: "1 \<le> i \<Longrightarrow> i \<le> 2 * t \<Longrightarrow> i < 255 \<Longrightarrow> i \<in> conjugates t"
proof (induction i rule: less_induct)
  case (less i)
  show ?case
  proof (cases "even i")
    case True
    then obtain h where h: "i = 2 * h" by (elim evenE)
    with less have "h \<in> conjugates t" by auto
    then have "2 * h mod 255 \<in> conjugates t" by (rule conjugates_double)
    then show ?thesis using h less.prems by simp
  next
    case False
    then obtain h where h: "i = 2 * h + 1" by (elim oddE)
    with less.prems show ?thesis
      unfolding conjugates_def by (intro image_eqI [of _ _ "(h, 0)"]) auto
  qed
qed

lemma set_bch_roots_conjugates: "t \<le> 30 \<Longrightarrow> set (bch_roots t) \<subseteq> conjugates t"
proof -
  assume t: "t \<le> 30"
  have "set (fold (\<lambda>i rs. closure_loop (i mod 255) rs) is []) \<subseteq> conjugates t"
    if "set is \<subseteq> {1..2 * t}" for "is"
    using that
  proof (induction "is" rule: rev_induct)
    case (snoc i "is")
    then have "i \<in> conjugates t" using t by (intro conjugates_all) auto
    moreover have "i mod 255 = i" using snoc.prems t by auto
    moreover have "set (fold (\<lambda>i rs. closure_loop (i mod 255) rs) is []) \<subseteq> conjugates t"
      using snoc by simp
    ultimately have "set (closure_loop (i mod 255)
        (fold (\<lambda>i rs. closure_loop (i mod 255) rs) is [])) \<subseteq> conjugates t"
      using conjugates_double by (intro closure_loop_within) auto
    then show ?case by simp
  qed simp
  from this [of "[1..<2 * t + 1]"] show ?thesis unfolding bch_roots_def by fastforce
qed

lemma length_bch_roots: "t \<le> 30 \<Longrightarrow> length (bch_roots t) \<le> 8 * t"
proof -
  assume t: "t \<le> 30"
  then have "set (bch_roots t) \<subseteq> conjugates t" by (rule set_bch_roots_conjugates)
  moreover have "finite (conjugates t)" by (simp add: conjugates_def)
  ultimately have "card (set (bch_roots t)) \<le> card (conjugates t)" by (intro card_mono)
  with card_conjugates [of t] have "card (set (bch_roots t)) \<le> 8 * t" by linarith
  then show ?thesis using bch_roots_props [of t] by (simp add: distinct_card)
qed

text \<open>The root set in closed form: the exponents with a conjugate in \<open>1 .. 2t\<close>.\<close>

lemma double_iter: "doubling_closed R {} \<Longrightarrow> r \<in> R \<Longrightarrow> r < 255 \<Longrightarrow> r * 2 ^ j mod 255 \<in> R"
proof (induction j)
  case (Suc j)
  have "r * 2 ^ Suc j mod 255 = 2 * (r * 2 ^ j mod 255) mod 255"
    by (simp add: mod_mult_right_eq mult.left_commute)
  with Suc show ?case by (auto simp: doubling_closed_def)
qed simp

lemma mod_256: "x * 256 mod 255 = x mod (255 :: nat)"
  using mod_mult_self2 [of x 255 x] by (simp add: algebra_simps)

lemma set_bch_roots:
  assumes "t \<le> 30"
  shows "set (bch_roots t) = {x \<in> {..<255}. \<exists>j \<in> {..<8}. x * 2 ^ j mod 255 \<in> {1..2 * t}}"
proof (intro subset_antisym subsetI)
  fix x assume x: "x \<in> set (bch_roots t)"
  then have "x \<in> conjugates t" using set_bch_roots_conjugates assms by blast
  then obtain i j where ij: "i < t" "j < 8" "x = (2 * i + 1) * 2 ^ j mod 255"
    by (auto simp: conjugates_def)
  have "x * 2 ^ (8 - j) mod 255 = (2 * i + 1) * (2 ^ j * 2 ^ (8 - j)) mod 255"
    unfolding ij(3) by (simp only: mod_mult_left_eq mult.assoc)
  also have "(2::nat) ^ j * 2 ^ (8 - j) = 256" using ij(2) by (simp flip: power_add)
  finally have e: "x * 2 ^ (8 - j) mod 255 = 2 * i + 1"
    using ij(1) assms by (simp only: mod_256 mod_less)
  have "\<exists>j \<in> {..<8}. x * 2 ^ j mod 255 \<in> {1..2 * t}"
  proof (cases "j = 0")
    case True
    with ij assms have "x * 2 ^ 0 mod 255 \<in> {1..2 * t}" by auto
    then show ?thesis by (intro bexI [of _ 0]) simp_all
  next
    case False
    with ij e show ?thesis by (intro bexI [of _ "8 - j"]) auto
  qed
  with x bch_roots_props [of t] show "x \<in> {x \<in> {..<255}. \<exists>j \<in> {..<8}. x * 2 ^ j mod 255 \<in> {1..2 * t}}"
    by auto
next
  fix x assume "x \<in> {x \<in> {..<255}. \<exists>j \<in> {..<8}. x * 2 ^ j mod 255 \<in> {1..2 * t}}"
  then obtain j where j: "x < 255" "j < 8" "x * 2 ^ j mod 255 \<in> {1..2 * t}" by auto
  define y where "y = x * 2 ^ j mod 255"
  have rs: "doubling_closed (set (bch_roots t)) {}" "\<forall>i \<in> {1..2 * t}. i mod 255 \<in> set (bch_roots t)"
    using bch_roots_props [of t] by blast+
  have y: "y < 255" "y \<in> {1..2 * t}" using j by (simp_all add: y_def)
  then have "y \<in> set (bch_roots t)" using rs(2) by fastforce
  then have "y * 2 ^ (8 - j) mod 255 \<in> set (bch_roots t)" using double_iter rs(1) y(1) by blast
  moreover have "y * 2 ^ (8 - j) mod 255 = x * (2 ^ j * 2 ^ (8 - j)) mod 255"
    unfolding y_def by (simp add: mod_mult_left_eq mult.assoc)
  moreover have "(2::nat) ^ j * 2 ^ (8 - j) = 256" using j(2) by (simp flip: power_add)
  ultimately show "x \<in> set (bch_roots t)" using j(1) by (simp only: mod_256 mod_less)
qed

definition has_conjugate :: "nat \<Rightarrow> nat \<Rightarrow> bool" where
  "has_conjugate t x \<longleftrightarrow>
     list_ex (\<lambda>m. 1 \<le> x * m mod 255 \<and> x * m mod 255 \<le> 2 * t) [1, 2, 4, 8, 16, 32, 64, 128]"

fun count_conjugates :: "nat \<Rightarrow> nat \<Rightarrow> nat" where
  "count_conjugates t 0 = 0"
| "count_conjugates t (Suc x) = count_conjugates t x + (if has_conjugate t x then 1 else 0)"

lemma count_conjugates_numeral:
  "count_conjugates t (numeral k) =
     count_conjugates t (pred_numeral k) + (if has_conjugate t (pred_numeral k) then 1 else 0)"
  by (simp add: numeral_eq_Suc)

lemma count_conjugates_card: "count_conjugates t n = card {x \<in> {..<n}. has_conjugate t x}"
proof (induction n)
  case (Suc n)
  have "{x \<in> {..<Suc n}. has_conjugate t x} =
    {x \<in> {..<n}. has_conjugate t x} \<union> (if has_conjugate t n then {n} else {})"
    by (auto simp: less_Suc_eq)
  with Suc show ?case by simp
qed simp

lemma length_bch_roots_count: "t \<le> 30 \<Longrightarrow> length (bch_roots t) = count_conjugates t 255"
proof -
  assume t: "t \<le> 30"
  have e: "{..<8::nat} = {0, 1, 2, 3, 4, 5, 6, 7}" by auto
  have "(\<exists>j \<in> {..<8}. x * 2 ^ j mod 255 \<in> {1..2 * t}) \<longleftrightarrow> has_conjugate t x" for x
    unfolding e has_conjugate_def by simp
  then have "set (bch_roots t) = {x \<in> {..<255}. has_conjugate t x}"
    using set_bch_roots [OF t] by simp
  moreover have "card (set (bch_roots t)) = length (bch_roots t)"
    using bch_roots_props [of t] by (intro distinct_card) blast
  ultimately show ?thesis by (simp only: count_conjugates_card)
qed

subsection \<open>What the constructor establishes\<close>

text \<open>A codec as the constructor builds it: correct tables, a monic binary generator of degree
  \<open>parityBits\<close> that vanishes at \<open>alpha^1 .. alpha^(2t)\<close>.\<close>

definition bch_wf :: "bch \<Rightarrow> bool" where
  "bch_wf c \<longleftrightarrow>
     gf256 c \<and> 1 \<le> bc_t c \<and> bc_t c \<le> 30 \<and> bc_n c = 255 \<and>
     1 \<le> bc_parityBits c \<and> bc_parityBits c \<le> 8 * bc_t c \<and> bc_k c = 255 - bc_parityBits c \<and>
     length (bc_generator c) = bc_parityBits c + 1 \<and> last (bc_generator c) = 1 \<and>
     (\<forall>x \<in> set (bc_generator c). x = 0 \<or> x = 1) \<and>
     (\<forall>j \<in> {1..2 * bc_t c}. peval c (bc_generator c) (pw j) = 0)"

lemma peval_gf_cong:
  "gf_exp G = gf_exp H \<Longrightarrow> gf_log G = gf_log H \<Longrightarrow> peval G xs x = peval H xs x"
  by (induction xs) (simp_all add: gfMul_def)

lemma gf256_cong: "gf256 G \<Longrightarrow> gf_exp G = gf_exp H \<Longrightarrow> gf_log G = gf_log H \<Longrightarrow> gf256 H"
  by (simp add: gf256_def)

lemma bch_new_wf:
  assumes "1 \<le> t" "t \<le> 30"
  shows "\<exists>c. bch_new t 0x11D = Some c \<and> bch_wf c \<and> bc_t c = t \<and>
    bc_parityBits c = length (bch_roots t)"
proof -
  define g where "g = gf.roots_poly (bch_roots t) [1]"
  have rs: "distinct (bch_roots t)" "set (bch_roots t) \<subseteq> {..<255}"
    "doubling_closed (set (bch_roots t)) {}" "\<forall>i \<in> {1..2 * t}. i mod 255 \<in> set (bch_roots t)"
    using bch_roots_props [of t] by blast+
  have "fold (\<lambda>r g. poly_times_root gf_default (gf_exp gf_default ! r) g) (bch_roots t) [1] = g"
    unfolding g_def gf.roots_poly_def
    by (rule List.fold_cong) (use rs(2) in \<open>auto simp: gf.exp_pw\<close>)
  then have fold: "fold (\<lambda>r g. poly_times_root (gf_tables 0x11D) (gf_exp (gf_tables 0x11D) ! r) g)
      (bch_roots t) [1] = g" by (simp only: gf_default_def)
  have bin: "\<forall>x \<in> set g. x = 0 \<or> x = 1"
    unfolding g_def using rs by (intro ballI gf.roots_poly_binary) (auto simp: doubling_closed_def)
  have len: "length g = length (bch_roots t) + 1" by (simp add: g_def)
  have deg: "length (bch_roots t) \<le> 8 * t" using assms by (intro length_bch_roots)
  have "1 mod 255 \<in> set (bch_roots t)" using rs(4) assms by (intro bspec [OF rs(4)]) simp
  then have pos: "1 \<le> length (bch_roots t)" by (cases "bch_roots t") auto
  have g1: "map (\<lambda>c. c AND 1) g = g"
    using bin by (intro map_idI) (auto simp: and_one_eq)
  have root: "peval gf_default g (pw j) = 0" if "j \<in> {1..2 * t}" for j
  proof -
    have "j mod 255 = j" "j mod 255 \<in> set (bch_roots t)" using that assms rs(4) by auto
    then show ?thesis unfolding g_def by (intro gf.roots_poly_root) simp_all
  qed
  have last: "last g = 1" unfolding g_def by (simp add: gf.last_roots_poly)
  define c where "c = \<lparr>gf_exp = gf_exp (gf_tables 0x11D), gf_log = gf_log (gf_tables 0x11D), bc_t = t,
    bc_n = 255, bc_k = 255 - (length g - 1), bc_parityBits = length g - 1, bc_primPoly = 0x11D,
    bc_generator = g\<rparr>"
  have tab: "gf_exp gf_default = gf_exp c" "gf_log gf_default = gf_log c"
    by (simp_all add: c_def gf_default_def)
  have "bch_new t 0x11D = Some c"
    unfolding bch_new_def Let_def fold g1 c_def using assms bin len deg by auto
  moreover have "bch_wf c"
    unfolding bch_wf_def using assms bin len deg pos last root gf256_cong [OF gf_default_tables tab]
    by (auto simp: c_def peval_gf_cong [OF tab [unfolded c_def]])
  ultimately show ?thesis using len by (simp add: c_def)
qed

lemma bch_new_refuses: "t < 1 \<or> 30 < t \<Longrightarrow> bch_new t p = None"
  by (simp add: bch_new_def)

lemma bch_new_Some: "bch_new t 0x11D = Some c \<Longrightarrow> 1 \<le> t \<and> t \<le> 30 \<and> bch_wf c \<and> bc_t c = t"
  using bch_new_wf [of t] bch_new_refuses [of t "0x11D"] by (cases "1 \<le> t \<and> t \<le> 30") auto

subsection \<open>The encoder yields codewords\<close>

text \<open>A word as a polynomial: the value at \<open>x\<close>, packed bit \<open>i\<close> being the coefficient of
  \<open>x^(n-1-i)\<close>, is what the syndrome computes at \<open>alpha^j\<close>.\<close>

lemma fold_xor_shift:
  "fold (\<lambda>i acc. if P i then acc XOR (f i :: nat) else acc) is (a XOR b) =
   a XOR fold (\<lambda>i acc. if P i then acc XOR f i else acc) is b"
  by (induction "is" arbitrary: b) (simp_all add: xor.assoc)

lemma fold_xor_start:
  "fold (\<lambda>i acc. if P i then acc XOR (f i :: nat) else acc) is a =
   a XOR fold (\<lambda>i acc. if P i then acc XOR f i else acc) is 0"
  using fold_xor_shift [of P f "is" a 0] by simp

lemma bit_nat_xor: "bit_nat (a \<noteq> b) = bit_nat a XOR bit_nat b"
  by (cases a; cases b) (simp_all add: bit_nat_def)

lemma bit_nat_lt [simp]: "bit_nat b < 256"
  by (simp add: bit_nat_def)

context gf256
begin

text \<open>Horner's rule over the bits \<open>m 0, m 1, \<dots>\<close>, highest degree first.\<close>

fun horner :: "nat \<Rightarrow> (nat \<Rightarrow> nat) \<Rightarrow> nat \<Rightarrow> nat" where
  "horner x m 0 = 0"
| "horner x m (Suc i) = gfMul G x (horner x m i) XOR m i"

lemma horner_lt: "x < 256 \<Longrightarrow> (\<And>i. m i < 256) \<Longrightarrow> horner x m i < 256"
  by (induction i) (simp_all add: xor_lt_256)

lemma horner_cong: "(\<And>i. i < n \<Longrightarrow> m i = m' i) \<Longrightarrow> horner x m n = horner x m' n"
  by (induction n) simp_all

lemma horner_sum:
  "fold (\<lambda>i acc. if b i then acc XOR pw (j * (N - 1 - i)) else acc) [0..<n] 0 =
   gfMul G (pw (j * (N - n))) (horner (pw j) (\<lambda>i. bit_nat (b i)) n)" if "n \<le> N"
  using that
proof (induction n)
  case (Suc n)
  let ?h = "horner (pw j) (\<lambda>i. bit_nat (b i))"
  have h: "?h n < 256" by (intro horner_lt) (simp_all add: pw_range)
  have e: "j * (N - n) = j * (N - Suc n) + j" using Suc.prems
    by (metis Suc_diff_Suc Suc_le_eq add.commute mult_Suc_right)
  have "gfMul G (pw (j * (N - Suc n))) (gfMul G (pw j) (?h n)) = gfMul G (pw (j * (N - n))) (?h n)"
    unfolding e using h by (simp add: gfMul_assoc [symmetric] pw_range)
  moreover have "gfMul G (pw (j * (N - Suc n))) (bit_nat (b n)) =
    (if b n then pw (j * (N - 1 - n)) else 0)"
    using gfMul_1(2) pw_range(2) by (simp add: bit_nat_def)
  ultimately show ?case using Suc h
    by (simp add: gfMul_xor pw_range)
qed simp

text \<open>Appending the bits of a second word.\<close>

lemma horner_append:
  "horner x m (a + b) = gfMul G ((gfMul G x ^^ b) 1) (horner x m a) XOR horner x (\<lambda>i. m (a + i)) b"
  if "x < 256" "\<And>i. m i < 256"
proof (induction b)
  case 0
  show ?case using that by (simp add: horner_lt)
next
  case (Suc b)
  have p: "(gfMul G x ^^ n) 1 < 256" for n using that by (induction n) simp_all
  show ?case
    using that p by (simp add: Suc gfMul_xor horner_lt gfMul_assoc xor.assoc)
qed

lemma peval_snoc:
  "gfl xs \<Longrightarrow> a < 256 \<Longrightarrow> x < 256 \<Longrightarrow>
   peval G (xs @ [a]) x = peval G xs x XOR gfMul G ((gfMul G x ^^ length xs) 1) a"
proof (induction xs)
  case (Cons c xs)
  have p: "(gfMul G x ^^ n) 1 < 256" for n using Cons.prems by (induction n) simp_all
  show ?case using Cons p
    by (simp add: gfMul_xor peval_lt gfMul_assoc xor.assoc)
qed simp

text \<open>A register read from its top coefficient down is Horner's rule.\<close>

lemma horner_rev:
  "gfl xs \<Longrightarrow> x < 256 \<Longrightarrow> horner x (\<lambda>i. xs ! (length xs - 1 - i)) (length xs) = peval G xs x"
proof (induction xs)
  case (Cons c xs)
  have "horner x (\<lambda>i. (c # xs) ! (length xs - i)) (length xs) =
        horner x (\<lambda>i. xs ! (length xs - 1 - i)) (length xs)"
    by (rule horner_cong) (auto simp: nth_Cons')
  then show ?case using Cons by (simp add: xor.commute)
qed simp

end

text \<open>A constructed codec over the bit vectors of the core library.\<close>

locale bch_codec = core_bits C for C +
  fixes c :: bch
  assumes wf: "bch_wf c"

sublocale bch_codec \<subseteq> gf256 c
  using wf by (simp add: bch_wf_def)

context bch_codec
begin

lemma params: "bc_n c = 255" "1 \<le> bc_parityBits c" "bc_parityBits c < 255"
  "bc_k c + bc_parityBits c = 255" "1 \<le> bc_t c" "bc_t c \<le> 30"
  using wf by (auto simp: bch_wf_def)

lemma generator: "length (bc_generator c) = bc_parityBits c + 1" "last (bc_generator c) = 1"
  "gfl (bc_generator c)" "\<And>i. i < bc_parityBits c + 1 \<Longrightarrow> bc_generator c ! i \<in> {0, 1}"
  using wf by (auto simp: bch_wf_def gfl_def)

definition xpow :: "nat \<Rightarrow> nat \<Rightarrow> nat" where
  "xpow x n = (gfMul c x ^^ n) 1"

lemma xpow_lt [simp]: "x < 256 \<Longrightarrow> xpow x n < 256"
  by (induction n) (simp_all add: xpow_def)

lemma xpow_Suc: "xpow x (Suc n) = gfMul c x (xpow x n)"
  by (simp add: xpow_def)

lemma generator_low:
  assumes "j \<in> {1..2 * bc_t c}"
  shows "peval c (take (bc_parityBits c) (bc_generator c)) (pw j) = xpow (pw j) (bc_parityBits c)"
proof -
  let ?d = "bc_parityBits c" and ?g = "bc_generator c"
  have "?g \<noteq> []" using generator(1) by auto
  then have g: "?g = take ?d ?g @ [1]"
    using generator(1,2) append_butlast_last_id [of ?g] by (simp add: butlast_conv_take)
  have "gfl (take ?d ?g)" using generator(3) by (auto simp: gfl_def dest: in_set_takeD)
  then have "peval c (take ?d ?g @ [1]) (pw j) =
      peval c (take ?d ?g) (pw j) XOR gfMul c (xpow (pw j) ?d) 1"
    using generator(1) by (subst peval_snoc) (simp_all add: pw_range xpow_def)
  moreover have "peval c ?g (pw j) = 0" using wf assms by (simp add: bch_wf_def)
  ultimately have "peval c (take ?d ?g) (pw j) XOR xpow (pw j) ?d = 0"
    using g by (simp add: pw_range)
  then show ?thesis by (metis xor.assoc xor_self_eq xor.left_neutral xor.right_neutral)
qed

definition bits :: "nat list \<Rightarrow> bool" where
  "bits xs \<longleftrightarrow> (\<forall>x \<in> set xs. x = 0 \<or> x = 1)"

lemma bits_gfl: "bits xs \<Longrightarrow> gfl xs"
  by (auto simp: bits_def gfl_def)

lemma bits_map2_xor: "bits xs \<Longrightarrow> bits ys \<Longrightarrow> bits (map2 (XOR) xs ys)"
  by (induction xs ys rule: list_induct2') (auto simp: bits_def)

lemma bits_replicate [simp]: "bits (replicate n 0)"
  by (simp add: bits_def)

lemma length_lfsr_step [simp]: "length r = bc_parityBits c \<Longrightarrow> length (lfsr_step c r b) = bc_parityBits c"
  using params generator by (simp add: lfsr_step_def Let_def)

lemma bits_lfsr_step: "bits r \<Longrightarrow> bits (lfsr_step c r b)"
proof -
  assume r: "bits r"
  then have t: "bits (0 # take (bc_parityBits c - 1) r)"
    by (auto simp: bits_def dest: in_set_takeD)
  have "bits (take (bc_parityBits c) (bc_generator c))"
    using wf by (auto simp: bits_def bch_wf_def dest: in_set_takeD)
  then have "bits (map2 (XOR) (0 # take (bc_parityBits c - 1) r) (take (bc_parityBits c) (bc_generator c)))"
    by (rule bits_map2_xor [OF t])
  with t show ?thesis by (simp add: lfsr_step_def Let_def)
qed

lemma peval_lfsr_step:
  assumes j: "j \<in> {1..2 * bc_t c}" and r: "length r = bc_parityBits c" "bits r" and b: "b = 0 \<or> b = 1"
  shows "peval c (lfsr_step c r b) (pw j) =
    gfMul c (pw j) (peval c r (pw j)) XOR gfMul c (xpow (pw j) (bc_parityBits c)) b"
proof -
  let ?d = "bc_parityBits c" and ?x = "pw j"
  have "r \<noteq> []" using r params by auto
  then obtain lo top where rr: "r = lo @ [top]" by (cases r rule: rev_cases) auto
  then have lo: "gfl lo" "length lo = ?d - 1" using r bits_gfl [of r] by auto
  have lo_def: "take (?d - 1) r = lo" and top_def: "r ! (?d - 1) = top"
    unfolding lo(2) [symmetric] rr by simp_all
  have top: "top = 0 \<or> top = 1" using r rr by (auto simp: bits_def)
  have "Suc (?d - 1) = ?d" using params(2) by linarith
  then have D1: "gfMul c ?x (xpow ?x (?d - 1)) = xpow ?x ?d"
    using xpow_Suc [of ?x "?d - 1"] by (simp only:)
  have D2: "xpow ?x ?d < 256" by (rule xpow_lt [OF pw_range(2)])
  note D = D1 D2
  have l: "peval c lo ?x < 256" using lo by (simp add: peval_lt pw_range)
  have "peval c r ?x = peval c lo ?x XOR gfMul c (xpow ?x (?d - 1)) top"
    unfolding rr using lo top by (subst peval_snoc) (auto simp: pw_range xpow_def)
  then have "gfMul c ?x (peval c r ?x) = gfMul c ?x (peval c lo ?x) XOR gfMul c (xpow ?x ?d) top"
    using l top D by (auto simp: gfMul_xor pw_range gfMul_assoc [symmetric])
  then have R: "gfMul c ?x (peval c r ?x) XOR gfMul c (xpow ?x ?d) b =
      gfMul c ?x (peval c lo ?x) XOR (if b = top then 0 else xpow ?x ?d)"
    using b top D(2) by (auto simp: xor.assoc)
  have fb: "(b XOR top \<noteq> 0) = (b \<noteq> top)" using b top by auto
  have "peval c (lfsr_step c r b) ?x =
      (if b = top then peval c (0 # lo) ?x
       else peval c (map2 (XOR) (0 # lo) (take ?d (bc_generator c))) ?x)"
    using fb unfolding lfsr_step_def Let_def lo_def top_def by simp
  also have "\<dots> = gfMul c ?x (peval c lo ?x) XOR (if b = top then 0 else xpow ?x ?d)"
  proof (cases "b = top")
    case False
    have "length (0 # lo) = length (take ?d (bc_generator c))" using lo params generator by simp
    moreover have "gfl (take ?d (bc_generator c))"
      using generator(3) by (auto simp: gfl_def dest: in_set_takeD)
    ultimately have "peval c (map2 (XOR) (0 # lo) (take ?d (bc_generator c))) ?x =
      peval c (0 # lo) ?x XOR peval c (take ?d (bc_generator c)) ?x"
      using lo by (intro peval_xor) (simp_all add: pw_range)
    then show ?thesis using False generator_low [OF j] by simp
  qed simp
  finally show ?thesis using R by simp
qed

lemma remainder_props:
  "length (encode_remainder C c d) = bc_parityBits c" "bits (encode_remainder C c d)"
proof -
  have "length (fold (\<lambda>i r. lfsr_step c r (bit_nat (f i))) is r) = bc_parityBits c \<and>
    bits (fold (\<lambda>i r. lfsr_step c r (bit_nat (f i))) is r)"
    if "length r = bc_parityBits c" "bits r" for r f and "is" :: "nat list"
    using that by (induction "is" arbitrary: r) (simp_all add: bits_lfsr_step)
  from this [of "replicate (bc_parityBits c) 0"]
  show "length (encode_remainder C c d) = bc_parityBits c" "bits (encode_remainder C c d)"
    by (simp_all add: encode_remainder_def)
qed

lemma peval_remainder:
  assumes j: "j \<in> {1..2 * bc_t c}"
  shows "peval c (encode_remainder C c d) (pw j) = gfMul c (xpow (pw j) (bc_parityBits c))
    (horner (pw j) (\<lambda>i. bit_nat (getBit C d i)) (bc_k c))"
proof -
  let ?rem = "\<lambda>n. fold (\<lambda>i r. lfsr_step c r (bit_nat (getBit C d i))) [0..<n] (replicate (bc_parityBits c) 0)"
  let ?h = "horner (pw j) (\<lambda>i. bit_nat (getBit C d i))"
  have h: "?h n < 256" for n by (intro horner_lt) (simp_all add: pw_range)
  have "peval c (replicate m 0) (pw j) = 0" for m by (induction m) simp_all
  then have "length (?rem n) = bc_parityBits c \<and> bits (?rem n) \<and>
    peval c (?rem n) (pw j) = gfMul c (xpow (pw j) (bc_parityBits c)) (?h n)" for n
  proof (induction n)
    case (Suc n)
    have b: "bit_nat (getBit C d n) = 0 \<or> bit_nat (getBit C d n) = 1" by (simp add: bit_nat_def)
    have "gfMul c (pw j) (gfMul c (xpow (pw j) (bc_parityBits c)) (?h n)) =
      gfMul c (xpow (pw j) (bc_parityBits c)) (gfMul c (pw j) (?h n))"
      using h [of n] by (metis gfMul_assoc gfMul_comm pw_range(2) xpow_lt)
    with Suc b h [of n] show ?case
      by (simp add: bits_lfsr_step peval_lfsr_step [OF j] gfMul_xor pw_range)
  qed (simp add: bits_def)
  then show ?thesis by (simp add: encode_remainder_def)
qed

text \<open>The bits of a systematic codeword.\<close>

lemma encodeCodeword_bits:
  assumes "encodeCodeword C c d = Some w"
  shows "length w = bytesForBits C 255" "length d = bytesForBits C (bc_k c)"
    and "i < 255 \<Longrightarrow> getBit C w i =
      (if i < bc_k c then getBit C d i
       else encode_remainder C c d ! (bc_parityBits c - 1 - (i - bc_k c)) \<noteq> 0)"
    and "255 \<le> i \<Longrightarrow> i < 8 * length w \<Longrightarrow> \<not> getBit C w i"
proof -
  define par where "par = fold (\<lambda>p parity. setBit C parity p
      (encode_remainder C c d ! (bc_parityBits c - 1 - p) \<noteq> 0)) [0..<bc_parityBits c]
      (replicate (bytesForBits C (bc_parityBits c)) 0)"
  define w1 where "w1 = fold (\<lambda>i w. setBit C w i (getBit C d i)) [0..<bc_k c]
      (replicate (bytesForBits C 255) 0)"
  show d: "length d = bytesForBits C (bc_k c)"
    using assms by (auto simp: encodeCodeword_def encodeParity_def Option.bind_eq_Some_conv split: if_splits)
  have w: "w = fold (\<lambda>i w. setBit C w (bc_k c + i) (getBit C par i)) [0..<bc_parityBits c] w1"
    using assms d params(1) by (simp add: encodeCodeword_def encodeParity_def Let_def par_def w1_def)
  have b: "255 \<le> 8 * bytesForBits C 255" by (rule bytesForBits_bound)
  have k: "bc_k c \<le> 255" "bc_k c + bc_parityBits c \<le> 8 * bytesForBits C 255"
    using params b by linarith+
  have l1: "length w1 = bytesForBits C 255"
    unfolding w1_def using k b by (subst fold_setBit_0) simp_all
  show lw: "length w = bytesForBits C 255" unfolding w using l1 k by simp
  have g: "getBit C w j = (if bc_k c \<le> j \<and> j < bc_k c + bc_parityBits c then getBit C par (j - bc_k c)
      else getBit C w1 j)" if "j < 8 * length w" for j
    unfolding w using getBit_fold_setBit [of "bc_k c" "bc_parityBits c" w1 j "getBit C par"] that k lw l1 by simp
  have g1: "getBit C w1 j = (j < bc_k c \<and> getBit C d j)" if "j < 8 * length w" for j
    unfolding w1_def using that k b lw by (subst fold_setBit_0(2)) simp_all
  have gp: "getBit C par p = (encode_remainder C c d ! (bc_parityBits c - 1 - p) \<noteq> 0)"
    if "p < bc_parityBits c" for p
    unfolding par_def using that bytesForBits_bound [of "bc_parityBits c"]
    by (subst fold_setBit_0(2)) simp_all
  show "getBit C w i = (if i < bc_k c then getBit C d i
       else encode_remainder C c d ! (bc_parityBits c - 1 - (i - bc_k c)) \<noteq> 0)" if "i < 255"
    using that g [of i] g1 [of i] gp [of "i - bc_k c"] lw b params(4) by auto
  show "\<not> getBit C w i" if "255 \<le> i" "i < 8 * length w"
    using that g [of i] g1 [of i] params(4) by simp
qed

lemma encodeCodeword_total:
  "length d = bytesForBits C (bc_k c) \<Longrightarrow> \<exists>w. encodeCodeword C c d = Some w"
  by (simp add: encodeCodeword_def encodeParity_def Let_def)

lemma syndrome_horner:
  assumes "j \<in> {1..2 * bc_t c}"
  shows "syndrome C c w j = horner (pw j) (\<lambda>i. bit_nat (getBit C w i)) 255"
proof -
  have j: "j mod 255 = j" "j < 512" using assms params(6) by auto
  have "gfPow c (gf_exp c ! (j mod 255)) (int (255 - 1 - i)) = pw (j * (255 - 1 - i))" for i
    using j exp_pw [OF j(2)] by (simp add: gfPow_pw)
  then have "syndrome C c w j =
      fold (\<lambda>i acc. if getBit C w i then acc XOR pw (j * (255 - 1 - i)) else acc) [0..<255] 0"
    unfolding syndrome_def params(1) by (simp only:)
  also have "\<dots> = gfMul c (pw (j * (255 - 255))) (horner (pw j) (\<lambda>i. bit_nat (getBit C w i)) 255)"
    by (rule horner_sum) simp
  finally show ?thesis using horner_lt [of "pw j" "\<lambda>i. bit_nat (getBit C w i)" 255] pw_range by simp
qed

lemma isCodeword_iff:
  "isCodeword C c w \<longleftrightarrow> (\<forall>j \<in> {1..2 * bc_t c}. horner (pw j) (\<lambda>i. bit_nat (getBit C w i)) 255 = 0)"
  using syndrome_horner by (auto simp: isCodeword_def computeSyndromes_def list_all_iff)

lemma encodeCodeword_isCodeword:
  assumes "encodeCodeword C c d = Some w"
  shows "isCodeword C c w"
  unfolding isCodeword_iff
proof
  fix j assume j: "j \<in> {1..2 * bc_t c}"
  let ?k = "bc_k c" and ?p = "bc_parityBits c" and ?rem = "encode_remainder C c d"
  note wb = encodeCodeword_bits(3) [OF assms]
  have "horner (pw j) (\<lambda>i. bit_nat (getBit C w i)) 255 =
    gfMul c (xpow (pw j) ?p) (horner (pw j) (\<lambda>i. bit_nat (getBit C w i)) ?k) XOR
    horner (pw j) (\<lambda>i. bit_nat (getBit C w (?k + i))) ?p"
    using horner_append [of "pw j" "\<lambda>i. bit_nat (getBit C w i)" ?k ?p] params(4)
    by (simp add: pw_range xpow_def)
  also have "horner (pw j) (\<lambda>i. bit_nat (getBit C w i)) ?k =
      horner (pw j) (\<lambda>i. bit_nat (getBit C d i)) ?k"
    using wb params(4) by (intro horner_cong) simp
  also have "horner (pw j) (\<lambda>i. bit_nat (getBit C w (?k + i))) ?p =
      horner (pw j) (\<lambda>i. ?rem ! (length ?rem - 1 - i)) (length ?rem)"
  proof -
    have "bit_nat (getBit C w (?k + i)) = ?rem ! (?p - 1 - i)" if "i < ?p" for i
    proof -
      have "?rem ! (?p - 1 - i) \<in> set ?rem" using that remainder_props(1) by (intro nth_mem) simp
      then have "?rem ! (?p - 1 - i) = 0 \<or> ?rem ! (?p - 1 - i) = 1"
        using remainder_props(2) unfolding bits_def by blast
      then show ?thesis using wb [of "?k + i"] that params(4) by (auto simp: bit_nat_def)
    qed
    then show ?thesis unfolding remainder_props(1) by (intro horner_cong)
  qed
  also have "\<dots> = peval c ?rem (pw j)"
    using remainder_props(2) bits_gfl by (intro horner_rev) (simp_all add: pw_range)
  finally show "horner (pw j) (\<lambda>i. bit_nat (getBit C w i)) 255 = 0"
    using peval_remainder [OF j, of d] by simp
qed

subsection \<open>The decoder\<close>

text \<open>Berlekamp-Massey never inverts zero, so no exception leaves the decoder.\<close>

definition bm_ok :: "bm \<Rightarrow> bool" where
  "bm_ok s \<longleftrightarrow> gfl (bm_lambda s) \<and> gfl (bm_prev s) \<and> bm_b s < 256 \<and> bm_b s \<noteq> 0"

lemma gfl_update: "gfl xs \<Longrightarrow> (i < length xs \<Longrightarrow> v < 256) \<Longrightarrow> gfl (xs[i := v])"
proof (cases "i < length xs")
  case True
  assume "gfl xs" "i < length xs \<Longrightarrow> v < 256"
  with True show ?thesis using set_update_subset_insert [of xs i v] by (auto simp: gfl_def)
qed (simp add: list_update_beyond)

lemma gfl_bm_update:
  assumes "bm_ok s" "k < 256"
  shows "gfl (bm_update c k s)"
proof -
  have "gfl (fold (\<lambda>i lam. lam[i + m := lam ! (i + m) XOR gfMul c k (p ! i)]) is lam)"
    if "gfl lam" "\<forall>i \<in> set is. i < length p" "gfl p" for m p lam and "is" :: "nat list"
    using that
  proof (induction "is" arbitrary: lam)
    case (Cons i "is")
    have "gfl (lam[i + m := lam ! (i + m) XOR gfMul c k (p ! i)])"
      using Cons.prems assms(2) by (intro gfl_update) (auto intro!: xor_lt_256 simp: gfl_nth)
    with Cons show ?case by simp
  qed simp
  with assms(1) show ?thesis unfolding bm_update_def Let_def bm_ok_def by simp
qed

lemma bm_delta_lt:
  assumes "bm_ok s" "gfl syn" "r < length syn"
  shows "bm_delta c syn r s < 256"
proof -
  have "fold (\<lambda>i delta. if i \<le> r then delta XOR gfMul c (bm_lambda s ! i) (syn ! (r - i)) else delta) is d < 256"
    if "d < 256" "\<forall>i \<in> set is. i < length (bm_lambda s)" for d and "is" :: "nat list"
    using that
  proof (induction "is" arbitrary: d)
    case (Cons i "is")
    then show ?case using assms by (auto simp: bm_ok_def gfl_nth xor_lt_256)
  qed simp
  from this [of "syn ! r" "[1..<min (bm_L s + 1) (length (bm_lambda s))]"] show ?thesis
    using assms by (simp add: bm_delta_def gfl_nth)
qed

lemma bm_step_ok:
  assumes "bm_ok s" "gfl syn" "r < length syn"
  shows "\<exists>s'. bm_step c syn r s = Some s' \<and> bm_ok s'"
proof -
  note d = bm_delta_lt [OF assms]
  obtain i where i: "gfInv c (bm_b s) = Some i" "i < 256" using gfInv_Some assms(1) by (auto simp: bm_ok_def)
  have "gfl (bm_update c (gfMul c (bm_delta c syn r s) i) s)"
    using assms(1) d i by (intro gfl_bm_update) simp_all
  then show ?thesis using assms(1) d i by (auto simp: bm_step_def Let_def bm_ok_def)
qed

lemma bm_run_ok:
  "bm_ok s \<Longrightarrow> gfl syn \<Longrightarrow> \<forall>r \<in> set rs. r < length syn \<Longrightarrow> \<exists>s'. bm_run c syn rs s = Some s' \<and> bm_ok s'"
proof (induction rs arbitrary: s)
  case (Cons r rs)
  from bm_step_ok [of s syn r] Cons.prems obtain s1 where "bm_step c syn r s = Some s1" "bm_ok s1" by auto
  with Cons show ?case by simp
qed simp

lemma gfl_computeSyndromes: "gfl (computeSyndromes C c w)"
  using syndrome_horner horner_lt pw_range
  by (auto simp: gfl_def computeSyndromes_def)

lemma decode_total: "\<exists>r. decodeCodeword C c received out = Some r"
proof -
  have "\<exists>s. bm_run c (computeSyndromes C c received) [0..<2 * bc_t c] bm_init = Some s"
    using bm_run_ok [of bm_init "computeSyndromes C c received" "[0..<2 * bc_t c]"]
      gfl_computeSyndromes by (auto simp: bm_ok_def bm_init_def computeSyndromes_def)
  then show ?thesis by (auto simp: decodeCodeword_def Let_def)
qed

lemma length_flip_bits [simp]:
  "\<forall>p \<in> set ps. p < 8 * length w \<Longrightarrow> length (flip_bits C ps w) = length w"
  by (induction ps arbitrary: w) (simp_all add: flip_bits_def)

lemma getBit_flip_bits:
  "\<forall>p \<in> set ps. p < 8 * length w \<Longrightarrow> distinct ps \<Longrightarrow> j < 8 * length w \<Longrightarrow>
   getBit C (flip_bits C ps w) j = (getBit C w j \<noteq> (j \<in> set ps))"
proof (induction ps arbitrary: w)
  case (Cons p ps)
  have f: "flip_bits C (p # ps) w = flip_bits C ps (setBit C w p (\<not> getBit C w p))"
    by (simp add: flip_bits_def)
  show ?case unfolding f using Cons by (auto simp: getBit_setBit)
qed (simp add: flip_bits_def)

lemma chien_positions_props:
  "distinct (chien_positions c lam)" "\<forall>p \<in> set (chien_positions c lam). p < 255"
  using params(1) by (auto simp: chien_positions_def distinct_map inj_on_def)

text \<open>A word that is accepted is a codeword at a Hamming distance of at most \<open>t\<close> from the received
  one, and the distance is reported.\<close>

lemma decode_sound:
  assumes "decodeCodeword C c received out = Some (True, w, e)"
  shows "isCodeword C c w" "length w = length received" "length received = bytesForBits C 255"
    and "e = int (card {i \<in> {..<255}. getBit C w i \<noteq> getBit C received i})" "e \<le> int (bc_t c)"
    and "255 \<le> i \<Longrightarrow> i < 8 * length w \<Longrightarrow> getBit C w i = getBit C received i"
proof -
  from assms show len: "length received = bytesForBits C 255"
    by (auto simp: decodeCodeword_def params(1) split: if_splits)
  show "isCodeword C c w" using assms
    by (auto simp: decodeCodeword_def isCodeword_def Let_def Option.bind_eq_Some_conv split: if_splits)
  have "(w = received \<and> e = 0) \<or> (\<exists>lam. w = flip_bits C (chien_positions c lam) received \<and>
      e = int (length (chien_positions c lam)) \<and> length (chien_positions c lam) \<le> bc_t c)"
  proof (cases "list_all (\<lambda>s. s = 0) (computeSyndromes C c received)")
    case True
    then show ?thesis using assms len by (simp add: decodeCodeword_def params(1))
  next
    case False
    obtain s where r: "bm_run c (computeSyndromes C c received) [0..<2 * bc_t c] bm_init = Some s"
      using bm_run_ok [of bm_init "computeSyndromes C c received" "[0..<2 * bc_t c]"]
        gfl_computeSyndromes by (auto simp: bm_ok_def bm_init_def computeSyndromes_def)
    from assms len False have
      "w = flip_bits C (chien_positions c (bm_lambda s)) received \<and>
       e = int (length (chien_positions c (bm_lambda s))) \<and>
       length (chien_positions c (bm_lambda s)) \<le> bc_t c"
      by (auto simp: decodeCodeword_def params(1) Let_def r split: if_splits)
    then show ?thesis by (intro disjI2 exI [of _ "bm_lambda s"]) simp
  qed
  then consider "w = received" "e = 0"
    | lam ps where "ps = chien_positions c lam" "w = flip_bits C ps received"
      "e = int (length ps)" "length ps \<le> bc_t c" by blast
  then have "length w = length received \<and>
      e = int (card {i \<in> {..<255}. getBit C w i \<noteq> getBit C received i}) \<and> e \<le> int (bc_t c) \<and>
      (\<forall>i. 255 \<le> i \<longrightarrow> i < 8 * length w \<longrightarrow> getBit C w i = getBit C received i)"
  proof cases
    case 2
    note ps = chien_positions_props [of lam, folded 2(1)]
    have b: "255 \<le> 8 * length received" unfolding len by (rule bytesForBits_bound)
    then have p: "\<forall>p \<in> set ps. p < 8 * length received" using ps(2) by auto
    have g: "getBit C w j = (getBit C received j \<noteq> (j \<in> set ps))" if "j < 8 * length received" for j
      unfolding 2(2) using p ps(1) that by (rule getBit_flip_bits)
    have "{i \<in> {..<255}. getBit C w i \<noteq> getBit C received i} = set ps"
      using g b ps(2) by auto
    then have "card {i \<in> {..<255}. getBit C w i \<noteq> getBit C received i} = length ps"
      using ps(1) by (simp add: distinct_card)
    moreover have "length w = length received" using p by (simp add: 2(2))
    ultimately show ?thesis using 2 g ps(2) by auto
  qed simp
  then show "length w = length received"
    "e = int (card {i \<in> {..<255}. getBit C w i \<noteq> getBit C received i})" "e \<le> int (bc_t c)"
    "255 \<le> i \<Longrightarrow> i < 8 * length w \<Longrightarrow> getBit C w i = getBit C received i" by blast+
qed

lemma decode_failed:
  "decodeCodeword C c received out = Some (False, w, e) \<Longrightarrow> w = out \<and> e = - 1"
  by (auto simp: decodeCodeword_def Let_def Option.bind_eq_Some_conv split: if_splits)

text \<open>A codeword decodes to itself.\<close>

lemma decode_codeword:
  "length w = bytesForBits C 255 \<Longrightarrow> isCodeword C c w \<Longrightarrow> decodeCodeword C c w out = Some (True, w, 0)"
  by (simp add: decodeCodeword_def params(1) isCodeword_def)

end

subsection \<open>Properties\<close>

text \<open>The constructor succeeds exactly for \<open>1 \<le> t \<le> 30\<close>; then the generator polynomial has
  binary coefficients, is monic of degree \<open>parityBits\<close>, vanishes at all of
  \<open>alpha^1, \<dots>, alpha^(2t)\<close>, and \<open>parityBits \<le> 8 t\<close> leaves at least 15 message bits: none of the
  constructor's two later checks can fail.\<close>

theorem bch_constructor_correct:
  "(1 \<le> t \<and> t \<le> 30 \<longleftrightarrow> bch_new t 0x11D \<noteq> None) \<and>
   (\<forall>c. bch_new t 0x11D = Some c \<longrightarrow>
      length (bc_generator c) = bc_parityBits c + 1 \<and> last (bc_generator c) = 1 \<and>
      (\<forall>x \<in> set (bc_generator c). x = 0 \<or> x = 1) \<and>
      (\<forall>j \<in> {1..2 * t}. peval c (bc_generator c) (pw j) = 0) \<and>
      bc_parityBits c \<le> 8 * t \<and> bc_k c = 255 - bc_parityBits c \<and> 15 \<le> bc_k c)"
proof -
  have "1 \<le> t \<and> t \<le> 30 \<longleftrightarrow> bch_new t 0x11D \<noteq> None"
    using bch_new_wf [of t] bch_new_refuses [of t "0x11D"] by (metis linorder_not_less option.distinct(1))
  moreover have "15 \<le> bc_k c" "bc_t c = t" "bch_wf c" if "bch_new t 0x11D = Some c" for c
    using bch_new_Some [OF that] by (auto simp: bch_wf_def)
  ultimately show ?thesis by (auto simp: bch_wf_def)
qed

lemma bch_new_obtain:
  assumes "1 \<le> t" "t \<le> 30"
  obtains c where "bch_new t 0x11D = Some c" "bch_wf c" "bc_parityBits c = length (bch_roots t)"
    "bc_k c = 255 - length (bch_roots t)"
  using bch_new_wf [OF assms] by (auto simp: bch_wf_def)

theorem bch_constructor_correct_witness:
  "bch_new 31 0x11D = None \<and>
   (\<exists>c. bch_new 18 0x11D = Some c \<and> last (bc_generator c) = 1 \<and> 15 \<le> bc_k c)"
proof -
  obtain c where c: "bch_new 18 0x11D = Some c" by (rule bch_new_obtain [of 18]) simp_all
  then have "last (bc_generator c) = 1 \<and> 15 \<le> bc_k c" using bch_constructor_correct [of 18] by blast
  moreover have "bch_new 31 0x11D = None" using bch_constructor_correct [of 31] by simp
  ultimately show ?thesis using c by blast
qed

text \<open>Systematic encoding: for every message of the right length a word is returned, its first
  \<open>k\<close> bits are the message, and all its \<open>2t\<close> syndromes are zero.\<close>

theorem bch_encode_systematic:
  assumes "core_laws C" and "bch_new t 0x11D = Some c" and "length d = bytesForBits C (bc_k c)"
  shows "\<exists>w. encodeCodeword C c d = Some w \<and> isCodeword C c w \<and> length w = bytesForBits C 255 \<and>
    (\<forall>i < bc_k c. getBit C w i = getBit C d i)"
proof -
  have cod: "bch_codec C c"
    using assms(1) bch_new_Some [OF assms(2)] by (simp add: bch_codec_def bch_codec_axioms_def core_laws_def)
  obtain w where w: "encodeCodeword C c d = Some w"
    using bch_codec.encodeCodeword_total [OF cod assms(3)] by blast
  have "bc_k c \<le> 255" using bch_codec.params(4) [OF cod] by linarith
  with w show ?thesis
    using bch_codec.encodeCodeword_isCodeword [OF cod w] bch_codec.encodeCodeword_bits(1,3) [OF cod w]
    by auto
qed

theorem bch_encode_systematic_witness:
  "\<exists>c w. bch_new 18 0x11D = Some c \<and>
     encodeCodeword ref_core c (replicate (bytesForBits ref_core (bc_k c)) 1) = Some w \<and>
     isCodeword ref_core c w"
proof -
  obtain c where c: "bch_new 18 0x11D = Some c" by (rule bch_new_obtain [of 18]) simp_all
  from bch_encode_systematic [OF ref_core_laws c, of "replicate (bytesForBits ref_core (bc_k c)) 1"] c
  show ?thesis by auto
qed

text \<open>C24. The decoder is sound and never throws: on every input of every length it returns; an
  accepted word is a codeword that differs from the received one in exactly
  \<open>errorsCorrected \<le> t\<close> of the 255 code bits and nowhere else; a rejection leaves the output
  untouched and reports -1; and a codeword decodes to itself with no error.\<close>

theorem bch_decode_sound:
  assumes "core_laws C" and "bch_new t 0x11D = Some c"
  shows "\<exists>ok w e. decodeCodeword C c r out = Some (ok, w, e) \<and>
    (ok \<longrightarrow> isCodeword C c w \<and> length w = length r \<and> length r = bytesForBits C 255 \<and>
       e = int (card {i \<in> {..<255}. getBit C w i \<noteq> getBit C r i}) \<and> e \<le> int t \<and>
       (\<forall>i. 255 \<le> i \<and> i < 8 * length w \<longrightarrow> getBit C w i = getBit C r i)) \<and>
    (\<not> ok \<longrightarrow> w = out \<and> e = - 1) \<and>
    (length r = bytesForBits C 255 \<and> isCodeword C c r \<longrightarrow> ok \<and> w = r \<and> e = 0)"
proof -
  have t: "bc_t c = t" using bch_new_Some [OF assms(2)] by simp
  have cod: "bch_codec C c"
    using assms(1) bch_new_Some [OF assms(2)] by (simp add: bch_codec_def bch_codec_axioms_def core_laws_def)
  obtain ok w e where d: "decodeCodeword C c r out = Some (ok, w, e)"
    using bch_codec.decode_total [OF cod] by (metis prod_cases3)
  have "ok \<Longrightarrow> decodeCodeword C c r out = Some (True, w, e)"
    "\<not> ok \<Longrightarrow> decodeCodeword C c r out = Some (False, w, e)" using d by simp_all
  note s = bch_codec.decode_sound [OF cod this(1), unfolded t]
    and f = bch_codec.decode_failed [OF cod this(2)]
  have "length r = bytesForBits C 255 \<and> isCodeword C c r \<Longrightarrow> ok \<and> w = r \<and> e = 0"
    using bch_codec.decode_codeword [OF cod, of r out] d by simp
  with d s f show ?thesis by blast
qed

theorem bch_decode_sound_witness:
  "\<exists>c w. bch_new 18 0x11D = Some c \<and>
     encodeCodeword ref_core c (replicate (bytesForBits ref_core (bc_k c)) 7) = Some w \<and>
     decodeCodeword ref_core c w [] = Some (True, w, 0)"
proof -
  obtain c where c: "bch_new 18 0x11D = Some c" "bch_wf c" by (rule bch_new_obtain [of 18]) simp_all
  then have cod: "bch_codec ref_core c"
    by (simp add: bch_codec_def bch_codec_axioms_def ref.core_bits_axioms)
  obtain w where w: "encodeCodeword ref_core c (replicate (bytesForBits ref_core (bc_k c)) 7) = Some w"
    using bch_codec.encodeCodeword_total [OF cod] by force
  then have "length w = bytesForBits ref_core 255" "isCodeword ref_core c w"
    using bch_codec.encodeCodeword_isCodeword [OF cod w] bch_codec.encodeCodeword_bits(1) [OF cod w]
    by simp_all
  with bch_decode_sound [OF ref_core_laws c(1), of w "[]"] w c(1) show ?thesis by auto
qed

end
