(* ===== verification/Bch_Profiles.thy ===== *)
theory Bch_Profiles
  imports Bch_Codec
begin

text \<open>
  The three codes the profiles of \<open>fe/FuzzyExtractor.h\<close> and the comment of \<open>fe/BchCodec.h\<close> name,
  with their parity computed from the constructor, and the paper's code as an instance of the codec
  locale.
\<close>

lemma bch_roots_18: "length (bch_roots 18) = 124"
  by (simp add: length_bch_roots_count count_conjugates_numeral has_conjugate_def)

lemma bch_roots_22: "length (bch_roots 22) = 148"
  by (simp add: length_bch_roots_count count_conjugates_numeral has_conjugate_def)

lemma bch_roots_25: "length (bch_roots 25) = 164"
  by (simp add: length_bch_roots_count count_conjugates_numeral has_conjugate_def)

text \<open>The parameters of the codes the profiles and the class comment name: 124 parity bits for
  \<open>t = 18\<close>, 148 for \<open>t = 22\<close> and 164 for \<open>t = 25\<close>, that is 131, 107 and 91 message bits.  (The
  comment in \<open>fe/BchCodec.h\<close> gives 155 and 171 parity bits for the last two.)\<close>

theorem bch_parity_bits:
  "map (\<lambda>t. map_option (\<lambda>c. (bc_parityBits c, bc_k c)) (bch_new t 0x11D)) [18, 22, 25] =
     [Some (124, 131), Some (148, 107), Some (164, 91)]"
proof -
  have "map_option (\<lambda>c. (bc_parityBits c, bc_k c)) (bch_new t 0x11D) =
      Some (length (bch_roots t), 255 - length (bch_roots t))" if "1 \<le> t" "t \<le> 30" for t
    using bch_new_wf [OF that] by (auto simp: bch_wf_def)
  from this [of 18] this [of 22] this [of 25] show ?thesis
    by (simp add: bch_roots_18 bch_roots_22 bch_roots_25)
qed

text \<open>The codec of the default profile.\<close>

definition bch_18 :: bch where
  "bch_18 = the (bch_new 18 0x11D)"

lemma bch_18: "bch_new 18 0x11D = Some bch_18" "bch_wf bch_18"
  using bch_new_wf [of 18] by (auto simp: bch_18_def)

interpretation b18: bch_codec ref_core bch_18
  by (intro bch_codec.intro bch_codec_axioms.intro bch_18 ref.core_bits_axioms)

end
