(* ===== verification/Fuzzy.thy ===== *)
theory Fuzzy
  imports Complex_Main Bch_Profiles Sha3_Suite
begin

text \<open>
  \<open>fe/FuzzyExtractor.h\<close>, \<open>fe/FuzzyExtractor.cc\<close>: parameters and profiles, the constructor's
  checks, the repetition inner code, \<open>gen\<close> and \<open>rep\<close> with their statistics.  Parameters are
  naturals (a negative C++ value is refused by the same checks as 0; \<open>keyBits\<close> and
  \<open>epsLog2\<close> are taken to be non-negative), the entropy rate is a rational, and the budget is
  computed exactly where the source uses doubles.  What the extractor needs of its code is the
  locale \<open>block_code\<close>, provided by every constructed BCH codec.
\<close>

subsection \<open>Parameters\<close>

record fe_params =
  fp_blockBits :: nat
  fp_bchT :: nat
  fp_numBlocks :: nat
  fp_repFactor :: nat
  fp_keyBits :: nat
  fp_epsLog2 :: nat
  fp_seedBytes :: nat
  fp_minEntropyRate :: rat
  fp_checkBudget :: bool
  fp_profileName :: string

definition fe_default :: fe_params where
  "fe_default = \<lparr>fp_blockBits = 255, fp_bchT = 18, fp_numBlocks = 4, fp_repFactor = 1,
     fp_keyBits = 256, fp_epsLog2 = 64, fp_seedBytes = 32, fp_minEntropyRate = 95 / 100,
     fp_checkBudget = True, fp_profileName = ''bch255-131-18''\<rparr>"

definition fe_profile :: "string \<Rightarrow> fe_params option" where
  "fe_profile name =
     (let p = fe_default\<lparr>fp_profileName := name\<rparr>
      in if name = ''bch255-131-18''
         then Some (p\<lparr>fp_bchT := 18, fp_numBlocks := 4, fp_repFactor := 1\<rparr>)
         else if name = ''bch255-91-25''
         then Some (p\<lparr>fp_bchT := 25, fp_numBlocks := 5, fp_repFactor := 1\<rparr>)
         else if name = ''rep3-bch255-131-18''
         then Some (p\<lparr>fp_bchT := 18, fp_numBlocks := 5, fp_repFactor := 3\<rparr>)
         else None)"

record helper_data =
  hd_sketch :: "bytes list"
  hd_repOffsets :: bytes
  hd_seed :: bytes
  hd_params :: fe_params

definition helper_leakBits :: "helper_data \<Rightarrow> nat option" where
  "helper_leakBits h = do {
     probe \<leftarrow> bch_new (fp_bchT (hd_params h)) 0x11D;
     let outerLeak = fp_numBlocks (hd_params h) * bc_parityBits probe;
     let innerLeak = fp_numBlocks (hd_params h) * fp_blockBits (hd_params h)
                       * (fp_repFactor (hd_params h) - 1);
     Some (outerLeak + innerLeak) }"

record fe_stats =
  st_blocksTotal :: nat
  st_blocksFailed :: nat
  st_errorsTotal :: int
  st_errorsMax :: int

definition stats_init :: "nat \<Rightarrow> fe_stats" where
  "stats_init n = \<lparr>st_blocksTotal = n, st_blocksFailed = 0, st_errorsTotal = 0, st_errorsMax = 0\<rparr>"

record gen_result =
  gr_helper :: helper_data
  gr_mk :: bytes
  gr_ok :: bool
  gr_stats :: fe_stats

record rep_result =
  rr_mk :: bytes
  rr_ok :: bool
  rr_stats :: fe_stats

record fe =
  fe_params :: fe_params
  fe_codec :: bch

subsection \<open>Constructor\<close>

definition residualEntropyBits :: "fe_params \<Rightarrow> bch \<Rightarrow> rat" where
  "residualEntropyBits p c =
     (let perBlock = fp_minEntropyRate p * of_nat (fp_blockBits p) - of_nat (bc_parityBits c)
      in of_nat (fp_numBlocks p) * perBlock)"

definition requiredEntropyBits :: "fe_params \<Rightarrow> rat" where
  "requiredEntropyBits p = of_nat (fp_keyBits p) + 2 * of_nat (fp_epsLog2 p)"

definition requiredPufBits :: "fe_params \<Rightarrow> nat" where
  "requiredPufBits p = fp_numBlocks p * fp_blockBits p * fp_repFactor p"

definition fe_new :: "fe_params \<Rightarrow> fe option" where
  "fe_new p = do {
     require (\<not> (fp_repFactor p \<noteq> 1 \<and> fp_repFactor p \<noteq> 3));
     require (\<not> fp_numBlocks p < 1);
     require (\<not> fp_seedBytes p < 16);
     c \<leftarrow> bch_new (fp_bchT p) 0x11D;
     require (\<not> bc_n c \<noteq> fp_blockBits p);
     require (\<not> (fp_checkBudget p \<and> residualEntropyBits p c < requiredEntropyBits p));
     Some \<lparr>fe_params = p, fe_codec = c\<rparr> }"

subsection \<open>Blocks and the repetition code\<close>

definition extractBlock :: "core_lib \<Rightarrow> bytes \<Rightarrow> nat \<Rightarrow> nat \<Rightarrow> bytes" where
  "extractBlock C all index bits =
     fold (\<lambda>i w. setBit C w i (getBit C all (index * bits + i))) [0..<bits]
       (replicate (bytesForBits C bits) 0)"

definition repetitionEncodeOffsets :: "core_lib \<Rightarrow> bytes \<Rightarrow> nat \<Rightarrow> nat \<Rightarrow> bytes" where
  "repetitionEncodeOffsets C raw outerBits rep =
     fold (\<lambda>i offsets.
         let ref = getBit C raw (i * rep)
         in fold (\<lambda>r offsets.
              let copy = getBit C raw (i * rep + r)
              in setBit C offsets (i * (rep - 1) + (r - 1)) (copy \<noteq> ref)) [1..<rep] offsets)
       [0..<outerBits] (replicate (bytesForBits C (outerBits * (rep - 1))) 0)"

definition repetitionReference :: "core_lib \<Rightarrow> bytes \<Rightarrow> nat \<Rightarrow> nat \<Rightarrow> bytes" where
  "repetitionReference C raw outerBits rep =
     fold (\<lambda>i w. setBit C w i (getBit C raw (i * rep))) [0..<outerBits]
       (replicate (bytesForBits C outerBits) 0)"

text \<open>The copies of outer bit \<open>i\<close> that read as one once their offsets are undone.\<close>

definition repetitionOnes :: "core_lib \<Rightarrow> bytes \<Rightarrow> bytes \<Rightarrow> nat \<Rightarrow> nat \<Rightarrow> nat" where
  "repetitionOnes C raw offsets rep i =
     fold (\<lambda>r ones.
         let b = getBit C raw (i * rep + r);
             b = (if 0 < r \<and> getBit C offsets (i * (rep - 1) + (r - 1)) then \<not> b else b)
         in if b then ones + 1 else ones) [0..<rep] 0"

definition repetitionDecodeWithOffsets ::
    "core_lib \<Rightarrow> bytes \<Rightarrow> bytes \<Rightarrow> nat \<Rightarrow> nat \<Rightarrow> bytes" where
  "repetitionDecodeWithOffsets C raw offsets outerBits rep =
     fold (\<lambda>i w. setBit C w i (rep < repetitionOnes C raw offsets rep i * 2)) [0..<outerBits]
       (replicate (bytesForBits C outerBits) 0)"

subsection \<open>Enrollment\<close>

text \<open>The codeword of block \<open>b\<close>: derived from the seed, cut to \<open>k\<close> bits, encoded.\<close>

definition fe_codeword :: "core_lib \<Rightarrow> suite \<Rightarrow> bch \<Rightarrow> bytes \<Rightarrow> nat \<Rightarrow> bytes option" where
  "fe_codeword C S c seed b = do {
     rBits \<leftarrow> su_kdf S seed [] ''uavauth/v1/fe-codeword'' (u16be C (of_nat b))
                (bytesForBits C (bc_k c));
     let data = fold (\<lambda>i w. setBit C w i False) [bc_k c..<length rBits * 8] rBits;
     encodeCodeword C c data }"

text \<open>The block loop: sketches so far and the bytes collected so far.\<close>

fun gen_blocks ::
    "core_lib \<Rightarrow> suite \<Rightarrow> fe \<Rightarrow> bytes \<Rightarrow> bytes \<Rightarrow> nat list \<Rightarrow> bytes list \<times> bytes
     \<Rightarrow> (bytes list \<times> bytes) option" where
  "gen_blocks C S f seed outer [] acc = Some acc"
| "gen_blocks C S f seed outer (b # bs) (sketch, recovered) = do {
     let block = extractBlock C outer b (fp_blockBits (fe_params f));
     codeword \<leftarrow> fe_codeword C S (fe_codec f) seed b;
     s \<leftarrow> xorBytes C block codeword;
     gen_blocks C S f seed outer bs (sketch @ [s], recovered @ block) }"

text \<open>The tail both operations share: extract, stretch when needed, cut.\<close>

definition fe_key :: "suite \<Rightarrow> fe_params \<Rightarrow> bytes \<Rightarrow> bytes \<Rightarrow> bytes option" where
  "fe_key S p seed recovered = do {
     key \<leftarrow> su_extract S seed recovered;
     let keyBytes = fp_keyBits p div 8;
     key \<leftarrow> (if length key < keyBytes then su_kdf S key seed kFeRoot [] keyBytes else Some key);
     Some (resize keyBytes key) }"

definition fe_gen :: "core_lib \<Rightarrow> suite \<Rightarrow> fe \<Rightarrow> bytes \<Rightarrow> bytes \<Rightarrow> gen_result option" where
  "fe_gen C S f response seed =
     (let p = fe_params f; outerBitsTotal = fp_numBlocks p * fp_blockBits p
      in do {
        require (length seed = fp_seedBytes p);
        require (length response = bytesForBits C (requiredPufBits p));
        let offsets = (if 1 < fp_repFactor p
                       then repetitionEncodeOffsets C response outerBitsTotal (fp_repFactor p) else []);
        let outer = (if 1 < fp_repFactor p
                     then repetitionReference C response outerBitsTotal (fp_repFactor p) else response);
        (sketch, recovered) \<leftarrow> gen_blocks C S f seed outer [0..<fp_numBlocks p] ([], []);
        key \<leftarrow> fe_key S p seed recovered;
        Some \<lparr>gr_helper = \<lparr>hd_sketch = sketch, hd_repOffsets = offsets, hd_seed = seed, hd_params = p\<rparr>,
              gr_mk = key, gr_ok = True, gr_stats = stats_init (fp_numBlocks p)\<rparr> })"

subsection \<open>Reproduction\<close>

text \<open>The block loop: statistics, bytes recovered, and whether every block so far decoded.  A
  sketch of the wrong size ends the loop, a block that does not decode is counted.\<close>

fun rep_blocks ::
    "core_lib \<Rightarrow> fe \<Rightarrow> helper_data \<Rightarrow> bytes \<Rightarrow> nat list \<Rightarrow> fe_stats \<times> bytes \<times> bool
     \<Rightarrow> (fe_stats \<times> bytes \<times> bool) option" where
  "rep_blocks C f h outer [] acc = Some acc"
| "rep_blocks C f h outer (b # bs) (st, recovered, allOk) =
     (let block = extractBlock C outer b (fp_blockBits (fe_params f));
          sketch = hd_sketch h ! b
      in if length sketch \<noteq> length block then Some (st, recovered, False)
         else do {
           noisyCodeword \<leftarrow> xorBytes C block sketch;
           (ok, corrected, errors) \<leftarrow> decodeCodeword C (fe_codec f) noisyCodeword [];
           (if \<not> ok
            then rep_blocks C f h outer bs
                   (st\<lparr>st_blocksFailed := st_blocksFailed st + 1\<rparr>, recovered, False)
            else do {
              block \<leftarrow> xorBytes C sketch corrected;
              let st = st\<lparr>st_errorsTotal := st_errorsTotal st + errors,
                          st_errorsMax := (if st_errorsMax st < errors then errors else st_errorsMax st)\<rparr>;
              rep_blocks C f h outer bs (st, recovered @ block, allOk) }) })"

definition rep_fail :: "fe_stats \<Rightarrow> rep_result" where
  "rep_fail st = \<lparr>rr_mk = [], rr_ok = False, rr_stats = st\<rparr>"

definition fe_rep :: "core_lib \<Rightarrow> suite \<Rightarrow> fe \<Rightarrow> bytes \<Rightarrow> helper_data \<Rightarrow> rep_result option" where
  "fe_rep C S f noisy h =
     (let p = fe_params f; outerBitsTotal = fp_numBlocks p * fp_blockBits p;
          st = stats_init (fp_numBlocks p)
      in if length noisy \<noteq> bytesForBits C (requiredPufBits p) \<or>
            length (hd_sketch h) \<noteq> fp_numBlocks p \<or> length (hd_seed h) \<noteq> fp_seedBytes p
         then Some (rep_fail st)
         else if 1 < fp_repFactor p \<and>
            length (hd_repOffsets h) \<noteq> bytesForBits C (outerBitsTotal * (fp_repFactor p - 1))
         then Some (rep_fail st)
         else
           let outer = (if 1 < fp_repFactor p
                        then repetitionDecodeWithOffsets C noisy (hd_repOffsets h) outerBitsTotal
                               (fp_repFactor p)
                        else noisy)
           in do {
             (st, recovered, allOk) \<leftarrow> rep_blocks C f h outer [0..<fp_numBlocks p] (st, [], True);
             (if \<not> allOk then Some (rep_fail st)
              else do {
                key \<leftarrow> fe_key S p (hd_seed h) recovered;
                Some \<lparr>rr_mk = key, rr_ok = True, rr_stats = st\<rparr> }) })"

text \<open>What reproduction owes, said without its loop: the word the blocks are cut from, the sizes
  of the inputs, and what it means that block \<open>b\<close> decodes: its own cut \<open>XOR\<close> its own sketch
  decodes to \<open>x\<close> with \<open>e\<close> errors, and the sketch \<open>XOR\<close> \<open>x\<close> is the recovered block.\<close>

definition fe_outer :: "core_lib \<Rightarrow> fe_params \<Rightarrow> bytes \<Rightarrow> helper_data \<Rightarrow> bytes" where
  "fe_outer C p noisy h = (if 1 < fp_repFactor p
     then repetitionDecodeWithOffsets C noisy (hd_repOffsets h) (fp_numBlocks p * fp_blockBits p) (fp_repFactor p)
     else noisy)"

definition fe_inputs_ok :: "core_lib \<Rightarrow> fe_params \<Rightarrow> bytes \<Rightarrow> helper_data \<Rightarrow> bool" where
  "fe_inputs_ok C p noisy h \<longleftrightarrow> length noisy = bytesForBits C (requiredPufBits p) \<and>
     length (hd_sketch h) = fp_numBlocks p \<and> length (hd_seed h) = fp_seedBytes p \<and>
     (1 < fp_repFactor p \<longrightarrow> length (hd_repOffsets h) =
        bytesForBits C (fp_numBlocks p * fp_blockBits p * (fp_repFactor p - 1)))"

definition block_decodes ::
    "core_lib \<Rightarrow> fe \<Rightarrow> helper_data \<Rightarrow> bytes \<Rightarrow> nat \<Rightarrow> bytes \<Rightarrow> int \<Rightarrow> bytes \<Rightarrow> bool" where
  "block_decodes C f h outer b x e bl \<longleftrightarrow>
     (\<exists>w. xorBytes C (extractBlock C outer b (fp_blockBits (fe_params f))) (hd_sketch h ! b) = Some w \<and>
        decodeCodeword C (fe_codec f) w [] = Some (True, x, e)) \<and>
     xorBytes C (hd_sketch h ! b) x = Some bl"

subsection \<open>What the extractor needs of its code\<close>

locale block_code =
  fixes enc :: "bytes \<Rightarrow> bytes option"
    and dec :: "bytes \<Rightarrow> (bool \<times> bytes \<times> int) option"
    and klen nlen t :: nat
  assumes enc_total: "length d = klen \<Longrightarrow> \<exists>w. enc d = Some w"
    and enc_len: "enc d = Some w \<Longrightarrow> length w = nlen"
    and dec_own: "enc d = Some w \<Longrightarrow> dec w = Some (True, w, 0)"
    and dec_total: "\<exists>r. dec w = Some r"
    and dec_len: "dec w = Some (True, x, e) \<Longrightarrow> length w = nlen \<and> length x = nlen"
    and dec_bound: "dec w = Some (True, x, e) \<Longrightarrow> 0 \<le> e \<and> e \<le> int t"

text \<open>Every constructed codec provides it.\<close>

sublocale bch_codec \<subseteq> code: block_code "encodeCodeword C c" "\<lambda>w. decodeCodeword C c w []"
  "bytesForBits C (bc_k c)" "bytesForBits C 255" "bc_t c"
proof
  fix d w x :: bytes and e
  show "length d = bytesForBits C (bc_k c) \<Longrightarrow> \<exists>w. encodeCodeword C c d = Some w"
    by (rule encodeCodeword_total)
  assume "encodeCodeword C c d = Some w"
  then show "length w = bytesForBits C 255" "decodeCodeword C c w [] = Some (True, w, 0)"
    by (simp_all add: encodeCodeword_bits encodeCodeword_isCodeword decode_codeword)
next
  fix w x :: bytes and e
  show "\<exists>r. decodeCodeword C c w [] = Some r" by (rule decode_total)
  assume "decodeCodeword C c w [] = Some (True, x, e)"
  note s = decode_sound [OF this]
  from s(1-5) show "length w = bytesForBits C 255 \<and> length x = bytesForBits C 255" "0 \<le> e \<and> e \<le> int (bc_t c)"
    by simp_all
qed

locale offset_code = core_bits C + block_code enc dec klen nlen t for C enc dec klen nlen t
begin

text \<open>The code-offset construction: the sketch \<open>block XOR codeword\<close> leads from the block to the
  codeword, and from the codeword back to the block.\<close>

lemma offset_recover:
  assumes "enc d = Some w" "length block = nlen"
  shows "\<exists>s. xorBytes C block w = Some s \<and> length s = nlen \<and> xorBytes C block s = Some w \<and>
    dec w = Some (True, w, 0) \<and> xorBytes C s w = Some block"
proof -
  obtain s where s: "xorBytes C block w = Some s"
    using xorBytes_Some assms enc_len by metis
  with xorBytes_cancel [OF s] length_xorBytes [OF s] assms dec_own show ?thesis by simp
qed

end

sublocale bch_codec \<subseteq> offset: offset_code C "encodeCodeword C c" "\<lambda>w. decodeCodeword C c w []"
  "bytesForBits C (bc_k c)" "bytesForBits C 255" "bc_t c"
  by unfold_locales

subsection \<open>The inner code\<close>

text \<open>A majority of the \<open>rep\<close> copies of every outer bit reads as it did at enrollment.\<close>

definition copies_agree :: "core_lib \<Rightarrow> bytes \<Rightarrow> bytes \<Rightarrow> nat \<Rightarrow> nat \<Rightarrow> bool" where
  "copies_agree C a b n rep \<longleftrightarrow>
     (\<forall>i < n. 2 * card {r \<in> {..<rep}. getBit C a (i * rep + r) \<noteq> getBit C b (i * rep + r)} < rep)"

context core_bits
begin

lemma length_extractBlock [simp]: "length (extractBlock C all b n) = bytesForBits C n"
  using bytesForBits_bound by (simp add: extractBlock_def)

lemma extractBlock_cong:
  "(\<And>i. i < n \<Longrightarrow> getBit C a (b * n + i) = getBit C a' (b * n + i)) \<Longrightarrow>
   extractBlock C a b n = extractBlock C a' b n"
  unfolding extractBlock_def by (intro fold_cong) auto

lemma fold_upt_1: "fold g [1..<n] x = fold (\<lambda>q. g (Suc q)) [0..<n - 1] x"
proof (cases n)
  case (Suc m)
  have "[1..<Suc m] = map Suc [0..<m]" by (simp add: map_Suc_upt)
  then show ?thesis unfolding Suc by (simp add: fold_map comp_def)
qed simp

text \<open>A doubly nested loop that sets consecutive runs of \<open>m\<close> bits.\<close>

lemma fold_fold_setBit:
  assumes "n * m \<le> 8 * length w"
  shows "length (fold (\<lambda>i. fold (\<lambda>q w. setBit C w (i * m + q) (f i q)) [0..<m]) [0..<n] w) = length w \<and>
    (\<forall>j < 8 * length w. getBit C (fold (\<lambda>i. fold (\<lambda>q w. setBit C w (i * m + q) (f i q)) [0..<m]) [0..<n] w) j =
      (if j < n * m then f (j div m) (j mod m) else getBit C w j))"
  using assms
proof (induction n)
  case (Suc n)
  let ?w = "fold (\<lambda>i. fold (\<lambda>q w. setBit C w (i * m + q) (f i q)) [0..<m]) [0..<n] w"
  have ih: "length ?w = length w"
    "\<And>j. j < 8 * length w \<Longrightarrow> getBit C ?w j = (if j < n * m then f (j div m) (j mod m) else getBit C w j)"
    using Suc by simp_all
  have b: "n * m + m \<le> 8 * length ?w" using Suc.prems ih(1) by (simp add: algebra_simps)
  have last: "j div m = n \<and> j mod m = j - n * m" if "n * m \<le> j" "j < n * m + m" for j
  proof -
    define k where "k = j - n * m"
    have k: "j = n * m + k" "k < m" using that by (auto simp: k_def)
    then have "m \<noteq> 0" by simp
    with k(2) show ?thesis
      unfolding k(1) by (simp only: div_mult_self3 mod_mult_self3 div_less mod_less) simp
  qed
  show ?case
  proof (intro conjI allI impI)
    show "length (fold (\<lambda>i. fold (\<lambda>q w. setBit C w (i * m + q) (f i q)) [0..<m]) [0..<Suc n] w) = length w"
      using b ih(1) by simp
  next
    fix j assume j: "j < 8 * length w"
    then show "getBit C (fold (\<lambda>i. fold (\<lambda>q w. setBit C w (i * m + q) (f i q)) [0..<m]) [0..<Suc n] w) j =
      (if j < Suc n * m then f (j div m) (j mod m) else getBit C w j)"
      using getBit_fold_setBit [OF b, of j "f n"] ih last [of j] by (auto simp: add.commute)
  qed
qed simp

lemma repetitionEncodeOffsets_bit:
  assumes "i < n" "q < rep - 1"
  shows "getBit C (repetitionEncodeOffsets C raw n rep) (i * (rep - 1) + q) =
    (getBit C raw (i * rep + Suc q) \<noteq> getBit C raw (i * rep))"
proof -
  let ?m = "rep - 1" and ?w = "replicate (bytesForBits C (n * (rep - 1))) (0 :: u8)"
  have e: "repetitionEncodeOffsets C raw n rep = fold (\<lambda>i. fold (\<lambda>q w. setBit C w (i * ?m + q)
      (getBit C raw (i * rep + Suc q) \<noteq> getBit C raw (i * rep))) [0..<?m]) [0..<n] ?w"
    unfolding repetitionEncodeOffsets_def Let_def fold_upt_1 by simp
  have "(i + 1) * ?m \<le> n * ?m" using assms(1) by (intro mult_le_mono1) simp
  then have j: "i * ?m + q < n * ?m" using assms(2) by simp
  have w: "n * ?m \<le> 8 * length ?w" using bytesForBits_bound by simp
  from fold_fold_setBit [OF w] j w assms show ?thesis unfolding e by (simp add: div_mult_self3)
qed

lemma fold_count: "fold (\<lambda>r k. if P r then k + 1 else k) [0..<n] (0 :: nat) = card {r \<in> {..<n}. P r}"
proof (induction n)
  case (Suc n)
  have "{r \<in> {..<Suc n}. P r} = {r \<in> {..<n}. P r} \<union> (if P n then {n} else {})"
    by (auto simp: less_Suc_eq)
  with Suc show ?case by simp
qed simp

text \<open>Then the vote gives the reference bit.\<close>

lemma repetitionOnes_majority:
  assumes i: "i < n" and agree: "copies_agree C noisy raw n rep"
  shows "rep < repetitionOnes C noisy (repetitionEncodeOffsets C raw n rep) rep i * 2 \<longleftrightarrow>
    getBit C raw (i * rep)"
proof -
  let ?o = "repetitionEncodeOffsets C raw n rep" and ?x = "getBit C raw (i * rep)"
  let ?D = "{r \<in> {..<rep}. getBit C noisy (i * rep + r) \<noteq> getBit C raw (i * rep + r)}"
  define v where "v r = (if 0 < r \<and> getBit C ?o (i * (rep - 1) + (r - 1))
    then \<not> getBit C noisy (i * rep + r) else getBit C noisy (i * rep + r))" for r
  have v: "v r = (?x \<noteq> (r \<in> ?D))" if "r < rep" for r
  proof (cases r)
    case (Suc q)
    then have "q < rep - 1" using that by simp
    from repetitionEncodeOffsets_bit [OF i this] that Suc show ?thesis by (auto simp: v_def)
  qed (use that in \<open>auto simp: v_def\<close>)
  have "repetitionOnes C noisy ?o rep i = card {r \<in> {..<rep}. v r}"
    unfolding repetitionOnes_def Let_def v_def by (rule fold_count)
  also have "{r \<in> {..<rep}. v r} = (if ?x then {..<rep} - ?D else ?D)"
    using v by auto
  finally have "repetitionOnes C noisy ?o rep i = (if ?x then rep - card ?D else card ?D)"
    using card_Diff_subset [of ?D "{..<rep}"] by auto
  then show ?thesis using agree i by (auto simp: copies_agree_def)
qed

lemma repetition_decodes:
  assumes "copies_agree C noisy raw n rep"
  shows "repetitionDecodeWithOffsets C noisy (repetitionEncodeOffsets C raw n rep) n rep =
    repetitionReference C raw n rep"
  unfolding repetitionDecodeWithOffsets_def repetitionReference_def
  using repetitionOnes_majority [OF _ assms] by (intro fold_cong) auto

lemma length_repetitionEncodeOffsets:
  "length (repetitionEncodeOffsets C raw n rep) = bytesForBits C (n * (rep - 1))"
proof -
  let ?w = "replicate (bytesForBits C (n * (rep - 1))) (0 :: u8)"
  have "n * (rep - 1) \<le> 8 * length ?w" using bytesForBits_bound by simp
  from fold_fold_setBit [OF this] show ?thesis
    unfolding repetitionEncodeOffsets_def Let_def fold_upt_1 by simp
qed

end

subsection \<open>The extractor\<close>

text \<open>What the size bounds are for: a block's bytes go through one extraction (a 16-bit length) and
  one derivation (HKDF's 255 blocks).\<close>

definition fe_sizes :: "fe_params \<Rightarrow> bool" where
  "fe_sizes p \<longleftrightarrow> fp_numBlocks p \<le> 2047 \<and> fp_seedBytes p \<le> 65535 \<and> fp_keyBits p \<le> 65280"

lemma fe_new_Some:
  assumes "fe_new p = Some f"
  shows "fe_params f = p" "bch_wf (fe_codec f)" "fp_blockBits p = 255" "1 \<le> fp_numBlocks p"
    "16 \<le> fp_seedBytes p" "fp_repFactor p = 1 \<or> fp_repFactor p = 3"
proof -
  from assms obtain c where c: "bch_new (fp_bchT p) 0x11D = Some c" "f = \<lparr>fe_params = p, fe_codec = c\<rparr>"
    and g: "bc_n c = fp_blockBits p" "1 \<le> fp_numBlocks p" "16 \<le> fp_seedBytes p"
      "fp_repFactor p = 1 \<or> fp_repFactor p = 3"
    by (auto simp: fe_new_def require_def Option.bind_eq_Some_conv split: if_splits)
  have wf: "bch_wf c" using bch_new_Some [OF c(1)] by blast
  then have "bc_n c = 255" unfolding bch_wf_def by blast
  with wf c(2) g show "fe_params f = p" "bch_wf (fe_codec f)" "fp_blockBits p = 255"
    "1 \<le> fp_numBlocks p" "16 \<le> fp_seedBytes p" "fp_repFactor p = 1 \<or> fp_repFactor p = 3"
    by simp_all
qed

locale fuzzy = core_laws C + crypto_suite S for C S +
  fixes f :: fe
  assumes constructed: "fe_new (fe_params f) = Some f"
    and sizes: "fe_sizes (fe_params f)"

sublocale fuzzy \<subseteq> codec: bch_codec C "fe_codec f"
  using fe_new_Some [OF constructed] by unfold_locales

context fuzzy
begin

abbreviation "p \<equiv> fe_params f"
abbreviation "block outer b \<equiv> extractBlock C outer b (fp_blockBits p)"

lemma params: "fp_blockBits p = 255" "1 \<le> fp_numBlocks p" "16 \<le> fp_seedBytes p"
  "fp_repFactor p = 1 \<or> fp_repFactor p = 3" "fp_numBlocks p \<le> 2047" "fp_seedBytes p \<le> 65535"
  "fp_keyBits p \<le> 65280"
  using fe_new_Some [OF constructed] sizes by (auto simp: fe_sizes_def)

lemma length_block: "length (block outer b) = bytesForBits C 255"
  by (simp add: params)

lemma fe_codeword_total:
  assumes "length seed = fp_seedBytes p"
  shows "\<exists>d w. fe_codeword C S (fe_codec f) seed b = Some w \<and> encodeCodeword C (fe_codec f) d = Some w"
proof -
  let ?n = "bytesForBits C (bc_k (fe_codec f))"
  have n: "0 < ?n" "?n \<le> 8160"
    using codec.params(2-4) by (auto simp: bytesForBits)
  have "seed \<noteq> []" using assms params by auto
  then obtain r where r: "su_kdf S seed [] ''uavauth/v1/fe-codeword'' (u16be C (of_nat b)) ?n = Some r"
    using kdf_total [of seed "[]" "''uavauth/v1/fe-codeword''" "u16be C (of_nat b)" ?n] assms params n
    by auto
  let ?d = "fold (\<lambda>i w. setBit C w i False) [bc_k (fe_codec f)..<length r * 8] r"
  have "length (fold (\<lambda>i w. setBit C w i False) is w) = length w" if "\<forall>i \<in> set is. i < 8 * length w"
    for w and "is" using that by (induction "is" arbitrary: w) simp_all
  from this [of "[bc_k (fe_codec f)..<length r * 8]" r] have "length ?d = ?n"
    using kdf_len [OF r] by (simp add: mult.commute)
  with codec.code.enc_total obtain w where "encodeCodeword C (fe_codec f) ?d = Some w" by blast
  with r show ?thesis by (auto simp: fe_codeword_def)
qed

text \<open>The sketch of a block.\<close>

definition sketch_of :: "bytes \<Rightarrow> bytes \<Rightarrow> nat \<Rightarrow> bytes" where
  "sketch_of seed outer b =
     the (xorBytes C (block outer b) (the (fe_codeword C S (fe_codec f) seed b)))"

lemma sketch_of:
  assumes "length seed = fp_seedBytes p"
  shows "\<exists>w. fe_codeword C S (fe_codec f) seed b = Some w \<and>
    xorBytes C (block outer b) w = Some (sketch_of seed outer b) \<and>
    length (sketch_of seed outer b) = bytesForBits C 255 \<and>
    xorBytes C (block outer b) (sketch_of seed outer b) = Some w \<and>
    decodeCodeword C (fe_codec f) w [] = Some (True, w, 0) \<and>
    xorBytes C (sketch_of seed outer b) w = Some (block outer b)"
proof -
  obtain d w where w: "fe_codeword C S (fe_codec f) seed b = Some w"
    "encodeCodeword C (fe_codec f) d = Some w" using fe_codeword_total [OF assms] by blast
  from codec.offset.offset_recover [OF w(2) length_block [of outer b]]
  obtain s where s: "xorBytes C (block outer b) w = Some s" "length s = bytesForBits C 255"
    "xorBytes C (block outer b) s = Some w" "decodeCodeword C (fe_codec f) w [] = Some (True, w, 0)"
    "xorBytes C s w = Some (block outer b)" by blast
  moreover have "sketch_of seed outer b = s" using w(1) s(1) by (simp add: sketch_of_def)
  ultimately show ?thesis using w(1) by simp
qed

lemma gen_blocks_result:
  assumes "length seed = fp_seedBytes p"
  shows "gen_blocks C S f seed outer bs (sk, rc) =
    Some (sk @ map (sketch_of seed outer) bs, rc @ concat (map (block outer) bs))"
proof (induction bs arbitrary: sk rc)
  case (Cons b bs)
  obtain w where "fe_codeword C S (fe_codec f) seed b = Some w"
    "xorBytes C (block outer b) w = Some (sketch_of seed outer b)"
    using sketch_of [OF assms] by blast
  with Cons show ?case by (simp add: Let_def)
qed simp

lemma rep_blocks_own:
  assumes "length seed = fp_seedBytes p" and "0 \<le> st_errorsMax st"
    and "\<forall>b \<in> set bs. hd_sketch h ! b = sketch_of seed outer b"
  shows "rep_blocks C f h outer bs (st, rc, ok) = Some (st, rc @ concat (map (block outer) bs), ok)"
  using assms(2,3)
proof (induction bs arbitrary: rc)
  case (Cons b bs)
  then have h: "hd_sketch h ! b = sketch_of seed outer b" by simp
  obtain w where w: "length (sketch_of seed outer b) = bytesForBits C 255"
    "xorBytes C (block outer b) (sketch_of seed outer b) = Some w"
    "decodeCodeword C (fe_codec f) w [] = Some (True, w, 0)"
    "xorBytes C (sketch_of seed outer b) w = Some (block outer b)"
    using sketch_of [OF assms(1)] by blast
  with Cons h length_block [of outer b] show ?case by (simp add: Let_def)
qed simp

lemma length_concat_blocks: "length (concat (map (block outer) bs)) = length bs * 32"
  by (induction bs) (simp_all add: params bytesForBits)

lemma fe_key_total:
  assumes "length seed = fp_seedBytes p" "length rc = fp_numBlocks p * 32"
  shows "\<exists>key. fe_key S p seed rc = Some key \<and> length key = fp_keyBits p div 8"
proof -
  have "rc \<noteq> []" "length rc \<le> 65535" using assms params by (auto simp flip: length_greater_0_conv)
  then obtain key where key: "su_extract S seed rc = Some key"
    using extract_total [of rc seed] assms params by auto
  then have l: "length key = 32" by (rule extract_len)
  have "\<exists>k. su_kdf S key seed kFeRoot [] (fp_keyBits p div 8) = Some k"
    if "32 < fp_keyBits p div 8"
  proof (rule kdf_total)
    show "key \<noteq> []" using l by auto
    show "length kFeRoot \<le> 64" by (simp add: kFeRoot_def)
    show "fp_keyBits p div 8 \<le> 8160" using params(7) by linarith
  qed (use l assms params that in simp_all)
  with key l show ?thesis by (auto simp: fe_key_def Let_def resize_def)
qed

lemma fe_gen_result:
  assumes "length seed = fp_seedBytes p" "length response = bytesForBits C (requiredPufBits p)"
    and "outer = (if 1 < fp_repFactor p
      then repetitionReference C response (fp_numBlocks p * fp_blockBits p) (fp_repFactor p) else response)"
    and "offsets = (if 1 < fp_repFactor p
      then repetitionEncodeOffsets C response (fp_numBlocks p * fp_blockBits p) (fp_repFactor p) else [])"
  shows "\<exists>key. fe_key S p seed (concat (map (block outer) [0..<fp_numBlocks p])) = Some key \<and>
    length key = fp_keyBits p div 8 \<and>
    fe_gen C S f response seed = Some
      \<lparr>gr_helper = \<lparr>hd_sketch = map (sketch_of seed outer) [0..<fp_numBlocks p],
                     hd_repOffsets = offsets, hd_seed = seed, hd_params = p\<rparr>,
       gr_mk = key, gr_ok = True, gr_stats = stats_init (fp_numBlocks p)\<rparr>"
proof -
  obtain key where "fe_key S p seed (concat (map (block outer) [0..<fp_numBlocks p])) = Some key"
    "length key = fp_keyBits p div 8"
    using fe_key_total [OF assms(1), of "concat (map (block outer) [0..<fp_numBlocks p])"]
    by (auto simp: length_concat_blocks)
  moreover have "gen_blocks C S f seed outer [0..<fp_numBlocks p] ([], []) =
    Some (map (sketch_of seed outer) [0..<fp_numBlocks p], concat (map (block outer) [0..<fp_numBlocks p]))"
    using gen_blocks_result [OF assms(1)] by simp
  ultimately show ?thesis
    unfolding fe_gen_def Let_def assms(3)[symmetric] assms(4)[symmetric]
    using assms(1,2) by (simp add: require_def)
qed

text \<open>A reading whose copies agree leads to the same blocks as the enrolled one.\<close>

lemma same_blocks:
  assumes "copies_agree C noisy response (fp_numBlocks p * fp_blockBits p) (fp_repFactor p)"
    and "\<not> 1 < fp_repFactor p" and "b < fp_numBlocks p"
  shows "block noisy b = block response b"
proof (rule extractBlock_cong)
  fix i assume i: "i < fp_blockBits p"
  have r: "fp_repFactor p = 1" using params(4) assms(2) by auto
  have "(b + 1) * fp_blockBits p \<le> fp_numBlocks p * fp_blockBits p"
    using assms(3) by (intro mult_le_mono1) simp
  then have "b * fp_blockBits p + i < fp_numBlocks p * fp_blockBits p" using i by simp
  with assms(1) have "card {r \<in> {..<1}. getBit C noisy ((b * fp_blockBits p + i) * 1 + r) \<noteq>
      getBit C response ((b * fp_blockBits p + i) * 1 + r)} = 0"
    unfolding copies_agree_def r by fastforce
  then have "{r \<in> {..<1}. getBit C noisy ((b * fp_blockBits p + i) * 1 + r) \<noteq>
      getBit C response ((b * fp_blockBits p + i) * 1 + r)} = {}"
    by (subst (asm) card_0_eq) simp_all
  from this [THEN equalityD1, THEN subsetD, of 0]
  show "getBit C noisy (b * fp_blockBits p + i) = getBit C response (b * fp_blockBits p + i)" by auto
qed

lemma rep_blocks_cong:
  "\<forall>b \<in> set bs. block o1 b = block o2 b \<Longrightarrow> rep_blocks C f h o1 bs acc = rep_blocks C f h o2 bs acc"
proof (induction bs arbitrary: acc)
  case (Cons b bs)
  then show ?case by (cases acc) (simp add: Let_def cong: if_cong)
qed simp

lemma fe_rep_own:
  assumes "length seed = fp_seedBytes p" "length response = bytesForBits C (requiredPufBits p)"
    and "length noisy = length response"
    and "copies_agree C noisy response (fp_numBlocks p * fp_blockBits p) (fp_repFactor p)"
  shows "\<exists>g. fe_gen C S f response seed = Some g \<and> length (gr_mk g) = fp_keyBits p div 8 \<and>
    fe_rep C S f noisy (gr_helper g) =
      Some \<lparr>rr_mk = gr_mk g, rr_ok = True, rr_stats = stats_init (fp_numBlocks p)\<rparr>"
proof -
  let ?n = "fp_numBlocks p * fp_blockBits p" and ?r = "fp_repFactor p"
  define outer where "outer = (if 1 < ?r then repetitionReference C response ?n ?r else response)"
  define offsets where "offsets = (if 1 < ?r then repetitionEncodeOffsets C response ?n ?r else [])"
  define h where "h = \<lparr>hd_sketch = map (sketch_of seed outer) [0..<fp_numBlocks p],
    hd_repOffsets = offsets, hd_seed = seed, hd_params = p\<rparr>"
  obtain key where key: "fe_key S p seed (concat (map (block outer) [0..<fp_numBlocks p])) = Some key"
    "length key = fp_keyBits p div 8"
    and gen: "fe_gen C S f response seed = Some \<lparr>gr_helper = h, gr_mk = key, gr_ok = True,
      gr_stats = stats_init (fp_numBlocks p)\<rparr>"
    using fe_gen_result [OF assms(1,2) outer_def offsets_def] unfolding h_def by blast
  define outer' where "outer' = (if 1 < ?r then repetitionDecodeWithOffsets C noisy offsets ?n ?r else noisy)"
  have "\<forall>b \<in> set [0..<fp_numBlocks p]. block outer' b = block outer b"
    using repetition_decodes [OF assms(4)] same_blocks [OF assms(4)]
    by (auto simp: outer_def outer'_def offsets_def)
  then have "rep_blocks C f h outer' [0..<fp_numBlocks p] acc = rep_blocks C f h outer [0..<fp_numBlocks p] acc"
    for acc by (rule rep_blocks_cong)
  moreover have "rep_blocks C f h outer [0..<fp_numBlocks p] (stats_init (fp_numBlocks p), [], True) =
    Some (stats_init (fp_numBlocks p), concat (map (block outer) [0..<fp_numBlocks p]), True)"
    using rep_blocks_own [OF assms(1), of "stats_init (fp_numBlocks p)" "[0..<fp_numBlocks p]" h outer "[]"]
    by (simp add: stats_init_def h_def)
  moreover have "hd_repOffsets h = offsets" "hd_seed h = seed" "length (hd_sketch h) = fp_numBlocks p"
    "1 < ?r \<Longrightarrow> length offsets = bytesForBits C (?n * (?r - 1))"
    by (simp_all add: h_def offsets_def length_repetitionEncodeOffsets)
  ultimately have "fe_rep C S f noisy h =
      Some \<lparr>rr_mk = key, rr_ok = True, rr_stats = stats_init (fp_numBlocks p)\<rparr>"
    using assms(1-3) key(1) unfolding fe_rep_def Let_def by (auto simp: outer'_def split: if_splits)
  with gen key(2) show ?thesis by simp
qed

text \<open>The block loop on an arbitrary reading and arbitrary helper data.\<close>

lemma rep_blocks_total:
  assumes "st_errorsTotal st \<le> int (m * bc_t (fe_codec f))"
  shows "\<exists>st' rc' ok'. rep_blocks C f h outer bs (st, rc, ok) = Some (st', rc', ok') \<and>
    (ok' \<longrightarrow> ok \<and> length rc' = length rc + length bs * 32 \<and>
       st_blocksFailed st' = st_blocksFailed st \<and>
       st_errorsTotal st' \<le> int ((m + length bs) * bc_t (fe_codec f)) \<and>
       st_errorsMax st' \<le> max (st_errorsMax st) (int (bc_t (fe_codec f))))"
  using assms
proof (induction bs arbitrary: st rc ok m)
  case (Cons b bs)
  let ?t = "bc_t (fe_codec f)" and ?s = "hd_sketch h ! b"
  show ?case
  proof (cases "length ?s = length (block outer b)")
    case True
    then obtain nc where nc: "xorBytes C (block outer b) ?s = Some nc"
      using xorBytes_Some [of "block outer b" ?s] by auto
    obtain k x e where d: "decodeCodeword C (fe_codec f) nc [] = Some (k, x, e)"
      using codec.code.dec_total [of nc] by (metis prod_cases3)
    show ?thesis
    proof (cases k)
      case k: True
      then have x: "length x = length (block outer b)" and e: "e \<le> int ?t"
        using d codec.code.dec_len [of nc x e] codec.code.dec_bound [of nc x e] length_block by auto
      obtain bl where bl: "xorBytes C ?s x = Some bl" "length bl = 32"
        using xorBytes_Some [of ?s x] length_xorBytes x True length_block [of outer b]
        by (auto simp: bytesForBits)
      let ?st = "st\<lparr>st_errorsTotal := st_errorsTotal st + e,
        st_errorsMax := (if st_errorsMax st < e then e else st_errorsMax st)\<rparr>"
      have "st_errorsTotal ?st \<le> int ((m + 1) * ?t)"
        using Cons.prems e by (simp add: algebra_simps)
      from Cons.IH [OF this, of "rc @ bl" ok] obtain st' rc' ok'
        where ih: "rep_blocks C f h outer bs (?st, rc @ bl, ok) = Some (st', rc', ok')"
          "ok' \<longrightarrow> ok \<and> length rc' = length (rc @ bl) + length bs * 32 \<and>
            st_blocksFailed st' = st_blocksFailed ?st \<and>
            st_errorsTotal st' \<le> int ((m + 1 + length bs) * ?t) \<and>
            st_errorsMax st' \<le> max (st_errorsMax ?st) (int ?t)" by blast
      have "rep_blocks C f h outer (b # bs) (st, rc, ok) = Some (st', rc', ok')"
        using True nc d k bl(1) ih(1) by (simp add: Let_def)
      with ih(2) bl(2) e show ?thesis by (auto simp: max_def split: if_splits)
    next
      case False
      from Cons.IH [of "st\<lparr>st_blocksFailed := st_blocksFailed st + 1\<rparr>" m rc False] Cons.prems
      obtain r where "rep_blocks C f h outer bs (st\<lparr>st_blocksFailed := st_blocksFailed st + 1\<rparr>, rc, False) =
        Some r" "\<not> snd (snd r)" by auto
      with True nc d False show ?thesis by (cases r) (auto simp: Let_def)
    qed
  qed (auto intro!: exI [of _ False])
qed (use assms in auto)

text \<open>The loop ends well exactly when every block of the list decodes, and has then gathered their blocks
  and their errors.\<close>

lemma block_decodes_sound:
  assumes "block_decodes C f h outer b x e bl"
  shows "isCodeword C (fe_codec f) x" "0 \<le> e" "e \<le> int (bc_t (fe_codec f))" "length bl = bytesForBits C 255"
    and "\<exists>w. xorBytes C (block outer b) (hd_sketch h ! b) = Some w \<and>
      e = int (card {i \<in> {..<255}. getBit C x i \<noteq> getBit C w i})"
proof -
  obtain w where w: "xorBytes C (block outer b) (hd_sketch h ! b) = Some w"
    "decodeCodeword C (fe_codec f) w [] = Some (True, x, e)"
    using assms by (auto simp: block_decodes_def)
  note s = codec.decode_sound [OF w(2)]
  from s(1,4,5) w(1) show "isCodeword C (fe_codec f) x" "0 \<le> e" "e \<le> int (bc_t (fe_codec f))"
    "\<exists>w. xorBytes C (block outer b) (hd_sketch h ! b) = Some w \<and>
      e = int (card {i \<in> {..<255}. getBit C x i \<noteq> getBit C w i})" by auto
  have "xorBytes C (hd_sketch h ! b) x = Some bl" using assms by (simp add: block_decodes_def)
  then show "length bl = bytesForBits C 255"
    using length_xorBytes [OF w(1)] length_xorBytes [of "hd_sketch h ! b" x bl] length_block [of outer b] by simp
qed

lemma rep_blocks_run:
  assumes "rep_blocks C f h outer bs (st, rc, ok) = Some (st', rc', ok')"
  shows "(ok' \<longleftrightarrow> ok \<and> (\<forall>b \<in> set bs. \<exists>x e bl. block_decodes C f h outer b x e bl)) \<and>
    (ok' \<longrightarrow> (\<exists>xs es bls. list_all2 (\<lambda>b (x, e, bl). block_decodes C f h outer b x e bl) bs (zip xs (zip es bls)) \<and>
       length xs = length bs \<and> length es = length bs \<and> length bls = length bs \<and> rc' = rc @ concat bls \<and>
       st_errorsTotal st' = st_errorsTotal st + sum_list es \<and> st_errorsMax st' = fold max es (st_errorsMax st)))"
  using assms
proof (induction bs arbitrary: st rc ok)
  case (Cons b bs)
  let ?s = "hd_sketch h ! b"
  show ?case
  proof (cases "\<exists>x e bl. block_decodes C f h outer b x e bl")
    case True
    then obtain x e bl w where d: "block_decodes C f h outer b x e bl"
      "xorBytes C (block outer b) ?s = Some w" "decodeCodeword C (fe_codec f) w [] = Some (True, x, e)"
      "xorBytes C ?s x = Some bl" by (auto simp: block_decodes_def)
    let ?st = "st\<lparr>st_errorsTotal := st_errorsTotal st + e,
      st_errorsMax := (if st_errorsMax st < e then e else st_errorsMax st)\<rparr>"
    have "rep_blocks C f h outer bs (?st, rc @ bl, ok) = Some (st', rc', ok')"
      using Cons.prems d(2-4) length_xorBytes [OF d(2)] by (simp add: Let_def)
    note ih = Cons.IH [OF this]
    show ?thesis
    proof (intro conjI impI)
      show "ok' \<longleftrightarrow> ok \<and> (\<forall>b \<in> set (b # bs). \<exists>x e bl. block_decodes C f h outer b x e bl)" using ih True by auto
    next
      assume ok'
      with ih obtain xs es bls where
        l: "list_all2 (\<lambda>b (x, e, bl). block_decodes C f h outer b x e bl) bs (zip xs (zip es bls))"
        "length xs = length bs" "length es = length bs" "length bls = length bs" "rc' = (rc @ bl) @ concat bls"
        "st_errorsTotal st' = st_errorsTotal ?st + sum_list es" "st_errorsMax st' = fold max es (st_errorsMax ?st)"
        by blast
      have "st_errorsMax ?st = max e (st_errorsMax st)" by (simp add: max_def)
      with d(1) l show "\<exists>xs es bls.
        list_all2 (\<lambda>b (x, e, bl). block_decodes C f h outer b x e bl) (b # bs) (zip xs (zip es bls)) \<and>
        length xs = length (b # bs) \<and> length es = length (b # bs) \<and> length bls = length (b # bs) \<and>
        rc' = rc @ concat bls \<and> st_errorsTotal st' = st_errorsTotal st + sum_list es \<and>
        st_errorsMax st' = fold max es (st_errorsMax st)"
        by (intro exI [of _ "x # xs"] exI [of _ "e # es"] exI [of _ "bl # bls"]) simp
    qed
  next
    case False
    have "\<not> ok'"
    proof (cases "length ?s = length (block outer b)")
      case True
      then obtain w where w: "xorBytes C (block outer b) ?s = Some w"
        using xorBytes_Some [of "block outer b" ?s] by auto
      obtain k x e where d: "decodeCodeword C (fe_codec f) w [] = Some (k, x, e)"
        using codec.code.dec_total [of w] by (metis prod_cases3)
      have "\<not> k"
      proof
        assume k
        with d have d': "decodeCodeword C (fe_codec f) w [] = Some (True, x, e)" by simp
        have "length x = length ?s"
          using codec.code.dec_len [OF d'] True length_block by simp
        then obtain bl where "xorBytes C ?s x = Some bl" using xorBytes_Some [of ?s x] by auto
        with w d' False show False by (auto simp: block_decodes_def)
      qed
      with Cons.prems True w d have "rep_blocks C f h outer bs
          (st\<lparr>st_blocksFailed := st_blocksFailed st + 1\<rparr>, rc, False) = Some (st', rc', ok')"
        by (simp add: Let_def)
      from Cons.IH [OF this] show ?thesis by simp
    qed (use Cons.prems in \<open>simp add: Let_def\<close>)
    with False show ?thesis by auto
  qed
qed simp

text \<open>Reproduction against what it owes.\<close>

definition rep_explained :: "bytes \<Rightarrow> helper_data \<Rightarrow> rep_result \<Rightarrow> bool" where
  "rep_explained noisy h r \<longleftrightarrow> (\<exists>xs es bls. length xs = fp_numBlocks p \<and> length es = fp_numBlocks p \<and>
     length bls = fp_numBlocks p \<and>
     (\<forall>b < fp_numBlocks p. block_decodes C f h (fe_outer C p noisy h) b (xs ! b) (es ! b) (bls ! b)) \<and>
     fe_key S p (hd_seed h) (concat bls) = Some (rr_mk r) \<and>
     st_errorsTotal (rr_stats r) = sum_list es \<and> st_errorsMax (rr_stats r) = fold max es 0)"

lemma fe_rep_exact:
  assumes "fe_rep C S f noisy h = Some r"
  shows "rr_ok r \<longleftrightarrow> fe_inputs_ok C p noisy h \<and>
      (\<forall>b < fp_numBlocks p. \<exists>x e bl. block_decodes C f h (fe_outer C p noisy h) b x e bl)"
    and "rr_ok r \<Longrightarrow> rep_explained noisy h r"
proof -
  let ?st = "stats_init (fp_numBlocks p)" and ?o = "fe_outer C p noisy h" and ?n = "fp_numBlocks p"
  have "(rr_ok r \<longleftrightarrow> fe_inputs_ok C p noisy h \<and>
      (\<forall>b < ?n. \<exists>x e bl. block_decodes C f h ?o b x e bl)) \<and> (rr_ok r \<longrightarrow> rep_explained noisy h r)"
  proof (cases "fe_inputs_ok C p noisy h")
    case False
    then have "fe_rep C S f noisy h = Some (rep_fail ?st)"
      unfolding fe_rep_def fe_inputs_ok_def Let_def by (auto split: if_splits)
    with assms False show ?thesis by (auto simp: rep_fail_def)
  next
    case True
    obtain st rc ok where run: "rep_blocks C f h ?o [0..<?n] (?st, [], True) = Some (st, rc, ok)"
      using rep_blocks_total [of ?st 0 h ?o "[0..<?n]" "[]" True] by (auto simp: stats_init_def)
    have e: "fe_rep C S f noisy h = (if \<not> ok then Some (rep_fail st)
        else do { key \<leftarrow> fe_key S p (hd_seed h) rc;
                  Some \<lparr>rr_mk = key, rr_ok = True, rr_stats = st\<rparr> })"
      using True run unfolding fe_rep_def fe_inputs_ok_def fe_outer_def Let_def by (auto split: if_splits)
    note spec = rep_blocks_run [OF run]
    show ?thesis
    proof (cases ok)
      case ok: True
      with e assms have "do { key \<leftarrow> fe_key S p (hd_seed h) rc;
          Some \<lparr>rr_mk = key, rr_ok = True, rr_stats = st\<rparr> } = Some r" by simp
      then obtain key where key: "fe_key S p (hd_seed h) rc = Some key"
        "r = \<lparr>rr_mk = key, rr_ok = True, rr_stats = st\<rparr>" by (auto simp: Option.bind_eq_Some_conv)
      from spec ok obtain xs es bls where
        l: "list_all2 (\<lambda>b (x, e, bl). block_decodes C f h ?o b x e bl) [0..<?n] (zip xs (zip es bls))"
        "length xs = ?n" "length es = ?n" "length bls = ?n" "rc = concat bls"
        "st_errorsTotal st = sum_list es" "st_errorsMax st = fold max es 0"
        by (auto simp: stats_init_def)
      then have "\<forall>b < ?n. block_decodes C f h ?o b (xs ! b) (es ! b) (bls ! b)"
        by (auto simp: list_all2_conv_all_nth)
      with l(2-) key have "rep_explained noisy h r" by (auto simp: rep_explained_def)
      moreover have "\<forall>b < ?n. \<exists>x e bl. block_decodes C f h ?o b x e bl" using spec ok by auto
      ultimately show ?thesis using True key(2) by simp
    next
      case False
      with e assms have "\<not> rr_ok r" by (auto simp: rep_fail_def)
      moreover have "\<not> (\<forall>b < ?n. \<exists>x e bl. block_decodes C f h ?o b x e bl)" using spec False by auto
      ultimately show ?thesis by blast
    qed
  qed
  then show "rr_ok r \<longleftrightarrow> fe_inputs_ok C p noisy h \<and> (\<forall>b < ?n. \<exists>x e bl. block_decodes C f h ?o b x e bl)"
    "rr_ok r \<Longrightarrow> rep_explained noisy h r" by blast+
qed

lemma fe_rep_total:
  "\<exists>r. fe_rep C S f noisy h = Some r \<and> (\<not> rr_ok r \<longrightarrow> rr_mk r = []) \<and>
    (rr_ok r \<longrightarrow> length (rr_mk r) = fp_keyBits p div 8 \<and> st_blocksFailed (rr_stats r) = 0 \<and>
       st_errorsTotal (rr_stats r) \<le> int (fp_numBlocks p * bc_t (fe_codec f)) \<and>
       st_errorsMax (rr_stats r) \<le> int (bc_t (fe_codec f)) \<and>
       length noisy = bytesForBits C (requiredPufBits p) \<and>
       length (hd_sketch h) = fp_numBlocks p \<and> length (hd_seed h) = fp_seedBytes p)"
proof -
  let ?n = "fp_numBlocks p * fp_blockBits p" and ?r = "fp_repFactor p"
  let ?st = "stats_init (fp_numBlocks p)"
  consider (sizes) "length noisy \<noteq> bytesForBits C (requiredPufBits p) \<or>
      length (hd_sketch h) \<noteq> fp_numBlocks p \<or> length (hd_seed h) \<noteq> fp_seedBytes p \<or>
      (1 < ?r \<and> length (hd_repOffsets h) \<noteq> bytesForBits C (?n * (?r - 1)))"
    | (ok) "length noisy = bytesForBits C (requiredPufBits p)"
      "length (hd_sketch h) = fp_numBlocks p" "length (hd_seed h) = fp_seedBytes p"
      "1 < ?r \<longrightarrow> length (hd_repOffsets h) = bytesForBits C (?n * (?r - 1))" by blast
  then show ?thesis
  proof cases
    case sizes
    then have "fe_rep C S f noisy h = Some (rep_fail ?st)"
      unfolding fe_rep_def Let_def by (auto split: if_splits)
    then show ?thesis by (simp add: rep_fail_def)
  next
    case ok
    define outer where "outer = (if 1 < ?r
      then repetitionDecodeWithOffsets C noisy (hd_repOffsets h) ?n ?r else noisy)"
    obtain st rc good where run:
      "rep_blocks C f h outer [0..<fp_numBlocks p] (?st, [], True) = Some (st, rc, good)"
      and good: "good \<longrightarrow> length rc = fp_numBlocks p * 32 \<and> st_blocksFailed st = 0 \<and>
        st_errorsTotal st \<le> int (fp_numBlocks p * bc_t (fe_codec f)) \<and>
        st_errorsMax st \<le> int (bc_t (fe_codec f))"
      using rep_blocks_total [of ?st 0 h outer "[0..<fp_numBlocks p]" "[]" True]
      by (auto simp: stats_init_def)
    have e: "fe_rep C S f noisy h = (if \<not> good then Some (rep_fail st)
        else do { key \<leftarrow> fe_key S p (hd_seed h) rc;
                  Some \<lparr>rr_mk = key, rr_ok = True, rr_stats = st\<rparr> })"
      using ok run unfolding fe_rep_def Let_def by (auto simp: outer_def split: if_splits)
    show ?thesis
    proof (cases good)
      case True
      with fe_key_total [OF ok(3), of rc] good obtain key
        where "fe_key S p (hd_seed h) rc = Some key" "length key = fp_keyBits p div 8" by blast
      with e True good ok show ?thesis by auto
    qed (use e in \<open>simp add: rep_fail_def\<close>)
  qed
qed

end

subsection \<open>What the helper data gives away\<close>

text \<open>From the helper data alone: each block is the sketch \<open>XOR\<close> the codeword of the published
  seed.\<close>

definition key_from_helper :: "core_lib \<Rightarrow> suite \<Rightarrow> fe \<Rightarrow> helper_data \<Rightarrow> bytes option" where
  "key_from_helper C S f h = do {
     blocks \<leftarrow> those (map (\<lambda>b. do {
        w \<leftarrow> fe_codeword C S (fe_codec f) (hd_seed h) b;
        xorBytes C (hd_sketch h ! b) w }) [0..<length (hd_sketch h)]);
     fe_key S (hd_params h) (hd_seed h) (concat blocks) }"

context fuzzy
begin

lemma those_map_Some: "(\<And>b. b \<in> set bs \<Longrightarrow> g b = Some (k b)) \<Longrightarrow> those (map g bs) = Some (map k bs)"
  by (induction bs) simp_all

lemma key_from_helper_gen:
  assumes "fe_gen C S f response seed = Some g"
  shows "key_from_helper C S f (gr_helper g) = Some (gr_mk g)"
proof -
  let ?n = "fp_numBlocks p * fp_blockBits p" and ?r = "fp_repFactor p"
  define outer where "outer = (if 1 < ?r then repetitionReference C response ?n ?r else response)"
  define offsets where "offsets = (if 1 < ?r then repetitionEncodeOffsets C response ?n ?r else [])"
  have l: "length seed = fp_seedBytes p" "length response = bytesForBits C (requiredPufBits p)"
    using assms by (auto simp: fe_gen_def Let_def require_def split: if_splits)
  from fe_gen_result [OF l outer_def offsets_def] assms
  have key: "fe_key S p seed (concat (map (block outer) [0..<fp_numBlocks p])) = Some (gr_mk g)"
    and h: "gr_helper g = \<lparr>hd_sketch = map (sketch_of seed outer) [0..<fp_numBlocks p],
      hd_repOffsets = offsets, hd_seed = seed, hd_params = p\<rparr>" by auto
  have "those (map (\<lambda>b. do {
        w \<leftarrow> fe_codeword C S (fe_codec f) seed b;
        xorBytes C (map (sketch_of seed outer) [0..<fp_numBlocks p] ! b) w }) [0..<fp_numBlocks p]) =
    Some (map (block outer) [0..<fp_numBlocks p])"
  proof (rule those_map_Some)
    fix b assume b: "b \<in> set [0..<fp_numBlocks p]"
    obtain w where "fe_codeword C S (fe_codec f) seed b = Some w"
      "xorBytes C (sketch_of seed outer b) w = Some (block outer b)" using sketch_of [OF l(1)] by blast
    with b show "do { w \<leftarrow> fe_codeword C S (fe_codec f) seed b;
        xorBytes C (map (sketch_of seed outer) [0..<fp_numBlocks p] ! b) w } = Some (block outer b)"
      by simp
  qed
  with key show ?thesis by (simp add: key_from_helper_def h)
qed

end

subsection \<open>The named profiles\<close>

lemma bch_new_18_25:
  obtains c d where "bch_new 18 0x11D = Some c" "bc_n c = 255" "bc_parityBits c = 124"
    "bch_new 25 0x11D = Some d" "bc_n d = 255" "bc_parityBits d = 164"
proof -
  have n: "bc_n c = 255" if "bch_wf c" for c using that by (simp add: bch_wf_def)
  obtain c where c: "bch_new 18 0x11D = Some c" "bch_wf c" "bc_parityBits c = length (bch_roots 18)"
    by (rule bch_new_obtain [of 18]) simp_all
  obtain d where d: "bch_new 25 0x11D = Some d" "bch_wf d" "bc_parityBits d = length (bch_roots 25)"
    by (rule bch_new_obtain [of 25]) simp_all
  show ?thesis
    by (rule that [of c d]) (use c d n in \<open>simp_all add: bch_roots_18 bch_roots_25\<close>)
qed

lemmas profile_defs = fe_profile_def fe_default_def fe_new_def require_def residualEntropyBits_def
  requiredEntropyBits_def requiredPufBits_def helper_leakBits_def

lemma fe_default_ok: "\<exists>f. fe_new fe_default = Some f"
  by (rule bch_new_18_25) (simp add: profile_defs)

definition fe_18 :: fe where
  "fe_18 = the (fe_new fe_default)"

lemma fe_18: "fe_new fe_default = Some fe_18"
  using fe_default_ok by (auto simp: fe_18_def)

lemma fe_18_params: "fe_params fe_18 = fe_default"
  using fe_new_Some(1) [OF fe_18] .

interpretation f18: fuzzy ref_core "sha3Suite ref_core ref_ossl False" fe_18
proof
  show "fe_new (fe_params fe_18) = Some fe_18" by (simp add: fe_18 fe_18_params)
  show "fe_sizes (fe_params fe_18)" by (simp add: fe_18_params fe_sizes_def fe_default_def)
qed

lemma fuzzyI:
  assumes "core_laws C" "crypto_suite S" "fe_new p = Some f" "fe_sizes p"
  shows "fuzzy C S f"
  using assms fe_new_Some(1) [OF assms(3)] by (simp add: fuzzy_def fuzzy_axioms_def)

subsection \<open>Properties\<close>

text \<open>C22. Enrollment and reproduction agree: for every core library and suite honouring their
  contracts and every extractor the constructor accepts, \<open>gen\<close> succeeds on inputs of the right
  length with a key of \<open>keyBits div 8\<close> bytes, and \<open>rep\<close> on its helper data returns that key with
  no error counted whenever a majority of the copies of every outer bit reads as enrolled (for
  \<open>repFactor = 1\<close>: the reading is the same; for 3: at most one copy of three differs).\<close>

theorem fe_rep_recovers:
  assumes "core_laws C" and "crypto_suite S" and "fe_new p = Some f" and "fe_sizes p"
    and "length seed = fp_seedBytes p" and "length response = bytesForBits C (requiredPufBits p)"
    and "length noisy = length response"
    and "copies_agree C noisy response (fp_numBlocks p * fp_blockBits p) (fp_repFactor p)"
  shows "\<exists>g. fe_gen C S f response seed = Some g \<and> length (gr_mk g) = fp_keyBits p div 8 \<and>
    fe_rep C S f noisy (gr_helper g) =
      Some \<lparr>rr_mk = gr_mk g, rr_ok = True, rr_stats = stats_init (fp_numBlocks p)\<rparr>"
  using fuzzy.fe_rep_own [OF fuzzyI [OF assms(1-4)], of seed response noisy] assms(5-8)
  by (simp add: fe_new_Some(1) [OF assms(3)])

theorem fe_rep_recovers_witness:
  "\<exists>g. fe_gen ref_core (sha3Suite ref_core ref_ossl False) fe_18 (replicate 128 0x5A) (replicate 32 7)
     = Some g \<and> length (gr_mk g) = 32 \<and>
   fe_rep ref_core (sha3Suite ref_core ref_ossl False) fe_18 (replicate 128 0x5A) (gr_helper g) =
     Some \<lparr>rr_mk = gr_mk g, rr_ok = True, rr_stats = stats_init 4\<rparr>"
  using fe_rep_recovers [OF ref_core_laws ref_env.sha3.crypto_suite_axioms fe_18, of "replicate 32 7"
      "replicate 128 0x5A" "replicate 128 0x5A"]
  by (simp add: fe_default_def fe_sizes_def requiredPufBits_def ref.bytesForBits copies_agree_def)

text \<open>C23. Reproduction fails closed and never throws: on every reading and every helper data it
  returns a result; when it is not ok the key is empty.  It is ok exactly when every size is right and
  every block decodes: block \<open>b\<close> of the outer word \<open>XOR\<close> sketch \<open>b\<close> lies at a
  distance of \<open>e \<le> t\<close> from the codeword \<open>x\<close> the decoder returns.  The key is then the one derived
  from the seed and the sketches \<open>XOR\<close> these codewords, all of them and in order; it has
  \<open>keyBits div 8\<close> bytes; no block is counted as failed, and the statistics are the sum and the
  maximum of the distances.\<close>

theorem fe_rep_fail_closed:
  assumes "core_laws C" and "crypto_suite S" and "fe_new p = Some f" and "fe_sizes p"
  shows "\<exists>r. fe_rep C S f noisy h = Some r \<and> (\<not> rr_ok r \<longrightarrow> rr_mk r = []) \<and>
    (rr_ok r \<longrightarrow> length (rr_mk r) = fp_keyBits p div 8 \<and> st_blocksFailed (rr_stats r) = 0 \<and>
       st_errorsTotal (rr_stats r) \<le> int (fp_numBlocks p * bc_t (fe_codec f)) \<and>
       st_errorsMax (rr_stats r) \<le> int (bc_t (fe_codec f)) \<and>
       length noisy = bytesForBits C (requiredPufBits p) \<and>
       length (hd_sketch h) = fp_numBlocks p \<and> length (hd_seed h) = fp_seedBytes p) \<and>
    (rr_ok r \<longleftrightarrow> fe_inputs_ok C p noisy h \<and>
       (\<forall>b < fp_numBlocks p. \<exists>x e bl. block_decodes C f h (fe_outer C p noisy h) b x e bl)) \<and>
    (rr_ok r \<longrightarrow> (\<exists>xs es bls. length xs = fp_numBlocks p \<and> length es = fp_numBlocks p \<and>
       length bls = fp_numBlocks p \<and>
       (\<forall>b < fp_numBlocks p.
          block_decodes C f h (fe_outer C p noisy h) b (xs ! b) (es ! b) (bls ! b) \<and>
          isCodeword C (fe_codec f) (xs ! b) \<and> es ! b \<le> int (bc_t (fe_codec f)) \<and>
          (\<exists>w. xorBytes C (extractBlock C (fe_outer C p noisy h) b (fp_blockBits p)) (hd_sketch h ! b) = Some w \<and>
             es ! b = int (card {i \<in> {..<255}. getBit C (xs ! b) i \<noteq> getBit C w i}))) \<and>
       fe_key S p (hd_seed h) (concat bls) = Some (rr_mk r) \<and>
       st_errorsTotal (rr_stats r) = sum_list es \<and> st_errorsMax (rr_stats r) = Max (set (0 # es))))"
proof -
  note fz = fuzzyI [OF assms] and p = fe_new_Some(1) [OF assms(3)]
  obtain r where r: "fe_rep C S f noisy h = Some r"
    "(\<not> rr_ok r \<longrightarrow> rr_mk r = []) \<and>
     (rr_ok r \<longrightarrow> length (rr_mk r) = fp_keyBits p div 8 \<and> st_blocksFailed (rr_stats r) = 0 \<and>
       st_errorsTotal (rr_stats r) \<le> int (fp_numBlocks p * bc_t (fe_codec f)) \<and>
       st_errorsMax (rr_stats r) \<le> int (bc_t (fe_codec f)) \<and>
       length noisy = bytesForBits C (requiredPufBits p) \<and>
       length (hd_sketch h) = fp_numBlocks p \<and> length (hd_seed h) = fp_seedBytes p)"
    using fuzzy.fe_rep_total [OF fz, of noisy h] unfolding p by blast
  note exact = fuzzy.fe_rep_exact [OF fz r(1), unfolded fuzzy.rep_explained_def [OF fz] p]
    and sound = fuzzy.block_decodes_sound [OF fz, unfolded p]
  have "\<exists>xs es bls. length xs = fp_numBlocks p \<and> length es = fp_numBlocks p \<and>
       length bls = fp_numBlocks p \<and>
       (\<forall>b < fp_numBlocks p.
          block_decodes C f h (fe_outer C p noisy h) b (xs ! b) (es ! b) (bls ! b) \<and>
          isCodeword C (fe_codec f) (xs ! b) \<and> es ! b \<le> int (bc_t (fe_codec f)) \<and>
          (\<exists>w. xorBytes C (extractBlock C (fe_outer C p noisy h) b (fp_blockBits p)) (hd_sketch h ! b) = Some w \<and>
             es ! b = int (card {i \<in> {..<255}. getBit C (xs ! b) i \<noteq> getBit C w i}))) \<and>
       fe_key S p (hd_seed h) (concat bls) = Some (rr_mk r) \<and>
       st_errorsTotal (rr_stats r) = sum_list es \<and> st_errorsMax (rr_stats r) = Max (set (0 # es))" if "rr_ok r"
  proof -
    from exact(2) [OF that] obtain xs es bls where l: "length xs = fp_numBlocks p" "length es = fp_numBlocks p"
      "length bls = fp_numBlocks p"
      "\<forall>b < fp_numBlocks p. block_decodes C f h (fe_outer C p noisy h) b (xs ! b) (es ! b) (bls ! b)"
      "fe_key S p (hd_seed h) (concat bls) = Some (rr_mk r)"
      "st_errorsTotal (rr_stats r) = sum_list es" "st_errorsMax (rr_stats r) = fold max es 0" by blast
    have "block_decodes C f h (fe_outer C p noisy h) b (xs ! b) (es ! b) (bls ! b) \<and>
        isCodeword C (fe_codec f) (xs ! b) \<and> es ! b \<le> int (bc_t (fe_codec f)) \<and>
        (\<exists>w. xorBytes C (extractBlock C (fe_outer C p noisy h) b (fp_blockBits p)) (hd_sketch h ! b) = Some w \<and>
           es ! b = int (card {i \<in> {..<255}. getBit C (xs ! b) i \<noteq> getBit C w i}))"
      if "b < fp_numBlocks p" for b
      using l(4) that sound(1,3,5) [of h "fe_outer C p noisy h" b "xs ! b" "es ! b" "bls ! b"] by simp
    with l show ?thesis unfolding Max.set_eq_fold by blast
  qed
  with r exact(1) show ?thesis by blast
qed

theorem fe_rep_fail_closed_witness:
  "\<exists>r. fe_rep ref_core (sha3Suite ref_core ref_ossl False) fe_18 [1, 2, 3]
     \<lparr>hd_sketch = [], hd_repOffsets = [], hd_seed = [], hd_params = fe_default\<rparr> = Some r \<and>
   \<not> rr_ok r \<and> rr_mk r = []"
  using fe_rep_fail_closed [OF ref_core_laws ref_env.sha3.crypto_suite_axioms fe_18, of "[1, 2, 3]"
      "\<lparr>hd_sketch = [], hd_repOffsets = [], hd_seed = [], hd_params = fe_default\<rparr>"]
  by (auto simp: fe_default_def fe_sizes_def)

text \<open>C21. The helper data alone determines the key: whoever holds the sketches and the seed that
  \<open>gen\<close> publishes computes the master key with the suite and the codec, without a reading of
  the PUF.  (The codeword of every block is derived from the published seed.)\<close>

theorem helper_data_reveals_key:
  assumes "core_laws C" and "crypto_suite S" and "fe_new p = Some f" and "fe_sizes p"
    and "fe_gen C S f response seed = Some g"
  shows "key_from_helper C S f (gr_helper g) = Some (gr_mk g)"
  by (rule fuzzy.key_from_helper_gen [OF fuzzyI [OF assms(1-4)] assms(5)])

theorem helper_data_reveals_key_witness:
  "\<exists>g. fe_gen ref_core (sha3Suite ref_core ref_ossl False) fe_18 (replicate 128 0xC3) (replicate 32 1)
     = Some g \<and>
   key_from_helper ref_core (sha3Suite ref_core ref_ossl False) fe_18 (gr_helper g) = Some (gr_mk g)"
proof -
  have p: "fe_sizes fe_default" by (simp add: fe_default_def fe_sizes_def)
  obtain g where g: "fe_gen ref_core (sha3Suite ref_core ref_ossl False) fe_18 (replicate 128 0xC3)
      (replicate 32 1) = Some g"
    using f18.fe_gen_result [of "replicate 32 1" "replicate 128 0xC3"]
    by (auto simp: fe_18_params fe_default_def requiredPufBits_def ref.bytesForBits)
  with helper_data_reveals_key [OF ref_core_laws ref_env.sha3.crypto_suite_axioms fe_18 p g] show ?thesis by blast
qed

text \<open>The profiles: exactly three names are known; each passes the constructor with its entropy
  budget checked; three blocks of the paper's code would not; the helper data of the default
  profile discloses 496 bits.\<close>

theorem fe_profiles_meet_budget:
  "(fe_profile name \<noteq> None \<longleftrightarrow>
      name \<in> {''bch255-131-18'', ''bch255-91-25'', ''rep3-bch255-131-18''}) \<and>
   list_all (\<lambda>name. Option.bind (fe_profile name) fe_new \<noteq> None)
     [''bch255-131-18'', ''bch255-91-25'', ''rep3-bch255-131-18''] \<and>
   fe_new (fe_default\<lparr>fp_numBlocks := 3\<rparr>) = None \<and>
   helper_leakBits \<lparr>hd_sketch = s, hd_repOffsets = ro, hd_seed = sd, hd_params = fe_default\<rparr> = Some 496"
  (is "?names \<and> ?ok \<and> ?three \<and> ?leak")
proof -
  obtain c d where cd: "bch_new 18 0x11D = Some c" "bc_n c = 255" "bc_parityBits c = 124"
    "bch_new 25 0x11D = Some d" "bc_n d = 255" "bc_parityBits d = 164" by (rule bch_new_18_25)
  have ?names by (auto simp: fe_profile_def Let_def)
  moreover have ?ok ?three ?leak using cd by (simp_all add: profile_defs)
  ultimately show ?thesis by blast
qed

end
