(* ===== verification/Replay.thy ===== *)
theory Replay
  imports Prelude
begin

text \<open>
  \<open>class ReplayCache\<close> of \<open>protocol/Protocol.h\<close>, \<open>protocol/Protocol.cc\<close>: the bounded cache of
  nonces.  Its abstract specification is the list of all nonces accepted so far, of which only
  the last \<open>capacity\<close> are remembered (\<open>window\<close>); the concrete cache, a set with a queue, refines
  it.  What the protocol classes rely on is the locale \<open>nonce_filter\<close>.
\<close>

subsection \<open>The cache\<close>

record replay_cache =
  rc_capacity :: nat
  rc_hits :: nat
  rc_seen :: "bytes set"
  rc_order :: "bytes list"

definition rc_new :: "nat \<Rightarrow> replay_cache" where
  "rc_new capacity = \<lparr>rc_capacity = capacity, rc_hits = 0, rc_seen = {}, rc_order = []\<rparr>"

definition rc_offer :: "bytes \<Rightarrow> replay_cache \<Rightarrow> bool \<times> replay_cache" where
  "rc_offer nonce c =
     (if nonce \<in> rc_seen c then (False, c\<lparr>rc_hits := rc_hits c + 1\<rparr>)
      else
        let seen = insert nonce (rc_seen c);
            order = rc_order c @ [nonce]
        in if rc_capacity c < length order
           then (True, c\<lparr>rc_seen := seen - {hd order}, rc_order := tl order\<rparr>)
           else (True, c\<lparr>rc_seen := seen, rc_order := order\<rparr>))"

definition rc_clear :: "replay_cache \<Rightarrow> replay_cache" where
  "rc_clear c = c\<lparr>rc_seen := {}, rc_order := [], rc_hits := 0\<rparr>"

subsection \<open>Invariant\<close>

definition rc_inv :: "replay_cache \<Rightarrow> bool" where
  "rc_inv c \<longleftrightarrow> rc_seen c = set (rc_order c) \<and> distinct (rc_order c) \<and>
     length (rc_order c) \<le> rc_capacity c"

lemma rc_inv_new: "rc_inv (rc_new n)" "rc_seen (rc_new n) = {}"
  by (simp_all add: rc_inv_def rc_new_def)

lemma rc_inv_clear: "rc_inv (rc_clear c)"
  by (simp add: rc_inv_def rc_clear_def)

lemma rc_capacity_offer [frame_simps]: "rc_capacity (snd (rc_offer n c)) = rc_capacity c"
  by (simp add: rc_offer_def Let_def)

lemma rc_offer_iff: "fst (rc_offer n c) \<longleftrightarrow> n \<notin> rc_seen c"
  by (simp add: rc_offer_def Let_def)

lemma rc_inv_offer: "rc_inv c \<Longrightarrow> rc_inv (snd (rc_offer n c))"
proof (cases "rc_order c")
  case Nil
  assume "rc_inv c"
  with Nil show ?thesis by (auto simp: rc_inv_def rc_offer_def Let_def)
next
  case (Cons a xs)
  assume "rc_inv c"
  with Cons show ?thesis by (auto simp: rc_inv_def rc_offer_def Let_def)
qed

subsection \<open>The abstract window\<close>

text \<open>The last \<open>n\<close> elements of the history.\<close>

definition window :: "nat \<Rightarrow> 'a list \<Rightarrow> 'a list" where
  "window n xs = drop (length xs - n) xs"

text \<open>The specification: a nonce is fresh when it is not among the last \<open>cap\<close> accepted ones.\<close>

definition spec_offer :: "nat \<Rightarrow> bytes \<Rightarrow> bytes list \<Rightarrow> bool \<times> bytes list" where
  "spec_offer cap nonce history =
     (if nonce \<in> set (window cap history) then (False, history) else (True, history @ [nonce]))"

fun rc_run :: "bytes list \<Rightarrow> replay_cache \<Rightarrow> bool list \<times> replay_cache" where
  "rc_run [] c = ([], c)"
| "rc_run (n # ns) c =
     (let (b, c1) = rc_offer n c; (bs, c2) = rc_run ns c1 in (b # bs, c2))"

fun spec_run :: "nat \<Rightarrow> bytes list \<Rightarrow> bytes list \<Rightarrow> bool list \<times> bytes list" where
  "spec_run cap [] h = ([], h)"
| "spec_run cap (n # ns) h =
     (let (b, h1) = spec_offer cap n h; (bs, h2) = spec_run cap ns h1 in (b # bs, h2))"

lemma window_append1:
  "window n (xs @ [x]) =
     (if n < length (window n xs @ [x]) then tl (window n xs @ [x]) else window n xs @ [x])"
proof (cases "n \<le> length xs")
  case True
  have "drop (Suc (length xs) - n) (xs @ [x]) = tl (drop (length xs - n) (xs @ [x]))"
    using True by (simp only: Suc_diff_le drop_Suc drop_tl)
  also have "drop (length xs - n) (xs @ [x]) = drop (length xs - n) xs @ [x]" by simp
  finally have "drop (Suc (length xs) - n) (xs @ [x]) = tl (drop (length xs - n) xs @ [x])" .
  with True show ?thesis by (simp only: window_def length_append length_drop list.size) auto
next
  case False
  then show ?thesis by (simp add: window_def)
qed

text \<open>The relation between the cache and a history.\<close>

definition rc_abs :: "replay_cache \<Rightarrow> bytes list \<Rightarrow> bool" where
  "rc_abs c h \<longleftrightarrow> rc_inv c \<and> rc_order c = window (rc_capacity c) h"

lemma rc_offer_refines:
  assumes "rc_abs c h"
  shows "fst (rc_offer n c) = fst (spec_offer (rc_capacity c) n h) \<and>
    rc_abs (snd (rc_offer n c)) (snd (spec_offer (rc_capacity c) n h))"
proof (cases "n \<in> rc_seen c")
  case True
  with assms show ?thesis by (auto simp: rc_abs_def rc_inv_def rc_offer_def spec_offer_def)
next
  case False
  have w: "rc_order c = window (rc_capacity c) h" "rc_seen c = set (rc_order c)"
    using assms by (simp_all add: rc_abs_def rc_inv_def)
  have "rc_order (snd (rc_offer n c)) = window (rc_capacity c) (h @ [n])"
    using False w(1) by (auto simp: rc_offer_def Let_def window_append1)
  moreover have "spec_offer (rc_capacity c) n h = (True, h @ [n])"
    using False w by (simp add: spec_offer_def)
  ultimately show ?thesis
    using False assms rc_inv_offer [of c n] rc_capacity_offer [of n c]
    by (simp add: rc_abs_def rc_offer_iff)
qed

lemma rc_run_refines:
  "rc_abs c h \<Longrightarrow> fst (rc_run ns c) = fst (spec_run (rc_capacity c) ns h) \<and>
     rc_abs (snd (rc_run ns c)) (snd (spec_run (rc_capacity c) ns h))"
proof (induction ns arbitrary: c h)
  case (Cons n ns)
  obtain b c1 where c1: "rc_offer n c = (b, c1)" by (cases "rc_offer n c")
  obtain b' h1 where h1: "spec_offer (rc_capacity c) n h = (b', h1)"
    by (cases "spec_offer (rc_capacity c) n h")
  have "b = b'" "rc_abs c1 h1" "rc_capacity c1 = rc_capacity c"
    using rc_offer_refines [OF Cons.prems, of n] rc_capacity_offer [of n c] c1 h1 by simp_all
  with Cons.IH [of c1 h1] c1 h1 show ?case by (simp add: split_beta)
qed simp

subsection \<open>What the protocol relies on\<close>

locale nonce_filter =
  fixes offer :: "bytes \<Rightarrow> 'c \<Rightarrow> bool \<times> 'c"
    and seen :: "'c \<Rightarrow> bytes set"
    and inv :: "'c \<Rightarrow> bool"
  assumes offer_iff: "fst (offer n c) \<longleftrightarrow> n \<notin> seen c"
    and offer_inv: "inv c \<Longrightarrow> inv (snd (offer n c))"
    and offer_seen: "inv c \<Longrightarrow> seen (snd (offer n c)) \<subseteq> insert n (seen c)"
    and offer_again: "n \<in> seen c \<Longrightarrow> seen (snd (offer n c)) = seen c"
begin

lemma refused: "n \<in> seen c \<Longrightarrow> \<not> fst (offer n c)"
  by (simp add: offer_iff)

lemma still_unseen: "inv c \<Longrightarrow> m \<notin> seen c \<Longrightarrow> m \<noteq> n \<Longrightarrow> m \<notin> seen (snd (offer n c))"
  using offer_seen by blast

end

interpretation rc: nonce_filter rc_offer rc_seen rc_inv
  by unfold_locales
    (auto simp: rc_offer_iff rc_inv_offer, auto simp: rc_offer_def Let_def split: if_splits)

text \<open>An accepted nonce stays in a cache of positive capacity until \<open>capacity\<close> others have been
  accepted after it.\<close>

lemma window_suffix: "length ys < n \<Longrightarrow> x \<in> set (window n (xs @ x # ys))"
proof -
  assume "length ys < n"
  then have "window n (xs @ x # ys) = drop (length xs + 1 + length ys - n) xs @ x # ys"
    by (simp add: window_def)
  then show ?thesis by simp
qed

lemma spec_run_extends: "\<exists>ys. snd (spec_run cap ns h) = h @ ys \<and> length ys \<le> length ns"
proof (induction ns arbitrary: h)
  case (Cons n ns)
  obtain b h1 where h1: "spec_offer cap n h = (b, h1)" by (cases "spec_offer cap n h")
  then obtain zs where "h1 = h @ zs" "length zs \<le> 1"
    by (auto simp: spec_offer_def split: if_splits)
  moreover obtain ys where "snd (spec_run cap ns h1) = h1 @ ys" "length ys \<le> length ns"
    using Cons.IH by blast
  ultimately show ?case using h1 by (intro exI [of _ "zs @ ys"]) (simp add: split_beta)
qed simp

lemma rc_capacity_run [frame_simps]: "rc_capacity (snd (rc_run ns c)) = rc_capacity c"
  by (induction ns arbitrary: c) (simp_all add: split_beta rc_capacity_offer)

lemma rc_run_append:
  "snd (rc_run (ms @ ns) c) = snd (rc_run ns (snd (rc_run ms c)))"
  by (induction ms arbitrary: c) (simp_all add: split_beta)

lemma rc_inv_run: "rc_inv c \<Longrightarrow> rc_inv (snd (rc_run ns c))"
  by (induction ns arbitrary: c) (simp_all add: split_beta rc_inv_offer)

lemma rc_offer_kept:
  assumes "rc_inv c" and "n \<notin> rc_seen c" and "length ns < rc_capacity c"
  shows "n \<in> rc_seen (snd (rc_run ns (snd (rc_offer n c))))"
proof -
  let ?k = "rc_capacity c"
  have a: "rc_abs c (rc_order c)"
    using assms(1) by (simp add: rc_abs_def rc_inv_def window_def)
  have "n \<notin> set (window ?k (rc_order c))"
    using assms(1,2) by (simp add: rc_inv_def window_def)
  then have s: "spec_offer ?k n (rc_order c) = (True, rc_order c @ [n])" by (simp add: spec_offer_def)
  with rc_offer_refines [OF a, of n] have a1: "rc_abs (snd (rc_offer n c)) (rc_order c @ [n])" by simp
  obtain ys where ys: "snd (spec_run ?k ns (rc_order c @ [n])) = (rc_order c @ [n]) @ ys"
    "length ys \<le> length ns" using spec_run_extends by blast
  have "rc_abs (snd (rc_run ns (snd (rc_offer n c)))) (rc_order c @ n # ys)"
    using rc_run_refines [OF a1, of ns] ys(1) by (simp add: rc_capacity_offer)
  moreover have "n \<in> set (window ?k (rc_order c @ n # ys))"
    using assms(3) ys(2) by (intro window_suffix) simp
  ultimately show ?thesis
    by (simp add: rc_abs_def rc_inv_def rc_capacity_offer rc_capacity_run)
qed

subsection \<open>Properties\<close>

text \<open>C17. The cache refines its specification: from a new cache, any sequence of \<open>offer\<close> calls
  answers exactly as the list of all accepted nonces looked at through a window of its last
  \<open>capacity\<close> entries would; set and queue always agree, hold no duplicate and never exceed the
  capacity.\<close>

theorem replay_cache_refines_window:
  "fst (rc_run ns (rc_new cap)) = fst (spec_run cap ns []) \<and> rc_inv (snd (rc_run ns (rc_new cap)))"
proof -
  have "rc_abs (rc_new cap) []" by (simp add: rc_abs_def rc_inv_new) (simp add: rc_new_def window_def)
  from rc_run_refines [OF this, of ns] show ?thesis
    by (simp add: rc_abs_def) (simp add: rc_new_def)
qed

text \<open>A nonce that was accepted is refused when it is offered again, as long as fewer than
  \<open>capacity\<close> other offers came between; so the cache forgets a nonce only by eviction.\<close>

theorem replayed_nonce_is_refused:
  assumes "rc_inv c" and "fst (rc_offer n c)" and "length ns < rc_capacity c"
  shows "\<not> fst (rc_offer n (snd (rc_run ns (snd (rc_offer n c)))))"
  using rc_offer_kept [OF assms(1) _ assms(3)] assms(2) by (simp add: rc_offer_iff)

theorem replayed_nonce_is_refused_witness:
  "\<not> fst (rc_offer [1] (snd (rc_run [[2], [3]] (snd (rc_offer [1] (rc_new 4096))))))"
  using replayed_nonce_is_refused [OF rc_inv_new(1) [of 4096], of "[1]" "[[2], [3]]"]
  by (simp add: rc_offer_iff rc_inv_new) (simp add: rc_new_def)

end
