(* ===== verification/Puf.thy ===== *)
theory Puf
  imports Complex_Main Drbg Suite
begin

text \<open>
  \<open>puf/PufModel.h\<close>, \<open>puf/IdealPrfPuf.h\<close>, \<open>puf/IdealPrfPuf.cc\<close>: the PUF interface with its
  sub-challenge derivations, and the keyed model the simulations use.  The C++ vtable is the
  record \<open>puf\<close>, what enrollment and reproduction rely on the locale \<open>puf_model\<close>, interpreted on
  the keyed model.  A bit error rate is a rational (a double's value; \<open>ber * 65536\<close> is exact).
  The thread-local HMAC context of \<open>responseStream\<close> is re-keyed whenever the key differs, so a
  block is the HMAC under the device key.
\<close>

subsection \<open>The interface\<close>

record puf =
  pf_name :: string
  pf_challengeBits :: nat
  pf_ideal :: "bytes \<Rightarrow> nat \<Rightarrow> bytes option"
  pf_noisy :: "bytes \<Rightarrow> nat \<Rightarrow> drbg \<Rightarrow> (bytes \<times> drbg) option"

definition kSubChallengeBits :: nat where "kSubChallengeBits = 128"
definition kMaxResponseBits :: nat where "kMaxResponseBits = 65536"

definition requireValidBitCount :: "nat \<Rightarrow> unit option" where
  "requireValidBitCount bitCount = require (\<not> kMaxResponseBits < bitCount)"

text \<open>The big-endian bytes of a \<open>uint16_t\<close>: \<open>j >> 8\<close>, \<open>j & 0xFF\<close>.\<close>

definition be16 :: "u16 \<Rightarrow> bytes" where
  "be16 j = [ucast (drop_bit 8 j), ucast (j AND 0xFF)]"

definition deriveSubChallenge :: "ossl \<Rightarrow> bytes \<Rightarrow> u16 \<Rightarrow> bytes option" where
  "deriveSubChallenge L challenge j = do {
     out \<leftarrow> o_sha3_256 L (challenge @ be16 j);
     require (\<not> length out < 16);
     Some (take 16 out) }"

definition subStream_label :: string where
  "subStream_label = ''uavauth/v1/puf/subchallenge-stream''"

partial_function (option) subStream_loop ::
    "ossl \<Rightarrow> bytes \<Rightarrow> nat \<Rightarrow> u16 \<Rightarrow> bytes \<Rightarrow> bytes option" where
  "subStream_loop L prefix need ctr out =
     (if length out < need then do {
        digest \<leftarrow> o_sha3_256 L (prefix @ be16 ctr);
        subStream_loop L prefix need (ctr + 1) (out @ digest) }
      else Some out)"

definition subStream :: "ossl \<Rightarrow> bytes \<Rightarrow> nat \<Rightarrow> bytes option" where
  "subStream L challenge count = do {
     requireValidBitCount count;
     require (\<not> 0xFFFF < length challenge);
     let need = 16 * count;
     (if need = 0 then Some []
      else do {
        out \<leftarrow> subStream_loop L
          (map of_char subStream_label @ be16 (of_nat (length challenge)) @ challenge) need 0 [];
        Some (resize need out) }) }"

subsection \<open>The keyed model\<close>

record ideal_prf =
  ip_deviceKey :: bytes
  ip_ber :: rat

definition kKeyLabel :: string where "kKeyLabel = ''uavauth/v1/puf/ideal-prf-key''"
definition kRespLabel :: string where "kRespLabel = ''uavauth/v1/puf/ideal-prf-response''"

definition ideal_new :: "core_lib \<Rightarrow> ossl \<Rightarrow> bytes \<Rightarrow> ideal_prf option" where
  "ideal_new C L deviceSeed = do {
     k \<leftarrow> o_sha3_256 L (fromString C kKeyLabel @ deviceSeed);
     Some \<lparr>ip_deviceKey = k, ip_ber = 0\<rparr> }"

definition setNoiseBer :: "rat \<Rightarrow> ideal_prf \<Rightarrow> ideal_prf" where
  "setNoiseBer ber p = p\<lparr>ip_ber := min 1 (max 0 ber)\<rparr>"

definition hmacKeyed :: "ossl \<Rightarrow> bytes \<Rightarrow> bytes \<Rightarrow> bytes \<Rightarrow> u16 \<Rightarrow> bytes option" where
  "hmacKeyed L key lab challenge counter = o_hmac_sha3_256 L key (lab @ challenge @ be16 counter)"

partial_function (option) response_loop ::
    "ossl \<Rightarrow> bytes \<Rightarrow> bytes \<Rightarrow> bytes \<Rightarrow> nat \<Rightarrow> u16 \<Rightarrow> bytes \<Rightarrow> bytes option" where
  "response_loop L key lab challenge outLen ctr out =
     (if length out < outLen then do {
        block \<leftarrow> hmacKeyed L key lab challenge ctr;
        response_loop L key lab challenge outLen (ctr + 1) (out @ block) }
      else Some out)"

definition response_mask :: "nat \<Rightarrow> bytes \<Rightarrow> bytes" where
  "response_mask bits out =
     (let r = bits mod 8
      in if r \<noteq> 0 \<and> out \<noteq> [] then butlast out @ [last out AND push_bit (8 - r) 0xFF] else out)"

definition responseStream :: "core_lib \<Rightarrow> ossl \<Rightarrow> bytes \<Rightarrow> bytes \<Rightarrow> nat \<Rightarrow> bytes option" where
  "responseStream C L key challenge bits = do {
     let outLen = bytesForBits C bits;
     out \<leftarrow> response_loop L key (fromString C kRespLabel) challenge outLen 0 [];
     Some (response_mask bits (resize outLen out)) }"

definition ideal_evaluateIdeal ::
    "core_lib \<Rightarrow> ossl \<Rightarrow> ideal_prf \<Rightarrow> bytes \<Rightarrow> nat \<Rightarrow> bytes option" where
  "ideal_evaluateIdeal C L p challenge bitCount = do {
     requireValidBitCount bitCount;
     responseStream C L (ip_deviceKey p) challenge bitCount }"

text \<open>\<open>std::llround\<close> of a non-negative value.\<close>

definition noise_threshold :: "rat \<Rightarrow> u32" where
  "noise_threshold ber = of_int \<lfloor>ber * 65536 + 1 / 2\<rfloor>"

definition mask_value :: "bytes \<Rightarrow> nat \<Rightarrow> u32" where
  "mask_value msk j = ucast (msk ! (2 * j)) OR push_bit 8 (ucast (msk ! (2 * j + 1)))"

definition noise_flip :: "bytes \<Rightarrow> u32 \<Rightarrow> nat \<Rightarrow> bytes \<Rightarrow> bytes" where
  "noise_flip msk thr j out =
     (if mask_value msk j < thr
      then out[j div 8 := out ! (j div 8) XOR drop_bit (j mod 8) 0x80] else out)"

definition ideal_evaluateNoisy ::
    "core_lib \<Rightarrow> ossl \<Rightarrow> ideal_prf \<Rightarrow> bytes \<Rightarrow> nat \<Rightarrow> drbg \<Rightarrow> (bytes \<times> drbg) option" where
  "ideal_evaluateNoisy C L p challenge bitCount rng = do {
     requireValidBitCount bitCount;
     out \<leftarrow> responseStream C L (ip_deviceKey p) challenge bitCount;
     (msk, rng) \<leftarrow> drbg_bytes L (2 * bitCount) rng;
     let thr = noise_threshold (ip_ber p);
     (if thr = 0 then Some (out, rng)
      else Some (fold (noise_flip msk thr) [0..<bitCount] out, rng)) }"

definition idealPrfPuf :: "core_lib \<Rightarrow> ossl \<Rightarrow> ideal_prf \<Rightarrow> puf" where
  "idealPrfPuf C L p = \<lparr>pf_name = ''ideal-prf'', pf_challengeBits = kSubChallengeBits,
     pf_ideal = ideal_evaluateIdeal C L p, pf_noisy = ideal_evaluateNoisy C L p\<rparr>"

subsection \<open>Generator states\<close>

definition drbg_ok :: "ossl \<Rightarrow> drbg \<Rightarrow> bool" where
  "drbg_ok L st \<longleftrightarrow> (\<exists>p. drbg_at L st p)"

text \<open>Every draw is a stretch of the generator's stream.\<close>

definition from_stream :: "ossl \<Rightarrow> bytes \<Rightarrow> bytes \<Rightarrow> bool" where
  "from_stream L key b \<longleftrightarrow> (\<exists>p. b = map (drbg_stream L key) [p..<p + length b])"

context ossl_laws
begin

lemma drbg_bytes_ok:
  assumes "drbg_ok L st"
  shows "\<exists>b st'. drbg_bytes L n st = Some (b, st') \<and> length b = n \<and> drbg_ok L st' \<and>
    dk_key st' = dk_key st \<and> from_stream L (dk_key st) b"
proof -
  obtain p where "drbg_at L st p" using assms by (auto simp: drbg_ok_def)
  then obtain st' where st': "drbg_bytes L n st = Some (map (drbg_stream L (dk_key st)) [p..<p + n], st')"
    "drbg_at L st' (p + n)" "dk_key st' = dk_key st" by (rule drbg_bytes_stream)
  moreover have "from_stream L (dk_key st) (map (drbg_stream L (dk_key st)) [p..<p + n])"
    by (auto simp: from_stream_def)
  ultimately show ?thesis by (auto simp: drbg_ok_def)
qed

end

subsection \<open>The contract of a PUF\<close>

locale puf_model = core_bits C + ossl_laws L for C L +
  fixes P :: puf
  assumes ideal_total: "n \<le> kMaxResponseBits \<Longrightarrow> length ch \<le> 65535 \<Longrightarrow> \<exists>r. pf_ideal P ch n = Some r"
    and ideal_len: "pf_ideal P ch n = Some r \<Longrightarrow> length r = bytesForBits C n"
    and noisy_total: "n \<le> kMaxResponseBits \<Longrightarrow> length ch \<le> 65535 \<Longrightarrow> drbg_ok L rng \<Longrightarrow>
      \<exists>r rng'. pf_noisy P ch n rng = Some (r, rng') \<and> length r = bytesForBits C n \<and>
        drbg_ok L rng' \<and> dk_key rng' = dk_key rng"

subsection \<open>Lemmas of the keyed model\<close>

context ossl_laws
begin

definition prf_block :: "bytes \<Rightarrow> bytes \<Rightarrow> bytes \<Rightarrow> nat \<Rightarrow> bytes" where
  "prf_block key lab challenge i = the (hmacKeyed L key lab challenge (of_nat i))"

lemma prf_block: "hmacKeyed L key lab ch (of_nat i) = Some (prf_block key lab ch i)"
  "length (prf_block key lab ch i) = 32"
  using hmac [of key "lab @ ch @ be16 (of_nat i)"] by (auto simp: prf_block_def hmacKeyed_def)

lemma response_loop_blocks:
  "response_loop L key lab ch n (of_nat i) out =
     Some (out @ concat (map (prf_block key lab ch) [i..<i + (n - length out + 31) div 32]))"
proof (induction "n - length out" arbitrary: out i rule: less_induct)
  case less
  show ?case
  proof (cases "length out < n")
    case True
    let ?b = "prf_block key lab ch i"
    have l: "length (out @ ?b) = length out + 32" by (simp add: prf_block)
    define k where "k = (n - length (out @ ?b) + 31) div 32"
    have "n - length (out @ ?b) < n - length out" using True l by simp
    from less.hyps [OF this, of "Suc i"]
    have "response_loop L key lab ch n (of_nat i) out =
        Some ((out @ ?b) @ concat (map (prf_block key lab ch) [Suc i..<Suc i + k]))"
      using True unfolding k_def by (subst response_loop.simps) (simp add: prf_block add.commute)
    moreover have "(n - length out + 31) div 32 = Suc k"
    proof (cases "n - length out \<le> 32")
      case True
      then have "(n - length out + 31) div 32 = 1" using \<open>length out < n\<close> by (intro div_nat_eqI) auto
      then show ?thesis using True unfolding l k_def by simp
    next
      case False
      then have "n - length out + 31 = (n - length (out @ ?b) + 31) + 32" unfolding l by simp
      then show ?thesis by (simp add: k_def)
    qed
    moreover have "[i..<i + Suc k] = i # [Suc i..<Suc i + k]" by (simp add: upt_rec)
    ultimately show ?thesis by (simp only: list.map concat.simps append_assoc)
  next
    case False
    then show ?thesis by (subst response_loop.simps) simp
  qed
qed

lemma response_loop_total:
  "\<exists>out. response_loop L key lab ch n 0 [] = Some out \<and> n \<le> length out"
proof -
  have "length (concat (map (prf_block key lab ch) is)) = 32 * length is" for "is"
    by (induction "is") (simp_all add: prf_block)
  moreover have "n \<le> 32 * ((n + 31) div 32)" by linarith
  ultimately show ?thesis using response_loop_blocks [of key lab ch n 0 "[]"] by simp
qed

lemma length_response_mask [simp]: "length (response_mask bits out) = length out"
  by (simp add: response_mask_def Let_def)

lemma responseStream_total:
  "\<exists>r. responseStream C L key ch n = Some r \<and> length r = bytesForBits C n"
proof -
  obtain out where "response_loop L key (fromString C kRespLabel) ch (bytesForBits C n) 0 [] = Some out"
    using response_loop_total by blast
  then show ?thesis by (simp add: responseStream_def Let_def)
qed

end

context core_bits
begin

lemma flip_setBit:
  assumes "j < 8 * length out"
  shows "out[j div 8 := out ! (j div 8) XOR drop_bit (j mod 8) 0x80] = setBit C out j (\<not> getBit C out j)"
proof -
  have b: "bit (drop_bit (j mod 8) (0x80 :: u8)) n \<longleftrightarrow> n = 7 - j mod 8" if "n < 8" for n
  proof -
    have "(0x80 :: u8) = push_bit 7 1" by simp
    then have "bit (0x80 :: u8) k \<longleftrightarrow> k = 7" for k by (simp only: bit_push_bit_iff) (auto simp: bit_1_iff)
    moreover have "n + m = 7 \<longleftrightarrow> n = 7 - m" if "m \<le> 7" for m using that by auto
    moreover have "j mod 8 \<le> 7" using mod_less_divisor [of 8 j] by linarith
    ultimately show ?thesis by (simp only: bit_drop_bit_eq comp_def add.commute [of "j mod 8"])
  qed
  have "out ! (j div 8) XOR drop_bit (j mod 8) 0x80 =
    (if bit (out ! (j div 8)) (7 - j mod 8) then unset_bit (7 - j mod 8) (out ! (j div 8))
     else set_bit (7 - j mod 8) (out ! (j div 8)))"
    by (rule bit_word_eqI) (auto simp: bit_xor_iff b bit_unset_bit_iff bit_set_bit_iff)
  then show ?thesis using assms by (simp add: setBit getBit)
qed

lemma noise_flip_bits:
  assumes "n \<le> 8 * length out"
  shows "length (fold (noise_flip msk thr) [0..<n] out) = length out \<and>
    (\<forall>j < 8 * length out. getBit C (fold (noise_flip msk thr) [0..<n] out) j =
      (getBit C out j \<noteq> (j < n \<and> mask_value msk j < thr)))"
  using assms
proof (induction n)
  case (Suc n)
  let ?w = "fold (noise_flip msk thr) [0..<n] out"
  have ih: "length ?w = length out" "\<And>j. j < 8 * length out \<Longrightarrow>
      getBit C ?w j = (getBit C out j \<noteq> (j < n \<and> mask_value msk j < thr))"
    using Suc by simp_all
  have n: "n < 8 * length ?w" using Suc.prems ih(1) by simp
  have "fold (noise_flip msk thr) [0..<Suc n] out =
      (if mask_value msk n < thr then setBit C ?w n (\<not> getBit C ?w n) else ?w)"
    by (simp add: noise_flip_def flip_setBit [OF n])
  then show ?case using ih n by (auto simp: getBit_setBit less_Suc_eq)
qed simp

end

locale puf_env = core_bits C + ossl_laws L for C L
begin

lemma ideal_evaluateIdeal_total:
  "n \<le> kMaxResponseBits \<Longrightarrow>
   \<exists>r. ideal_evaluateIdeal C L p ch n = Some r \<and> length r = bytesForBits C n"
  using responseStream_total [of C "ip_deviceKey p" ch n]
  by (auto simp: ideal_evaluateIdeal_def requireValidBitCount_def)

text \<open>The field evaluation: the ideal response with bit \<open>j\<close> flipped exactly when the two bytes of
  the generator's stream reserved for it are below the threshold.\<close>

lemma ideal_evaluateNoisy_exact:
  assumes "n \<le> kMaxResponseBits" and "drbg_at L rng q"
  shows "\<exists>r noisy rng'. ideal_evaluateIdeal C L p ch n = Some r \<and>
    ideal_evaluateNoisy C L p ch n rng = Some (noisy, rng') \<and>
    drbg_at L rng' (q + 2 * n) \<and> dk_key rng' = dk_key rng \<and>
    length r = bytesForBits C n \<and> length noisy = bytesForBits C n \<and>
    (\<forall>j < n. getBit C noisy j = (getBit C r j \<noteq>
      (mask_value (map (drbg_stream L (dk_key rng)) [q..<q + 2 * n]) j < noise_threshold (ip_ber p)))) \<and>
    (\<forall>j. n \<le> j \<and> j < 8 * length noisy \<longrightarrow> getBit C noisy j = getBit C r j)"
proof -
  obtain r where r: "responseStream C L (ip_deviceKey p) ch n = Some r" "length r = bytesForBits C n"
    using responseStream_total by blast
  obtain rng' where rng': "drbg_bytes L (2 * n) rng =
      Some (map (drbg_stream L (dk_key rng)) [q..<q + 2 * n], rng')"
    "drbg_at L rng' (q + 2 * n)" "dk_key rng' = dk_key rng"
    using drbg_bytes_stream [OF assms(2)] by metis
  let ?m = "map (drbg_stream L (dk_key rng)) [q..<q + 2 * n]" and ?t = "noise_threshold (ip_ber p)"
  have n: "n \<le> 8 * length r" using r(2) bytesForBits_bound by simp
  let ?w = "fold (noise_flip ?m ?t) [0..<n] r"
  have t0: "?w = r" if "?t = 0"
  proof (rule getBit_ext)
    show "length ?w = length r" using noise_flip_bits [OF n] by blast
  qed (use noise_flip_bits [OF n, of ?m ?t] that in simp)
  then have "ideal_evaluateNoisy C L p ch n rng = Some (?w, rng')"
    using assms(1) r(1) rng'(1) by (simp add: ideal_evaluateNoisy_def requireValidBitCount_def Let_def)
  with assms(1) r rng'(2,3) noise_flip_bits [OF n, of ?m ?t] n show ?thesis
    by (auto simp: ideal_evaluateIdeal_def requireValidBitCount_def)
qed

end

text \<open>Every keyed PUF provides the interface.\<close>

sublocale puf_env \<subseteq> ideal: puf_model C L "idealPrfPuf C L p" for p
proof
  fix n ch rng r
  show "n \<le> kMaxResponseBits \<Longrightarrow> \<exists>r. pf_ideal (idealPrfPuf C L p) ch n = Some r"
    using ideal_evaluateIdeal_total [of n p ch] by (auto simp: idealPrfPuf_def)
  show "length r = bytesForBits C n" if "pf_ideal (idealPrfPuf C L p) ch n = Some r"
    using that responseStream_total [of C "ip_deviceKey p" ch n]
    by (auto simp: idealPrfPuf_def ideal_evaluateIdeal_def requireValidBitCount_def split: if_splits)
  show "\<exists>r rng'. pf_noisy (idealPrfPuf C L p) ch n rng = Some (r, rng') \<and>
      length r = bytesForBits C n \<and> drbg_ok L rng' \<and> dk_key rng' = dk_key rng"
    if n: "n \<le> kMaxResponseBits" "drbg_ok L rng"
  proof -
    obtain q where "drbg_at L rng q" using n(2) by (auto simp: drbg_ok_def)
    from ideal_evaluateNoisy_exact [OF n(1) this, of p ch] show ?thesis
      by (auto simp: idealPrfPuf_def drbg_ok_def)
  qed
qed

interpretation ref_puf: puf_env ref_core ref_ossl
  by (intro puf_env.intro ref.core_bits_axioms refo.ossl_laws_axioms)

lemma ideal_pufI: "core_laws C \<Longrightarrow> ossl_laws L \<Longrightarrow> puf_env C L"
  by (simp add: puf_env_def core_laws_def)

lemma noise_threshold_0 [simp]: "noise_threshold 0 = 0"
proof -
  have "\<lfloor>0 * 65536 + 1 / 2 :: rat\<rfloor> = 0" by (rule floor_unique) simp_all
  then show ?thesis by (simp only: noise_threshold_def of_int_0)
qed

lemma noise_threshold_1: "noise_threshold 1 = 65536"
proof -
  have "\<lfloor>1 * 65536 + 1 / 2 :: rat\<rfloor> = 65536" by (rule floor_unique) simp_all
  then show ?thesis by (simp only: noise_threshold_def) simp
qed

text \<open>At error rate 0 the field evaluation is the ideal one.\<close>

lemma ideal_noiseless:
  assumes "core_laws C" "ossl_laws L" "n \<le> kMaxResponseBits" "drbg_at L rng q" "ip_ber p = 0"
    and "ideal_evaluateIdeal C L p ch n = Some r" "ideal_evaluateNoisy C L p ch n rng = Some (noisy, rng')"
  shows "noisy = r"
proof -
  have b: "core_bits C" using assms(1) by (simp add: core_laws_def)
  from puf_env.ideal_evaluateNoisy_exact [OF ideal_pufI [OF assms(1,2)] assms(3,4), of p ch] assms(6,7)
  have "length r = length noisy" "\<forall>j < n. getBit C noisy j = (getBit C r j \<noteq>
      (mask_value (map (drbg_stream L (dk_key rng)) [q..<q + 2 * n]) j < noise_threshold (ip_ber p)))"
    "\<forall>j. n \<le> j \<and> j < 8 * length noisy \<longrightarrow> getBit C noisy j = getBit C r j" by auto
  then show ?thesis
    by (intro core_bits.getBit_ext [OF b])
      (use assms(5) in \<open>simp, metis noise_threshold_0 linorder_not_less word_not_simps(1)\<close>)
qed

subsection \<open>Properties\<close>

text \<open>The noise process of the keyed PUF: for every challenge, length up to 65536 bits and
  generator state, the ideal and the field evaluation return packed vectors of that many bits;
  the field evaluation draws exactly two bytes per bit whatever the configured error rate, and
  bit \<open>j\<close> of it differs from the ideal one exactly when its two bytes, low byte first, are below
  the threshold (so with error rate 0 it is the ideal response); padding bits are left alone.\<close>

theorem ideal_puf_noise_exact:
  assumes "core_laws C" and "ossl_laws L" and "n \<le> kMaxResponseBits" and "drbg_at L rng q"
  shows "\<exists>r noisy rng'. ideal_evaluateIdeal C L p ch n = Some r \<and>
    ideal_evaluateNoisy C L p ch n rng = Some (noisy, rng') \<and>
    drbg_at L rng' (q + 2 * n) \<and> length r = bytesForBits C n \<and> length noisy = bytesForBits C n \<and>
    (\<forall>j < n. getBit C noisy j = (getBit C r j \<noteq>
      (mask_value (map (drbg_stream L (dk_key rng)) [q..<q + 2 * n]) j < noise_threshold (ip_ber p)))) \<and>
    (\<forall>j. n \<le> j \<and> j < 8 * length noisy \<longrightarrow> getBit C noisy j = getBit C r j) \<and>
    (ip_ber p = 0 \<longrightarrow> noisy = r)"
  using puf_env.ideal_evaluateNoisy_exact [OF ideal_pufI [OF assms(1,2)] assms(3,4), of p ch]
    ideal_noiseless [OF assms] by metis

theorem ideal_puf_noise_exact_witness:
  "\<exists>r rng rng'. ideal_evaluateIdeal ref_core ref_ossl \<lparr>ip_deviceKey = [1], ip_ber = 0\<rparr> [2] 1020 = Some r \<and>
     length r = 128 \<and>
     ideal_evaluateNoisy ref_core ref_ossl \<lparr>ip_deviceKey = [1], ip_ber = 0\<rparr> [2] 1020 rng = Some (r, rng')"
proof -
  obtain rng where "drbg_at ref_ossl rng 0" using refo.drbg_reseed_total by blast
  from ideal_puf_noise_exact [OF ref_core_laws refo.ossl_laws_axioms _ this, of 1020
      "\<lparr>ip_deviceKey = [1], ip_ber = 0\<rparr>" "[2]"]
  show ?thesis by (fastforce simp: kMaxResponseBits_def ref.bytesForBits)
qed

text \<open>The error rate is clamped: whatever rate is configured, the stored one lies between 0 and
  1 and the 16-bit threshold between 0 and 65536; rate 0 gives threshold 0, rate 1 gives 65536
  (every bit flips).\<close>

theorem noise_rate_clamped:
  "0 \<le> ip_ber (setNoiseBer ber p) \<and> ip_ber (setNoiseBer ber p) \<le> 1 \<and>
   noise_threshold (ip_ber (setNoiseBer ber p)) \<le> 65536 \<and>
   noise_threshold 0 = 0 \<and> noise_threshold 1 = 65536 \<and> mask_value msk j < 65536"
proof -
  let ?b = "ip_ber (setNoiseBer ber p)"
  have b: "0 \<le> ?b" "?b \<le> 1" by (simp_all add: setNoiseBer_def)
  let ?t = "\<lfloor>?b * 65536 + 1 / 2\<rfloor>"
  have "0 \<le> ?t" "?t \<le> 65536" using b by (auto simp: floor_le_iff)
  then have "uint (of_int ?t :: u32) = ?t" by (simp add: uint_word_of_int)
  then have "noise_threshold ?b \<le> 65536"
    using \<open>?t \<le> 65536\<close> by (simp add: noise_threshold_def word_le_def)
  moreover have "mask_value msk j < 65536"
  proof -
    have "mask_value msk j = take_bit 16 (mask_value msk j)"
      by (rule bit_word_eqI) (auto simp: mask_value_def bit_simps dest: bit_imp_le_length)
    then have "uint (mask_value msk j) < 2 ^ 16"
      by (metis take_bit_int_less_exp unsigned_take_bit_eq)
    then show ?thesis by (simp add: word_less_def)
  qed
  moreover note noise_threshold_1
  ultimately show ?thesis using b by simp
qed

end
