(* ===== verification/Credentials.thy ===== *)
theory Credentials
  imports Wire
begin

text \<open>
  \<open>packCredentials\<close> and \<open>unpackCredentials\<close> of \<open>protocol/Protocol.cc\<close>: the plaintext of M4, a
  count, per peer its identity, credential and temporary identity, and the receiver's next
  temporary identity.  \<open>None\<close> of \<open>unpackCredentials\<close> is its result \<open>false\<close>: bounds check or
  throwing read, the partial maps being discarded by its caller.
\<close>

subsection \<open>Packing\<close>

type_synonym peer_map = "(int, bytes) omap"

definition tid_or_empty :: "peer_map \<Rightarrow> int \<Rightarrow> bytes" where
  "tid_or_empty tids k = (case om_find tids k of None \<Rightarrow> [] | Some t \<Rightarrow> t)"

fun pack_entries :: "core_lib \<Rightarrow> peer_map \<Rightarrow> peer_map \<Rightarrow> bytes option" where
  "pack_entries C tids [] = Some []"
| "pack_entries C tids ((k, cred) # m) = do {
     c \<leftarrow> lengthPrefixed C cred;
     t \<leftarrow> lengthPrefixed C (tid_or_empty tids k);
     rest \<leftarrow> pack_entries C tids m;
     Some (u16be C (word_of_int k) @ c @ t @ rest) }"

definition packCredentials :: "core_lib \<Rightarrow> peer_map \<Rightarrow> peer_map \<Rightarrow> bytes \<Rightarrow> bytes option" where
  "packCredentials C creds tids tidNew = do {
     body \<leftarrow> pack_entries C tids creds;
     t \<leftarrow> lengthPrefixed C tidNew;
     Some (u16be C (of_nat (length creds)) @ body @ t) }"

subsection \<open>Unpacking\<close>

text \<open>A length-prefixed string at \<open>off\<close>, with the offset behind it.\<close>

definition read_block :: "core_lib \<Rightarrow> bytes \<Rightarrow> nat \<Rightarrow> (bytes \<times> nat) option" where
  "read_block C blob off = do {
     n \<leftarrow> readU16be C blob off;
     let off = off + 2;
     require (\<not> length blob < off + unat n);
     Some (take (unat n) (drop off blob), off + unat n) }"

fun unpack_loop ::
    "core_lib \<Rightarrow> bytes \<Rightarrow> nat \<Rightarrow> nat \<Rightarrow> peer_map \<Rightarrow> peer_map \<Rightarrow> (nat \<times> peer_map \<times> peer_map) option" where
  "unpack_loop C blob 0 off creds tids = Some (off, creds, tids)"
| "unpack_loop C blob (Suc n) off creds tids = do {
     p \<leftarrow> readU16be C blob off;
     let peerId = int (unat p);
     (cred, off) \<leftarrow> read_block C blob (off + 2);
     (tid, off) \<leftarrow> read_block C blob off;
     unpack_loop C blob n off (om_set peerId cred creds) (om_set peerId tid tids) }"

definition unpackCredentials :: "core_lib \<Rightarrow> bytes \<Rightarrow> (peer_map \<times> peer_map \<times> bytes) option" where
  "unpackCredentials C blob = do {
     count \<leftarrow> readU16be C blob 0;
     (off, creds, tids) \<leftarrow> unpack_loop C blob (unat count) 2 [] [];
     tidLen \<leftarrow> readU16be C blob off;
     let off = off + 2;
     require (off + unat tidLen = length blob);
     Some (creds, tids, drop off blob) }"

subsection \<open>Lemmas\<close>

lemma om_set_append: "\<forall>q \<in> set m. fst q < k \<Longrightarrow> om_set k v m = m @ [(k, v)]"
  by (induction m) auto

text \<open>Re-inserting an ordered map rebuilds it.\<close>

lemma fold_om_set:
  "om_wf es \<Longrightarrow> \<forall>q \<in> set m. \<forall>r \<in> set es. fst q < fst r \<Longrightarrow>
   fold (\<lambda>(k, v). om_set k (f k v)) es m = m @ map (\<lambda>(k, v). (k, f k v)) es"
proof (induction es arbitrary: m)
  case (Cons e es)
  obtain k v where e: "e = (k, v)" by (cases e)
  have "om_set k (f k v) m = m @ [(k, f k v)]" using Cons.prems e by (intro om_set_append) auto
  moreover have "\<forall>q \<in> set (m @ [(k, f k v)]). \<forall>r \<in> set es. fst q < fst r"
    using Cons.prems e by auto
  ultimately show ?case using Cons.IH [of "m @ [(k, f k v)]"] Cons.prems(1) e by simp
qed simp

lemma uint_u16_of_int: "0 \<le> k \<Longrightarrow> k \<le> 65535 \<Longrightarrow> uint (word_of_int k :: u16) = k"
  by (simp add: unsigned_of_int take_bit_int_eq_self)

text \<open>What a device record can hold: identities of 16 bits, strings with a 16-bit length.\<close>

definition packable :: "peer_map \<Rightarrow> peer_map \<Rightarrow> bytes \<Rightarrow> bool" where
  "packable creds tids tidNew \<longleftrightarrow> om_wf creds \<and> length creds \<le> 65535 \<and> length tidNew \<le> 65535 \<and>
     (\<forall>(k, c) \<in> set creds. 0 \<le> k \<and> k \<le> 65535 \<and> length c \<le> 65535 \<and>
        length (tid_or_empty tids k) \<le> 65535)"

context core_bytes
begin

lemma read_block_prefixed:
  assumes "lengthPrefixed C b = Some p" "length b \<le> 65535"
  shows "read_block C (pre @ p @ ys) (length pre) = Some (b, length pre + length p)"
proof -
  have p: "p = u16be C (of_nat (length b)) @ b" using assms lengthPrefixed by simp
  then have "readU16be C (pre @ p @ ys) (length pre) = Some (of_nat (length b))"
    using read_u16be [of pre "of_nat (length b)" "b @ ys"] by simp
  then show ?thesis using assms(2) p by (simp add: read_block_def unat_of_nat_u16)
qed

lemma pack_entries_total:
  "\<forall>(k, c) \<in> set es. length c \<le> 65535 \<and> length (tid_or_empty tids k) \<le> 65535 \<Longrightarrow>
   \<exists>b. pack_entries C tids es = Some b"
  by (induction es) (auto simp: lengthPrefixed)

lemma unpack_packed:
  assumes "pack_entries C tids es = Some body"
    and "\<forall>(k, c) \<in> set es. 0 \<le> k \<and> k \<le> 65535 \<and> length c \<le> 65535 \<and>
        length (tid_or_empty tids k) \<le> 65535"
  shows "unpack_loop C (pre @ body @ ys) (length es) (length pre) cs ts =
    Some (length pre + length body, fold (\<lambda>(k, v). om_set k v) es cs,
          fold (\<lambda>(k, v). om_set k (tid_or_empty tids k)) es ts)"
  using assms
proof (induction es arbitrary: body pre cs ts)
  case (Cons e es)
  obtain k c where e: "e = (k, c)" by (cases e)
  from Cons.prems(1) e obtain pc pt rest where p: "lengthPrefixed C c = Some pc"
    "lengthPrefixed C (tid_or_empty tids k) = Some pt" "pack_entries C tids es = Some rest"
    "body = u16be C (word_of_int k) @ pc @ pt @ rest"
    by (auto simp: Option.bind_eq_Some_conv)
  have l: "0 \<le> k" "k \<le> 65535" "length c \<le> 65535" "length (tid_or_empty tids k) \<le> 65535"
    using Cons.prems(2) e by auto
  let ?blob = "pre @ body @ ys" and ?p0 = "pre @ u16be C (word_of_int k)"
  have "readU16be C ?blob (length pre) = Some (word_of_int k)"
    using read_u16be p(4) by simp
  moreover have "read_block C ?blob (length pre + 2) = Some (c, length ?p0 + length pc)"
    using read_block_prefixed [OF p(1) l(3), of ?p0 "pt @ rest @ ys"] p(4) by simp
  moreover have "read_block C ?blob (length ?p0 + length pc) =
      Some (tid_or_empty tids k, length (?p0 @ pc) + length pt)"
    using read_block_prefixed [OF p(2) l(4), of "?p0 @ pc" "rest @ ys"] p(4) by simp
  moreover have "unpack_loop C ?blob (length es) (length (?p0 @ pc @ pt)) cs' ts' =
      Some (length (?p0 @ pc @ pt) + length rest, fold (\<lambda>(k, v). om_set k v) es cs',
        fold (\<lambda>(k, v). om_set k (tid_or_empty tids k)) es ts')" for cs' ts'
    using Cons.IH [OF p(3), of "?p0 @ pc @ pt" cs' ts'] Cons.prems(2) p(4) by simp
  ultimately show ?case
    using l(1,2) p(4) e by (simp add: uint_u16_of_int Let_def add.assoc)
qed simp

lemma unpack_pack:
  assumes "packable creds tids tidNew"
  obtains b where "packCredentials C creds tids tidNew = Some b"
    "\<And>ys. unpackCredentials C (b @ ys) =
      (if ys = [] then Some (creds, map (\<lambda>(k, c). (k, tid_or_empty tids k)) creds, tidNew) else None)"
proof -
  note pk = assms [unfolded packable_def]
  obtain body where body: "pack_entries C tids creds = Some body"
    using pack_entries_total [of creds tids] pk by blast
  obtain t where t: "lengthPrefixed C tidNew = Some t" "t = u16be C (of_nat (length tidNew)) @ tidNew"
    using lengthPrefixed pk by blast
  let ?c = "u16be C (of_nat (length creds))"
  let ?b = "?c @ body @ t"
  let ?ts = "map (\<lambda>(k, c). (k, tid_or_empty tids k)) creds"
  have "unpackCredentials C (?b @ ys) = (if ys = [] then Some (creds, ?ts, tidNew) else None)" for ys
  proof -
    have "unpack_loop C (?b @ ys) (length creds) 2 [] [] = Some (2 + length body, creds, ?ts)"
      using unpack_packed [OF body, of ?c "t @ ys" "[]" "[]"] pk
        fold_om_set [of creds "[]" "\<lambda>k v. v"] fold_om_set [of creds "[]" "\<lambda>k v. tid_or_empty tids k"]
      by (simp add: case_prod_unfold)
    moreover have "readU16be C (?b @ ys) 0 = Some (of_nat (length creds))"
      using read_u16be_0 by simp
    moreover have "readU16be C (?b @ ys) (2 + length body) = Some (of_nat (length tidNew))"
      using read_u16be [of "?c @ body" "of_nat (length tidNew)" "tidNew @ ys"] t(2) by simp
    ultimately show ?thesis
      using pk t(2) by (auto simp: unpackCredentials_def unat_of_nat_u16)
  qed
  moreover have "packCredentials C creds tids tidNew = Some ?b"
    using body t by (simp add: packCredentials_def)
  ultimately show thesis using that by blast
qed

end

subsection \<open>Properties\<close>

text \<open>C27. The credential package round-trips and is strict: packing credentials with identities of
  16 bits succeeds, unpacking gives back exactly the credentials, per peer the temporary
  identity (empty when there was none) and the next identity, and one byte of trailing data
  makes it unacceptable.\<close>

theorem credentials_round_trip:
  assumes "core_laws C" and "packable creds tids tidNew"
  shows "\<exists>b. packCredentials C creds tids tidNew = Some b \<and>
    unpackCredentials C b = Some (creds, map (\<lambda>(k, c). (k, tid_or_empty tids k)) creds, tidNew) \<and>
    (\<forall>x ys. unpackCredentials C (b @ x # ys) = None)"
proof -
  have "core_bytes C" using assms(1) by (simp add: core_laws_def)
  from core_bytes.unpack_pack [OF this assms(2)] obtain b where
    "packCredentials C creds tids tidNew = Some b"
    "\<And>ys. unpackCredentials C (b @ ys) = (if ys = []
      then Some (creds, map (\<lambda>(k, c). (k, tid_or_empty tids k)) creds, tidNew) else None)" by blast
  from this(1) this(2) [of "[]"] this(2) [of "_ # _"] show ?thesis by simp
qed

theorem credentials_round_trip_witness:
  "\<exists>b. packCredentials ref_core [(1, [7, 8]), (3, [])] [(1, [5])] [9] = Some b \<and>
     unpackCredentials ref_core b = Some ([(1, [7, 8]), (3, [])], [(1, [5]), (3, [])], [9]) \<and>
     unpackCredentials ref_core (b @ [0]) = None"
  using credentials_round_trip [OF ref_core_laws, of "[(1, [7, 8]), (3, [])]" "[(1, [5])]" "[9]"]
  by (auto simp: packable_def tid_or_empty_def)

end
