(* ===== verification/Session.thy ===== *)
theory Session
  imports Credentials X25519 Fuzzy Puf Replay
begin

text \<open>
  \<open>protocol/Protocol.h\<close> and the helpers at the top of \<open>protocol/Protocol.cc\<close>: the outcome of a
  step, the records of enrolled devices and of the two phases' sessions, freshness of a
  timestamp, and the messages and MAC inputs of the handshakes, each written once for sender and
  receiver.  A handler is a function into \<open>(step_result \<times> generator \<times> object) option\<close>; \<open>None\<close>
  is an exception that leaves it.  The clock readings of \<open>StepTiming\<close> are not modelled.
\<close>

definition kNonceLen :: nat where "kNonceLen = 16"
definition kTidLen :: nat where "kTidLen = 16"

subsection \<open>Step results\<close>

record step_result =
  sr_ok :: bool
  sr_abort :: abort_reason
  sr_hasReply :: bool
  sr_reply :: message

definition fail :: "abort_reason \<Rightarrow> step_result" where
  "fail reason = \<lparr>sr_ok = False, sr_abort = reason, sr_hasReply = False, sr_reply = emptyMessage\<rparr>"

definition done_reply :: "message \<Rightarrow> step_result" where
  "done_reply m = \<lparr>sr_ok = True, sr_abort = NoAbort, sr_hasReply = True, sr_reply = m\<rparr>"

definition done_quiet :: step_result where
  "done_quiet = \<lparr>sr_ok = True, sr_abort = NoAbort, sr_hasReply = False, sr_reply = emptyMessage\<rparr>"

lemma step_result_simps [simp]:
  "\<not> sr_ok (fail r)" "sr_abort (fail r) = r" "\<not> sr_hasReply (fail r)"
  "sr_ok (done_reply m)" "sr_hasReply (done_reply m)" "sr_reply (done_reply m) = m"
  "sr_abort (done_reply m) = NoAbort"
  "sr_ok done_quiet" "\<not> sr_hasReply done_quiet" "sr_abort done_quiet = NoAbort"
  "fail r \<noteq> done_reply m" "fail r \<noteq> done_quiet"
  by (simp_all add: fail_def done_reply_def done_quiet_def)

definition timestampFresh :: "u32 \<Rightarrow> u32 \<Rightarrow> u32 \<Rightarrow> bool" where
  "timestampFresh nowMs msgMs windowMs =
     (let diff = (if msgMs \<le> nowMs then nowMs - msgMs else msgMs - nowMs) in diff \<le> windowMs)"

text \<open>The subtraction never wraps: freshness is the distance of the two instants.\<close>

lemma timestampFresh_iff: "timestampFresh n m w \<longleftrightarrow> \<bar>uint n - uint m\<bar> \<le> uint w"
  by (auto simp: timestampFresh_def Let_def word_le_def uint_sub_if' split: if_splits)

lemma timestampFresh_same [simp]: "timestampFresh n n w"
  by (simp add: timestampFresh_def)

subsection \<open>Records\<close>

record device_record =
  dr_uavId :: int
  dr_tid :: bytes
  dr_pendingTid :: bytes
  dr_challenge :: bytes
  dr_helper :: helper_data
  dr_mk :: bytes
  dr_enrolled :: bool

record device_state =
  ds_uavId :: int
  ds_tid :: bytes
  ds_challenge :: bytes
  ds_helper :: helper_data
  ds_provisioned :: bool

definition helper_empty :: helper_data where
  "helper_empty = \<lparr>hd_sketch = [], hd_repOffsets = [], hd_seed = [], hd_params = fe_default\<rparr>"

definition device_record_empty :: device_record where
  "device_record_empty = \<lparr>dr_uavId = - 1, dr_tid = [], dr_pendingTid = [], dr_challenge = [],
     dr_helper = helper_empty, dr_mk = [], dr_enrolled = False\<rparr>"

definition device_state_empty :: device_state where
  "device_state_empty = \<lparr>ds_uavId = - 1, ds_tid = [], ds_challenge = [], ds_helper = helper_empty,
     ds_provisioned = False\<rparr>"

record p2_uav =
  u2_mk :: bytes
  u2_authKey :: bytes
  u2_n1 :: bytes
  u2_n2 :: bytes
  u2_tidAtRequest :: bytes
  u2_t1 :: u32
  u2_ephemeral :: x25519_pair
  u2_transcript :: bytes
  u2_sessionKey :: bytes
  u2_established :: bool
  u2_ephemeralErased :: bool
  u2_peerCredentials :: peer_map
  u2_peerTids :: peer_map

definition p2_uav_empty :: p2_uav where
  "p2_uav_empty = \<lparr>u2_mk = [], u2_authKey = [], u2_n1 = [], u2_n2 = [], u2_tidAtRequest = [],
     u2_t1 = 0, u2_ephemeral = x25519_empty, u2_transcript = [], u2_sessionKey = [],
     u2_established = False, u2_ephemeralErased = False, u2_peerCredentials = [],
     u2_peerTids = []\<rparr>"

record p2_gs =
  g2_uavId :: int
  g2_authKey :: bytes
  g2_n1 :: bytes
  g2_n2 :: bytes
  g2_t1 :: u32
  g2_t2 :: u32
  g2_epkA :: bytes
  g2_epkB :: bytes
  g2_ephemeral :: x25519_pair
  g2_transcript :: bytes
  g2_sessionKey :: bytes
  g2_m3Verified :: bool
  g2_ephemeralErased :: bool

record p3_session =
  p3_localId :: int
  p3_peerId :: int
  p3_initiator :: bool
  p3_authKey :: bytes
  p3_nonceLocal :: bytes
  p3_nonceRemote :: bytes
  p3_ephemeral :: x25519_pair
  p3_epkLocal :: bytes
  p3_epkRemote :: bytes
  p3_p1Encoded :: bytes
  p3_p2Encoded :: bytes
  p3_sessionKey :: bytes
  p3_established :: bool
  p3_ephemeralErased :: bool

subsection \<open>Field maps of the handshakes\<close>

definition signed_M1 :: "bytes \<Rightarrow> bytes \<Rightarrow> bytes \<Rightarrow> bytes \<Rightarrow> field_map" where
  "signed_M1 tid n1 ts epkA = [TID \<mapsto> tid, NONCE_1 \<mapsto> n1, TIMESTAMP \<mapsto> ts, EPK_A \<mapsto> epkA]"

definition signed_M2 :: "bytes \<Rightarrow> bytes \<Rightarrow> bytes \<Rightarrow> bytes \<Rightarrow> bytes \<Rightarrow> bytes \<Rightarrow> field_map" where
  "signed_M2 tid n1 n2 ts epkA epkB =
     [TID \<mapsto> tid, NONCE_1 \<mapsto> n1, NONCE_2 \<mapsto> n2, TIMESTAMP \<mapsto> ts, EPK_A \<mapsto> epkA, EPK_B \<mapsto> epkB]"

definition signed_M3 :: "bytes \<Rightarrow> field_map" where
  "signed_M3 tid = [TID \<mapsto> tid]"

definition aad_M4 :: "bytes \<Rightarrow> bytes \<Rightarrow> bytes \<Rightarrow> field_map" where
  "aad_M4 tid n1 n2 = [TID \<mapsto> tid, NONCE_1 \<mapsto> n1, NONCE_2 \<mapsto> n2]"

definition signed_P1 :: "bytes \<Rightarrow> bytes \<Rightarrow> bytes \<Rightarrow> bytes \<Rightarrow> bytes \<Rightarrow> field_map" where
  "signed_P1 sid rid n1 ts epkA =
     [SENDER_ID \<mapsto> sid, RECEIVER_ID \<mapsto> rid, NONCE_1 \<mapsto> n1, TIMESTAMP \<mapsto> ts, EPK_A \<mapsto> epkA]"

definition signed_P2 :: "bytes \<Rightarrow> bytes \<Rightarrow> bytes \<Rightarrow> bytes \<Rightarrow> bytes \<Rightarrow> bytes \<Rightarrow> field_map" where
  "signed_P2 sid rid n1 n2 epkA epkB =
     [SENDER_ID \<mapsto> sid, RECEIVER_ID \<mapsto> rid, NONCE_1 \<mapsto> n1, NONCE_2 \<mapsto> n2, EPK_A \<mapsto> epkA,
      EPK_B \<mapsto> epkB]"

lemmas field_map_defs = signed_M1_def signed_M2_def signed_M3_def aad_M4_def signed_P1_def
  signed_P2_def

definition kpack :: "suite \<Rightarrow> bytes \<Rightarrow> bytes \<times> bytes" where
  "kpack S kn = (take (su_aeadKeyLen S) kn, drop (su_aeadKeyLen S) kn)"

text \<open>MAC inputs over short fields always exist and are short.\<close>

definition short :: "field_map \<Rightarrow> bool" where
  "short m \<longleftrightarrow> (\<forall>v \<in> ran m. length v \<le> 64)"

lemma short_upd: "short Map.empty" "length v \<le> 64 \<Longrightarrow> short m \<Longrightarrow> short (m(f \<mapsto> v))"
  by (auto simp: short_def ran_def)

lemmas short_defs = field_map_defs short_upd

context core_tlv
begin

lemma macInput_short:
  assumes "short m"
  shows "\<exists>b. macInput C s t m = Some b \<and> length b \<le> 4096 \<and> b \<noteq> []"
proof -
  have "fields_fit m" using assms by (fastforce simp: short_def fields_fit_def)
  then obtain b where b: "encodeFields C s (macTypeTag t) m = Some b" using encode_fits by blast
  then have "length b \<le> 4096" by (rule encode_size) (use assms in \<open>simp add: short_def\<close>)
  moreover have "b \<noteq> []" using b encode_nonempty by blast
  ultimately show ?thesis using b by (simp add: macInput_def)
qed

lemma wireBytes_short:
  assumes "short (m_fields m)"
  shows "\<exists>n. msg_wireBytes C m = Some n"
proof -
  have "fields_fit (m_fields m)" using assms by (fastforce simp: short_def fields_fit_def)
  then show ?thesis using encode_fits by (fastforce simp: msg_wireBytes_def msg_encode_def)
qed

end

subsection \<open>The environment of the protocol classes\<close>

text \<open>The two foreign libraries and a suite that meets its contract.\<close>

locale protocol_env = crypto_env C L + crypto_suite S for C L S

interpretation ref_proto: protocol_env ref_core ref_ossl "sha3Suite ref_core ref_ossl False"
  by (intro protocol_env.intro ref_env.crypto_env_axioms ref_env.sha3.crypto_suite_axioms)

lemma protocol_envI:
  "core_laws C \<Longrightarrow> ossl_laws L \<Longrightarrow> crypto_suite S \<Longrightarrow> protocol_env C L S"
  by (simp add: protocol_env_def crypto_env_def)

lemma label_lengths [simp]:
  "length kP2Auth \<le> 64" "length kP2Sess \<le> 64" "length kP2Aead \<le> 64" "length kPairCred \<le> 64"
  "length kPeerAuth \<le> 64" "length kPeerSess \<le> 64" "length kTidRotate \<le> 64"
  by (simp_all add: label_defs)

context protocol_env
begin

lemma kdf_some:
  assumes "0 < length ikm" "length ikm \<le> 65535" "length salt \<le> 65535" "length lab \<le> 64"
    "length info \<le> 512" "0 < n" "n \<le> 8160"
  shows "\<exists>key. su_kdf S ikm salt lab info n = Some key \<and> length key = n"
  using kdf_total [of ikm salt lab info n] kdf_len assms by fastforce

lemma auth_key:
  "0 < length ikm \<Longrightarrow> length ikm \<le> 65535 \<Longrightarrow> length lab \<le> 64 \<Longrightarrow> length salt \<le> 65535 \<Longrightarrow>
   \<exists>key. su_kdf S ikm salt lab [] (su_keyLen S) = Some key \<and> length key = 32"
  using kdf_some [of ikm salt lab "[]" "su_keyLen S"] by (simp add: suite_lens)

lemma mac_some: "length k = 32 \<Longrightarrow> \<exists>t. su_mac S k m = Some t \<and> length t = 16"
  using mac_total mac_len by blast

lemma verify_some: "length k = 32 \<Longrightarrow> \<exists>b. su_macVerify S k m t = Some b"
  using mac_total mac_verify by blast

lemma aead_key_nonce:
  assumes "length sk = 32"
  shows "\<exists>kn. su_kdf S sk [] kP2Aead [] (su_aeadKeyLen S + su_aeadNonceLen S) = Some kn \<and>
    length (fst (kpack S kn)) = su_aeadKeyLen S \<and> length (snd (kpack S kn)) = su_aeadNonceLen S"
  using kdf_some [of sk "[]" kP2Aead "[]" "su_aeadKeyLen S + su_aeadNonceLen S"] assms aead_lens
  by (auto simp: kpack_def)

lemma eph_some:
  assumes "drbg_ok L rng"
  shows "\<exists>s rng' e. drbg_bytes L 32 rng = Some (s, rng') \<and> x25519Generate L s = Some e \<and>
    drbg_ok L rng' \<and> dk_key rng' = dk_key rng \<and> from_stream L (dk_key rng) s \<and>
    length (kp_secret e) = 32 \<and> length (kp_public e) = 32"
  using drbg_bytes_ok [OF assms, of 32] x25519Generate_total x25519Generate_lengths by metis

text \<open>The two draws every new session starts with: a nonce and the seed of an ephemeral pair.\<close>

lemma nonce_eph:
  assumes "drbg_ok L rng"
  obtains n rng1 seed rng2 e where "drbg_bytes L kNonceLen rng = Some (n, rng1)"
    "drbg_bytes L 32 rng1 = Some (seed, rng2)" "x25519Generate L seed = Some e"
    "drbg_ok L rng2" "dk_key rng2 = dk_key rng" "length n = 16"
    "length (kp_secret e) = 32" "length (kp_public e) = 32"
    "from_stream L (dk_key rng) n" "from_stream L (dk_key rng) seed"
proof -
  obtain n rng1 where n: "drbg_bytes L kNonceLen rng = Some (n, rng1)" "length n = 16"
    "drbg_ok L rng1" "dk_key rng1 = dk_key rng" "from_stream L (dk_key rng) n"
    using drbg_bytes_ok [OF assms, of kNonceLen] by (auto simp: kNonceLen_def)
  from eph_some [OF n(3)] n that show thesis by auto
qed

lemma short_encodings [simp]: "length (encodeTimestamp C ms) \<le> 64" "length (encodeId C i) \<le> 64"
  by (simp_all add: encodeTimestamp_def encodeId_def u32be u16be)

end

end
