(* ===== verification/Ground_Station.thy ===== *)
theory Ground_Station
  imports Session
begin

text \<open>
  \<open>class GroundStationProtocol\<close> of \<open>protocol/Protocol.h\<close>, \<open>protocol/Protocol.cc\<close>: construction,
  pair credentials, enrollment, lookup by temporary identity, and the two handlers of Phase 2.
  The generator \<open>rng_\<close> is a reference to the node's, so the handlers take and return it.
\<close>

record gs =
  gs_feParams :: fe_params
  gs_windowMs :: u32
  gs_numUavs :: int
  gs_masterKey :: bytes
  gs_devices :: "(int, device_record) omap"
  gs_sessions :: "(int, p2_gs) omap"
  gs_replay :: replay_cache

definition kReplayCapacity :: nat where "kReplayCapacity = 4096"

definition gs_new :: "ossl \<Rightarrow> suite \<Rightarrow> fe_params \<Rightarrow> u32 \<Rightarrow> drbg \<Rightarrow> (gs \<times> drbg) option" where
  "gs_new L S feParams windowMs rng = do {
     (k, rng) \<leftarrow> drbg_bytes L (su_keyLen S) rng;
     Some (\<lparr>gs_feParams = feParams, gs_windowMs = windowMs, gs_numUavs = 0, gs_masterKey = k,
             gs_devices = [], gs_sessions = [], gs_replay = rc_new kReplayCapacity\<rparr>, rng) }"

definition gs_setNumUavs :: "int \<Rightarrow> gs \<Rightarrow> gs" where
  "gs_setNumUavs n g = g\<lparr>gs_numUavs := n\<rparr>"

definition pairCredential :: "core_lib \<Rightarrow> suite \<Rightarrow> bytes \<Rightarrow> int \<Rightarrow> int \<Rightarrow> bytes option" where
  "pairCredential C S masterKey a b =
     (let lo = min a b; hi = max a b;
          info = u16be C (word_of_int lo) @ u16be C (word_of_int hi)
      in su_kdf S masterKey [] kPairCred info (su_keyLen S))"

subsection \<open>Enrollment\<close>

text \<open>The results are the returned flag, \<open>recordOut\<close> and \<open>deviceStateOut\<close> (\<open>None\<close>: not written).\<close>

definition enroll ::
    "core_lib \<Rightarrow> ossl \<Rightarrow> suite \<Rightarrow> int \<Rightarrow> puf \<Rightarrow> drbg \<Rightarrow> gs \<Rightarrow>
     ((device_record \<times> device_state) option \<times> drbg \<times> gs) option" where
  "enroll C L S uavId P rng g = do {
     f \<leftarrow> fe_new (gs_feParams g);
     (challenge, rng) \<leftarrow> drbg_bytes L 16 rng;
     response \<leftarrow> pf_ideal P challenge (requiredPufBits (fe_params f));
     (seed, rng) \<leftarrow> drbg_bytes L (fp_seedBytes (gs_feParams g)) rng;
     gen \<leftarrow> fe_gen C S f response seed;
     (if \<not> gr_ok gen then Some (None, rng, g)
      else do {
        tid \<leftarrow> su_kdf S (gr_mk gen) [] kTidRotate (u16be C (word_of_int uavId)) kTidLen;
        let rec = device_record_empty\<lparr>dr_uavId := uavId, dr_challenge := challenge,
              dr_helper := gr_helper gen, dr_mk := gr_mk gen, dr_tid := tid, dr_enrolled := True\<rparr>;
        Some (Some (rec, \<lparr>ds_uavId = uavId, ds_tid = tid, ds_challenge = challenge,
                          ds_helper = gr_helper gen, ds_provisioned = True\<rparr>),
              rng, g\<lparr>gs_devices := om_set uavId rec (gs_devices g)\<rparr>) }) }"

subsection \<open>Lookups\<close>

definition tid_matches :: "bytes \<Rightarrow> device_record \<Rightarrow> bool" where
  "tid_matches tid r \<longleftrightarrow> dr_tid r = tid \<or> dr_pendingTid r \<noteq> [] \<and> dr_pendingTid r = tid"

definition findByTid :: "bytes \<Rightarrow> gs \<Rightarrow> device_record option" where
  "findByTid tid g = find (tid_matches tid) (map snd (gs_devices g))"

definition gs_record :: "int \<Rightarrow> gs \<Rightarrow> device_record option" where
  "gs_record uavId g = om_find (gs_devices g) uavId"

definition sessionKeyFor :: "int \<Rightarrow> gs \<Rightarrow> bytes option" where
  "sessionKeyFor uavId g = (case om_find (gs_sessions g) uavId of
     None \<Rightarrow> None
   | Some s \<Rightarrow> if g2_sessionKey s = [] then None else Some (g2_sessionKey s))"

subsection \<open>M1\<close>

text \<open>The part of \<open>handleM1\<close> after the MAC check: nonce, ephemeral pair, M2, session.\<close>

definition M2_body :: "core_lib \<Rightarrow> u8 \<Rightarrow> int \<Rightarrow> bytes \<Rightarrow> u32 \<Rightarrow> bytes \<Rightarrow> message" where
  "M2_body C suite uavId n2 t2 epkB =
     msg_set EPK_B epkB (msg_set TIMESTAMP (encodeTimestamp C t2) (msg_set NONCE_2 n2
       (emptyMessage\<lparr>m_type := P2_M2_GS_RESPONSE, m_suiteId := suite, m_senderId := - 1,
          m_receiverId := uavId\<rparr>)))"

definition gs_session ::
    "int \<Rightarrow> bytes \<Rightarrow> bytes \<Rightarrow> u32 \<Rightarrow> bytes \<Rightarrow> bytes \<Rightarrow> u32 \<Rightarrow> x25519_pair \<Rightarrow> bytes \<Rightarrow> p2_gs" where
  "gs_session uavId authKey n1 t1 epkA n2 t2 eph transcript =
     \<lparr>g2_uavId = uavId, g2_authKey = authKey, g2_n1 = n1, g2_n2 = n2, g2_t1 = t1, g2_t2 = t2,
      g2_epkA = epkA, g2_epkB = kp_public eph, g2_ephemeral = eph, g2_transcript = transcript,
      g2_sessionKey = [], g2_m3Verified = False, g2_ephemeralErased = False\<rparr>"

definition gs_respond ::
    "core_lib \<Rightarrow> ossl \<Rightarrow> suite \<Rightarrow> message \<Rightarrow> u32 \<Rightarrow> device_record \<Rightarrow> bytes \<Rightarrow> bytes \<Rightarrow> bytes \<Rightarrow> u32 \<Rightarrow>
     bytes \<Rightarrow> bytes \<Rightarrow> drbg \<Rightarrow> gs \<Rightarrow> (step_result \<times> drbg \<times> gs) option" where
  "gs_respond C L S m1 now rec tid n1 epkA t1 authKey input1 rng g = do {
     (n2, rng) \<leftarrow> drbg_bytes L kNonceLen rng;
     (eph_seed, rng) \<leftarrow> drbg_bytes L 32 rng;
     eph \<leftarrow> x25519Generate L eph_seed;
     let m2 = M2_body C (m_suiteId m1) (dr_uavId rec) n2 now (kp_public eph);
     input2 \<leftarrow> macInput C (m_suiteId m2) P2_M2_GS_RESPONSE
       (signed_M2 tid n1 n2 (encodeTimestamp C now) epkA (kp_public eph));
     tag \<leftarrow> su_mac S authKey input2;
     let session = gs_session (dr_uavId rec) authKey n1 t1 epkA n2 now eph (input1 @ input2);
     Some (done_reply (msg_set MAC_TAG tag m2), rng,
           g\<lparr>gs_sessions := om_set (dr_uavId rec) session (gs_sessions g)\<rparr>) }"

definition gs_handleM1 ::
    "core_lib \<Rightarrow> ossl \<Rightarrow> suite \<Rightarrow> message \<Rightarrow> u32 \<Rightarrow> drbg \<Rightarrow> gs \<Rightarrow> (step_result \<times> drbg \<times> gs) option" where
  "gs_handleM1 C L S m1 now rng g =
     (if m_type m1 \<noteq> P2_M1_AUTH_REQUEST then Some (fail UnexpectedMessage, rng, g)
      else if \<not> msg_has m1 TID \<or> \<not> msg_has m1 NONCE_1 \<or> \<not> msg_has m1 TIMESTAMP \<or>
              \<not> msg_has m1 EPK_A \<or> \<not> msg_has m1 MAC_TAG then Some (fail MissingField, rng, g)
      else do {
        tid \<leftarrow> msg_get m1 TID;
        n1 \<leftarrow> msg_get m1 NONCE_1;
        epkA \<leftarrow> msg_get m1 EPK_A;
        ts \<leftarrow> msg_get m1 TIMESTAMP;
        (if length epkA \<noteq> kX25519KeyLen \<or> length n1 \<noteq> kNonceLen
         then Some (fail MalformedField, rng, g)
         else case decodeTimestamp C ts of
           None \<Rightarrow> Some (fail MalformedField, rng, g)
         | Some t1 \<Rightarrow>
             if \<not> timestampFresh now t1 (gs_windowMs g) then Some (fail StaleTimestamp, rng, g)
             else let (isFresh, cache) = rc_offer n1 (gs_replay g); g = g\<lparr>gs_replay := cache\<rparr>
             in if \<not> isFresh then Some (fail ReplayedNonce, rng, g)
             else case findByTid tid g of
               None \<Rightarrow> Some (fail UnknownIdentity, rng, g)
             | Some rec \<Rightarrow> do {
                 authKey \<leftarrow> su_kdf S (dr_mk rec) [] kP2Auth [] (su_keyLen S);
                 input1 \<leftarrow> macInput C (m_suiteId m1) P2_M1_AUTH_REQUEST (signed_M1 tid n1 ts epkA);
                 tag \<leftarrow> msg_get m1 MAC_TAG;
                 macOk \<leftarrow> su_macVerify S authKey input1 tag;
                 (if \<not> macOk then Some (fail MacVerifyFailed, rng, g)
                  else gs_respond C L S m1 now rec tid n1 epkA t1 authKey input1 rng g) }) })"

subsection \<open>M3\<close>

text \<open>The loop over the devices that collects the credentials and identities for M4.\<close>

fun collect_credentials ::
    "core_lib \<Rightarrow> suite \<Rightarrow> bytes \<Rightarrow> int \<Rightarrow> (int, device_record) omap \<Rightarrow> peer_map \<Rightarrow> peer_map \<Rightarrow>
     (peer_map \<times> peer_map) option" where
  "collect_credentials C S mk own [] creds tids = Some (creds, tids)"
| "collect_credentials C S mk own ((k, r) # ds) creds tids =
     (if k = own then collect_credentials C S mk own ds creds tids
      else do {
        cred \<leftarrow> pairCredential C S mk own k;
        collect_credentials C S mk own ds (om_set k cred creds) (om_set k (dr_tid r) tids) })"

definition device_at :: "int \<Rightarrow> gs \<Rightarrow> device_record" where
  "device_at i g = (case om_find (gs_devices g) i of None \<Rightarrow> device_record_empty | Some r \<Rightarrow> r)"

definition M4_message :: "u8 \<Rightarrow> int \<Rightarrow> bytes \<Rightarrow> bytes \<Rightarrow> message" where
  "M4_message suite uavId aeadNonce ciphertext =
     msg_set CRED_PKG ciphertext (msg_set AEAD_NONCE aeadNonce
       (emptyMessage\<lparr>m_type := P2_M4_GS_CONFIRM, m_suiteId := suite, m_senderId := - 1,
          m_receiverId := uavId\<rparr>))"

text \<open>The part of \<open>handleM3\<close> after the key exchange: credentials, next identity, M4.\<close>

definition gs_package ::
    "core_lib \<Rightarrow> suite \<Rightarrow> message \<Rightarrow> bytes \<Rightarrow> device_record \<Rightarrow> p2_gs \<Rightarrow> gs \<Rightarrow> (step_result \<times> gs) option" where
  "gs_package C S m3 tid rec session g = do {
     (creds, tids) \<leftarrow> collect_credentials C S (gs_masterKey g) (dr_uavId rec) (gs_devices g) [] [];
     let stored = device_at (dr_uavId rec) g;
     tidNew \<leftarrow> su_kdf S (dr_mk stored) (dr_tid stored) kTidRotate
       (g2_n1 session @ g2_n2 session) kTidLen;
     let g = g\<lparr>gs_devices :=
           om_set (dr_uavId rec) (stored\<lparr>dr_pendingTid := tidNew\<rparr>) (gs_devices g)\<rparr>;
     plaintext \<leftarrow> packCredentials C creds tids tidNew;
     kn \<leftarrow> su_kdf S (g2_sessionKey session) [] kP2Aead [] (su_aeadKeyLen S + su_aeadNonceLen S);
     let (aeadKey, aeadNonce) = kpack S kn;
     aad \<leftarrow> macInput C (m_suiteId m3) P2_M4_GS_CONFIRM
       (aad_M4 tid (g2_n1 session) (g2_n2 session));
     let (sealOk, ciphertext) = su_aeadSeal S aeadKey aeadNonce aad plaintext [];
     (if \<not> sealOk then Some (fail AeadOpenFailed, g)
      else Some (done_reply (M4_message (m_suiteId m3) (dr_uavId rec) aeadNonce ciphertext), g)) }"

text \<open>The session once its key is derived and the scalar erased.\<close>

definition gs_session_keyed :: "bytes \<Rightarrow> p2_gs \<Rightarrow> p2_gs" where
  "gs_session_keyed k s = s\<lparr>g2_m3Verified := True, g2_sessionKey := k,
     g2_ephemeral := x25519_erase (g2_ephemeral s), g2_ephemeralErased := True\<rparr>"

definition gs_put_session :: "p2_gs \<Rightarrow> int \<Rightarrow> gs \<Rightarrow> gs" where
  "gs_put_session s uavId g = g\<lparr>gs_sessions := om_set uavId s (gs_sessions g)\<rparr>"

definition gs_handleM3 ::
    "core_lib \<Rightarrow> ossl \<Rightarrow> suite \<Rightarrow> message \<Rightarrow> gs \<Rightarrow> (step_result \<times> gs) option" where
  "gs_handleM3 C L S m3 g =
     (if m_type m3 \<noteq> P2_M3_UAV_CONFIRM then Some (fail UnexpectedMessage, g)
      else if \<not> msg_has m3 TID \<or> \<not> msg_has m3 MAC_TAG then Some (fail MissingField, g)
      else do {
        tid \<leftarrow> msg_get m3 TID;
        (case findByTid tid g of
           None \<Rightarrow> Some (fail UnknownIdentity, g)
         | Some rec \<Rightarrow> (case om_find (gs_sessions g) (dr_uavId rec) of
             None \<Rightarrow> Some (fail UnexpectedMessage, g)
           | Some session \<Rightarrow> do {
               input3 \<leftarrow> macInput C (m_suiteId m3) P2_M3_UAV_CONFIRM (signed_M3 tid);
               tag \<leftarrow> msg_get m3 MAC_TAG;
               macOk \<leftarrow> su_macVerify S (g2_authKey session) (input3 @ g2_transcript session) tag;
               (if \<not> macOk then Some (fail MacVerifyFailed, g)
                else
                  let (dhOk, shared) = x25519Derive L (kp_secret (g2_ephemeral session)) (g2_epkA session)
                  in if \<not> dhOk then Some (fail DhFailed,
                       gs_put_session (session\<lparr>g2_m3Verified := True\<rparr>) (dr_uavId rec) g)
                  else do {
                    k \<leftarrow> su_kdf S (dr_mk rec @ shared) (g2_transcript session) kP2Sess [] (su_keyLen S);
                    let session = gs_session_keyed k session;
                    gs_package C S m3 tid rec session (gs_put_session session (dr_uavId rec) g) }) })) })"

subsection \<open>What a handler may change\<close>

lemma gs_respond_Some:
  assumes "gs_respond C L S m1 now rec tid n1 epkA t1 authKey input1 rng g = Some (r, rng', g')"
  shows "sr_ok r" "sr_hasReply r"
  using assms by (auto simp: gs_respond_def Let_def Option.bind_eq_Some_conv)

text \<open>What \<open>handleM1\<close> has checked when it looks at the MAC, and when it goes on to answer.\<close>

definition M1_admitted ::
    "core_lib \<Rightarrow> message \<Rightarrow> u32 \<Rightarrow> gs \<Rightarrow> device_record \<Rightarrow> bytes \<Rightarrow> bytes \<Rightarrow> bytes \<Rightarrow> bytes \<Rightarrow> u32 \<Rightarrow> bytes \<Rightarrow> bool" where
  "M1_admitted C m1 now g rec tid n1 epkA ts t1 tag \<longleftrightarrow>
     m_type m1 = P2_M1_AUTH_REQUEST \<and> msg_get m1 TID = Some tid \<and> msg_get m1 NONCE_1 = Some n1 \<and>
     msg_get m1 EPK_A = Some epkA \<and> msg_get m1 TIMESTAMP = Some ts \<and> msg_get m1 MAC_TAG = Some tag \<and>
     length epkA = kX25519KeyLen \<and> length n1 = kNonceLen \<and> decodeTimestamp C ts = Some t1 \<and>
     timestampFresh now t1 (gs_windowMs g) \<and> n1 \<notin> rc_seen (gs_replay g) \<and>
     findByTid tid g = Some rec"

definition M1_accepted ::
    "core_lib \<Rightarrow> suite \<Rightarrow> message \<Rightarrow> u32 \<Rightarrow> gs \<Rightarrow> device_record \<Rightarrow> bytes \<Rightarrow> bytes \<Rightarrow> bytes \<Rightarrow> bytes \<Rightarrow>
     u32 \<Rightarrow> bytes \<Rightarrow> bytes \<Rightarrow> bool" where
  "M1_accepted C S m1 now g rec tid n1 epkA ts t1 authKey input1 \<longleftrightarrow>
     (\<exists>tag. M1_admitted C m1 now g rec tid n1 epkA ts t1 tag \<and>
        su_macVerify S authKey input1 tag = Some True) \<and>
     su_kdf S (dr_mk rec) [] kP2Auth [] (su_keyLen S) = Some authKey \<and>
     macInput C (m_suiteId m1) P2_M1_AUTH_REQUEST (signed_M1 tid n1 ts epkA) = Some input1"

lemmas M1_checks = M1_accepted_def M1_admitted_def

definition gs_offered :: "bytes \<Rightarrow> gs \<Rightarrow> gs" where
  "gs_offered n1 g = g\<lparr>gs_replay := snd (rc_offer n1 (gs_replay g))\<rparr>"

lemma findByTid_frame [simp]:
  "findByTid tid (g\<lparr>gs_replay := c\<rparr>) = findByTid tid g"
  "findByTid tid (g\<lparr>gs_sessions := s\<rparr>) = findByTid tid g"
  by (simp_all add: findByTid_def)

lemma gs_handleM1_accepted:
  "M1_accepted C S m1 now g rec tid n1 epkA ts t1 authKey input1 \<Longrightarrow>
   gs_handleM1 C L S m1 now rng g =
     gs_respond C L S m1 now rec tid n1 epkA t1 authKey input1 rng (gs_offered n1 g)"
  by (auto simp: M1_checks gs_handleM1_def msg_get_has gs_offered_def split_beta rc_offer_iff
      Let_def)

lemma gs_handleM1_cases:
  assumes "gs_handleM1 C L S m1 now rng g = Some (r, rng', g')"
  obtains (refused) "\<not> sr_ok r" "\<not> sr_hasReply r" "rng' = rng" "g' = g \<or> (\<exists>n1. g' = gs_offered n1 g)"
  | (accepted) rec tid n1 epkA ts t1 authKey input1 where
      "M1_accepted C S m1 now g rec tid n1 epkA ts t1 authKey input1"
      "gs_respond C L S m1 now rec tid n1 epkA t1 authKey input1 rng (gs_offered n1 g) = Some (r, rng', g')"
proof (cases "\<exists>rec tid n1 epkA ts t1 authKey input1.
    M1_accepted C S m1 now g rec tid n1 epkA ts t1 authKey input1")
  case True
  then show thesis using assms accepted gs_handleM1_accepted by metis
next
  case False
  have "\<not> sr_ok r \<and> \<not> sr_hasReply r \<and> rng' = rng \<and> (g' = g \<or> (\<exists>n1. g' = gs_offered n1 g))"
    using assms False
    by (auto simp: gs_handleM1_def M1_checks gs_offered_def msg_get_has split_beta rc_offer_iff
        Let_def Option.bind_eq_Some_conv split: if_splits option.splits)
  then show thesis using refused by blast
qed

subsection \<open>Invariant\<close>

definition device_ok :: "int \<Rightarrow> device_record \<Rightarrow> bool" where
  "device_ok k r \<longleftrightarrow> dr_uavId r = k \<and> 0 \<le> k \<and> k < 65535 \<and> dr_enrolled r \<and>
     length (dr_tid r) = 16 \<and> (dr_pendingTid r = [] \<or> length (dr_pendingTid r) = 16) \<and>
     0 < length (dr_mk r) \<and> length (dr_mk r) \<le> 8160"

text \<open>A session is either waiting for M3, with its scalar and no key, or complete, with a key and
  without the scalar; complete only after M3 was verified.\<close>

definition session_ok :: "(int, device_record) omap \<Rightarrow> int \<Rightarrow> p2_gs \<Rightarrow> bool" where
  "session_ok devs k s \<longleftrightarrow> g2_uavId s = k \<and> om_find devs k \<noteq> None \<and> length (g2_authKey s) = 32 \<and>
     length (g2_n1 s) = 16 \<and> length (g2_n2 s) = 16 \<and> length (g2_epkA s) = 32 \<and>
     length (g2_transcript s) \<le> 8192 \<and>
     (if g2_ephemeralErased s
      then kp_secret (g2_ephemeral s) = [] \<and> g2_m3Verified s \<and> length (g2_sessionKey s) = 32
      else g2_sessionKey s = [] \<and> length (kp_secret (g2_ephemeral s)) = 32)"

definition gs_inv :: "gs \<Rightarrow> bool" where
  "gs_inv g \<longleftrightarrow> om_wf (gs_devices g) \<and> om_wf (gs_sessions g) \<and>
     length (gs_masterKey g) = 32 \<and> rc_inv (gs_replay g) \<and>
     rc_capacity (gs_replay g) = kReplayCapacity \<and>
     (\<forall>k r. om_find (gs_devices g) k = Some r \<longrightarrow> device_ok k r) \<and>
     (\<forall>k s. om_find (gs_sessions g) k = Some s \<longrightarrow> session_ok (gs_devices g) k s)"

lemma gs_inv_offered: "gs_inv g \<Longrightarrow> gs_inv (gs_offered n g)"
  by (simp add: gs_inv_def gs_offered_def rc_inv_offer rc_capacity_offer)

lemma findByTid_device:
  assumes "gs_inv g" "findByTid tid g = Some r"
  shows "om_find (gs_devices g) (dr_uavId r) = Some r" "device_ok (dr_uavId r) r" "length tid = 16"
proof -
  obtain k where k: "(k, r) \<in> set (gs_devices g)" and m: "tid_matches tid r"
    using assms(2) by (auto simp: findByTid_def find_Some_iff in_set_conv_nth) (metis prod.collapse)
  then have f: "om_find (gs_devices g) k = Some r"
    using assms(1) om_find_in [of "gs_devices g" k r] by (simp add: gs_inv_def)
  with assms(1) have d: "device_ok k r" by (simp add: gs_inv_def)
  then have "dr_uavId r = k" by (simp add: device_ok_def)
  with f d m show "om_find (gs_devices g) (dr_uavId r) = Some r" "device_ok (dr_uavId r) r" "length tid = 16"
    by (auto simp: device_ok_def tid_matches_def)
qed

lemma gs_inv_session:
  "gs_inv g \<Longrightarrow> session_ok (gs_devices g) k s \<Longrightarrow>
   gs_inv (g\<lparr>gs_sessions := om_set k s (gs_sessions g)\<rparr>)"
  by (simp add: gs_inv_def)

lemma session_ok_more_devices:
  "session_ok devs k s \<Longrightarrow> session_ok (om_set i r devs) k s"
  by (auto simp: session_ok_def)

lemma gs_inv_device:
  "gs_inv g \<Longrightarrow> device_ok i r \<Longrightarrow> gs_inv (g\<lparr>gs_devices := om_set i r (gs_devices g)\<rparr>)"
  by (auto simp: gs_inv_def session_ok_more_devices)

subsection \<open>What M4 carries, and what M3 must satisfy\<close>

text \<open>M4 carries, in key order, the credentials and identities of every other device.\<close>

definition pair_cred :: "core_lib \<Rightarrow> suite \<Rightarrow> bytes \<Rightarrow> int \<Rightarrow> int \<Rightarrow> bytes" where
  "pair_cred C S mk a b = the (pairCredential C S mk a b)"

definition other_creds ::
    "core_lib \<Rightarrow> suite \<Rightarrow> bytes \<Rightarrow> int \<Rightarrow> (int, device_record) omap \<Rightarrow> peer_map" where
  "other_creds C S mk own ds = map (\<lambda>(k, r). (k, pair_cred C S mk own k)) (filter (\<lambda>(k, r). k \<noteq> own) ds)"

definition other_tids :: "int \<Rightarrow> (int, device_record) omap \<Rightarrow> peer_map" where
  "other_tids own ds = map (\<lambda>(k, r). (k, dr_tid r)) (filter (\<lambda>(k, r). k \<noteq> own) ds)"

definition M3_accepted ::
    "core_lib \<Rightarrow> suite \<Rightarrow> message \<Rightarrow> gs \<Rightarrow> device_record \<Rightarrow> bytes \<Rightarrow> p2_gs \<Rightarrow> bool" where
  "M3_accepted C S m3 g rec tid s \<longleftrightarrow>
     m_type m3 = P2_M3_UAV_CONFIRM \<and> msg_get m3 TID = Some tid \<and> findByTid tid g = Some rec \<and>
     om_find (gs_sessions g) (dr_uavId rec) = Some s \<and>
     (\<exists>input3 tag. macInput C (m_suiteId m3) P2_M3_UAV_CONFIRM (signed_M3 tid) = Some input3 \<and>
        msg_get m3 MAC_TAG = Some tag \<and>
        su_macVerify S (g2_authKey s) (input3 @ g2_transcript s) tag = Some True)"

subsection \<open>The handlers always return\<close>

context protocol_env
begin

lemma pairCredential_some:
  "length mk = 32 \<Longrightarrow> \<exists>c. pairCredential C S mk a b = Some c \<and> length c = 32"
  using kdf_some [of mk "[]" kPairCred "u16be C (word_of_int (min a b)) @ u16be C (word_of_int (max a b))"
      "su_keyLen S"]
  by (simp add: pairCredential_def u16be suite_lens Let_def)

lemma pair_cred:
  assumes "length mk = 32"
  shows "pairCredential C S mk a b = Some (pair_cred C S mk a b)" "length (pair_cred C S mk a b) = 32"
  using pairCredential_some [OF assms, of a b] by (auto simp: pair_cred_def)

lemma pairCredential_sym: "pairCredential C S mk a b = pairCredential C S mk b a"
  by (simp add: pairCredential_def min.commute max.commute)

lemma collect_credentials:
  assumes "length mk = 32"
  shows "om_wf ds \<Longrightarrow> \<forall>q \<in> set cs. \<forall>d \<in> set ds. fst q < fst d \<Longrightarrow>
    \<forall>q \<in> set ts. \<forall>d \<in> set ds. fst q < fst d \<Longrightarrow>
    collect_credentials C S mk own ds cs ts = Some (cs @ other_creds C S mk own ds, ts @ other_tids own ds)"
proof (induction ds arbitrary: cs ts)
  case (Cons d ds)
  obtain k r where d: "d = (k, r)" by (cases d)
  show ?case
  proof (cases "k = own")
    case True
    with Cons d show ?thesis by (simp add: other_creds_def other_tids_def)
  next
    case False
    have "om_set k (pair_cred C S mk own k) cs = cs @ [(k, pair_cred C S mk own k)]"
      "om_set k (dr_tid r) ts = ts @ [(k, dr_tid r)]"
      using Cons.prems d by (auto intro!: om_set_append)
    moreover have "collect_credentials C S mk own ds (cs @ [(k, pair_cred C S mk own k)]) (ts @ [(k, dr_tid r)]) =
        Some ((cs @ [(k, pair_cred C S mk own k)]) @ other_creds C S mk own ds,
              (ts @ [(k, dr_tid r)]) @ other_tids own ds)"
      using Cons.prems d by (intro Cons.IH) auto
    ultimately show ?thesis
      using False d pair_cred(1) [OF assms] by (simp add: other_creds_def other_tids_def)
  qed
qed (simp add: other_creds_def other_tids_def)

lemma om_wf_other: "om_wf ds \<Longrightarrow> om_wf (other_creds C S mk own ds)"
  by (induction ds) (auto simp: other_creds_def)

lemma tid_or_empty_other:
  assumes "om_wf ds" "(k, r) \<in> set ds" "k \<noteq> own"
  shows "tid_or_empty (other_tids own ds) k = dr_tid r"
proof -
  have "om_wf (other_tids own ds)"
    using assms(1) by (induction ds) (auto simp: other_tids_def)
  moreover have "(k, dr_tid r) \<in> set (other_tids own ds)"
    using assms(2,3) by (force simp: other_tids_def)
  ultimately have "om_find (other_tids own ds) k = Some (dr_tid r)"
    using om_find_in [of "other_tids own ds" k "dr_tid r"] by simp
  then show ?thesis by (simp add: tid_or_empty_def)
qed

lemma other_entries:
  assumes "\<forall>k r. om_find ds k = Some r \<longrightarrow> device_ok k r" "om_wf ds" "length mk = 32"
    and "(k, c) \<in> set (other_creds C S mk own ds)"
  shows "0 \<le> k" "k < 65535" "length c = 32" "length (tid_or_empty (other_tids own ds) k) = 16"
proof -
  obtain r where r: "(k, r) \<in> set ds" "k \<noteq> own" "c = pair_cred C S mk own k"
    using assms(4) by (auto simp: other_creds_def)
  then have "device_ok k r" using assms(1,2) om_find_in [of ds k r] by simp
  then show "0 \<le> k" "k < 65535" "length c = 32" "length (tid_or_empty (other_tids own ds) k) = 16"
    using tid_or_empty_other [OF assms(2) r(1,2)] r(3) pair_cred(2) [OF assms(3)]
    by (simp_all add: device_ok_def)
qed

text \<open>There are at most 65535 identities, so the count fits.\<close>

lemma om_wf_length:
  assumes "om_wf (ds :: (int, 'v) omap)" "\<And>k v. (k, v) \<in> set ds \<Longrightarrow> 0 \<le> k \<and> k < 65535"
  shows "length ds \<le> 65535"
proof -
  have "length ds = card (fst ` set ds)"
    using om_wf_distinct [OF assms(1)] distinct_card [of "map fst ds"] by simp
  also have "\<dots> \<le> card {0 :: int..<65535}" using assms(2) by (intro card_mono) auto
  finally show ?thesis by simp
qed

lemma packable_other:
  assumes "gs_inv g" "length tidNew = 16"
  shows "packable (other_creds C S (gs_masterKey g) own (gs_devices g)) (other_tids own (gs_devices g)) tidNew"
proof -
  have d: "\<forall>k r. om_find (gs_devices g) k = Some r \<longrightarrow> device_ok k r" "om_wf (gs_devices g)"
    "length (gs_masterKey g) = 32" using assms(1) by (simp_all add: gs_inv_def)
  have w: "om_wf (other_creds C S (gs_masterKey g) own (gs_devices g))" using d(2) by (rule om_wf_other)
  have "length (other_creds C S (gs_masterKey g) own (gs_devices g)) \<le> 65535"
    using om_wf_length [OF w] other_entries [OF d] by blast
  moreover have "0 \<le> k \<and> k \<le> 65535 \<and> length c \<le> 65535 \<and>
      length (tid_or_empty (other_tids own (gs_devices g)) k) \<le> 65535"
    if "(k, c) \<in> set (other_creds C S (gs_masterKey g) own (gs_devices g))" for k c
    using other_entries [OF d that] by simp
  ultimately show ?thesis using w assms(2) unfolding packable_def by auto
qed

lemma M1_accepted_facts:
  assumes "M1_accepted C S m1 now g rec tid n1 epkA ts t1 authKey input1" "gs_inv g"
  shows "length tid = 16" "length n1 = 16" "length epkA = 32" "length authKey = 32"
    "length input1 \<le> 4096" "om_find (gs_devices g) (dr_uavId rec) = Some rec"
    "device_ok (dr_uavId rec) rec" "length ts = 4"
proof -
  note a = assms(1) [unfolded M1_checks]
  show n: "length n1 = 16" "length epkA = 32" "length authKey = 32"
    using a kdf_len suite_lens by (auto simp: kNonceLen_def kX25519KeyLen_def)
  have "findByTid tid g = Some rec" using a by blast
  from findByTid_device [OF assms(2) this]
  show t: "length tid = 16" "om_find (gs_devices g) (dr_uavId rec) = Some rec" "device_ok (dr_uavId rec) rec"
    by simp_all
  show "length ts = 4" using a by (auto simp: decodeTimestamp_def split: if_splits)
  then have "short (signed_M1 tid n1 ts epkA)"
    using t(1) n by (simp add: short_defs)
  with macInput_short [of "signed_M1 tid n1 ts epkA"] a show "length input1 \<le> 4096"
    by (metis option.inject)
qed

text \<open>The answer to an accepted M1.\<close>

lemma gs_respond_result:
  assumes "length tid = 16" "length n1 = 16" "length epkA = 32" "length authKey = 32" "drbg_ok L rng"
  obtains n2 seed eph rng' input2 tag where
    "x25519Generate L seed = Some eph" "length (kp_secret eph) = 32" "length (kp_public eph) = 32"
    "length n2 = 16" "\<exists>rng1. drbg_bytes L kNonceLen rng = Some (n2, rng1)" "drbg_ok L rng'"
    "macInput C (m_suiteId m1) P2_M2_GS_RESPONSE
       (signed_M2 tid n1 n2 (encodeTimestamp C now) epkA (kp_public eph)) = Some input2"
    "length input2 \<le> 4096" "su_mac S authKey input2 = Some tag"
    "\<And>rec t1 input1 g. gs_respond C L S m1 now rec tid n1 epkA t1 authKey input1 rng g = Some
       (done_reply (msg_set MAC_TAG tag (M2_body C (m_suiteId m1) (dr_uavId rec) n2 now (kp_public eph))),
        rng', g\<lparr>gs_sessions := om_set (dr_uavId rec)
          (gs_session (dr_uavId rec) authKey n1 t1 epkA n2 now eph (input1 @ input2)) (gs_sessions g)\<rparr>)"
proof -
  obtain n2 rng1 seed rng2 eph where n2: "drbg_bytes L kNonceLen rng = Some (n2, rng1)"
    "drbg_bytes L 32 rng1 = Some (seed, rng2)" "x25519Generate L seed = Some eph"
    "drbg_ok L rng2" "dk_key rng2 = dk_key rng" "length n2 = 16" "length (kp_secret eph) = 32"
    "length (kp_public eph) = 32" "from_stream L (dk_key rng) n2" "from_stream L (dk_key rng) seed"
    by (rule nonce_eph [OF assms(5)])
  let ?f = "signed_M2 tid n1 n2 (encodeTimestamp C now) epkA (kp_public eph)"
  have "short ?f" using assms n2 by (simp add: short_defs)
  from macInput_short [OF this] obtain input2 where
    i: "macInput C (m_suiteId m1) P2_M2_GS_RESPONSE ?f = Some input2" "length input2 \<le> 4096" by blast
  obtain tag where t: "su_mac S authKey input2 = Some tag" using mac_some [OF assms(4)] by blast
  show thesis
    by (rule that [of seed eph n2 rng2 input2 tag])
      (use n2 i t in \<open>simp_all add: gs_respond_def M2_body_def msg_set_def\<close>)
qed

lemma gs_handleM1_total:
  assumes "gs_inv g" "drbg_ok L rng"
  shows "\<exists>r rng' g'. gs_handleM1 C L S m1 now rng g = Some (r, rng', g') \<and> gs_inv g' \<and> drbg_ok L rng'"
proof (cases "\<exists>rec tid n1 epkA ts t1 authKey input1.
    M1_accepted C S m1 now g rec tid n1 epkA ts t1 authKey input1")
  case True
  then obtain rec tid n1 epkA ts t1 authKey input1 where
    a: "M1_accepted C S m1 now g rec tid n1 epkA ts t1 authKey input1" by blast
  note f = M1_accepted_facts [OF a assms(1)]
  from gs_respond_result [OF f(1-4) assms(2), of m1 now] obtain n2 eph rng' input2 tag where
    r: "length (kp_secret eph) = 32" "length n2 = 16" "drbg_ok L rng'" "length input2 \<le> 4096"
    "\<And>rec t1 input1 g. gs_respond C L S m1 now rec tid n1 epkA t1 authKey input1 rng g = Some
       (done_reply (msg_set MAC_TAG tag (M2_body C (m_suiteId m1) (dr_uavId rec) n2 now (kp_public eph))),
        rng', g\<lparr>gs_sessions := om_set (dr_uavId rec)
          (gs_session (dr_uavId rec) authKey n1 t1 epkA n2 now eph (input1 @ input2)) (gs_sessions g)\<rparr>)"
    by metis
  have "session_ok (gs_devices (gs_offered n1 g)) (dr_uavId rec)
      (gs_session (dr_uavId rec) authKey n1 t1 epkA n2 now eph (input1 @ input2))"
    using f r by (simp add: session_ok_def gs_session_def gs_offered_def)
  with gs_inv_offered [OF assms(1), of n1] r(3) show ?thesis
    by (simp add: gs_handleM1_accepted [OF a] r(5) gs_inv_session)
next
  case False
  have "gs_handleM1 C L S m1 now rng g \<noteq> None"
  proof (cases "\<exists>rec tid n1 epkA ts t1 tag. M1_admitted C m1 now g rec tid n1 epkA ts t1 tag")
    case True
    then obtain rec tid n1 epkA ts t1 tag where
      x: "M1_admitted C m1 now g rec tid n1 epkA ts t1 tag" by blast
    note x' = x [unfolded M1_admitted_def kNonceLen_def kX25519KeyLen_def]
    then have "findByTid tid g = Some rec" by blast
    note d = findByTid_device [OF assms(1) this]
    have "length ts = 4" using x' by (auto simp: decodeTimestamp_def split: if_splits)
    then have "short (signed_M1 tid n1 ts epkA)" using x' d(3) by (simp add: short_defs)
    then obtain i where i: "macInput C (m_suiteId m1) P2_M1_AUTH_REQUEST (signed_M1 tid n1 ts epkA) = Some i"
      using macInput_short by blast
    obtain k where k: "su_kdf S (dr_mk rec) [] kP2Auth [] (su_keyLen S) = Some k" "length k = 32"
      using auth_key [of "dr_mk rec" kP2Auth "[]"] d(2) by (auto simp: device_ok_def)
    obtain b where v: "su_macVerify S k i tag = Some b" using verify_some [OF k(2)] by blast
    have "\<not> b"
    proof
      assume b
      with x i k(1) v have "M1_accepted C S m1 now g rec tid n1 epkA ts t1 k i"
        by (auto simp: M1_accepted_def)
      with False show False by blast
    qed
    with x' i k v show ?thesis
      by (simp add: gs_handleM1_def msg_get_has split_beta rc_offer_iff Let_def kNonceLen_def kX25519KeyLen_def)
  next
    case False
    then show ?thesis
      by (auto simp: gs_handleM1_def M1_admitted_def msg_get_has split_beta rc_offer_iff Let_def
          split: if_splits option.splits)
  qed
  then obtain r rng' g' where r: "gs_handleM1 C L S m1 now rng g = Some (r, rng', g')" by auto
  with False assms show ?thesis
    by (cases rule: gs_handleM1_cases [OF r]) (auto simp: gs_inv_offered)
qed

subsubsection \<open>M3\<close>

lemma macInput_M3:
  "length tid \<le> 64 \<Longrightarrow> \<exists>i. macInput C s P2_M3_UAV_CONFIRM (signed_M3 tid) = Some i"
  using macInput_short [of "signed_M3 tid"] by (auto simp: short_defs)

lemma gs_handleM3_refused:
  assumes "gs_inv g" "\<nexists>rec tid s. M3_accepted C S m3 g rec tid s"
  shows "\<exists>a. gs_handleM3 C L S m3 g = Some (fail a, g)"
proof (cases "\<exists>rec tid s tag. m_type m3 = P2_M3_UAV_CONFIRM \<and> msg_get m3 TID = Some tid \<and>
    findByTid tid g = Some rec \<and> om_find (gs_sessions g) (dr_uavId rec) = Some s \<and>
    msg_get m3 MAC_TAG = Some tag")
  case True
  then obtain rec tid s tag where x: "m_type m3 = P2_M3_UAV_CONFIRM" "msg_get m3 TID = Some tid"
    "findByTid tid g = Some rec" "om_find (gs_sessions g) (dr_uavId rec) = Some s"
    "msg_get m3 MAC_TAG = Some tag" by blast
  note d = findByTid_device [OF assms(1) x(3)]
  obtain i where i: "macInput C (m_suiteId m3) P2_M3_UAV_CONFIRM (signed_M3 tid) = Some i"
    using macInput_M3 [of tid] d(3) by auto
  have "length (g2_authKey s) = 32" using assms(1) x(4) by (auto simp: gs_inv_def session_ok_def)
  then obtain b where v: "su_macVerify S (g2_authKey s) (i @ g2_transcript s) tag = Some b"
    using verify_some by blast
  have "\<not> b"
  proof
    assume b
    with x i v have "M3_accepted C S m3 g rec tid s" by (auto simp: M3_accepted_def)
    with assms(2) show False by blast
  qed
  with x i v show ?thesis by (auto simp: gs_handleM3_def msg_get_has)
next
  case False
  then show ?thesis by (auto simp: gs_handleM3_def msg_get_has split: option.splits)
qed

lemma gs_package_result:
  assumes "gs_inv g" "om_find (gs_devices g) (dr_uavId rec) = Some rec" "length tid = 16"
    "length (g2_sessionKey s) = 32" "length (g2_n1 s) = 16" "length (g2_n2 s) = 16"
  obtains tidNew pt kn aad ct where
    "su_kdf S (dr_mk rec) (dr_tid rec) kTidRotate (g2_n1 s @ g2_n2 s) kTidLen = Some tidNew"
    "length tidNew = 16"
    "packCredentials C (other_creds C S (gs_masterKey g) (dr_uavId rec) (gs_devices g))
       (other_tids (dr_uavId rec) (gs_devices g)) tidNew = Some pt"
    "su_kdf S (g2_sessionKey s) [] kP2Aead [] (su_aeadKeyLen S + su_aeadNonceLen S) = Some kn"
    "macInput C (m_suiteId m3) P2_M4_GS_CONFIRM (aad_M4 tid (g2_n1 s) (g2_n2 s)) = Some aad"
    "su_aeadSeal S (fst (kpack S kn)) (snd (kpack S kn)) aad pt [] = (True, ct)"
    "gs_package C S m3 tid rec s g =
       Some (done_reply (M4_message (m_suiteId m3) (dr_uavId rec) (snd (kpack S kn)) ct),
         g\<lparr>gs_devices := om_set (dr_uavId rec) (rec\<lparr>dr_pendingTid := tidNew\<rparr>) (gs_devices g)\<rparr>)"
    "device_ok (dr_uavId rec) (rec\<lparr>dr_pendingTid := tidNew\<rparr>)"
proof -
  have d: "device_ok (dr_uavId rec) rec" and mk: "length (gs_masterKey g) = 32" "om_wf (gs_devices g)"
    using assms(1,2) by (simp_all add: gs_inv_def)
  then obtain tidNew where t: "su_kdf S (dr_mk rec) (dr_tid rec) kTidRotate (g2_n1 s @ g2_n2 s) kTidLen
      = Some tidNew" "length tidNew = 16"
    using kdf_some [of "dr_mk rec" "dr_tid rec" kTidRotate "g2_n1 s @ g2_n2 s" kTidLen] assms(5,6)
    by (auto simp: device_ok_def kTidLen_def)
  let ?cr = "other_creds C S (gs_masterKey g) (dr_uavId rec) (gs_devices g)"
    and ?ti = "other_tids (dr_uavId rec) (gs_devices g)"
  obtain pt where p: "packCredentials C ?cr ?ti tidNew = Some pt"
    using unpack_pack [OF packable_other [OF assms(1) t(2)]] by blast
  obtain kn where k: "su_kdf S (g2_sessionKey s) [] kP2Aead [] (su_aeadKeyLen S + su_aeadNonceLen S) = Some kn"
    "length (fst (kpack S kn)) = su_aeadKeyLen S" "length (snd (kpack S kn)) = su_aeadNonceLen S"
    using aead_key_nonce [OF assms(4)] by blast
  have "short (aad_M4 tid (g2_n1 s) (g2_n2 s))" using assms by (simp add: short_defs)
  then obtain aad where a: "macInput C (m_suiteId m3) P2_M4_GS_CONFIRM (aad_M4 tid (g2_n1 s) (g2_n2 s)) = Some aad"
    using macInput_short by blast
  obtain ct where c: "su_aeadSeal S (fst (kpack S kn)) (snd (kpack S kn)) aad pt [] = (True, ct)"
    using seal_total [OF k(2,3)] by blast
  have cc: "collect_credentials C S (gs_masterKey g) (dr_uavId rec) (gs_devices g) [] [] = Some (?cr, ?ti)"
    using collect_credentials [OF mk(1,2), of "[]" "[]"] by simp
  have at: "device_at (dr_uavId rec) g = rec" using assms(2) by (simp add: device_at_def)
  have "gs_package C S m3 tid rec s g =
       Some (done_reply (M4_message (m_suiteId m3) (dr_uavId rec) (snd (kpack S kn)) ct),
         g\<lparr>gs_devices := om_set (dr_uavId rec) (rec\<lparr>dr_pendingTid := tidNew\<rparr>) (gs_devices g)\<rparr>)"
    using t(1) p k(1) a c cc at by (simp add: gs_package_def split_beta)
  moreover have "device_ok (dr_uavId rec) (rec\<lparr>dr_pendingTid := tidNew\<rparr>)"
    using d t(2) by (simp add: device_ok_def)
  ultimately show thesis using that t p k(1) a c by blast
qed

lemma gs_inv_put:
  "gs_inv g \<Longrightarrow> session_ok (gs_devices g) k s \<Longrightarrow> gs_inv (gs_put_session s k g)"
  by (simp add: gs_inv_session gs_put_session_def)

text \<open>An accepted M3: either the scalar is gone or unusable, and nothing is sent, or the session is
  complete and M4 is sent.\<close>

lemma gs_handleM3_no_dh:
  assumes "M3_accepted C S m3 g rec tid s" "\<not> fst (x25519Derive L (kp_secret (g2_ephemeral s)) (g2_epkA s))"
  shows "gs_handleM3 C L S m3 g =
    Some (fail DhFailed, gs_put_session (s\<lparr>g2_m3Verified := True\<rparr>) (dr_uavId rec) g)"
  using assms by (auto simp: M3_accepted_def gs_handleM3_def msg_get_has split_beta)

lemma gs_handleM3_dh:
  assumes "M3_accepted C S m3 g rec tid s" "x25519Derive L (kp_secret (g2_ephemeral s)) (g2_epkA s) = (True, z)"
    and "su_kdf S (dr_mk rec @ z) (g2_transcript s) kP2Sess [] (su_keyLen S) = Some k"
  shows "gs_handleM3 C L S m3 g =
    gs_package C S m3 tid rec (gs_session_keyed k s) (gs_put_session (gs_session_keyed k s) (dr_uavId rec) g)"
  using assms by (auto simp: M3_accepted_def gs_handleM3_def msg_get_has Let_def)

lemma M3_accepted_facts:
  assumes "M3_accepted C S m3 g rec tid s" "gs_inv g"
  shows "om_find (gs_devices g) (dr_uavId rec) = Some rec" "device_ok (dr_uavId rec) rec"
    "length tid = 16" "session_ok (gs_devices g) (dr_uavId rec) s"
  using findByTid_device [OF assms(2), of tid rec] assms by (auto simp: M3_accepted_def gs_inv_def)

lemma gs_session_key:
  assumes "M3_accepted C S m3 g rec tid s" "gs_inv g" "length z = 32"
  shows "\<exists>k. su_kdf S (dr_mk rec @ z) (g2_transcript s) kP2Sess [] (su_keyLen S) = Some k \<and> length k = 32"
  using auth_key [of "dr_mk rec @ z" kP2Sess "g2_transcript s"] M3_accepted_facts [OF assms(1,2)] assms(3)
  by (auto simp: device_ok_def session_ok_def)

lemma session_ok_keyed:
  "session_ok devs i s \<Longrightarrow> length k = 32 \<Longrightarrow> session_ok devs i (gs_session_keyed k s)"
  by (auto simp: session_ok_def gs_session_keyed_def)

lemma gs_handleM3_completes:
  assumes "M3_accepted C S m3 g rec tid s" "gs_inv g"
    "x25519Derive L (kp_secret (g2_ephemeral s)) (g2_epkA s) = (True, z)"
  obtains k tidNew pt kn aad ct where
    "su_kdf S (dr_mk rec @ z) (g2_transcript s) kP2Sess [] (su_keyLen S) = Some k" "length k = 32"
    "su_kdf S (dr_mk rec) (dr_tid rec) kTidRotate (g2_n1 s @ g2_n2 s) kTidLen = Some tidNew"
    "length tidNew = 16"
    "packCredentials C (other_creds C S (gs_masterKey g) (dr_uavId rec) (gs_devices g))
       (other_tids (dr_uavId rec) (gs_devices g)) tidNew = Some pt"
    "su_kdf S k [] kP2Aead [] (su_aeadKeyLen S + su_aeadNonceLen S) = Some kn"
    "macInput C (m_suiteId m3) P2_M4_GS_CONFIRM (aad_M4 tid (g2_n1 s) (g2_n2 s)) = Some aad"
    "su_aeadSeal S (fst (kpack S kn)) (snd (kpack S kn)) aad pt [] = (True, ct)"
    "gs_handleM3 C L S m3 g =
       Some (done_reply (M4_message (m_suiteId m3) (dr_uavId rec) (snd (kpack S kn)) ct),
         g\<lparr>gs_sessions := om_set (dr_uavId rec) (gs_session_keyed k s) (gs_sessions g),
           gs_devices := om_set (dr_uavId rec) (rec\<lparr>dr_pendingTid := tidNew\<rparr>) (gs_devices g)\<rparr>)"
    "gs_inv (g\<lparr>gs_sessions := om_set (dr_uavId rec) (gs_session_keyed k s) (gs_sessions g),
           gs_devices := om_set (dr_uavId rec) (rec\<lparr>dr_pendingTid := tidNew\<rparr>) (gs_devices g)\<rparr>)"
proof -
  note f = M3_accepted_facts [OF assms(1,2)]
  have "length z = 32" using x25519Derive_len [OF assms(3)] .
  then obtain k where k: "su_kdf S (dr_mk rec @ z) (g2_transcript s) kP2Sess [] (su_keyLen S) = Some k"
    "length k = 32" using gs_session_key [OF assms(1,2)] by blast
  let ?s = "gs_session_keyed k s" and ?g = "gs_put_session (gs_session_keyed k s) (dr_uavId rec) g"
  have inv: "gs_inv ?g" by (rule gs_inv_put [OF assms(2) session_ok_keyed [OF f(4) k(2)]])
  have fields: "om_find (gs_devices ?g) (dr_uavId rec) = Some rec" "length (g2_sessionKey ?s) = 32"
    "length (g2_n1 ?s) = 16" "length (g2_n2 ?s) = 16" "gs_devices ?g = gs_devices g"
    "gs_masterKey ?g = gs_masterKey g" "g2_n1 ?s = g2_n1 s" "g2_n2 ?s = g2_n2 s" "g2_sessionKey ?s = k"
    using f k(2) by (simp_all add: gs_put_session_def gs_session_keyed_def session_ok_def)
  from gs_package_result [OF inv fields(1) f(3) fields(2-4), of m3] obtain tidNew pt kn aad ct where
    p: "su_kdf S (dr_mk rec) (dr_tid rec) kTidRotate (g2_n1 s @ g2_n2 s) kTidLen = Some tidNew"
    "length tidNew = 16"
    "packCredentials C (other_creds C S (gs_masterKey g) (dr_uavId rec) (gs_devices g))
       (other_tids (dr_uavId rec) (gs_devices g)) tidNew = Some pt"
    "su_kdf S k [] kP2Aead [] (su_aeadKeyLen S + su_aeadNonceLen S) = Some kn"
    "macInput C (m_suiteId m3) P2_M4_GS_CONFIRM (aad_M4 tid (g2_n1 s) (g2_n2 s)) = Some aad"
    "su_aeadSeal S (fst (kpack S kn)) (snd (kpack S kn)) aad pt [] = (True, ct)"
    "gs_package C S m3 tid rec ?s ?g =
       Some (done_reply (M4_message (m_suiteId m3) (dr_uavId rec) (snd (kpack S kn)) ct),
         ?g\<lparr>gs_devices := om_set (dr_uavId rec) (rec\<lparr>dr_pendingTid := tidNew\<rparr>) (gs_devices ?g)\<rparr>)"
    "device_ok (dr_uavId rec) (rec\<lparr>dr_pendingTid := tidNew\<rparr>)"
    unfolding fields(5-9) by metis
  have "gs_inv (?g\<lparr>gs_devices := om_set (dr_uavId rec) (rec\<lparr>dr_pendingTid := tidNew\<rparr>) (gs_devices ?g)\<rparr>)"
    using inv p(8) by (rule gs_inv_device)
  moreover have "?g\<lparr>gs_devices := om_set (dr_uavId rec) (rec\<lparr>dr_pendingTid := tidNew\<rparr>) (gs_devices ?g)\<rparr> =
    g\<lparr>gs_sessions := om_set (dr_uavId rec) ?s (gs_sessions g),
      gs_devices := om_set (dr_uavId rec) (rec\<lparr>dr_pendingTid := tidNew\<rparr>) (gs_devices g)\<rparr>"
    by (simp add: gs_put_session_def)
  ultimately show thesis
    using that [OF k p(1-6)] p(7) gs_handleM3_dh [OF assms(1,3) k(1)] by simp
qed

lemma gs_handleM3_total:
  assumes "gs_inv g"
  shows "\<exists>r g'. gs_handleM3 C L S m3 g = Some (r, g') \<and> gs_inv g'"
proof (cases "\<exists>rec tid s. M3_accepted C S m3 g rec tid s")
  case False
  then show ?thesis using gs_handleM3_refused [OF assms] assms by blast
next
  case True
  then obtain rec tid s where a: "M3_accepted C S m3 g rec tid s" by blast
  obtain ok z where dh: "x25519Derive L (kp_secret (g2_ephemeral s)) (g2_epkA s) = (ok, z)" by fastforce
  show ?thesis
  proof (cases ok)
    case True
    show ?thesis
      by (rule gs_handleM3_completes [OF a assms dh [unfolded eqTrueI [OF True]], of ?thesis]) blast
  next
    case False
    have "session_ok (gs_devices g) (dr_uavId rec) (s\<lparr>g2_m3Verified := True\<rparr>)"
      using M3_accepted_facts(4) [OF a assms] by (auto simp: session_ok_def)
    then show ?thesis using gs_handleM3_no_dh [OF a] dh False gs_inv_put [OF assms] by auto
  qed
qed

subsubsection \<open>Enrollment\<close>

lemma fe_gen_key_length:
  "fe_gen C S f response seed = Some gen \<Longrightarrow> length (gr_mk gen) = fp_keyBits (fe_params f) div 8"
  by (auto simp: fe_gen_def fe_key_def Let_def Option.bind_eq_Some_conv split: if_splits)

lemma drbg_bytes_okD:
  assumes "drbg_ok L rng" "drbg_bytes L n rng = Some (b, rng')"
  shows "drbg_ok L rng'" "length b = n" "dk_key rng' = dk_key rng"
  using drbg_bytes_ok [OF assms(1), of n] assms(2) by auto

lemma gs_new_inv:
  assumes "drbg_ok L rng" "gs_new L S p w rng = Some (g, rng')"
  shows "gs_inv g" "drbg_ok L rng'" "gs_feParams g = p"
proof -
  obtain k where k: "drbg_bytes L (su_keyLen S) rng = Some (k, rng')"
    "g = \<lparr>gs_feParams = p, gs_windowMs = w, gs_numUavs = 0, gs_masterKey = k,
          gs_devices = [], gs_sessions = [], gs_replay = rc_new kReplayCapacity\<rparr>"
    using assms(2) by (auto simp: gs_new_def Option.bind_eq_Some_conv)
  from drbg_bytes_okD [OF assms(1) k(1)] k(2) suite_lens(3)
  show "gs_inv g" "drbg_ok L rng'" "gs_feParams g = p"
    by (simp_all add: gs_inv_def rc_inv_new) (simp add: rc_new_def)
qed

lemma enroll_inv:
  assumes "gs_inv g" "drbg_ok L rng" "enroll C L S i P rng g = Some (x, rng', g')"
    and "0 \<le> i" "i < 65535" "8 \<le> fp_keyBits (gs_feParams g)" "fp_keyBits (gs_feParams g) \<le> 65280"
  shows "gs_inv g' \<and> drbg_ok L rng' \<and> gs_feParams g' = gs_feParams g"
proof -
  from assms(3) obtain f ch rng1 response seed gen where
    f: "fe_new (gs_feParams g) = Some f" and c: "drbg_bytes L 16 rng = Some (ch, rng1)"
    and s: "drbg_bytes L (fp_seedBytes (gs_feParams g)) rng1 = Some (seed, rng')"
    and gen: "fe_gen C S f response seed = Some gen"
    and r: "(if \<not> gr_ok gen then g' = g else \<exists>tid.
      su_kdf S (gr_mk gen) [] kTidRotate (u16be C (word_of_int i)) kTidLen = Some tid \<and>
      g' = g\<lparr>gs_devices := om_set i (device_record_empty\<lparr>dr_uavId := i, dr_challenge := ch,
              dr_helper := gr_helper gen, dr_mk := gr_mk gen, dr_tid := tid, dr_enrolled := True\<rparr>)
              (gs_devices g)\<rparr>)"
    by (auto simp: enroll_def Let_def Option.bind_eq_Some_conv split: if_splits)
  have ok: "drbg_ok L rng'" using drbg_bytes_okD [OF _ s] drbg_bytes_okD [OF assms(2) c] by simp
  have mk: "length (gr_mk gen) = fp_keyBits (gs_feParams g) div 8"
    using fe_gen_key_length [OF gen] fe_new_Some(1) [OF f] by simp
  then have "0 < length (gr_mk gen)" "length (gr_mk gen) \<le> 8160" using assms(6,7) by linarith+
  then have "gs_inv g'" using r assms(1,4,5) kdf_len
    by (auto simp: device_ok_def device_record_empty_def kTidLen_def intro!: gs_inv_device split: if_splits)
  moreover have "gs_feParams g' = gs_feParams g" using r by (auto split: if_splits)
  ultimately show ?thesis using ok by blast
qed

end

subsection \<open>Reachable states\<close>

text \<open>A ground station in use: constructed, then enrolling devices with identities of the wire's
  range and receiving arbitrary messages at arbitrary times, in any order.\<close>

inductive gs_reach ::
    "core_lib \<Rightarrow> ossl \<Rightarrow> suite \<Rightarrow> fe_params \<Rightarrow> u32 \<Rightarrow> gs \<Rightarrow> drbg \<Rightarrow> bool" for C L S p w where
  reach_new: "drbg_ok L rng \<Longrightarrow> gs_new L S p w rng = Some (g, rng') \<Longrightarrow> gs_reach C L S p w g rng'"
| reach_setNumUavs: "gs_reach C L S p w g rng \<Longrightarrow> gs_reach C L S p w (gs_setNumUavs n g) rng"
| reach_enroll: "gs_reach C L S p w g rng \<Longrightarrow> 0 \<le> i \<Longrightarrow> i < 65535 \<Longrightarrow>
    enroll C L S i P rng g = Some (x, rng', g') \<Longrightarrow> gs_reach C L S p w g' rng'"
| reach_M1: "gs_reach C L S p w g rng \<Longrightarrow> gs_handleM1 C L S m now rng g = Some (r, rng', g') \<Longrightarrow>
    gs_reach C L S p w g' rng'"
| reach_M3: "gs_reach C L S p w g rng \<Longrightarrow> gs_handleM3 C L S m g = Some (r, g') \<Longrightarrow>
    gs_reach C L S p w g' rng"

lemma gs_handleM1_feParams:
  "gs_handleM1 C L S m now rng g = Some (r, rng', g') \<Longrightarrow> gs_feParams g' = gs_feParams g"
  by (erule gs_handleM1_cases)
    (auto simp: gs_offered_def gs_respond_def Let_def Option.bind_eq_Some_conv)

lemma gs_package_feParams:
  "gs_package C S m tid rec s g = Some (r, g') \<Longrightarrow> gs_feParams g' = gs_feParams g"
  by (auto simp: gs_package_def split_beta Let_def Option.bind_eq_Some_conv split: if_splits)

lemma gs_handleM3_feParams:
  assumes "gs_handleM3 C L S m g = Some (r, g')"
  shows "gs_feParams g' = gs_feParams g"
proof -
  consider "g' = g" | tid rec s where "msg_get m TID = Some tid" "findByTid tid g = Some rec"
      "om_find (gs_sessions g) (dr_uavId rec) = Some s"
    using assms by (cases "msg_get m TID"; cases "findByTid (the (msg_get m TID)) g")
      (auto simp: gs_handleM3_def split: if_splits option.splits)
  then show ?thesis
  proof cases
    case (2 tid rec s)
    have "g' = g \<or> (\<exists>s i. g' = gs_put_session s i g) \<or>
      (\<exists>s i. gs_package C S m tid rec s (gs_put_session s i g) = Some (r, g'))"
      using assms 2
      by (auto simp: gs_handleM3_def split_beta Let_def Option.bind_eq_Some_conv split: if_splits)
    then show ?thesis
      using gs_package_feParams [of C S m tid rec] by (auto simp: gs_put_session_def)
  qed simp
qed

lemma gs_reach_inv:
  assumes "protocol_env C L S" "8 \<le> fp_keyBits p" "fp_keyBits p \<le> 65280" "gs_reach C L S p w g rng"
  shows "gs_inv g \<and> drbg_ok L rng \<and> gs_feParams g = p"
  using assms(4)
proof (induction rule: gs_reach.induct)
  case (reach_new rng g rng')
  then show ?case using protocol_env.gs_new_inv [OF assms(1)] by blast
next
  case (reach_setNumUavs g rng n)
  then show ?case by (simp add: gs_setNumUavs_def gs_inv_def)
next
  case (reach_enroll g rng i P x rng' g')
  then show ?case using protocol_env.enroll_inv [OF assms(1), of g rng i P x rng' g'] assms(2,3) by simp
next
  case (reach_M1 g rng m now r rng' g')
  then show ?case
    using protocol_env.gs_handleM1_total [OF assms(1), of g rng m now] gs_handleM1_feParams by fastforce
next
  case (reach_M3 g rng m r g')
  then show ?case
    using protocol_env.gs_handleM3_total [OF assms(1), of g m] gs_handleM3_feParams by fastforce
qed

end
