(* ===== verification/Uav.thy ===== *)
theory Uav
  imports Session
begin

text \<open>
  \<open>class UavProtocol\<close> of \<open>protocol/Protocol.h\<close>, \<open>protocol/Protocol.cc\<close>: provisioning, regeneration
  of the master key, the UAV's side of Phase 2 and both sides of Phase 3.
\<close>

record uav =
  uv_id :: int
  uv_feParams :: fe_params
  uv_windowMs :: u32
  uv_legacyNoGsAuth :: bool
  uv_state :: device_state
  uv_phase2 :: p2_uav
  uv_peers :: "(int, p3_session) omap"
  uv_replay :: replay_cache

definition uav_new :: "int \<Rightarrow> fe_params \<Rightarrow> u32 \<Rightarrow> uav" where
  "uav_new uavId feParams windowMs = \<lparr>uv_id = uavId, uv_feParams = feParams, uv_windowMs = windowMs,
     uv_legacyNoGsAuth = False, uv_state = device_state_empty, uv_phase2 = p2_uav_empty,
     uv_peers = [], uv_replay = rc_new 4096\<rparr>"

definition provision :: "device_state \<Rightarrow> uav \<Rightarrow> uav" where
  "provision st u = u\<lparr>uv_state := st\<rparr>"

definition setLegacyNoGsAuth :: "bool \<Rightarrow> uav \<Rightarrow> uav" where
  "setLegacyNoGsAuth enabled u = u\<lparr>uv_legacyNoGsAuth := enabled\<rparr>"

subsection \<open>Phase 2\<close>

text \<open>The result \<open>None\<close> inside is the return value \<open>false\<close>.\<close>

definition regenerateMasterKey ::
    "core_lib \<Rightarrow> suite \<Rightarrow> puf \<Rightarrow> drbg \<Rightarrow> uav \<Rightarrow> (bytes option \<times> drbg) option" where
  "regenerateMasterKey C S P rng u = do {
     f \<leftarrow> fe_new (uv_feParams u);
     (noisy, rng) \<leftarrow> pf_noisy P (ds_challenge (uv_state u)) (requiredPufBits (fe_params f)) rng;
     rep \<leftarrow> fe_rep C S f noisy (ds_helper (uv_state u));
     Some (if \<not> rr_ok rep then None else Some (rr_mk rep), rng) }"

definition M1_body :: "core_lib \<Rightarrow> u8 \<Rightarrow> int \<Rightarrow> bytes \<Rightarrow> bytes \<Rightarrow> u32 \<Rightarrow> bytes \<Rightarrow> message" where
  "M1_body C suite uavId tid n1 t1 epkA =
     msg_set EPK_A epkA (msg_set TIMESTAMP (encodeTimestamp C t1) (msg_set NONCE_1 n1
       (msg_set TID tid (emptyMessage\<lparr>m_type := P2_M1_AUTH_REQUEST, m_suiteId := suite,
          m_senderId := uavId, m_receiverId := - 1\<rparr>))))"

definition startPhase2 ::
    "core_lib \<Rightarrow> ossl \<Rightarrow> suite \<Rightarrow> puf \<Rightarrow> u32 \<Rightarrow> drbg \<Rightarrow> uav \<Rightarrow> (step_result \<times> drbg \<times> uav) option" where
  "startPhase2 C L S P now rng u =
     (if \<not> ds_provisioned (uv_state u) then Some (fail NotAuthenticated, rng, u)
      else do {
        (regenerated, rng) \<leftarrow> regenerateMasterKey C S P rng u;
        (case regenerated of
           None \<Rightarrow> Some (fail FuzzyExtractorFailed, rng, u)
         | Some mk \<Rightarrow> do {
             authKey \<leftarrow> su_kdf S mk [] kP2Auth [] (su_keyLen S);
             (n1, rng) \<leftarrow> drbg_bytes L kNonceLen rng;
             (eph_seed, rng) \<leftarrow> drbg_bytes L 32 rng;
             eph \<leftarrow> x25519Generate L eph_seed;
             let tid = ds_tid (uv_state u);
             let m1 = M1_body C (suiteIdValue (su_id S)) (uv_id u) tid n1 now (kp_public eph);
             input1 \<leftarrow> macInput C (m_suiteId m1) P2_M1_AUTH_REQUEST
               (signed_M1 tid n1 (encodeTimestamp C now) (kp_public eph));
             tag \<leftarrow> su_mac S authKey input1;
             let p2 = p2_uav_empty\<lparr>u2_mk := mk, u2_authKey := authKey, u2_n1 := n1, u2_t1 := now,
                   u2_tidAtRequest := tid, u2_ephemeral := eph, u2_transcript := input1\<rparr>;
             Some (done_reply (msg_set MAC_TAG tag m1), rng, u\<lparr>uv_phase2 := p2\<rparr>) }) })"

definition M3_body :: "u8 \<Rightarrow> int \<Rightarrow> bytes \<Rightarrow> message" where
  "M3_body suite uavId tid =
     msg_set TID tid (emptyMessage\<lparr>m_type := P2_M3_UAV_CONFIRM, m_suiteId := suite,
       m_senderId := uavId, m_receiverId := - 1\<rparr>)"

text \<open>The UAV's session once its key is derived and the scalar erased.\<close>

definition u2_keyed :: "bytes \<Rightarrow> p2_uav \<Rightarrow> p2_uav" where
  "u2_keyed k p = p\<lparr>u2_sessionKey := k, u2_ephemeral := x25519_erase (u2_ephemeral p),
     u2_ephemeralErased := True\<rparr>"

text \<open>The part of \<open>handleM2\<close> after the check of the MAC: transcript, M3, session key.\<close>

definition uav_confirm ::
    "core_lib \<Rightarrow> ossl \<Rightarrow> suite \<Rightarrow> message \<Rightarrow> bytes \<Rightarrow> bytes \<Rightarrow> bytes \<Rightarrow> uav \<Rightarrow> (step_result \<times> uav) option" where
  "uav_confirm C L S m2 n2 epkB input2 u =
     (let tid = ds_tid (uv_state u);
          p = (uv_phase2 u)\<lparr>u2_n2 := n2, u2_transcript := u2_transcript (uv_phase2 u) @ input2\<rparr>;
          m3 = M3_body (m_suiteId m2) (uv_id u) tid
      in do {
        input3 \<leftarrow> macInput C (m_suiteId m3) P2_M3_UAV_CONFIRM (signed_M3 tid);
        tag \<leftarrow> su_mac S (u2_authKey p) (input3 @ u2_transcript p);
        let (dhOk, shared) = x25519Derive L (kp_secret (u2_ephemeral p)) epkB;
        (if \<not> dhOk then Some (fail DhFailed, u\<lparr>uv_phase2 := p\<rparr>)
         else do {
           k \<leftarrow> su_kdf S (u2_mk p @ shared) (u2_transcript p) kP2Sess [] (su_keyLen S);
           Some (done_reply (msg_set MAC_TAG tag m3), u\<lparr>uv_phase2 := u2_keyed k p\<rparr>) }) })"

definition uav_handleM2 ::
    "core_lib \<Rightarrow> ossl \<Rightarrow> suite \<Rightarrow> message \<Rightarrow> u32 \<Rightarrow> uav \<Rightarrow> (step_result \<times> uav) option" where
  "uav_handleM2 C L S m2 now u =
     (if m_type m2 \<noteq> P2_M2_GS_RESPONSE then Some (fail UnexpectedMessage, u)
      else if u2_authKey (uv_phase2 u) = [] then Some (fail UnexpectedMessage, u)
      else if \<not> msg_has m2 NONCE_2 \<or> \<not> msg_has m2 TIMESTAMP \<or> \<not> msg_has m2 EPK_B \<or>
              \<not> msg_has m2 MAC_TAG then Some (fail MissingField, u)
      else do {
        n2 \<leftarrow> msg_get m2 NONCE_2;
        epkB \<leftarrow> msg_get m2 EPK_B;
        ts \<leftarrow> msg_get m2 TIMESTAMP;
        (if length n2 \<noteq> kNonceLen \<or> length epkB \<noteq> kX25519KeyLen then Some (fail MalformedField, u)
         else case decodeTimestamp C ts of
           None \<Rightarrow> Some (fail MalformedField, u)
         | Some t2 \<Rightarrow>
             if \<not> timestampFresh now t2 (uv_windowMs u) then Some (fail StaleTimestamp, u)
             else let (isFresh, cache) = rc_offer n2 (uv_replay u); u = u\<lparr>uv_replay := cache\<rparr>
             in if \<not> isFresh then Some (fail ReplayedNonce, u)
             else do {
               input2 \<leftarrow> macInput C (m_suiteId m2) P2_M2_GS_RESPONSE
                 (signed_M2 (ds_tid (uv_state u)) (u2_n1 (uv_phase2 u)) n2 ts
                    (kp_public (u2_ephemeral (uv_phase2 u))) epkB);
               tag \<leftarrow> msg_get m2 MAC_TAG;
               macOk \<leftarrow> su_macVerify S (u2_authKey (uv_phase2 u)) input2 tag;
               (if \<not> macOk \<and> \<not> uv_legacyNoGsAuth u then Some (fail MacVerifyFailed, u)
                else uav_confirm C L S m2 n2 epkB input2 u) }) })"

definition uav_handleM4 :: "core_lib \<Rightarrow> suite \<Rightarrow> message \<Rightarrow> uav \<Rightarrow> (step_result \<times> uav) option" where
  "uav_handleM4 C S m4 u =
     (let p = uv_phase2 u in
      if m_type m4 \<noteq> P2_M4_GS_CONFIRM then Some (fail UnexpectedMessage, u)
      else if u2_sessionKey p = [] then Some (fail UnexpectedMessage, u)
      else if \<not> msg_has m4 AEAD_NONCE \<or> \<not> msg_has m4 CRED_PKG then Some (fail MissingField, u)
      else do {
        kn \<leftarrow> su_kdf S (u2_sessionKey p) [] kP2Aead [] (su_aeadKeyLen S + su_aeadNonceLen S);
        let (aeadKey, aeadNonce) = kpack S kn;
        aad \<leftarrow> macInput C (m_suiteId m4) P2_M4_GS_CONFIRM
          (aad_M4 (u2_tidAtRequest p) (u2_n1 p) (u2_n2 p));
        package \<leftarrow> msg_get m4 CRED_PKG;
        let (openOk, plaintext) = su_aeadOpen S aeadKey aeadNonce aad package [];
        (if \<not> openOk then Some (fail AeadOpenFailed, u)
         else case unpackCredentials C plaintext of
           None \<Rightarrow> Some (fail MalformedField, u)
         | Some (creds, tids, tidNew) \<Rightarrow>
             Some (done_quiet, u\<lparr>uv_phase2 := p\<lparr>u2_peerCredentials := creds, u2_peerTids := tids,
                                                 u2_established := True\<rparr>,
                                 uv_state := (uv_state u)\<lparr>ds_tid :=
                                   if tidNew \<noteq> [] then tidNew else ds_tid (uv_state u)\<rparr>\<rparr>)) })"

subsection \<open>Peers\<close>

definition hasPeerCredential :: "int \<Rightarrow> uav \<Rightarrow> bool" where
  "hasPeerCredential peerId u \<longleftrightarrow> om_find (u2_peerCredentials (uv_phase2 u)) peerId \<noteq> None"

definition injectPeerCredential :: "int \<Rightarrow> bytes \<Rightarrow> bytes \<Rightarrow> uav \<Rightarrow> uav" where
  "injectPeerCredential peerId cred peerTid u =
     u\<lparr>uv_phase2 := (uv_phase2 u)\<lparr>
         u2_peerCredentials := om_set peerId cred (u2_peerCredentials (uv_phase2 u)),
         u2_peerTids := om_set peerId peerTid (u2_peerTids (uv_phase2 u))\<rparr>\<rparr>"

definition peerSessionKey :: "int \<Rightarrow> uav \<Rightarrow> bytes option" where
  "peerSessionKey peerId u = (case om_find (uv_peers u) peerId of
     None \<Rightarrow> None
   | Some s \<Rightarrow> if \<not> p3_established s then None else Some (p3_sessionKey s))"

subsection \<open>Phase 3\<close>

text \<open>A default-constructed session.\<close>

definition p3_empty :: p3_session where
  "p3_empty = \<lparr>p3_localId = - 1, p3_peerId = - 1, p3_initiator = False, p3_authKey = [],
     p3_nonceLocal = [], p3_nonceRemote = [], p3_ephemeral = x25519_empty, p3_epkLocal = [],
     p3_epkRemote = [], p3_p1Encoded = [], p3_p2Encoded = [], p3_sessionKey = [],
     p3_established = False, p3_ephemeralErased = False\<rparr>"

definition uav_put_peer :: "int \<Rightarrow> p3_session \<Rightarrow> uav \<Rightarrow> uav" where
  "uav_put_peer k s u = u\<lparr>uv_peers := om_set k s (uv_peers u)\<rparr>"

definition P1_body :: "core_lib \<Rightarrow> u8 \<Rightarrow> int \<Rightarrow> int \<Rightarrow> bytes \<Rightarrow> u32 \<Rightarrow> bytes \<Rightarrow> message" where
  "P1_body C suite own peerId n ts epk =
     msg_set EPK_A epk (msg_set TIMESTAMP (encodeTimestamp C ts) (msg_set NONCE_1 n
       (msg_set RECEIVER_ID (encodeId C peerId) (msg_set SENDER_ID (encodeId C own)
         (emptyMessage\<lparr>m_type := P3_P1_PEER_REQUEST, m_suiteId := suite, m_senderId := own,
            m_receiverId := peerId\<rparr>)))))"

definition startPhase3 ::
    "core_lib \<Rightarrow> ossl \<Rightarrow> suite \<Rightarrow> int \<Rightarrow> u32 \<Rightarrow> drbg \<Rightarrow> uav \<Rightarrow> (step_result \<times> drbg \<times> uav) option" where
  "startPhase3 C L S peerId now rng u =
     (case om_find (u2_peerCredentials (uv_phase2 u)) peerId of
        None \<Rightarrow> Some (fail NoSuchPeer, rng, u)
      | Some cred \<Rightarrow> do {
          authKey \<leftarrow> su_kdf S cred [] kPeerAuth [] (su_keyLen S);
          (n, rng) \<leftarrow> drbg_bytes L kNonceLen rng;
          (eph_seed, rng) \<leftarrow> drbg_bytes L 32 rng;
          eph \<leftarrow> x25519Generate L eph_seed;
          let p1 = P1_body C (suiteIdValue (su_id S)) (uv_id u) peerId n now (kp_public eph);
          inputP1 \<leftarrow> macInput C (m_suiteId p1) P3_P1_PEER_REQUEST
            (signed_P1 (encodeId C (uv_id u)) (encodeId C peerId) n (encodeTimestamp C now)
               (kp_public eph));
          tag \<leftarrow> su_mac S authKey inputP1;
          let session = p3_empty\<lparr>p3_localId := uv_id u, p3_peerId := peerId, p3_initiator := True,
                p3_authKey := authKey, p3_nonceLocal := n, p3_ephemeral := eph,
                p3_epkLocal := kp_public eph, p3_p1Encoded := inputP1\<rparr>;
          Some (done_reply (msg_set MAC_TAG tag p1), rng, uav_put_peer peerId session u) })"

definition P2_body :: "u8 \<Rightarrow> int \<Rightarrow> int \<Rightarrow> bytes \<Rightarrow> bytes \<Rightarrow> message" where
  "P2_body suite own peerId n epk =
     msg_set EPK_B epk (msg_set NONCE_2 n
       (emptyMessage\<lparr>m_type := P3_P2_PEER_RESPONSE, m_suiteId := suite, m_senderId := own,
          m_receiverId := peerId\<rparr>))"

text \<open>The part of \<open>handleP1\<close> after the check of the MAC: nonce, ephemeral pair, P2, session.\<close>

definition uav_peer_respond ::
    "core_lib \<Rightarrow> ossl \<Rightarrow> suite \<Rightarrow> message \<Rightarrow> int \<Rightarrow> bytes \<Rightarrow> bytes \<Rightarrow> bytes \<Rightarrow> bytes \<Rightarrow> drbg \<Rightarrow> uav \<Rightarrow>
     (step_result \<times> drbg \<times> uav) option" where
  "uav_peer_respond C L S p1 initiatorId nonceRemote epkA authKey inputP1 rng u = do {
     (n, rng) \<leftarrow> drbg_bytes L kNonceLen rng;
     (eph_seed, rng) \<leftarrow> drbg_bytes L 32 rng;
     eph \<leftarrow> x25519Generate L eph_seed;
     let p2 = P2_body (m_suiteId p1) (uv_id u) initiatorId n (kp_public eph);
     inputP2 \<leftarrow> macInput C (m_suiteId p2) P3_P2_PEER_RESPONSE
       (signed_P2 (encodeId C initiatorId) (encodeId C (uv_id u)) nonceRemote n epkA (kp_public eph));
     tag \<leftarrow> su_mac S authKey inputP2;
     let session = p3_empty\<lparr>p3_localId := uv_id u, p3_peerId := initiatorId, p3_initiator := False,
           p3_authKey := authKey, p3_nonceRemote := nonceRemote, p3_epkRemote := epkA,
           p3_nonceLocal := n, p3_ephemeral := eph, p3_epkLocal := kp_public eph,
           p3_p1Encoded := inputP1, p3_p2Encoded := inputP2\<rparr>;
     Some (done_reply (msg_set MAC_TAG tag p2), rng, uav_put_peer initiatorId session u) }"

definition uav_handleP1 ::
    "core_lib \<Rightarrow> ossl \<Rightarrow> suite \<Rightarrow> message \<Rightarrow> u32 \<Rightarrow> drbg \<Rightarrow> uav \<Rightarrow> (step_result \<times> drbg \<times> uav) option" where
  "uav_handleP1 C L S p1 now rng u =
     (if m_type p1 \<noteq> P3_P1_PEER_REQUEST then Some (fail UnexpectedMessage, rng, u)
      else if \<not> list_all (msg_has p1) [SENDER_ID, RECEIVER_ID, NONCE_1, TIMESTAMP, EPK_A, MAC_TAG]
      then Some (fail MissingField, rng, u)
      else do {
        sid \<leftarrow> msg_get p1 SENDER_ID;
        ts \<leftarrow> msg_get p1 TIMESTAMP;
        (case (decodeId C sid, decodeTimestamp C ts) of
           (Some initiatorId, Some tstamp) \<Rightarrow>
             if \<not> timestampFresh now tstamp (uv_windowMs u) then Some (fail StaleTimestamp, rng, u)
             else do {
               nonceRemote \<leftarrow> msg_get p1 NONCE_1;
               let (isFresh, cache) = rc_offer nonceRemote (uv_replay u);
               let u = u\<lparr>uv_replay := cache\<rparr>;
               (if \<not> isFresh then Some (fail ReplayedNonce, rng, u)
                else case om_find (u2_peerCredentials (uv_phase2 u)) initiatorId of
                  None \<Rightarrow> Some (fail NoSuchPeer, rng, u)
                | Some cred \<Rightarrow> do {
                    authKey \<leftarrow> su_kdf S cred [] kPeerAuth [] (su_keyLen S);
                    rid \<leftarrow> msg_get p1 RECEIVER_ID;
                    epkA \<leftarrow> msg_get p1 EPK_A;
                    inputP1 \<leftarrow> macInput C (m_suiteId p1) P3_P1_PEER_REQUEST
                      (signed_P1 sid rid nonceRemote ts epkA);
                    tag \<leftarrow> msg_get p1 MAC_TAG;
                    macOk \<leftarrow> su_macVerify S authKey inputP1 tag;
                    (if \<not> macOk then Some (fail MacVerifyFailed, rng, u)
                     else uav_peer_respond C L S p1 initiatorId nonceRemote epkA authKey inputP1 rng u) }) }
         | _ \<Rightarrow> Some (fail MalformedField, rng, u)) })"

text \<open>What both sides do once the peer is authenticated: derive the key from the credential and the
  shared secret, erase the scalar.  \<open>peerCredentials[peerId]\<close> inserts an empty credential when
  there is none.\<close>

definition cred_insert :: "int \<Rightarrow> uav \<Rightarrow> uav" where
  "cred_insert peerId u =
     (if hasPeerCredential peerId u then u
      else u\<lparr>uv_phase2 := (uv_phase2 u)\<lparr>u2_peerCredentials :=
             om_set peerId [] (u2_peerCredentials (uv_phase2 u))\<rparr>\<rparr>)"

definition cred_at :: "int \<Rightarrow> uav \<Rightarrow> bytes" where
  "cred_at peerId u = tid_or_empty (u2_peerCredentials (uv_phase2 u)) peerId"

definition p3_keyed :: "bytes \<Rightarrow> p3_session \<Rightarrow> p3_session" where
  "p3_keyed k s = s\<lparr>p3_sessionKey := k, p3_ephemeral := x25519_erase (p3_ephemeral s),
     p3_ephemeralErased := True, p3_established := True\<rparr>"

text \<open>What the initiator's session becomes when P2 arrives, before its check.\<close>

definition p3_heard :: "bytes \<Rightarrow> bytes \<Rightarrow> p3_session \<Rightarrow> p3_session" where
  "p3_heard n epk s = s\<lparr>p3_nonceRemote := n, p3_epkRemote := epk\<rparr>"

text \<open>The part of \<open>handleP2\<close> after the check of the MAC: P3, session key.\<close>

definition uav_peer_confirm ::
    "core_lib \<Rightarrow> ossl \<Rightarrow> suite \<Rightarrow> message \<Rightarrow> p3_session \<Rightarrow> bytes \<Rightarrow> bytes \<Rightarrow> bytes \<Rightarrow> uav \<Rightarrow>
     (step_result \<times> uav) option" where
  "uav_peer_confirm C L S p2 s n epk inputP2 u =
     (let session = (p3_heard n epk s)\<lparr>p3_p2Encoded := inputP2\<rparr>
      in do {
        inputP3 \<leftarrow> macInput C (m_suiteId p2) P3_P3_PEER_COMPLETE Map.empty;
        tag3 \<leftarrow> su_mac S (p3_authKey s) (inputP3 @ p3_p1Encoded s @ inputP2);
        let p3 = msg_set MAC_TAG tag3 (emptyMessage\<lparr>m_type := P3_P3_PEER_COMPLETE,
              m_suiteId := m_suiteId p2, m_senderId := p3_localId s, m_receiverId := p3_peerId s\<rparr>);
        let (dhOk, shared) = x25519Derive L (kp_secret (p3_ephemeral s)) epk;
        (if \<not> dhOk then Some (fail DhFailed, uav_put_peer (m_senderId p2) session u)
         else do {
           k \<leftarrow> su_kdf S (cred_at (p3_peerId s) u @ shared) (p3_p1Encoded s @ inputP2) kPeerSess []
             (su_keyLen S);
           Some (done_reply p3, uav_put_peer (m_senderId p2) (p3_keyed k session)
             (cred_insert (p3_peerId s) u)) }) })"

definition uav_handleP2 :: "core_lib \<Rightarrow> ossl \<Rightarrow> suite \<Rightarrow> message \<Rightarrow> uav \<Rightarrow> (step_result \<times> uav) option" where
  "uav_handleP2 C L S p2 u =
     (if m_type p2 \<noteq> P3_P2_PEER_RESPONSE then Some (fail UnexpectedMessage, u)
      else if \<not> msg_has p2 NONCE_2 \<or> \<not> msg_has p2 EPK_B \<or> \<not> msg_has p2 MAC_TAG
      then Some (fail MissingField, u)
      else case om_find (uv_peers u) (m_senderId p2) of
        None \<Rightarrow> Some (fail UnexpectedMessage, u)
      | Some s \<Rightarrow>
          if \<not> p3_initiator s then Some (fail UnexpectedMessage, u)
          else do {
            n \<leftarrow> msg_get p2 NONCE_2;
            epk \<leftarrow> msg_get p2 EPK_B;
            let u = uav_put_peer (m_senderId p2) (p3_heard n epk s) u;
            (if length epk \<noteq> kX25519KeyLen then Some (fail MalformedField, u)
             else do {
               inputP2 \<leftarrow> macInput C (m_suiteId p2) P3_P2_PEER_RESPONSE
                 (signed_P2 (encodeId C (p3_localId s)) (encodeId C (p3_peerId s))
                    (p3_nonceLocal s) n (p3_epkLocal s) epk);
               tag \<leftarrow> msg_get p2 MAC_TAG;
               macOk \<leftarrow> su_macVerify S (p3_authKey s) inputP2 tag;
               (if \<not> macOk then Some (fail MacVerifyFailed, u)
                else uav_peer_confirm C L S p2 s n epk inputP2 u) }) })"

definition uav_handleP3 :: "core_lib \<Rightarrow> ossl \<Rightarrow> suite \<Rightarrow> message \<Rightarrow> uav \<Rightarrow> (step_result \<times> uav) option" where
  "uav_handleP3 C L S p3 u =
     (if m_type p3 \<noteq> P3_P3_PEER_COMPLETE then Some (fail UnexpectedMessage, u)
      else if \<not> msg_has p3 MAC_TAG then Some (fail MissingField, u)
      else case om_find (uv_peers u) (m_senderId p3) of
        None \<Rightarrow> Some (fail UnexpectedMessage, u)
      | Some session \<Rightarrow>
          if p3_initiator session then Some (fail UnexpectedMessage, u)
          else do {
            inputP3 \<leftarrow> macInput C (m_suiteId p3) P3_P3_PEER_COMPLETE Map.empty;
            tag \<leftarrow> msg_get p3 MAC_TAG;
            macOk \<leftarrow> su_macVerify S (p3_authKey session)
              (inputP3 @ p3_p1Encoded session @ p3_p2Encoded session) tag;
            (if \<not> macOk then Some (fail MacVerifyFailed, u)
             else do {
               let (dhOk, shared) =
                 x25519Derive L (kp_secret (p3_ephemeral session)) (p3_epkRemote session);
               (if \<not> dhOk then Some (fail DhFailed, u)
                else do {
                  k \<leftarrow> su_kdf S (cred_at (p3_peerId session) u @ shared)
                    (p3_p1Encoded session @ p3_p2Encoded session) kPeerSess [] (su_keyLen S);
                  Some (done_quiet, uav_put_peer (m_senderId p3) (p3_keyed k session)
                    (cred_insert (p3_peerId session) u)) }) }) })"

subsection \<open>What a Phase 2 step may change\<close>

definition uav_offered :: "bytes \<Rightarrow> uav \<Rightarrow> uav" where
  "uav_offered n u = u\<lparr>uv_replay := snd (rc_offer n (uv_replay u))\<rparr>"

lemma uav_offered_simps [simp]:
  "uv_id (uav_offered n u) = uv_id u" "uv_state (uav_offered n u) = uv_state u"
  "uv_phase2 (uav_offered n u) = uv_phase2 u" "uv_peers (uav_offered n u) = uv_peers u"
  "uv_legacyNoGsAuth (uav_offered n u) = uv_legacyNoGsAuth u"
  "uv_windowMs (uav_offered n u) = uv_windowMs u" "uv_feParams (uav_offered n u) = uv_feParams u"
  by (simp_all add: uav_offered_def)

text \<open>What \<open>handleM2\<close> has checked when it looks at the MAC.\<close>

definition M2_admitted ::
    "core_lib \<Rightarrow> message \<Rightarrow> u32 \<Rightarrow> uav \<Rightarrow> bytes \<Rightarrow> bytes \<Rightarrow> bytes \<Rightarrow> bytes \<Rightarrow> bytes \<Rightarrow> bool" where
  "M2_admitted C m2 now u n2 epkB ts tag input2 \<longleftrightarrow>
     m_type m2 = P2_M2_GS_RESPONSE \<and> u2_authKey (uv_phase2 u) \<noteq> [] \<and> msg_get m2 NONCE_2 = Some n2 \<and>
     msg_get m2 EPK_B = Some epkB \<and> msg_get m2 TIMESTAMP = Some ts \<and> msg_get m2 MAC_TAG = Some tag \<and>
     length n2 = kNonceLen \<and> length epkB = kX25519KeyLen \<and>
     (\<exists>t2. decodeTimestamp C ts = Some t2 \<and> timestampFresh now t2 (uv_windowMs u)) \<and>
     n2 \<notin> rc_seen (uv_replay u) \<and>
     macInput C (m_suiteId m2) P2_M2_GS_RESPONSE (signed_M2 (ds_tid (uv_state u))
       (u2_n1 (uv_phase2 u)) n2 ts (kp_public (u2_ephemeral (uv_phase2 u))) epkB) = Some input2"

lemma uav_handleM2_admitted:
  "M2_admitted C m2 now u n2 epkB ts tag input2 \<Longrightarrow>
   uav_handleM2 C L S m2 now u =
     (case su_macVerify S (u2_authKey (uv_phase2 u)) input2 tag of
        None \<Rightarrow> None
      | Some macOk \<Rightarrow>
          if \<not> macOk \<and> \<not> uv_legacyNoGsAuth u then Some (fail MacVerifyFailed, uav_offered n2 u)
          else uav_confirm C L S m2 n2 epkB input2 (uav_offered n2 u))"
  by (auto simp: M2_admitted_def uav_handleM2_def msg_get_has uav_offered_def split_beta rc_offer_iff
      Let_def split: option.splits)

lemma uav_handleM2_cases:
  assumes "uav_handleM2 C L S m2 now u = Some (r, u')"
  obtains (refused) "\<not> sr_ok r" "\<not> sr_hasReply r" "u' = u \<or> (\<exists>n2. u' = uav_offered n2 u)"
  | (confirm) n2 epkB ts tag input2 macOk where
      "M2_admitted C m2 now u n2 epkB ts tag input2"
      "su_macVerify S (u2_authKey (uv_phase2 u)) input2 tag = Some macOk"
      "macOk \<or> uv_legacyNoGsAuth u"
      "uav_confirm C L S m2 n2 epkB input2 (uav_offered n2 u) = Some (r, u')"
proof (cases "\<exists>n2 epkB ts tag input2. M2_admitted C m2 now u n2 epkB ts tag input2")
  case True
  then obtain n2 epkB ts tag input2 where a: "M2_admitted C m2 now u n2 epkB ts tag input2" by blast
  show thesis
    using assms refused confirm [OF a] unfolding uav_handleM2_admitted [OF a]
    by (auto split: option.splits if_splits) blast
next
  case False
  have "\<not> sr_ok r \<and> \<not> sr_hasReply r \<and> (u' = u \<or> (\<exists>n2. u' = uav_offered n2 u))"
    using assms False
    by (auto simp: uav_handleM2_def M2_admitted_def uav_offered_def msg_get_has split_beta rc_offer_iff
        Let_def Option.bind_eq_Some_conv split: if_splits option.splits)
  then show thesis using refused by blast
qed

text \<open>\<open>handleM2\<close> past the check: the transcript has grown, and either the key exchange failed and
  nothing is sent, or the session is keyed and M3 is sent.\<close>

definition u2_extended :: "bytes \<Rightarrow> bytes \<Rightarrow> p2_uav \<Rightarrow> p2_uav" where
  "u2_extended n2 input2 p = p\<lparr>u2_n2 := n2, u2_transcript := u2_transcript p @ input2\<rparr>"

lemma uav_confirm_cases:
  assumes "uav_confirm C L S m2 n2 epkB input2 u = Some (r, u')"
  obtains (no_dh) "r = fail DhFailed" "u' = u\<lparr>uv_phase2 := u2_extended n2 input2 (uv_phase2 u)\<rparr>"
      "\<not> fst (x25519Derive L (kp_secret (u2_ephemeral (uv_phase2 u))) epkB)"
  | (keyed) z k input3 tag where
      "x25519Derive L (kp_secret (u2_ephemeral (uv_phase2 u))) epkB = (True, z)"
      "su_kdf S (u2_mk (uv_phase2 u) @ z) (u2_transcript (uv_phase2 u) @ input2) kP2Sess []
         (su_keyLen S) = Some k"
      "macInput C (m_suiteId m2) P2_M3_UAV_CONFIRM (signed_M3 (ds_tid (uv_state u))) = Some input3"
      "su_mac S (u2_authKey (uv_phase2 u)) (input3 @ u2_transcript (uv_phase2 u) @ input2) = Some tag"
      "r = done_reply (msg_set MAC_TAG tag (M3_body (m_suiteId m2) (uv_id u) (ds_tid (uv_state u))))"
      "u' = u\<lparr>uv_phase2 := u2_keyed k (u2_extended n2 input2 (uv_phase2 u))\<rparr>"
proof -
  obtain ok z where dh: "x25519Derive L (kp_secret (u2_ephemeral (uv_phase2 u))) epkB = (ok, z)" by fastforce
  show thesis
    using assms dh no_dh keyed
    by (cases ok) (auto simp: uav_confirm_def u2_extended_def M3_body_def msg_set_def Let_def
        Option.bind_eq_Some_conv)
qed

lemma uav_confirm_keyed:
  assumes "x25519Derive L (kp_secret (u2_ephemeral (uv_phase2 u))) epkB = (True, z)"
    "su_kdf S (u2_mk (uv_phase2 u) @ z) (u2_transcript (uv_phase2 u) @ input2) kP2Sess []
         (su_keyLen S) = Some k"
    "macInput C (m_suiteId m2) P2_M3_UAV_CONFIRM (signed_M3 (ds_tid (uv_state u))) = Some input3"
    "su_mac S (u2_authKey (uv_phase2 u)) (input3 @ u2_transcript (uv_phase2 u) @ input2) = Some tag"
  shows "uav_confirm C L S m2 n2 epkB input2 u =
    Some (done_reply (msg_set MAC_TAG tag (M3_body (m_suiteId m2) (uv_id u) (ds_tid (uv_state u)))),
      u\<lparr>uv_phase2 := u2_keyed k (u2_extended n2 input2 (uv_phase2 u))\<rparr>)"
  using assms by (simp add: uav_confirm_def u2_extended_def M3_body_def msg_set_def)

lemma uav_handleM4_Some:
  assumes "u2_sessionKey (uv_phase2 u) \<noteq> []" "m_type m4 = P2_M4_GS_CONFIRM" "msg_has m4 AEAD_NONCE"
    "msg_get m4 CRED_PKG = Some package"
    "su_kdf S (u2_sessionKey (uv_phase2 u)) [] kP2Aead [] (su_aeadKeyLen S + su_aeadNonceLen S) = Some kn"
    "macInput C (m_suiteId m4) P2_M4_GS_CONFIRM (aad_M4 (u2_tidAtRequest (uv_phase2 u))
       (u2_n1 (uv_phase2 u)) (u2_n2 (uv_phase2 u))) = Some aad"
    "su_aeadOpen S (fst (kpack S kn)) (snd (kpack S kn)) aad package [] = (True, pt)"
    "unpackCredentials C pt = Some (creds, tids, tidNew)"
  shows "uav_handleM4 C S m4 u = Some (done_quiet,
    u\<lparr>uv_phase2 := (uv_phase2 u)\<lparr>u2_peerCredentials := creds, u2_peerTids := tids, u2_established := True\<rparr>,
      uv_state := (uv_state u)\<lparr>ds_tid := if tidNew \<noteq> [] then tidNew else ds_tid (uv_state u)\<rparr>\<rparr>)"
  using assms by (auto simp: uav_handleM4_def msg_get_has split_beta Let_def)

lemma uav_handleM4_cases:
  assumes "uav_handleM4 C S m4 u = Some (r, u')"
  obtains (refused) "\<not> sr_ok r" "u' = u"
  | (opened) creds tids tidNew kn aad package pt where "r = done_quiet" "u2_sessionKey (uv_phase2 u) \<noteq> []"
      "su_kdf S (u2_sessionKey (uv_phase2 u)) [] kP2Aead [] (su_aeadKeyLen S + su_aeadNonceLen S) = Some kn"
      "macInput C (m_suiteId m4) P2_M4_GS_CONFIRM (aad_M4 (u2_tidAtRequest (uv_phase2 u))
         (u2_n1 (uv_phase2 u)) (u2_n2 (uv_phase2 u))) = Some aad"
      "msg_get m4 CRED_PKG = Some package"
      "su_aeadOpen S (fst (kpack S kn)) (snd (kpack S kn)) aad package [] = (True, pt)"
      "unpackCredentials C pt = Some (creds, tids, tidNew)"
      "u' = u\<lparr>uv_phase2 := (uv_phase2 u)\<lparr>u2_peerCredentials := creds, u2_peerTids := tids, u2_established := True\<rparr>,
         uv_state := (uv_state u)\<lparr>ds_tid := if tidNew \<noteq> [] then tidNew else ds_tid (uv_state u)\<rparr>\<rparr>"
proof -
  consider "\<not> sr_ok r \<and> u' = u"
    | "u2_sessionKey (uv_phase2 u) \<noteq> [] \<and> (\<exists>kn aad package pt x.
      su_kdf S (u2_sessionKey (uv_phase2 u)) [] kP2Aead [] (su_aeadKeyLen S + su_aeadNonceLen S) = Some kn \<and>
      macInput C (m_suiteId m4) P2_M4_GS_CONFIRM (aad_M4 (u2_tidAtRequest (uv_phase2 u))
         (u2_n1 (uv_phase2 u)) (u2_n2 (uv_phase2 u))) = Some aad \<and> msg_get m4 CRED_PKG = Some package \<and>
      su_aeadOpen S (fst (kpack S kn)) (snd (kpack S kn)) aad package [] = (True, pt) \<and>
      (case unpackCredentials C pt of None \<Rightarrow> Some (fail MalformedField, u)
         | Some (creds, tids, tidNew) \<Rightarrow>
             Some (done_quiet, u\<lparr>uv_phase2 := (uv_phase2 u)\<lparr>u2_peerCredentials := creds,
                   u2_peerTids := tids, u2_established := True\<rparr>,
                 uv_state := (uv_state u)\<lparr>ds_tid := if tidNew \<noteq> [] then tidNew else ds_tid (uv_state u)\<rparr>\<rparr>)) =
        Some (r, u'))"
    using assms
    by (auto simp: uav_handleM4_def split_beta Let_def Option.bind_eq_Some_conv prod_eq_iff split: if_splits)
  then show thesis
    by cases (use refused opened in \<open>auto split: option.splits\<close>)
qed

subsection \<open>The honest steps of Phase 2\<close>

context protocol_env
begin

text \<open>A provisioned UAV whose PUF reproduces the key sends M1.\<close>

lemma startPhase2_result:
  assumes "ds_provisioned (uv_state u)" "regenerateMasterKey C S P rng u = Some (Some mk, rng1)"
    and "drbg_ok L rng1" "0 < length mk" "length mk \<le> 8160" "length (ds_tid (uv_state u)) \<le> 64"
  obtains authKey n1 seed eph rng' input1 tag where
    "su_kdf S mk [] kP2Auth [] (su_keyLen S) = Some authKey" "length authKey = 32"
    "x25519Generate L seed = Some eph" "length (kp_secret eph) = 32" "length (kp_public eph) = 32"
    "length n1 = 16" "\<exists>rng2. drbg_bytes L kNonceLen rng1 = Some (n1, rng2)" "drbg_ok L rng'"
    "macInput C (suiteIdValue (su_id S)) P2_M1_AUTH_REQUEST
       (signed_M1 (ds_tid (uv_state u)) n1 (encodeTimestamp C now) (kp_public eph)) = Some input1"
    "length input1 \<le> 4096" "su_mac S authKey input1 = Some tag"
    "startPhase2 C L S P now rng u = Some (done_reply (msg_set MAC_TAG tag
       (M1_body C (suiteIdValue (su_id S)) (uv_id u) (ds_tid (uv_state u)) n1 now (kp_public eph))),
       rng', u\<lparr>uv_phase2 := p2_uav_empty\<lparr>u2_mk := mk, u2_authKey := authKey, u2_n1 := n1, u2_t1 := now,
         u2_tidAtRequest := ds_tid (uv_state u), u2_ephemeral := eph, u2_transcript := input1\<rparr>\<rparr>)"
proof -
  obtain authKey where k: "su_kdf S mk [] kP2Auth [] (su_keyLen S) = Some authKey" "length authKey = 32"
    using auth_key [of mk kP2Auth "[]"] assms(4,5) by auto
  obtain n1 rng2 seed rng3 eph where n: "drbg_bytes L kNonceLen rng1 = Some (n1, rng2)"
    "drbg_bytes L 32 rng2 = Some (seed, rng3)" "x25519Generate L seed = Some eph"
    "drbg_ok L rng3" "dk_key rng3 = dk_key rng1" "length n1 = 16" "length (kp_secret eph) = 32"
    "length (kp_public eph) = 32" "from_stream L (dk_key rng1) n1" "from_stream L (dk_key rng1) seed"
    by (rule nonce_eph [OF assms(3)])
  let ?f = "signed_M1 (ds_tid (uv_state u)) n1 (encodeTimestamp C now) (kp_public eph)"
  have "short ?f" using assms(6) n by (simp add: short_defs)
  then obtain input1 where i: "macInput C (suiteIdValue (su_id S)) P2_M1_AUTH_REQUEST ?f = Some input1"
    "length input1 \<le> 4096" using macInput_short by blast
  obtain tag where t: "su_mac S authKey input1 = Some tag" using mac_some [OF k(2)] by blast
  show thesis
    by (rule that [OF k n(3,7,8,6) _ n(4) i t])
      (use assms(1,2) k n i t in \<open>simp_all add: startPhase2_def M1_body_def msg_set_def Let_def\<close>)
qed

end

end
