(* ===== verification/Peer.thy ===== *)
theory Peer
  imports Uav
begin

text \<open>
  Lemmas on the Phase 3 operations of \<open>UavProtocol\<close>: what each handler has checked when it goes on,
  what it changes, and the results of the honest steps.
\<close>

lemma done_not_fail [simp]: "done_reply m \<noteq> fail a" "done_quiet \<noteq> fail a"
  by (simp_all add: fail_def done_reply_def done_quiet_def)

lemma peers_frame [simp]:
  "uv_peers (uav_put_peer k s u) = om_set k s (uv_peers u)"
  "uv_phase2 (uav_put_peer k s u) = uv_phase2 u" "uv_state (uav_put_peer k s u) = uv_state u"
  "uv_id (uav_put_peer k s u) = uv_id u" "uv_replay (uav_put_peer k s u) = uv_replay u"
  "uv_windowMs (uav_put_peer k s u) = uv_windowMs u"
  "uv_legacyNoGsAuth (uav_put_peer k s u) = uv_legacyNoGsAuth u"
  by (simp_all add: uav_put_peer_def)

lemma cred_insert_has [simp]: "hasPeerCredential k u \<Longrightarrow> cred_insert k u = u"
  by (simp add: cred_insert_def)

lemma cred_insert_peers [simp]: "uv_peers (cred_insert k u) = uv_peers u" "uv_state (cred_insert k u) = uv_state u"
  "uv_replay (cred_insert k u) = uv_replay u" "uv_id (cred_insert k u) = uv_id u"
  by (simp_all add: cred_insert_def)

subsection \<open>P1\<close>

definition P1_admitted ::
    "core_lib \<Rightarrow> message \<Rightarrow> u32 \<Rightarrow> uav \<Rightarrow> int \<Rightarrow> bytes \<Rightarrow> bytes \<Rightarrow> bytes \<Rightarrow> bytes \<Rightarrow> bytes \<Rightarrow> bytes \<Rightarrow> bytes \<Rightarrow> bool" where
  "P1_admitted C p1 now u i n epkA sid rid ts tag cred \<longleftrightarrow>
     m_type p1 = P3_P1_PEER_REQUEST \<and> msg_get p1 SENDER_ID = Some sid \<and>
     msg_get p1 RECEIVER_ID = Some rid \<and> msg_get p1 NONCE_1 = Some n \<and>
     msg_get p1 TIMESTAMP = Some ts \<and> msg_get p1 EPK_A = Some epkA \<and> msg_get p1 MAC_TAG = Some tag \<and>
     decodeId C sid = Some i \<and>
     (\<exists>t. decodeTimestamp C ts = Some t \<and> timestampFresh now t (uv_windowMs u)) \<and>
     n \<notin> rc_seen (uv_replay u) \<and> om_find (u2_peerCredentials (uv_phase2 u)) i = Some cred"

definition P1_accepted ::
    "core_lib \<Rightarrow> suite \<Rightarrow> message \<Rightarrow> u32 \<Rightarrow> uav \<Rightarrow> int \<Rightarrow> bytes \<Rightarrow> bytes \<Rightarrow> bytes \<Rightarrow> bytes \<Rightarrow> bool" where
  "P1_accepted C S p1 now u i n epkA authKey inputP1 \<longleftrightarrow>
     (\<exists>sid rid ts tag cred. P1_admitted C p1 now u i n epkA sid rid ts tag cred \<and>
        su_kdf S cred [] kPeerAuth [] (su_keyLen S) = Some authKey \<and>
        macInput C (m_suiteId p1) P3_P1_PEER_REQUEST (signed_P1 sid rid n ts epkA) = Some inputP1 \<and>
        su_macVerify S authKey inputP1 tag = Some True)"

lemma uav_handleP1_admitted:
  assumes "P1_admitted C p1 now u i n epkA sid rid ts tag cred"
  shows "uav_handleP1 C L S p1 now rng u = do {
    authKey \<leftarrow> su_kdf S cred [] kPeerAuth [] (su_keyLen S);
    inputP1 \<leftarrow> macInput C (m_suiteId p1) P3_P1_PEER_REQUEST (signed_P1 sid rid n ts epkA);
    macOk \<leftarrow> su_macVerify S authKey inputP1 tag;
    (if \<not> macOk then Some (fail MacVerifyFailed, rng, uav_offered n u)
     else uav_peer_respond C L S p1 i n epkA authKey inputP1 rng (uav_offered n u)) }"
  using assms unfolding uav_offered_def
  by (auto simp: P1_admitted_def uav_handleP1_def msg_get_has split_beta rc_offer_iff Let_def)

lemma uav_handleP1_not_admitted:
  assumes "\<nexists>i n epkA sid rid ts tag cred. P1_admitted C p1 now u i n epkA sid rid ts tag cred"
  shows "\<exists>r u'. uav_handleP1 C L S p1 now rng u = Some (r, rng, u') \<and> \<not> sr_ok r \<and> \<not> sr_hasReply r \<and>
    (u' = u \<or> (\<exists>n. u' = uav_offered n u))"
  using assms
  by (auto simp: P1_admitted_def uav_handleP1_def msg_get_has uav_offered_def split_beta rc_offer_iff
      Let_def split: option.splits)

lemma uav_handleP1_accepted:
  "P1_accepted C S p1 now u i n epkA authKey inputP1 \<Longrightarrow>
   uav_handleP1 C L S p1 now rng u = uav_peer_respond C L S p1 i n epkA authKey inputP1 rng (uav_offered n u)"
  by (auto simp: P1_accepted_def uav_handleP1_admitted)

lemma uav_peer_respond_Some:
  "uav_peer_respond C L S p1 i n epkA authKey inputP1 rng u = Some (r, rng', u') \<Longrightarrow> sr_ok r \<and> sr_hasReply r"
  by (auto simp: uav_peer_respond_def Let_def Option.bind_eq_Some_conv)

lemma uav_handleP1_cases:
  assumes "uav_handleP1 C L S p1 now rng u = Some (r, rng', u')"
  obtains (refused) "\<not> sr_ok r" "\<not> sr_hasReply r" "rng' = rng" "u' = u \<or> (\<exists>n. u' = uav_offered n u)"
  | (accepted) i n epkA authKey inputP1 where "P1_accepted C S p1 now u i n epkA authKey inputP1"
      "uav_peer_respond C L S p1 i n epkA authKey inputP1 rng (uav_offered n u) = Some (r, rng', u')"
proof (cases "\<exists>i n epkA sid rid ts tag cred. P1_admitted C p1 now u i n epkA sid rid ts tag cred")
  case True
  then obtain i n epkA sid rid ts tag cred where a: "P1_admitted C p1 now u i n epkA sid rid ts tag cred"
    by blast
  from assms [unfolded uav_handleP1_admitted [OF a]] obtain authKey inputP1 macOk where
    x: "su_kdf S cred [] kPeerAuth [] (su_keyLen S) = Some authKey"
    "macInput C (m_suiteId p1) P3_P1_PEER_REQUEST (signed_P1 sid rid n ts epkA) = Some inputP1"
    "su_macVerify S authKey inputP1 tag = Some macOk"
    "(if \<not> macOk then Some (fail MacVerifyFailed, rng, uav_offered n u)
     else uav_peer_respond C L S p1 i n epkA authKey inputP1 rng (uav_offered n u)) = Some (r, rng', u')"
    by (auto simp: Option.bind_eq_Some_conv)
  show thesis
  proof (cases macOk)
    case True
    then have "su_macVerify S authKey inputP1 tag = Some True" using x(3) by simp
    with x(1,2) a have "P1_accepted C S p1 now u i n epkA authKey inputP1"
      unfolding P1_accepted_def by blast
    with True x(4) show thesis using accepted by simp
  next
    case False
    with x show thesis by (intro refused) auto
  qed
next
  case False
  from uav_handleP1_not_admitted [OF this, of L S rng] assms show thesis by (intro refused) auto
qed

subsection \<open>P2 and P3\<close>

definition P2_accepted ::
    "core_lib \<Rightarrow> suite \<Rightarrow> message \<Rightarrow> uav \<Rightarrow> p3_session \<Rightarrow> bytes \<Rightarrow> bytes \<Rightarrow> bytes \<Rightarrow> bool" where
  "P2_accepted C S p2 u s n epk inputP2 \<longleftrightarrow>
     m_type p2 = P3_P2_PEER_RESPONSE \<and> msg_get p2 NONCE_2 = Some n \<and> msg_get p2 EPK_B = Some epk \<and>
     om_find (uv_peers u) (m_senderId p2) = Some s \<and> p3_initiator s \<and> length epk = kX25519KeyLen \<and>
     macInput C (m_suiteId p2) P3_P2_PEER_RESPONSE (signed_P2 (encodeId C (p3_localId s))
       (encodeId C (p3_peerId s)) (p3_nonceLocal s) n (p3_epkLocal s) epk) = Some inputP2 \<and>
     (\<exists>tag. msg_get p2 MAC_TAG = Some tag \<and> su_macVerify S (p3_authKey s) inputP2 tag = Some True)"

definition P3_accepted :: "core_lib \<Rightarrow> suite \<Rightarrow> message \<Rightarrow> uav \<Rightarrow> p3_session \<Rightarrow> bool" where
  "P3_accepted C S p3 u s \<longleftrightarrow>
     m_type p3 = P3_P3_PEER_COMPLETE \<and> om_find (uv_peers u) (m_senderId p3) = Some s \<and> \<not> p3_initiator s \<and>
     (\<exists>inputP3 tag. macInput C (m_suiteId p3) P3_P3_PEER_COMPLETE Map.empty = Some inputP3 \<and>
        msg_get p3 MAC_TAG = Some tag \<and>
        su_macVerify S (p3_authKey s) (inputP3 @ p3_p1Encoded s @ p3_p2Encoded s) tag = Some True)"

lemma uav_handleP3_keyed:
  assumes "P3_accepted C S p3 u s"
    and "x25519Derive L (kp_secret (p3_ephemeral s)) (p3_epkRemote s) = (True, z)"
    and "su_kdf S (cred_at (p3_peerId s) u @ z) (p3_p1Encoded s @ p3_p2Encoded s) kPeerSess [] (su_keyLen S) = Some k"
  shows "uav_handleP3 C L S p3 u =
    Some (done_quiet, uav_put_peer (m_senderId p3) (p3_keyed k s) (cred_insert (p3_peerId s) u))"
  using assms by (auto simp: P3_accepted_def uav_handleP3_def msg_get_has)

lemma uav_handleP3_cases:
  assumes "uav_handleP3 C L S p3 u = Some (r, u')"
  obtains (refused) "\<not> sr_ok r" "u' = u"
  | (keyed) s z k where "r = done_quiet" "P3_accepted C S p3 u s"
      "x25519Derive L (kp_secret (p3_ephemeral s)) (p3_epkRemote s) = (True, z)"
      "su_kdf S (cred_at (p3_peerId s) u @ z) (p3_p1Encoded s @ p3_p2Encoded s) kPeerSess [] (su_keyLen S) = Some k"
      "u' = uav_put_peer (m_senderId p3) (p3_keyed k s) (cred_insert (p3_peerId s) u)"
proof -
  consider "\<not> sr_ok r \<and> u' = u" | s where "om_find (uv_peers u) (m_senderId p3) = Some s"
      "m_type p3 = P3_P3_PEER_COMPLETE" "\<not> p3_initiator s" "msg_has p3 MAC_TAG"
    using assms by (cases "om_find (uv_peers u) (m_senderId p3)") (auto simp: uav_handleP3_def split: if_splits)
  then show thesis
  proof cases
    case 1
    then show thesis using refused by blast
  next
    case (2 s)
    obtain ok z where dh: "x25519Derive L (kp_secret (p3_ephemeral s)) (p3_epkRemote s) = (ok, z)" by fastforce
    show thesis
      using assms 2 dh refused keyed [of s z]
      by (cases ok) (auto simp: uav_handleP3_def P3_accepted_def Option.bind_eq_Some_conv split: if_splits)
  qed
qed

lemma uav_handleP2_heard:
  assumes "m_type p2 = P3_P2_PEER_RESPONSE" "om_find (uv_peers u) (m_senderId p2) = Some s" "p3_initiator s"
    "msg_get p2 NONCE_2 = Some n" "msg_get p2 EPK_B = Some epk" "msg_get p2 MAC_TAG = Some tag"
  shows "uav_handleP2 C L S p2 u =
    (let u = uav_put_peer (m_senderId p2) (p3_heard n epk s) u
     in if length epk \<noteq> kX25519KeyLen then Some (fail MalformedField, u)
        else do {
          inputP2 \<leftarrow> macInput C (m_suiteId p2) P3_P2_PEER_RESPONSE (signed_P2 (encodeId C (p3_localId s))
            (encodeId C (p3_peerId s)) (p3_nonceLocal s) n (p3_epkLocal s) epk);
          macOk \<leftarrow> su_macVerify S (p3_authKey s) inputP2 tag;
          (if \<not> macOk then Some (fail MacVerifyFailed, u)
           else uav_peer_confirm C L S p2 s n epk inputP2 u) })"
  using assms by (simp add: uav_handleP2_def msg_get_has p3_heard_def Let_def)

lemma uav_handleP2_keyed:
  assumes "P2_accepted C S p2 u s n epk inputP2"
    and "x25519Derive L (kp_secret (p3_ephemeral s)) epk = (True, z)"
    and "su_kdf S (cred_at (p3_peerId s) u @ z) (p3_p1Encoded s @ inputP2) kPeerSess [] (su_keyLen S) = Some k"
    and "macInput C (m_suiteId p2) P3_P3_PEER_COMPLETE Map.empty = Some inputP3"
    and "su_mac S (p3_authKey s) (inputP3 @ p3_p1Encoded s @ inputP2) = Some tag3"
  shows "uav_handleP2 C L S p2 u = Some (done_reply (msg_set MAC_TAG tag3
      (emptyMessage\<lparr>m_type := P3_P3_PEER_COMPLETE, m_suiteId := m_suiteId p2,
        m_senderId := p3_localId s, m_receiverId := p3_peerId s\<rparr>)),
    uav_put_peer (m_senderId p2) (p3_keyed k ((p3_heard n epk s)\<lparr>p3_p2Encoded := inputP2\<rparr>))
      (cred_insert (p3_peerId s) (uav_put_peer (m_senderId p2) (p3_heard n epk s) u)))"
  using assms
  by (auto simp: P2_accepted_def uav_handleP2_heard uav_peer_confirm_def Let_def cred_at_def)

lemma uav_peer_confirm_cases:
  assumes "uav_peer_confirm C L S p2 s n epk inputP2 u = Some (r, u')"
  obtains (no_dh) "r = fail DhFailed" "\<not> fst (x25519Derive L (kp_secret (p3_ephemeral s)) epk)"
      "u' = uav_put_peer (m_senderId p2) ((p3_heard n epk s)\<lparr>p3_p2Encoded := inputP2\<rparr>) u"
  | (keyed) z k m where "r = done_reply m"
      "x25519Derive L (kp_secret (p3_ephemeral s)) epk = (True, z)"
      "su_kdf S (cred_at (p3_peerId s) u @ z) (p3_p1Encoded s @ inputP2) kPeerSess [] (su_keyLen S) = Some k"
      "u' = uav_put_peer (m_senderId p2) (p3_keyed k ((p3_heard n epk s)\<lparr>p3_p2Encoded := inputP2\<rparr>))
        (cred_insert (p3_peerId s) u)"
proof -
  obtain ok z where dh: "x25519Derive L (kp_secret (p3_ephemeral s)) epk = (ok, z)" by fastforce
  show thesis
    using assms dh no_dh keyed
    by (cases ok) (auto simp: uav_peer_confirm_def Let_def Option.bind_eq_Some_conv)
qed

lemma uav_handleP2_cases:
  assumes "uav_handleP2 C L S p2 u = Some (r, u')"
  obtains (refused) "\<not> sr_ok r" "\<not> sr_hasReply r"
      "u' = u \<or> (\<exists>s n epk. om_find (uv_peers u) (m_senderId p2) = Some s \<and> p3_initiator s \<and>
         u' = uav_put_peer (m_senderId p2) (p3_heard n epk s) u)"
  | (confirm) s n epk inputP2 where "P2_accepted C S p2 u s n epk inputP2"
      "uav_peer_confirm C L S p2 s n epk inputP2 (uav_put_peer (m_senderId p2) (p3_heard n epk s) u) = Some (r, u')"
proof -
  consider "\<not> sr_ok r \<and> \<not> sr_hasReply r \<and> u' = u" | s n epk tag where
      "om_find (uv_peers u) (m_senderId p2) = Some s" "m_type p2 = P3_P2_PEER_RESPONSE" "p3_initiator s"
      "msg_get p2 NONCE_2 = Some n" "msg_get p2 EPK_B = Some epk" "msg_get p2 MAC_TAG = Some tag"
    using assms by (cases "om_find (uv_peers u) (m_senderId p2)")
      (auto simp: uav_handleP2_def msg_get_has split: if_splits)
  then show thesis
  proof cases
    case 1
    then show thesis using refused by blast
  next
    case (2 s n epk tag)
    let ?u = "uav_put_peer (m_senderId p2) (p3_heard n epk s) u"
    consider "\<not> sr_ok r \<and> \<not> sr_hasReply r \<and> u' = ?u"
      | inputP2 where "P2_accepted C S p2 u s n epk inputP2"
          "uav_peer_confirm C L S p2 s n epk inputP2 ?u = Some (r, u')"
      using assms 2 unfolding uav_handleP2_heard [OF 2(2,1,3-6)]
      by (auto simp: P2_accepted_def Let_def Option.bind_eq_Some_conv split: if_splits)
    then show thesis using refused confirm 2(1,3) by cases blast+
  qed
qed

subsection \<open>The honest steps\<close>

context protocol_env
begin

lemma startPhase3_result:
  assumes "om_find (u2_peerCredentials (uv_phase2 u)) j = Some cred" "0 < length cred" "length cred \<le> 8160"
    and "drbg_ok L rng"
  obtains ak n seed eph rng' inputP1 tag where
    "su_kdf S cred [] kPeerAuth [] (su_keyLen S) = Some ak" "length ak = 32"
    "x25519Generate L seed = Some eph" "length (kp_public eph) = 32" "length n = 16"
    "\<exists>r. drbg_bytes L kNonceLen rng = Some (n, r)" "drbg_ok L rng'"
    "macInput C (suiteIdValue (su_id S)) P3_P1_PEER_REQUEST (signed_P1 (encodeId C (uv_id u)) (encodeId C j) n
       (encodeTimestamp C now) (kp_public eph)) = Some inputP1" "length inputP1 \<le> 4096"
    "su_mac S ak inputP1 = Some tag"
    "startPhase3 C L S j now rng u = Some (done_reply (msg_set MAC_TAG tag
       (P1_body C (suiteIdValue (su_id S)) (uv_id u) j n now (kp_public eph))), rng',
       uav_put_peer j (p3_empty\<lparr>p3_localId := uv_id u, p3_peerId := j, p3_initiator := True,
         p3_authKey := ak, p3_nonceLocal := n, p3_ephemeral := eph, p3_epkLocal := kp_public eph,
         p3_p1Encoded := inputP1\<rparr>) u)"
proof -
  obtain ak where k: "su_kdf S cred [] kPeerAuth [] (su_keyLen S) = Some ak" "length ak = 32"
    using auth_key [of cred kPeerAuth "[]"] assms(2,3) by auto
  obtain n rng1 seed rng2 eph where e: "drbg_bytes L kNonceLen rng = Some (n, rng1)"
    "drbg_bytes L 32 rng1 = Some (seed, rng2)" "x25519Generate L seed = Some eph"
    "drbg_ok L rng2" "length n = 16" "length (kp_public eph) = 32"
    by (rule nonce_eph [OF assms(4)])
  let ?f = "signed_P1 (encodeId C (uv_id u)) (encodeId C j) n (encodeTimestamp C now) (kp_public eph)"
  have "short ?f" using e by (simp add: short_defs)
  then obtain inputP1 where i: "macInput C (suiteIdValue (su_id S)) P3_P1_PEER_REQUEST ?f = Some inputP1"
    "length inputP1 \<le> 4096" using macInput_short by blast
  obtain tag where t: "su_mac S ak inputP1 = Some tag" using mac_some [OF k(2)] by blast
  show thesis
    by (rule that [OF k e(3,6,5) _ e(4) i t])
      (use assms(1) k e i t in \<open>simp_all add: startPhase3_def P1_body_def msg_set_def Let_def\<close>)
qed

lemma uav_peer_respond_result:
  assumes "length ak = 32" "length nr = 16" "length epkA = 32" "drbg_ok L rng"
  obtains n seed eph rng' inputP2 tag where
    "x25519Generate L seed = Some eph" "length (kp_public eph) = 32" "length n = 16" "drbg_ok L rng'"
    "macInput C (m_suiteId p1) P3_P2_PEER_RESPONSE (signed_P2 (encodeId C i) (encodeId C (uv_id u)) nr n
       epkA (kp_public eph)) = Some inputP2" "length inputP2 \<le> 4096" "su_mac S ak inputP2 = Some tag"
    "uav_peer_respond C L S p1 i nr epkA ak inputP1 rng u = Some (done_reply (msg_set MAC_TAG tag
       (P2_body (m_suiteId p1) (uv_id u) i n (kp_public eph))), rng',
       uav_put_peer i (p3_empty\<lparr>p3_localId := uv_id u, p3_peerId := i, p3_initiator := False,
           p3_authKey := ak, p3_nonceRemote := nr, p3_epkRemote := epkA,
           p3_nonceLocal := n, p3_ephemeral := eph, p3_epkLocal := kp_public eph,
           p3_p1Encoded := inputP1, p3_p2Encoded := inputP2\<rparr>) u)"
proof -
  obtain n rng1 seed rng2 eph where e: "drbg_bytes L kNonceLen rng = Some (n, rng1)"
    "drbg_bytes L 32 rng1 = Some (seed, rng2)" "x25519Generate L seed = Some eph"
    "drbg_ok L rng2" "length n = 16" "length (kp_public eph) = 32"
    by (rule nonce_eph [OF assms(4)])
  let ?f = "signed_P2 (encodeId C i) (encodeId C (uv_id u)) nr n epkA (kp_public eph)"
  have "short ?f" using e assms by (simp add: short_defs)
  then obtain inputP2 where i: "macInput C (m_suiteId p1) P3_P2_PEER_RESPONSE ?f = Some inputP2"
    "length inputP2 \<le> 4096" using macInput_short by blast
  obtain tag where t: "su_mac S ak inputP2 = Some tag" using mac_some [OF assms(1)] by blast
  show thesis
    by (rule that [OF e(3,6,5,4) i t])
      (use e i t in \<open>simp add: uav_peer_respond_def P2_body_def msg_set_def Let_def\<close>)
qed

lemma macInput_P3: "\<exists>i. macInput C s P3_P3_PEER_COMPLETE Map.empty = Some i"
  using macInput_short [of Map.empty] by (auto simp: short_def)

lemma peer_key:
  assumes "0 < length cred" "length cred \<le> 8160" "length z = 32" "length tr \<le> 65535"
  shows "\<exists>k. su_kdf S (cred @ z) tr kPeerSess [] (su_keyLen S) = Some k \<and> length k = 32"
  using auth_key [of "cred @ z" kPeerSess tr] assms by simp

end

end
