(* ===== verification/Phase2.thy ===== *)
theory Phase2
  imports Ground_Station Uav
begin

text \<open>
  Enrollment and the authentication handshake between \<open>UavProtocol\<close> and \<open>GroundStationProtocol\<close>,
  composed as the nodes compose them: a reply is handed to the other side.
\<close>

subsection \<open>The handshake\<close>

text \<open>Each reply goes to the peer (\<open>UavNode::handleMessage\<close>, \<open>GroundStationNode::handleMessage\<close>);
  a step that is not \<open>ok\<close> ends it.  The four clock readings are those of the receivers.\<close>

definition phase2_run ::
    "core_lib \<Rightarrow> ossl \<Rightarrow> suite \<Rightarrow> puf \<Rightarrow> u32 \<times> u32 \<times> u32 \<Rightarrow> drbg \<times> uav \<Rightarrow> drbg \<times> gs \<Rightarrow>
     ((drbg \<times> uav) \<times> (drbg \<times> gs)) option" where
  "phase2_run C L S P = (\<lambda>(t1, t2, t3) (urng, u) (grng, g). do {
     (r1, urng, u) \<leftarrow> startPhase2 C L S P t1 urng u;
     require (sr_ok r1 \<and> sr_hasReply r1);
     (r2, grng, g) \<leftarrow> gs_handleM1 C L S (sr_reply r1) t2 grng g;
     require (sr_ok r2 \<and> sr_hasReply r2);
     (r3, u) \<leftarrow> uav_handleM2 C L S (sr_reply r2) t3 u;
     require (sr_ok r3 \<and> sr_hasReply r3);
     (r4, g) \<leftarrow> gs_handleM3 C L S (sr_reply r3) g;
     require (sr_ok r4 \<and> sr_hasReply r4);
     (r5, u) \<leftarrow> uav_handleM4 C S (sr_reply r4) u;
     require (sr_ok r5);
     Some ((urng, u), (grng, g)) })"

lemma msg_get_bodies:
  "msg_get (M1_body C s i tid n t e) = [TID \<mapsto> tid, NONCE_1 \<mapsto> n, TIMESTAMP \<mapsto> encodeTimestamp C t, EPK_A \<mapsto> e]"
  "msg_get (M2_body C s i n t e) = [NONCE_2 \<mapsto> n, TIMESTAMP \<mapsto> encodeTimestamp C t, EPK_B \<mapsto> e]"
  "msg_get (M3_body s i tid) = [TID \<mapsto> tid]"
  "msg_get (M4_message s i n c) = [AEAD_NONCE \<mapsto> n, CRED_PKG \<mapsto> c]"
  by (auto simp: M1_body_def M2_body_def M3_body_def M4_message_def msg_set_def msg_get_def
      emptyMessage_def fun_eq_iff)

lemma bodies_simps [simp]:
  "m_type (M1_body C s i tid n t e) = P2_M1_AUTH_REQUEST" "m_suiteId (M1_body C s i tid n t e) = s"
  "m_type (M2_body C s i n t e) = P2_M2_GS_RESPONSE" "m_suiteId (M2_body C s i n t e) = s"
  "m_type (M3_body s i tid) = P2_M3_UAV_CONFIRM" "m_suiteId (M3_body s i tid) = s"
  "m_type (M4_message s i n c) = P2_M4_GS_CONFIRM" "m_suiteId (M4_message s i n c) = s"
  "m_type (msg_set f v m) = m_type m" "m_suiteId (msg_set f v m) = m_suiteId m"
  "m_senderId (msg_set f v m) = m_senderId m"
  by (simp_all add: M1_body_def M2_body_def M3_body_def M4_message_def msg_set_def)

lemma msg_get_set': "msg_get (msg_set i v m) = (msg_get m)(i \<mapsto> v)"
  by (auto simp: fun_eq_iff)

lemmas msg_simps = msg_get_set' msg_get_bodies msg_get_has

text \<open>What both sides hold after a run.\<close>

definition phase2_agreed :: "core_lib \<Rightarrow> suite \<Rightarrow> uav \<Rightarrow> gs \<Rightarrow> device_record \<Rightarrow> uav \<Rightarrow> gs \<Rightarrow> bool" where
  "phase2_agreed C S u g rec u' g' \<longleftrightarrow> (\<exists>k tidNew s.
     length k = 32 \<and> u2_established (uv_phase2 u') \<and> u2_sessionKey (uv_phase2 u') = k \<and>
     sessionKeyFor (dr_uavId rec) g' = Some k \<and>
     om_find (gs_sessions g') (dr_uavId rec) = Some s \<and> g2_m3Verified s \<and>
     u2_transcript (uv_phase2 u') = g2_transcript s \<and>
     u2_ephemeralErased (uv_phase2 u') \<and> kp_secret (u2_ephemeral (uv_phase2 u')) = [] \<and>
     g2_ephemeralErased s \<and> kp_secret (g2_ephemeral s) = [] \<and>
     u2_peerCredentials (uv_phase2 u') = other_creds C S (gs_masterKey g) (dr_uavId rec) (gs_devices g) \<and>
     u2_peerTids (uv_phase2 u') = other_tids (dr_uavId rec) (gs_devices g) \<and>
     length tidNew = 16 \<and> uv_state u' = (uv_state u)\<lparr>ds_tid := tidNew\<rparr> \<and>
     gs_devices g' = om_set (dr_uavId rec) (rec\<lparr>dr_pendingTid := tidNew\<rparr>) (gs_devices g) \<and>
     uv_id u' = uv_id u \<and> uv_peers u' = uv_peers u \<and> gs_masterKey g' = gs_masterKey g)"

text \<open>The situation when M2 is under way: what both sides hold, and the message.\<close>

definition uav_waiting :: "bytes \<Rightarrow> u32 \<Rightarrow> bytes \<Rightarrow> bytes \<Rightarrow> bytes \<Rightarrow> x25519_pair \<Rightarrow> bytes \<Rightarrow> p2_uav" where
  "uav_waiting mk t1 tid ak n1 eph input1 =
     p2_uav_empty\<lparr>u2_mk := mk, u2_authKey := ak, u2_n1 := n1, u2_t1 := t1,
       u2_tidAtRequest := tid, u2_ephemeral := eph, u2_transcript := input1\<rparr>"

definition M2_under_way ::
    "core_lib \<Rightarrow> ossl \<Rightarrow> suite \<Rightarrow> u32 \<Rightarrow> u32 \<Rightarrow> uav \<Rightarrow> gs \<Rightarrow> device_record \<Rightarrow> bytes \<Rightarrow> bytes \<Rightarrow> bytes \<Rightarrow> x25519_pair \<Rightarrow> x25519_pair \<Rightarrow>
     bytes \<Rightarrow> bytes \<Rightarrow> bytes \<Rightarrow> uav \<Rightarrow> gs \<Rightarrow> message \<Rightarrow> bool" where
  "M2_under_way C L S t1 t2 u g rec ak n1 n2 eph eph2 input1 input2 tag2 u1 g2 m2 \<longleftrightarrow>
     length ak = 32 \<and> length (kp_public eph2) = 32 \<and> length n2 = 16 \<and>
     (\<exists>seed seed2. x25519Generate L seed = Some eph \<and> x25519Generate L seed2 = Some eph2) \<and>
     macInput C (suiteIdValue (su_id S)) P2_M2_GS_RESPONSE (signed_M2 (ds_tid (uv_state u)) n1 n2
       (encodeTimestamp C t2) (kp_public eph) (kp_public eph2)) = Some input2 \<and>
     su_mac S ak input2 = Some tag2 \<and>
     u1 = u\<lparr>uv_phase2 := uav_waiting (dr_mk rec) t1 (ds_tid (uv_state u)) ak n1 eph input1\<rparr> \<and>
     g2 = (gs_offered n1 g)\<lparr>gs_sessions := om_set (dr_uavId rec)
       (gs_session (dr_uavId rec) ak n1 t1 (kp_public eph) n2 t2 eph2 (input1 @ input2)) (gs_sessions g)\<rparr> \<and>
     m2 = msg_set MAC_TAG tag2 (M2_body C (suiteIdValue (su_id S)) (dr_uavId rec) n2 t2 (kp_public eph2)) \<and>
     gs_inv g2"

text \<open>A field reading that reproduces the enrolled response up to the repetition code: per code bit,
  fewer than half of its copies differ.\<close>

definition reading_agrees :: "core_lib \<Rightarrow> puf \<Rightarrow> fe_params \<Rightarrow> bytes \<Rightarrow> drbg \<Rightarrow> drbg \<Rightarrow> bool" where
  "reading_agrees C P p ch rng rng1 \<longleftrightarrow> (\<exists>response noisy.
     pf_ideal P ch (requiredPufBits p) = Some response \<and>
     pf_noisy P ch (requiredPufBits p) rng = Some (noisy, rng1) \<and> length noisy = length response \<and>
     copies_agree C noisy response (fp_numBlocks p * fp_blockBits p) (fp_repFactor p))"

context protocol_env
begin

lemma other_tids_unpacked:
  assumes "om_wf ds"
  shows "map (\<lambda>(k, c). (k, tid_or_empty (other_tids own ds) k)) (other_creds C S mk own ds) = other_tids own ds"
proof -
  have "tid_or_empty (other_tids own ds) k = dr_tid r" if "(k, r) \<in> set ds" "k \<noteq> own" for k r
    using tid_or_empty_other [OF assms that] .
  then show ?thesis by (auto simp: other_creds_def other_tids_def)
qed

text \<open>What goes over the wire can be encoded: the fields of M1 to M3 have fixed sizes; the package
  of M4 has 54 bytes per other device and 36 in addition.\<close>

lemma encodes_fit: "fields_fit (m_fields m) \<Longrightarrow> \<exists>b. msg_encode C m = Some b"
  using encode_fits by (auto simp: msg_encode_def)

lemma encodes_short: "short (m_fields m) \<Longrightarrow> \<exists>b. msg_encode C m = Some b"
  using wireBytes_short [of m] by (auto simp: msg_wireBytes_def)

lemma pack_entries_length:
  "pack_entries C tids m = Some b \<Longrightarrow> \<forall>(k, c) \<in> set m. length c = 32 \<and> length (tid_or_empty tids k) = 16 \<Longrightarrow>
   length b = 54 * length m"
  by (induction m arbitrary: b) (auto simp: Option.bind_eq_Some_conv lengthPrefixed)

lemma package_length:
  assumes "gs_inv g" "length tidNew = 16" "packCredentials C (other_creds C S (gs_masterKey g) own (gs_devices g))
      (other_tids own (gs_devices g)) tidNew = Some pt"
  shows "length pt \<le> 54 * length (gs_devices g) + 20"
proof -
  let ?cr = "other_creds C S (gs_masterKey g) own (gs_devices g)" and ?ti = "other_tids own (gs_devices g)"
  have d: "\<forall>k r. om_find (gs_devices g) k = Some r \<longrightarrow> device_ok k r" "om_wf (gs_devices g)"
    "length (gs_masterKey g) = 32" using assms(1) by (simp_all add: gs_inv_def)
  obtain body where b: "pack_entries C ?ti ?cr = Some body" "length pt = length body + 20"
    using assms(2,3) by (auto simp: packCredentials_def Option.bind_eq_Some_conv lengthPrefixed)
  have "\<forall>(k, c) \<in> set ?cr. length c = 32 \<and> length (tid_or_empty ?ti k) = 16"
    using other_entries [OF d] by blast
  from pack_entries_length [OF b(1) this] b(2) show ?thesis
    by (simp add: other_creds_def)
qed

lemma M4_encodes:
  assumes "gs_inv g" "length (gs_devices g) \<le> 1200" "length tidNew = 16"
    and "packCredentials C (other_creds C S (gs_masterKey g) own (gs_devices g))
      (other_tids own (gs_devices g)) tidNew = Some pt"
    and "su_aeadSeal S (fst (kpack S kn)) (snd (kpack S kn)) aad pt [] = (True, ct)" "length kn \<le> 64"
  shows "\<exists>b. msg_encode C (M4_message s i (snd (kpack S kn)) ct) = Some b"
proof (rule encodes_fit)
  have "length ct \<le> 65535" using seal_len [OF assms(5)] package_length [OF assms(1,3,4)] assms(2) by simp
  moreover have "length (snd (kpack S kn)) \<le> 65535" using assms(6) by (simp add: kpack_def)
  ultimately show "fields_fit (m_fields (M4_message s i (snd (kpack S kn)) ct))"
    by (auto simp: fields_fit_def M4_message_def msg_set_def emptyMessage_def ran_def)
qed

lemma phase2_first_half:
  assumes inv: "gs_inv g" and rngs: "drbg_ok L rng1" "drbg_ok L grng"
    and found: "findByTid (ds_tid (uv_state u)) g = Some rec" and prov: "ds_provisioned (uv_state u)"
    and regen: "regenerateMasterKey C S P urng u = Some (Some (dr_mk rec), rng1)"
    and clock: "timestampFresh t2 t1 (gs_windowMs g)"
    and unseen: "\<forall>n r. drbg_bytes L kNonceLen rng1 = Some (n, r) \<longrightarrow> n \<notin> rc_seen (gs_replay g)"
  obtains ak n1 n2 eph eph2 input1 input2 tag2 u1 g2 m1 m2 urng' grng' where
    "M2_under_way C L S t1 t2 u g rec ak n1 n2 eph eph2 input1 input2 tag2 u1 g2 m2"
    "startPhase2 C L S P t1 urng u = Some (done_reply m1, urng', u1)"
    "gs_handleM1 C L S m1 t2 grng g = Some (done_reply m2, grng', g2)"
    "\<exists>r. drbg_bytes L kNonceLen grng = Some (n2, r)" "drbg_ok L urng'" "drbg_ok L grng'"
    "\<exists>b. msg_encode C m1 = Some b" "\<exists>b. msg_encode C m2 = Some b"
proof -
  let ?tid = "ds_tid (uv_state u)" and ?sid = "suiteIdValue (su_id S)"
  note d = findByTid_device [OF inv found]
  have mk: "0 < length (dr_mk rec)" "length (dr_mk rec) \<le> 8160" "length ?tid \<le> 64"
    using d by (simp_all add: device_ok_def)
  from startPhase2_result [OF prov regen rngs(1) mk, of t1] obtain ak n1 seed eph urng' input1 tag1 where
    m1: "su_kdf S (dr_mk rec) [] kP2Auth [] (su_keyLen S) = Some ak" "length ak = 32"
    "x25519Generate L seed = Some eph" "length (kp_public eph) = 32"
    "length n1 = 16" "\<exists>r. drbg_bytes L kNonceLen rng1 = Some (n1, r)" "drbg_ok L urng'"
    "macInput C ?sid P2_M1_AUTH_REQUEST (signed_M1 ?tid n1 (encodeTimestamp C t1) (kp_public eph)) = Some input1"
    "su_mac S ak input1 = Some tag1"
    and step1: "startPhase2 C L S P t1 urng u = Some (done_reply (msg_set MAC_TAG tag1
       (M1_body C ?sid (uv_id u) ?tid n1 t1 (kp_public eph))),
       urng', u\<lparr>uv_phase2 := uav_waiting (dr_mk rec) t1 ?tid ak n1 eph input1\<rparr>)"
    unfolding uav_waiting_def by metis
  let ?m1 = "msg_set MAC_TAG tag1 (M1_body C ?sid (uv_id u) ?tid n1 t1 (kp_public eph))"
  have "n1 \<notin> rc_seen (gs_replay g)" using unseen m1(6) by blast
  then have acc: "M1_accepted C S ?m1 t2 g rec ?tid n1 (kp_public eph) (encodeTimestamp C t1) t1 ak input1"
    using m1 found clock mac_verify_own
    by (simp add: M1_checks msg_simps kNonceLen_def kX25519KeyLen_def)
  from gs_respond_result [OF d(3) m1(5) m1(4) m1(2) rngs(2), of ?m1 t2] obtain n2 seed2 eph2 grng' input2 tag2 where
    m2: "x25519Generate L seed2 = Some eph2" "length (kp_public eph2) = 32"
    "length n2 = 16" "\<exists>r. drbg_bytes L kNonceLen grng = Some (n2, r)" "drbg_ok L grng'"
    "macInput C ?sid P2_M2_GS_RESPONSE
       (signed_M2 ?tid n1 n2 (encodeTimestamp C t2) (kp_public eph) (kp_public eph2)) = Some input2"
    "su_mac S ak input2 = Some tag2"
    and step2: "\<And>rec t1 input1 g. gs_respond C L S ?m1 t2 rec ?tid n1 (kp_public eph) t1 ak input1 grng g = Some
       (done_reply (msg_set MAC_TAG tag2 (M2_body C ?sid (dr_uavId rec) n2 t2 (kp_public eph2))),
        grng', g\<lparr>gs_sessions := om_set (dr_uavId rec)
          (gs_session (dr_uavId rec) ak n1 t1 (kp_public eph) n2 t2 eph2 (input1 @ input2)) (gs_sessions g)\<rparr>)"
    unfolding bodies_simps by metis
  note step2 = step2 [of rec t1 input1 "gs_offered n1 g", folded gs_handleM1_accepted [OF acc]]
  have "short (m_fields ?m1)" "short (m_fields (msg_set MAC_TAG tag2 (M2_body C ?sid (dr_uavId rec) n2 t2 (kp_public eph2))))"
    using mk(3) m1(4,5) m2(2,3) mac_len [OF m1(9)] mac_len [OF m2(7)]
    by (simp_all add: M1_body_def M2_body_def msg_set_def emptyMessage_def short_upd)
  note enc = encodes_short [OF this(1)] encodes_short [OF this(2)]
  show thesis
    by (rule that [of ak n1 n2 eph eph2 input1 input2 tag2, OF _ step1 step2 m2(4) m1(7) m2(5) enc])
      (use m1 m2 step2 gs_handleM1_total [OF inv rngs(2), of ?m1 t2] in
        \<open>auto simp: M2_under_way_def gs_offered_def\<close>)
qed

lemma M2_under_way_admitted:
  assumes "M2_under_way C L S t1 t2 u g rec ak n1 n2 eph eph2 input1 input2 tag2 u1 g2 m2"
    and "timestampFresh t3 t2 (uv_windowMs u)" "n2 \<notin> rc_seen (uv_replay u)"
  shows "M2_admitted C (msg_set MAC_TAG tag m2) t3 (setLegacyNoGsAuth b u1) n2 (kp_public eph2)
    (encodeTimestamp C t2) tag input2"
proof -
  have "ak \<noteq> []" using assms(1) by (auto simp: M2_under_way_def)
  then show ?thesis
    using assms by (simp add: M2_under_way_def M2_admitted_def msg_simps kNonceLen_def
        kX25519KeyLen_def uav_waiting_def setLegacyNoGsAuth_def)
qed

text \<open>From there the UAV accepts M2, the ground station M3, the UAV M4.\<close>

lemma phase2_second_half:
  assumes mid: "M2_under_way C L S t1 t2 u g rec ak n1 n2 eph eph2 input1 input2 tag2 u1 g2 m2"
    and inv: "gs_inv g" and found: "findByTid (ds_tid (uv_state u)) g = Some rec"
    and clock: "timestampFresh t3 t2 (uv_windowMs u)" and unseen: "n2 \<notin> rc_seen (uv_replay u)"
  obtains m3 m4 u3 g4 u5 where
    "uav_handleM2 C L S m2 t3 u1 = Some (done_reply m3, u3)"
    "gs_handleM3 C L S m3 g2 = Some (done_reply m4, g4)"
    "uav_handleM4 C S m4 u3 = Some (done_quiet, u5)" "phase2_agreed C S u g rec u5 g4" "gs_inv g4"
    "\<exists>b. msg_encode C m3 = Some b" "length (gs_devices g) \<le> 1200 \<Longrightarrow> \<exists>b. msg_encode C m4 = Some b"
proof -
  let ?tid = "ds_tid (uv_state u)" and ?sid = "suiteIdValue (su_id S)"
  let ?p1 = "uav_waiting (dr_mk rec) t1 ?tid ak n1 eph input1"
  let ?s = "gs_session (dr_uavId rec) ak n1 t1 (kp_public eph) n2 t2 eph2 (input1 @ input2)"
  let ?cr = "other_creds C S (gs_masterKey g) (dr_uavId rec) (gs_devices g)"
    and ?ti = "other_tids (dr_uavId rec) (gs_devices g)"
  note mid = mid [unfolded M2_under_way_def]
  have wf: "om_wf (gs_devices g)" and tid: "length ?tid \<le> 64"
    using inv findByTid_device(3) [OF inv found] by (simp_all add: gs_inv_def)
  have "ak \<noteq> []" using mid by auto
  then have acc2: "M2_admitted C m2 t3 u1 n2 (kp_public eph2) (encodeTimestamp C t2) tag2 input2"
    using mid clock unseen
    by (simp add: M2_admitted_def msg_simps kNonceLen_def kX25519KeyLen_def uav_waiting_def)
  obtain z where z: "x25519Derive L (kp_secret eph) (kp_public eph2) = (True, z)"
    "x25519Derive L (kp_secret eph2) (kp_public eph) = (True, z)"
    using x25519_honest_agree mid by blast
  obtain input3 where i3: "macInput C ?sid P2_M3_UAV_CONFIRM (signed_M3 ?tid) = Some input3"
    using macInput_M3 [OF tid] by blast
  obtain tag3 where t3: "su_mac S ak (input3 @ input1 @ input2) = Some tag3" using mac_some mid by blast
  let ?m3 = "msg_set MAC_TAG tag3 (M3_body ?sid (uv_id u) ?tid)"
  have acc3: "M3_accepted C S ?m3 g2 rec ?tid ?s"
    using mid found i3 mac_verify_own [OF t3]
    by (simp add: M3_accepted_def msg_simps gs_session_def gs_offered_def)
  have inv2: "gs_inv g2" using mid by blast
  have dh: "x25519Derive L (kp_secret (g2_ephemeral ?s)) (g2_epkA ?s) = (True, z)"
    using z(2) by (simp add: gs_session_def)
  from gs_handleM3_completes [OF acc3 inv2 dh] obtain k tidNew pt kn aad ct where
    k: "su_kdf S (dr_mk rec @ z) (input1 @ input2) kP2Sess [] (su_keyLen S) = Some k" "length k = 32"
    and tn: "length tidNew = 16" and pk: "packCredentials C ?cr ?ti tidNew = Some pt"
    and ae: "su_kdf S k [] kP2Aead [] (su_aeadKeyLen S + su_aeadNonceLen S) = Some kn"
    "macInput C ?sid P2_M4_GS_CONFIRM (aad_M4 ?tid n1 n2) = Some aad"
    "su_aeadSeal S (fst (kpack S kn)) (snd (kpack S kn)) aad pt [] = (True, ct)"
    and step4: "gs_handleM3 C L S ?m3 g2 =
       Some (done_reply (M4_message ?sid (dr_uavId rec) (snd (kpack S kn)) ct),
         g2\<lparr>gs_sessions := om_set (dr_uavId rec) (gs_session_keyed k ?s) (gs_sessions g2),
           gs_devices := om_set (dr_uavId rec) (rec\<lparr>dr_pendingTid := tidNew\<rparr>) (gs_devices g2)\<rparr>)"
    and inv4: "gs_inv (g2\<lparr>gs_sessions := om_set (dr_uavId rec) (gs_session_keyed k ?s) (gs_sessions g2),
           gs_devices := om_set (dr_uavId rec) (rec\<lparr>dr_pendingTid := tidNew\<rparr>) (gs_devices g2)\<rparr>)"
    using mid by (simp add: gs_session_def gs_offered_def) metis
  let ?p3 = "u2_keyed k (u2_extended n2 input2 ?p1)"
  let ?u3 = "(uav_offered n2 u1)\<lparr>uv_phase2 := ?p3\<rparr>"
  have step3: "uav_handleM2 C L S m2 t3 u1 = Some (done_reply ?m3, ?u3)"
    using uav_handleM2_admitted [OF acc2, of L S] mac_verify_own [of ak input2 tag2]
      uav_confirm_keyed [of L "uav_offered n2 u1" "kp_public eph2" z S input2 k C m2 input3 tag3 n2]
      z(1) k(1) i3 t3 mid by (simp add: uav_waiting_def)
  have "unpackCredentials C pt = Some (?cr, ?ti, tidNew)"
    using unpack_pack [OF packable_other [OF inv tn]] pk other_tids_unpacked [OF wf]
    by (metis (no_types, lifting) append_Nil2 option.inject)
  moreover have "k \<noteq> []" "tidNew \<noteq> []" using k(2) tn by auto
  ultimately have step5: "uav_handleM4 C S (M4_message ?sid (dr_uavId rec) (snd (kpack S kn)) ct) ?u3 =
      Some (done_quiet, ?u3\<lparr>uv_phase2 := ?p3\<lparr>u2_peerCredentials := ?cr, u2_peerTids := ?ti,
        u2_established := True\<rparr>, uv_state := (uv_state u)\<lparr>ds_tid := tidNew\<rparr>\<rparr>)" (is "_ = Some (_, ?u5)")
    using uav_handleM4_Some [of ?u3 "M4_message ?sid (dr_uavId rec) (snd (kpack S kn)) ct" ct S kn C aad pt]
      ae(1,2) open_sealed [OF ae(3)] mid
    by (simp add: msg_simps u2_keyed_def u2_extended_def uav_waiting_def)
  have "phase2_agreed C S u g rec ?u5 (g2\<lparr>gs_sessions := om_set (dr_uavId rec) (gs_session_keyed k ?s) (gs_sessions g2),
           gs_devices := om_set (dr_uavId rec) (rec\<lparr>dr_pendingTid := tidNew\<rparr>) (gs_devices g2)\<rparr>)"
    using k(2) tn mid \<open>k \<noteq> []\<close> unfolding phase2_agreed_def
    by (intro exI [of _ k] exI [of _ tidNew] exI [of _ "gs_session_keyed k ?s"])
      (simp add: sessionKeyFor_def gs_session_keyed_def u2_keyed_def u2_extended_def gs_session_def
        gs_offered_def uav_waiting_def)
  moreover have "short (m_fields ?m3)"
    using tid mac_len [OF t3] by (simp add: M3_body_def msg_set_def emptyMessage_def short_upd)
  moreover have "length kn \<le> 64"
    using kdf_len [OF ae(1)] aead_lens by simp
  ultimately show thesis
    using that [OF step3 step4 step5 _ inv4 encodes_short M4_encodes [OF inv _ tn pk ae(3)]] by blast
qed

lemma phase2_run_honest:
  assumes inv: "gs_inv g" and rngs: "drbg_ok L rng1" "drbg_ok L grng"
    and found: "findByTid (ds_tid (uv_state u)) g = Some rec" and prov: "ds_provisioned (uv_state u)"
    and regen: "regenerateMasterKey C S P urng u = Some (Some (dr_mk rec), rng1)"
    and clocks: "timestampFresh t2 t1 (gs_windowMs g)" "timestampFresh t3 t2 (uv_windowMs u)"
    and unseen: "\<forall>n r. drbg_bytes L kNonceLen rng1 = Some (n, r) \<longrightarrow> n \<notin> rc_seen (gs_replay g)"
      "\<forall>n r. drbg_bytes L kNonceLen grng = Some (n, r) \<longrightarrow> n \<notin> rc_seen (uv_replay u)"
  shows "\<exists>urng' u' grng' g'. phase2_run C L S P (t1, t2, t3) (urng, u) (grng, g) = Some ((urng', u'), (grng', g')) \<and>
    phase2_agreed C S u g rec u' g' \<and> gs_inv g' \<and> drbg_ok L urng' \<and> drbg_ok L grng'"
proof (rule phase2_first_half [OF inv rngs found prov regen clocks(1) unseen(1)])
  fix ak n1 n2 eph eph2 input1 input2 tag2 u1 g2 m1 m2 urng' grng'
  assume h: "M2_under_way C L S t1 t2 u g rec ak n1 n2 eph eph2 input1 input2 tag2 u1 g2 m2"
    "startPhase2 C L S P t1 urng u = Some (done_reply m1, urng', u1)"
    "gs_handleM1 C L S m1 t2 grng g = Some (done_reply m2, grng', g2)"
    "\<exists>r. drbg_bytes L kNonceLen grng = Some (n2, r)" "drbg_ok L urng'" "drbg_ok L grng'"
  have "n2 \<notin> rc_seen (uv_replay u)" using unseen(2) h(4) by blast
  from phase2_second_half [OF h(1) inv found clocks(2) this] obtain m3 m4 u3 g4 u5 where
    "uav_handleM2 C L S m2 t3 u1 = Some (done_reply m3, u3)"
    "gs_handleM3 C L S m3 g2 = Some (done_reply m4, g4)"
    "uav_handleM4 C S m4 u3 = Some (done_quiet, u5)" and r: "phase2_agreed C S u g rec u5 g4" "gs_inv g4" .
  then have "phase2_run C L S P (t1, t2, t3) (urng, u) (grng, g) = Some ((urng', u5), (grng', g4))"
    using h(2,3) by (simp add: phase2_run_def)
  with r h(5,6) show ?thesis by blast
qed

subsubsection \<open>Enrollment and regeneration\<close>

lemma enroll_Some:
  assumes "enroll C L S i P rng g = Some (Some (rec, st), rng', g')"
  obtains f ch rng1 response seed gen tid where
    "fe_new (gs_feParams g) = Some f" "drbg_bytes L 16 rng = Some (ch, rng1)"
    "pf_ideal P ch (requiredPufBits (gs_feParams g)) = Some response"
    "drbg_bytes L (fp_seedBytes (gs_feParams g)) rng1 = Some (seed, rng')"
    "fe_gen C S f response seed = Some gen"
    "su_kdf S (gr_mk gen) [] kTidRotate (u16be C (word_of_int i)) kTidLen = Some tid"
    "rec = device_record_empty\<lparr>dr_uavId := i, dr_challenge := ch, dr_helper := gr_helper gen,
       dr_mk := gr_mk gen, dr_tid := tid, dr_enrolled := True\<rparr>"
    "st = \<lparr>ds_uavId = i, ds_tid = tid, ds_challenge = ch, ds_helper = gr_helper gen, ds_provisioned = True\<rparr>"
    "g' = g\<lparr>gs_devices := om_set i rec (gs_devices g)\<rparr>"
proof -
  obtain f where f: "fe_new (gs_feParams g) = Some f"
    using assms by (auto simp: enroll_def Option.bind_eq_Some_conv)
  with assms fe_new_Some(1) [OF f] that [OF f] show thesis
    by (auto simp: enroll_def Let_def Option.bind_eq_Some_conv split: if_splits)
qed

lemma enroll_total:
  assumes "puf_model C L P" "fe_new (gs_feParams g) = Some f" "fe_sizes (gs_feParams g)"
    and "8 \<le> fp_keyBits (gs_feParams g)"
    and "requiredPufBits (gs_feParams g) \<le> kMaxResponseBits" "drbg_ok L rng"
  shows "\<exists>rec st rng' g'. enroll C L S i P rng g = Some (Some (rec, st), rng', g')"
proof -
  note fp = fe_new_Some(1) [OF assms(2)]
  note fz = fuzzyI [OF core_laws_axioms crypto_suite_axioms assms(2,3)]
  obtain ch rng1 where c: "drbg_bytes L 16 rng = Some (ch, rng1)" "drbg_ok L rng1" and ch: "length ch \<le> 65535"
    using drbg_bytes_ok [OF assms(6), of 16] by auto
  obtain response where r: "pf_ideal P ch (requiredPufBits (gs_feParams g)) = Some response"
    using puf_model.ideal_total [OF assms(1,5) ch] by blast
  then have rl: "length response = bytesForBits C (requiredPufBits (gs_feParams g))"
    using puf_model.ideal_len [OF assms(1)] by blast
  obtain seed rng2 where s: "drbg_bytes L (fp_seedBytes (gs_feParams g)) rng1 = Some (seed, rng2)"
    "length seed = fp_seedBytes (gs_feParams g)"
    using drbg_bytes_ok [OF c(2)] by blast
  obtain gen where gen: "fe_gen C S f response seed = Some gen" "gr_ok gen"
    using fuzzy.fe_gen_result [OF fz, of seed response] s(2) rl fp by fastforce
  have mk: "length (gr_mk gen) = fp_keyBits (gs_feParams g) div 8"
    using fe_gen_key_length [OF gen(1)] fp by simp
  have "fp_keyBits (gs_feParams g) \<le> 65280" using assms(3) by (simp add: fe_sizes_def)
  then have "0 < length (gr_mk gen)" "length (gr_mk gen) \<le> 65535" using mk assms(4) by linarith+
  then obtain tid where "su_kdf S (gr_mk gen) [] kTidRotate (u16be C (word_of_int i)) kTidLen = Some tid"
    using kdf_some [of "gr_mk gen" "[]" kTidRotate "u16be C (word_of_int i)" kTidLen]
    by (auto simp: u16be kTidLen_def)
  with assms(2) c(1) r s(1) gen fp show ?thesis by (simp add: enroll_def Let_def)
qed

text \<open>A device with the enrolled state whose reading agrees regenerates the enrolled key.\<close>

lemma regenerate_enrolled:
  assumes "puf_model C L P" "fe_sizes (gs_feParams g)"
    and "enroll C L S i P rng g = Some (Some (rec, st), rng', g')"
    and "uv_feParams u = gs_feParams g" "uv_state u = st"
    and "reading_agrees C P (gs_feParams g) (dr_challenge rec) urng urng1"
  shows "regenerateMasterKey C S P urng u = Some (Some (dr_mk rec), urng1)"
proof -
  obtain f ch rng1 response seed gen tid where e: "fe_new (gs_feParams g) = Some f"
    "pf_ideal P ch (requiredPufBits (gs_feParams g)) = Some response"
    "fe_gen C S f response seed = Some gen"
    "rec = device_record_empty\<lparr>dr_uavId := i, dr_challenge := ch, dr_helper := gr_helper gen,
       dr_mk := gr_mk gen, dr_tid := tid, dr_enrolled := True\<rparr>"
    "st = \<lparr>ds_uavId = i, ds_tid = tid, ds_challenge = ch, ds_helper = gr_helper gen, ds_provisioned = True\<rparr>"
    by (rule enroll_Some [OF assms(3)])
  note fp = fe_new_Some(1) [OF e(1)]
  note fz = fuzzyI [OF core_laws_axioms crypto_suite_axioms e(1) assms(2)]
  obtain noisy where n: "pf_noisy P ch (requiredPufBits (gs_feParams g)) urng = Some (noisy, urng1)"
    "length noisy = length response"
    "copies_agree C noisy response (fp_numBlocks (gs_feParams g) * fp_blockBits (gs_feParams g))
       (fp_repFactor (gs_feParams g))"
    using assms(6) e(2,4) by (auto simp: reading_agrees_def)
  have "length seed = fp_seedBytes (gs_feParams g)" "length response = bytesForBits C (requiredPufBits (gs_feParams g))"
    using e(3) fp by (auto simp: fe_gen_def Let_def split: if_splits)
  from fuzzy.fe_rep_own [OF fz, unfolded fp, OF this n(2,3)] e(3)
  have "\<exists>rep. fe_rep C S f noisy (gr_helper gen) = Some rep \<and> rr_ok rep \<and> rr_mk rep = gr_mk gen" by auto
  with e n(1) assms(4,5) fp show ?thesis by (auto simp: regenerateMasterKey_def)
qed

lemma findByTid_enrolled:
  assumes "om_wf (gs_devices g)" "findByTid tid g = None" "dr_tid rec = tid"
  shows "findByTid tid (g\<lparr>gs_devices := om_set i rec (gs_devices g)\<rparr>) = Some rec"
proof -
  have "tid_matches tid rec" using assms(3) by (simp add: tid_matches_def)
  moreover have "find (tid_matches tid) (map snd ds) = None \<Longrightarrow>
      find (tid_matches tid) (map snd (om_set i rec ds)) =
        (if tid_matches tid rec then Some rec else None)" for ds
    by (induction ds) (auto split: if_splits)
  ultimately show ?thesis using assms(2) by (simp add: findByTid_def)
qed

end

context protocol_env
begin

text \<open>What enrollment gives the handshake.\<close>

lemma enrolled:
  assumes "puf_model C L P" and "gs_reach C L S p w g0 grng0" and "fe_sizes p" "8 \<le> fp_keyBits p"
    and "0 \<le> i" "i < 65535" and "enroll C L S i P grng0 g0 = Some (Some (rec, st), grng, g)"
    and "findByTid (dr_tid rec) g0 = None" and "uv_state u = st" "uv_feParams u = p"
    and "reading_agrees C P p (dr_challenge rec) urng urng1"
  shows "gs_inv g" "drbg_ok L grng" "findByTid (ds_tid (uv_state u)) g = Some rec"
    "ds_provisioned (uv_state u)" "regenerateMasterKey C S P urng u = Some (Some (dr_mk rec), urng1)"
proof -
  have kb: "fp_keyBits p \<le> 65280" using assms(3) by (simp add: fe_sizes_def)
  have i0: "gs_inv g0" "gs_feParams g0 = p"
    using gs_reach_inv [OF protocol_env_axioms assms(4) kb assms(2)] by simp_all
  show "gs_inv g" "drbg_ok L grng"
    using gs_reach_inv [OF protocol_env_axioms assms(4) kb reach_enroll [OF assms(2,5-7)]] by simp_all
  have g: "g = g0\<lparr>gs_devices := om_set i rec (gs_devices g0)\<rparr>" and st: "ds_provisioned st" "ds_tid st = dr_tid rec"
    by (rule enroll_Some [OF assms(7)], simp)+
  show "findByTid (ds_tid (uv_state u)) g = Some rec"
    using findByTid_enrolled [OF _ assms(8), of rec i] i0(1) g st(2) assms(9) by (simp add: gs_inv_def)
  show "ds_provisioned (uv_state u)" using st(1) assms(9) by simp
  show "regenerateMasterKey C S P urng u = Some (Some (dr_mk rec), urng1)"
    using regenerate_enrolled [OF assms(1) _ assms(7) _ assms(9)] assms(3,10,11) i0(2) by simp
qed

end

lemma phase2_run_reach:
  assumes "phase2_run C L S P (t1, t2, t3) (urng, u) (grng, g) = Some ((urng', u'), (grng', g'))"
    and "gs_reach C L S p w g grng"
  shows "gs_reach C L S p w g' grng'"
proof -
  from assms(1) obtain m1 r2 g2 m3 r4 where
    "gs_handleM1 C L S m1 t2 grng g = Some (r2, grng', g2)" "gs_handleM3 C L S m3 g2 = Some (r4, g')"
    by (auto simp: phase2_run_def Option.bind_eq_Some_conv require_def split: if_splits)
  with assms(2) show ?thesis by (blast intro: reach_M1 reach_M3)
qed

subsection \<open>A concrete run\<close>

text \<open>The reference libraries, the SHA3 suite, the default profile and a noiseless keyed PUF; the
  witnesses use this run.\<close>

abbreviation "demo_suite \<equiv> sha3Suite ref_core ref_ossl False"
abbreviation "demo_puf \<equiv> idealPrfPuf ref_core ref_ossl \<lparr>ip_deviceKey = [1], ip_ber = 0\<rparr>"

lemma demo_params: "fe_sizes fe_default" "8 \<le> fp_keyBits fe_default"
  "fp_keyBits fe_default \<le> 65280" "requiredPufBits fe_default \<le> kMaxResponseBits"
  by (simp_all add: fe_default_def fe_sizes_def requiredPufBits_def kMaxResponseBits_def)

lemma demo_rng: "\<exists>rng. drbg_ok ref_ossl rng"
  using refo.drbg_reseed_total [of "[]"] by (auto simp: drbg_ok_def)

lemma noiseless_keyed_reading:
  assumes "drbg_ok ref_ossl rng" and "ip_ber k = 0"
  shows "\<exists>rng1. reading_agrees ref_core (idealPrfPuf ref_core ref_ossl k) fe_default ch rng rng1 \<and>
    drbg_ok ref_ossl rng1"
proof -
  obtain q where q: "drbg_at ref_ossl rng q" using assms(1) by (auto simp: drbg_ok_def)
  have n: "requiredPufBits fe_default \<le> kMaxResponseBits" by (rule demo_params)
  from ref_puf.ideal_evaluateNoisy_exact [OF n q, of k ch] obtain r noisy rng1 where
    r: "ideal_evaluateIdeal ref_core ref_ossl k ch (requiredPufBits fe_default) = Some r"
    "ideal_evaluateNoisy ref_core ref_ossl k ch (requiredPufBits fe_default) rng = Some (noisy, rng1)"
    "drbg_at ref_ossl rng1 (q + 2 * requiredPufBits fe_default)" by blast
  moreover have "noisy = r"
    by (rule ideal_noiseless [OF ref_core_laws refo.ossl_laws_axioms n q _ r(1,2)]) (simp add: assms(2))
  ultimately show ?thesis
    by (auto simp: reading_agrees_def idealPrfPuf_def copies_agree_def drbg_ok_def fe_default_def)
qed

lemma demo_reading:
  assumes "drbg_ok ref_ossl rng"
  shows "\<exists>rng1. reading_agrees ref_core demo_puf fe_default ch rng rng1 \<and> drbg_ok ref_ossl rng1"
  by (rule noiseless_keyed_reading [OF assms]) simp

lemma demo_enrolled:
  obtains rng g0 grng0 rec st grng g where "drbg_ok ref_ossl rng"
    "gs_new ref_ossl demo_suite fe_default 5000 rng = Some (g0, grng0)"
    "gs_reach ref_core ref_ossl demo_suite fe_default 5000 g0 grng0"
    "enroll ref_core ref_ossl demo_suite 1 demo_puf grng0 g0 = Some (Some (rec, st), grng, g)"
    "findByTid (dr_tid rec) g0 = None" "rc_seen (gs_replay g) = {}" "gs_windowMs g = 5000"
    "gs_devices g0 = []"
proof -
  obtain rng where rng: "drbg_ok ref_ossl rng" using demo_rng by blast
  obtain k grng0 where "drbg_bytes ref_ossl (su_keyLen demo_suite) rng = Some (k, grng0)"
    using refo.drbg_bytes_ok [OF rng] by blast
  then obtain g0 where g0: "gs_new ref_ossl demo_suite fe_default 5000 rng = Some (g0, grng0)"
    "gs_devices g0 = []" "rc_seen (gs_replay g0) = {}" "gs_windowMs g0 = 5000"
    by (simp add: gs_new_def rc_inv_new)
  note inv = ref_proto.gs_new_inv [OF rng g0(1)]
  obtain rec st grng g where e:
    "enroll ref_core ref_ossl demo_suite 1 demo_puf grng0 g0 = Some (Some (rec, st), grng, g)"
    using ref_proto.enroll_total [OF ref_puf.ideal.puf_model_axioms, of g0 fe_18] demo_params inv fe_18
    by metis
  have "g = g0\<lparr>gs_devices := om_set 1 rec (gs_devices g0)\<rparr>"
    by (rule ref_proto.enroll_Some [OF e])
  with that [OF rng g0(1) reach_new [OF rng g0(1)] e] g0 show thesis by (simp add: findByTid_def)
qed

lemma demo_half:
  obtains rec g grng urng u ak n1 n2 eph eph2 input1 input2 tag2 u1 g2 m1 m2 urng' grng' where
    "gs_reach ref_core ref_ossl demo_suite fe_default 5000 g grng" "gs_windowMs g = 5000"
    "findByTid (ds_tid (uv_state u)) g = Some rec" "gs_record 1 g = Some rec" "dr_uavId rec = 1"
    "startPhase2 ref_core ref_ossl demo_suite demo_puf 100 urng u = Some (done_reply m1, urng', u1)"
    "gs_handleM1 ref_core ref_ossl demo_suite m1 130 grng g = Some (done_reply m2, grng', g2)"
    "M2_under_way ref_core ref_ossl demo_suite 100 130 u g rec ak n1 n2 eph eph2 input1 input2 tag2 u1 g2 m2"
    "rc_seen (uv_replay u) = {}" "uv_windowMs u = 5000" "\<not> uv_legacyNoGsAuth u" "uv_id u = 1"
    "uv_peers u = []" "drbg_ok ref_ossl grng'" "drbg_ok ref_ossl urng'"
proof -
  obtain rng g0 grng0 rec st grng g where d: "drbg_ok ref_ossl rng"
    "gs_new ref_ossl demo_suite fe_default 5000 rng = Some (g0, grng0)"
    "gs_reach ref_core ref_ossl demo_suite fe_default 5000 g0 grng0"
    "enroll ref_core ref_ossl demo_suite 1 demo_puf grng0 g0 = Some (Some (rec, st), grng, g)"
    "findByTid (dr_tid rec) g0 = None" "rc_seen (gs_replay g) = {}" "gs_windowMs g = 5000"
    by (rule demo_enrolled)
  obtain urng1 where r: "reading_agrees ref_core demo_puf fe_default (dr_challenge rec) rng urng1"
    "drbg_ok ref_ossl urng1" using demo_reading [OF d(1)] by blast
  define u where "u = provision st (uav_new 1 fe_default 5000)"
  have u: "uv_state u = st" "uv_feParams u = fe_default" "rc_seen (uv_replay u) = {}" "uv_windowMs u = 5000"
    "\<not> uv_legacyNoGsAuth u" "uv_id u = 1" "uv_peers u = []"
    by (simp_all add: u_def provision_def uav_new_def rc_inv_new)
  have g: "gs_reach ref_core ref_ossl demo_suite fe_default 5000 g grng"
    using reach_enroll [OF d(3) _ _ d(4)] by simp
  have one: "(0::int) \<le> 1" "(1::int) < 65535" by simp_all
  note e = ref_proto.enrolled [OF ref_puf.ideal.puf_model_axioms d(3) demo_params(1,2) one d(4,5) u(1,2) r(1)]
  have "gs_record 1 g = Some rec" "dr_uavId rec = 1"
    by (rule ref_proto.enroll_Some [OF d(4)], simp add: gs_record_def device_record_empty_def)+
  have t: "timestampFresh 130 100 (gs_windowMs g)" by (simp add: timestampFresh_iff d(7))
  show thesis
    by (rule ref_proto.phase2_first_half [OF e(1) r(2) e(2-5) t])
      (use d(6) in simp, rule that [OF g d(7) e(3) \<open>gs_record 1 g = Some rec\<close> \<open>dr_uavId rec = 1\<close> _ _ _ u(3-7)])
qed

lemma demo_full:
  obtains rec g g2 u1 m2 m3 m4 u3 g4 u5 grng' where
    "gs_reach ref_core ref_ossl demo_suite fe_default 5000 g2 grng'"
    "gs_reach ref_core ref_ossl demo_suite fe_default 5000 g4 grng'"
    "\<not> uv_legacyNoGsAuth u1" "uv_id u1 = 1" "gs_record 1 g2 = Some rec" "dr_uavId rec = 1"
    "uav_handleM2 ref_core ref_ossl demo_suite m2 160 u1 = Some (done_reply m3, u3)"
    "gs_handleM3 ref_core ref_ossl demo_suite m3 g2 = Some (done_reply m4, g4)"
    "uav_handleM4 ref_core demo_suite m4 u3 = Some (done_quiet, u5)"
    "om_find (gs_sessions g4) 1 \<noteq> None" "u2_established (uv_phase2 u5)"
proof -
  obtain rec g grng urng u ak n1 n2 eph eph2 input1 input2 tag2 u1 g2 m1 m2 urng' grng' where
    h: "gs_reach ref_core ref_ossl demo_suite fe_default 5000 g grng" "gs_windowMs g = 5000"
    "findByTid (ds_tid (uv_state u)) g = Some rec" "gs_record 1 g = Some rec" "dr_uavId rec = 1"
    "startPhase2 ref_core ref_ossl demo_suite demo_puf 100 urng u = Some (done_reply m1, urng', u1)"
    "gs_handleM1 ref_core ref_ossl demo_suite m1 130 grng g = Some (done_reply m2, grng', g2)"
    "M2_under_way ref_core ref_ossl demo_suite 100 130 u g rec ak n1 n2 eph eph2 input1 input2 tag2 u1 g2 m2"
    "rc_seen (uv_replay u) = {}" "uv_windowMs u = 5000" "\<not> uv_legacyNoGsAuth u" "uv_id u = 1"
    "uv_peers u = []" "drbg_ok ref_ossl grng'" "drbg_ok ref_ossl urng'"
    by (rule demo_half)
  have inv: "gs_inv g" using gs_reach_inv [OF ref_proto.protocol_env_axioms demo_params(2,3) h(1)] by simp
  have t: "timestampFresh 160 130 (uv_windowMs u)" by (simp add: timestampFresh_iff h(10))
  have n: "n2 \<notin> rc_seen (uv_replay u)" by (simp add: h(9))
  obtain m3 m4 u3 g4 u5 where r: "uav_handleM2 ref_core ref_ossl demo_suite m2 160 u1 = Some (done_reply m3, u3)"
    "gs_handleM3 ref_core ref_ossl demo_suite m3 g2 = Some (done_reply m4, g4)"
    "uav_handleM4 ref_core demo_suite m4 u3 = Some (done_quiet, u5)"
    "phase2_agreed ref_core demo_suite u g rec u5 g4"
    by (rule ref_proto.phase2_second_half [OF h(8) inv h(3) t n])
  have r2: "gs_reach ref_core ref_ossl demo_suite fe_default 5000 g2 grng'" using h(1,7) by (rule reach_M1)
  then have r4: "gs_reach ref_core ref_ossl demo_suite fe_default 5000 g4 grng'" using r(2) by (rule reach_M3)
  have "\<not> uv_legacyNoGsAuth u1" "uv_id u1 = 1" "gs_record 1 g2 = Some rec"
    using h(4,8,11,12) by (auto simp: M2_under_way_def gs_record_def gs_offered_def)
  moreover have "om_find (gs_sessions g4) 1 \<noteq> None" "u2_established (uv_phase2 u5)"
    using r(4) h(5) by (auto simp: phase2_agreed_def)
  ultimately show thesis using that [OF r2 r4 _ _ _ h(5) r(1-3)] by blast
qed

subsection \<open>Properties\<close>

text \<open>C1. Enrollment followed by the handshake succeeds and agrees: from any reachable ground station,
  a device that was just enrolled with a PUF that meets its contract, that holds the handed-out
  state and whose field reading agrees with the enrolled one up to the repetition code,
  completes M1 to M4 with both sides in the end holding the same 32-byte session key over the
  same transcript, both ephemeral scalars erased, the UAV holding the credentials and
  identities of every other enrolled device, and its new identity being the one the ground
  station has pending.\<close>

theorem enrolled_uav_authenticates:
  assumes "core_laws C" and "ossl_laws L" and "crypto_suite S" and "puf_model C L P"
    and "gs_reach C L S p w g0 grng0" and "fe_sizes p" and "8 \<le> fp_keyBits p"
    and "0 \<le> i" and "i < 65535" and "enroll C L S i P grng0 g0 = Some (Some (rec, st), grng, g)"
    and "findByTid (dr_tid rec) g0 = None"
    and "uv_state u = st" and "uv_feParams u = p"
    and "reading_agrees C P p (dr_challenge rec) urng urng1" and "drbg_ok L urng1"
    and "timestampFresh t2 t1 (gs_windowMs g)" and "timestampFresh t3 t2 (uv_windowMs u)"
    and "\<forall>n r. drbg_bytes L kNonceLen urng1 = Some (n, r) \<longrightarrow> n \<notin> rc_seen (gs_replay g)"
    and "\<forall>n r. drbg_bytes L kNonceLen grng = Some (n, r) \<longrightarrow> n \<notin> rc_seen (uv_replay u)"
  shows "\<exists>urng' u' grng' g'.
    phase2_run C L S P (t1, t2, t3) (urng, u) (grng, g) = Some ((urng', u'), (grng', g')) \<and>
    phase2_agreed C S u g rec u' g'"
proof -
  note env = protocol_envI [OF assms(1-3)]
  note e = protocol_env.enrolled [OF env assms(4-14)]
  from protocol_env.phase2_run_honest [OF env e(1) assms(15) e(2-5) assms(16-19)]
  show ?thesis by blast
qed

theorem enrolled_uav_authenticates_witness:
  "\<exists>rng g0 grng0 rec st grng g u urng urng' u' grng' g'.
     gs_new ref_ossl demo_suite fe_default 5000 rng = Some (g0, grng0) \<and>
     enroll ref_core ref_ossl demo_suite 1 demo_puf grng0 g0 = Some (Some (rec, st), grng, g) \<and>
     u = provision st (uav_new 1 fe_default 5000) \<and>
     phase2_run ref_core ref_ossl demo_suite demo_puf (100, 130, 160) (urng, u) (grng, g) =
       Some ((urng', u'), (grng', g')) \<and> phase2_agreed ref_core demo_suite u g rec u' g'"
proof -
  obtain rng g0 grng0 rec st grng g where d: "drbg_ok ref_ossl rng"
    "gs_new ref_ossl demo_suite fe_default 5000 rng = Some (g0, grng0)"
    "gs_reach ref_core ref_ossl demo_suite fe_default 5000 g0 grng0"
    "enroll ref_core ref_ossl demo_suite 1 demo_puf grng0 g0 = Some (Some (rec, st), grng, g)"
    "findByTid (dr_tid rec) g0 = None" "rc_seen (gs_replay g) = {}" "gs_windowMs g = 5000"
    by (rule demo_enrolled)
  obtain urng1 where r: "reading_agrees ref_core demo_puf fe_default (dr_challenge rec) rng urng1"
    "drbg_ok ref_ossl urng1" using demo_reading [OF d(1)] by blast
  let ?u = "provision st (uav_new 1 fe_default 5000)"
  have u: "uv_state ?u = st" "uv_feParams ?u = fe_default" "rc_seen (uv_replay ?u) = {}" "uv_windowMs ?u = 5000"
    by (simp_all add: provision_def uav_new_def rc_inv_new)
  have t: "timestampFresh 130 100 5000" "timestampFresh 160 130 5000"
    by (simp_all add: timestampFresh_iff)
  from enrolled_uav_authenticates [OF ref_core_laws refo.ossl_laws_axioms ref_env.sha3.crypto_suite_axioms
      ref_puf.ideal.puf_model_axioms d(3) demo_params(1,2) _ _ d(4,5) u(1,2) r, of 130 100 160] d(6,7) u(3,4) t
  show ?thesis using d(2,4) by (simp add: u(3,4)) blast
qed

text \<open>C5. Forward secrecy of the ground station's sessions, in every reachable state: a session has
  a key exactly when its ephemeral scalar has been erased, it then was authenticated by M3 and
  the key has 32 bytes, and every session belongs to an enrolled device with its identity.\<close>

theorem gs_session_invariant:
  assumes "core_laws C" and "ossl_laws L" and "crypto_suite S"
    and "8 \<le> fp_keyBits p" and "fp_keyBits p \<le> 65280" and "gs_reach C L S p w g rng"
    and "om_find (gs_sessions g) i = Some s"
  shows "(g2_sessionKey s \<noteq> [] \<longleftrightarrow> g2_ephemeralErased s) \<and>
    (kp_secret (g2_ephemeral s) = [] \<longleftrightarrow> g2_ephemeralErased s) \<and>
    (g2_sessionKey s \<noteq> [] \<longrightarrow> g2_m3Verified s \<and> length (g2_sessionKey s) = 32) \<and>
    g2_uavId s = i \<and> (\<exists>r. gs_record i g = Some r \<and> dr_uavId r = i \<and> dr_enrolled r)"
proof -
  have "gs_inv g" using gs_reach_inv [OF protocol_envI [OF assms(1-3)] assms(4-6)] by simp
  then have "session_ok (gs_devices g) i s" "\<forall>r. om_find (gs_devices g) i = Some r \<longrightarrow> device_ok i r"
    using assms(7) by (simp_all add: gs_inv_def)
  then show ?thesis
    by (auto simp: session_ok_def device_ok_def gs_record_def split: if_splits)
qed

theorem gs_session_invariant_witness:
  "\<exists>g rng s. gs_reach ref_core ref_ossl demo_suite fe_default 5000 g rng \<and>
     om_find (gs_sessions g) 1 = Some s \<and> g2_uavId s = 1 \<and>
     (g2_sessionKey s \<noteq> [] \<longleftrightarrow> g2_ephemeralErased s)"
proof (rule demo_full)
  fix g4 grng'
  assume h: "gs_reach ref_core ref_ossl demo_suite fe_default 5000 g4 grng'" "om_find (gs_sessions g4) 1 \<noteq> None"
  then obtain s where s: "om_find (gs_sessions g4) 1 = Some s" by blast
  from gs_session_invariant [OF ref_core_laws refo.ossl_laws_axioms ref_env.sha3.crypto_suite_axioms
      demo_params(2,3) h(1) s] h(1) s show ?thesis by blast
qed

text \<open>C6. The ground station always returns: in every reachable state both handlers return a result
  on every message whatsoever, of any type, with any fields of any length, at any time; no
  exception leaves them.\<close>

theorem gs_always_returns:
  assumes "core_laws C" and "ossl_laws L" and "crypto_suite S"
    and "8 \<le> fp_keyBits p" and "fp_keyBits p \<le> 65280" and "gs_reach C L S p w g rng"
  shows "(\<exists>r rng' g'. gs_handleM1 C L S m now rng g = Some (r, rng', g')) \<and>
    (\<exists>r g'. gs_handleM3 C L S m g = Some (r, g'))"
proof -
  note env = protocol_envI [OF assms(1-3)]
  have "gs_inv g" "drbg_ok L rng" using gs_reach_inv [OF env assms(4-6)] by simp_all
  then show ?thesis
    using protocol_env.gs_handleM1_total [OF env] protocol_env.gs_handleM3_total [OF env] by blast
qed

theorem gs_always_returns_witness:
  "\<exists>g rng r rng' g'. gs_reach ref_core ref_ossl demo_suite fe_default 5000 g rng \<and>
     gs_sessions g \<noteq> [] \<and>
     gs_handleM1 ref_core ref_ossl demo_suite (emptyMessage\<lparr>m_type := P2_M1_AUTH_REQUEST,
       m_fields := [TID \<mapsto> replicate 70000 0]\<rparr>) 7 rng g = Some (r, rng', g')"
proof (rule demo_full)
  fix g4 grng'
  assume h: "gs_reach ref_core ref_ossl demo_suite fe_default 5000 g4 grng'" "om_find (gs_sessions g4) 1 \<noteq> None"
  then have "gs_sessions g4 \<noteq> []" by auto
  with gs_always_returns [OF ref_core_laws refo.ossl_laws_axioms ref_env.sha3.crypto_suite_axioms
      demo_params(2,3) h(1)] h(1) show ?thesis by blast
qed

text \<open>C2. The ground station answers only an authenticated M1, and an unanswered one changes nothing
  but the replay cache: a reply means that the message's tag is the MAC, under the
  authentication key of the enrolled device its temporary identity names, over exactly its
  identity, nonce, timestamp and ephemeral key, that its timestamp is inside the window and
  that its nonce was not seen; otherwise devices, sessions and generator are as before.\<close>

theorem gs_answers_only_authentic_M1:
  assumes "crypto_suite S" and "gs_handleM1 C L S m1 now rng g = Some (r, rng', g')"
  shows "if sr_hasReply r
    then \<exists>rec tid n1 epkA ts t1 authKey input1 tag.
      m_type m1 = P2_M1_AUTH_REQUEST \<and> msg_get m1 TID = Some tid \<and> findByTid tid g = Some rec \<and>
      msg_get m1 NONCE_1 = Some n1 \<and> n1 \<notin> rc_seen (gs_replay g) \<and> msg_get m1 EPK_A = Some epkA \<and>
      msg_get m1 TIMESTAMP = Some ts \<and> decodeTimestamp C ts = Some t1 \<and>
      \<bar>uint now - uint t1\<bar> \<le> uint (gs_windowMs g) \<and>
      su_kdf S (dr_mk rec) [] kP2Auth [] (su_keyLen S) = Some authKey \<and>
      macInput C (m_suiteId m1) P2_M1_AUTH_REQUEST (signed_M1 tid n1 ts epkA) = Some input1 \<and>
      msg_get m1 MAC_TAG = Some tag \<and> su_mac S authKey input1 = Some tag
    else \<not> sr_ok r \<and> rng' = rng \<and> gs_devices g' = gs_devices g \<and> gs_sessions g' = gs_sessions g"
proof (cases rule: gs_handleM1_cases [OF assms(2)])
  case 1
  then show ?thesis by (auto simp: gs_offered_def)
next
  case (2 rec tid n1 epkA ts t1 authKey input1)
  have "sr_hasReply r" by (rule gs_respond_Some(2) [OF 2(2)])
  moreover obtain tag where "msg_get m1 MAC_TAG = Some tag" "su_mac S authKey input1 = Some tag"
    using 2(1) crypto_suite.mac_verified [OF assms(1)] by (auto simp: M1_checks)
  ultimately show ?thesis using 2(1) by (auto simp: M1_checks timestampFresh_iff)
qed

theorem gs_answers_only_authentic_M1_witness:
  "\<exists>g m1 grng r grng' g' tid rec. gs_handleM1 ref_core ref_ossl demo_suite m1 130 grng g = Some (r, grng', g') \<and>
     sr_hasReply r \<and> msg_get m1 TID = Some tid \<and> findByTid tid g = Some rec"
proof (rule demo_half)
  fix g grng m1 m2 grng' g2
  assume h: "gs_handleM1 ref_core ref_ossl demo_suite m1 130 grng g = Some (done_reply m2, grng', g2)"
  have "sr_hasReply (done_reply m2)" by simp
  with gs_answers_only_authentic_M1 [OF ref_env.sha3.crypto_suite_axioms h] h show ?thesis by fastforce
qed

end
