(* ===== verification/Phase2_Safety.thy ===== *)
theory Phase2_Safety
  imports Phase2
begin

text \<open>
  What a Phase 2 endpoint concedes to messages it did not expect: the gates in front of M3 and of
  the UAV's answer to M2, the legacy mode that removes the latter, the package of M4, and the
  identity the ground station forgets.
\<close>

subsection \<open>M3\<close>

text \<open>C3. The ground station completes a session only for a verified M3, and any other M3 changes
  nothing: in every reachable state, if an M3 draws a reply or changes the state at all, its tag is the MAC,
  under the key of the session of the named device, over the identity and the whole transcript
  of M1 and M2.  With a reply the session is keyed with the key derived from the device's master key and the
  shared secret over that transcript, of the devices only this device's pending identity has changed, and
  nothing else has.  Without one the key exchange of the verified M3 failed (for instance because the scalar is erased): it is refused
  with \<open>DhFailed\<close> and changes nothing but the verified mark of that session.\<close>

theorem gs_completes_only_authentic_M3:
  assumes "core_laws C" and "ossl_laws L" and "crypto_suite S"
    and "8 \<le> fp_keyBits p" and "fp_keyBits p \<le> 65280" and "gs_reach C L S p w g rng"
    and "gs_handleM3 C L S m3 g = Some (r, g')"
  shows "if sr_hasReply r \<or> g' \<noteq> g
    then \<exists>rec tid s input3 tag. msg_get m3 TID = Some tid \<and> findByTid tid g = Some rec \<and>
      om_find (gs_sessions g) (dr_uavId rec) = Some s \<and>
      macInput C (m_suiteId m3) P2_M3_UAV_CONFIRM (signed_M3 tid) = Some input3 \<and>
      msg_get m3 MAC_TAG = Some tag \<and> su_mac S (g2_authKey s) (input3 @ g2_transcript s) = Some tag \<and>
      (if sr_hasReply r
       then \<exists>z k tidNew. x25519Derive L (kp_secret (g2_ephemeral s)) (g2_epkA s) = (True, z) \<and>
         su_kdf S (dr_mk rec @ z) (g2_transcript s) kP2Sess [] (su_keyLen S) = Some k \<and>
         length k = 32 \<and> length tidNew = 16 \<and>
         g' = g\<lparr>gs_sessions := om_set (dr_uavId rec) (gs_session_keyed k s) (gs_sessions g),
           gs_devices := om_set (dr_uavId rec) (rec\<lparr>dr_pendingTid := tidNew\<rparr>) (gs_devices g)\<rparr>
       else \<not> sr_ok r \<and> sr_abort r = DhFailed \<and>
         \<not> fst (x25519Derive L (kp_secret (g2_ephemeral s)) (g2_epkA s)) \<and>
         g' = g\<lparr>gs_sessions := om_set (dr_uavId rec) (s\<lparr>g2_m3Verified := True\<rparr>) (gs_sessions g)\<rparr>)
    else \<not> sr_ok r"
proof (cases "\<exists>rec tid s. M3_accepted C S m3 g rec tid s")
  case False
  have "gs_inv g" using gs_reach_inv [OF protocol_envI [OF assms(1-3)] assms(4-6)] by simp
  from protocol_env.gs_handleM3_refused [OF protocol_envI [OF assms(1-3)] this False] assms(7)
  show ?thesis by auto
next
  case True
  note env = protocol_envI [OF assms(1-3)]
  have inv: "gs_inv g" using gs_reach_inv [OF env assms(4-6)] by simp
  obtain rec tid s where a: "M3_accepted C S m3 g rec tid s" using True by blast
  then obtain input3 tag where t: "msg_get m3 TID = Some tid" "findByTid tid g = Some rec"
    "om_find (gs_sessions g) (dr_uavId rec) = Some s"
    "macInput C (m_suiteId m3) P2_M3_UAV_CONFIRM (signed_M3 tid) = Some input3"
    "msg_get m3 MAC_TAG = Some tag" "su_mac S (g2_authKey s) (input3 @ g2_transcript s) = Some tag"
    using crypto_suite.mac_verified [OF assms(3)] by (auto simp: M3_accepted_def)
  show ?thesis
  proof (cases "fst (x25519Derive L (kp_secret (g2_ephemeral s)) (g2_epkA s))")
    case True
    then obtain z where dh: "x25519Derive L (kp_secret (g2_ephemeral s)) (g2_epkA s) = (True, z)"
      by (metis (full_types) prod.collapse)
    from protocol_env.gs_handleM3_completes [OF env a inv dh] obtain k tidNew m where
      "su_kdf S (dr_mk rec @ z) (g2_transcript s) kP2Sess [] (su_keyLen S) = Some k"
      "length k = 32" "length tidNew = 16" "r = done_reply m"
      "g' = g\<lparr>gs_sessions := om_set (dr_uavId rec) (gs_session_keyed k s) (gs_sessions g),
           gs_devices := om_set (dr_uavId rec) (rec\<lparr>dr_pendingTid := tidNew\<rparr>) (gs_devices g)\<rparr>"
      using assms(7) by (metis option.inject prod.inject)
    with t dh show ?thesis by auto
  next
    case False
    have "r = fail DhFailed" "g' = gs_put_session (s\<lparr>g2_m3Verified := True\<rparr>) (dr_uavId rec) g"
      using protocol_env.gs_handleM3_no_dh [OF env a False] assms(7) by simp_all
    with False t show ?thesis by (auto simp: gs_put_session_def)
  qed
qed

theorem gs_completes_only_authentic_M3_witness:
  "\<exists>g rng m3 r g' tid rec tidNew. gs_reach ref_core ref_ossl demo_suite fe_default 5000 g rng \<and>
     gs_handleM3 ref_core ref_ossl demo_suite m3 g = Some (r, g') \<and> sr_hasReply r \<and>
     findByTid tid g = Some rec \<and>
     gs_devices g' = om_set (dr_uavId rec) (rec\<lparr>dr_pendingTid := tidNew\<rparr>) (gs_devices g)"
proof (rule demo_full)
  fix g2 grng' m3 m4 g4
  assume h: "gs_reach ref_core ref_ossl demo_suite fe_default 5000 g2 grng'"
    "gs_handleM3 ref_core ref_ossl demo_suite m3 g2 = Some (done_reply m4, g4)"
  from gs_completes_only_authentic_M3 [OF ref_core_laws refo.ossl_laws_axioms
      ref_env.sha3.crypto_suite_axioms demo_params(2,3) h] h
  show ?thesis by fastforce
qed

subsection \<open>M2\<close>

text \<open>C4. The UAV verifies before it responds: outside legacy mode, a reply to M2, or any change of its
  Phase 2 session, means that the tag is the MAC under its own authentication key over its
  current identity, its own nonce and ephemeral key, and the nonce, timestamp and ephemeral key
  received, all of the right size, fresh and not seen before; a forged M2 draws no reply and
  leaves everything but the replay cache as it was.  No M2 ever changes identity or peers.\<close>

theorem uav_verifies_before_responding:
  assumes "crypto_suite S" and "\<not> uv_legacyNoGsAuth u"
    and "uav_handleM2 C L S m2 now u = Some (r, u')"
  shows "uv_state u' = uv_state u \<and> uv_peers u' = uv_peers u \<and>
    (if sr_hasReply r \<or> uv_phase2 u' \<noteq> uv_phase2 u
     then \<exists>n2 epkB ts t2 tag input2.
       msg_get m2 NONCE_2 = Some n2 \<and> length n2 = 16 \<and> n2 \<notin> rc_seen (uv_replay u) \<and>
       msg_get m2 EPK_B = Some epkB \<and> length epkB = 32 \<and>
       msg_get m2 TIMESTAMP = Some ts \<and> decodeTimestamp C ts = Some t2 \<and>
       \<bar>uint now - uint t2\<bar> \<le> uint (uv_windowMs u) \<and>
       macInput C (m_suiteId m2) P2_M2_GS_RESPONSE (signed_M2 (ds_tid (uv_state u))
         (u2_n1 (uv_phase2 u)) n2 ts (kp_public (u2_ephemeral (uv_phase2 u))) epkB) = Some input2 \<and>
       msg_get m2 MAC_TAG = Some tag \<and> su_mac S (u2_authKey (uv_phase2 u)) input2 = Some tag
     else \<not> sr_ok r)"
proof (cases rule: uav_handleM2_cases [OF assms(3)])
  case 1
  then show ?thesis by auto
next
  case (2 n2 epkB ts tag input2 macOk)
  then have "su_macVerify S (u2_authKey (uv_phase2 u)) input2 tag = Some True" using assms(2) by simp
  then have "su_mac S (u2_authKey (uv_phase2 u)) input2 = Some tag"
    by (rule crypto_suite.mac_verified [OF assms(1)])
  moreover have "uv_state u' = uv_state u \<and> uv_peers u' = uv_peers u"
    using 2(4) by (cases rule: uav_confirm_cases) auto
  moreover have "sr_hasReply r \<or> uv_phase2 u' \<noteq> uv_phase2 u \<or> \<not> sr_ok r"
    using 2(4) by (cases rule: uav_confirm_cases) auto
  ultimately show ?thesis
    using 2(1) by (auto simp: M2_admitted_def kNonceLen_def kX25519KeyLen_def timestampFresh_iff)
qed

theorem uav_verifies_before_responding_witness:
  "\<exists>u m2 r u' n2. \<not> uv_legacyNoGsAuth u \<and>
     uav_handleM2 ref_core ref_ossl demo_suite m2 160 u = Some (r, u') \<and> sr_hasReply r \<and>
     msg_get m2 NONCE_2 = Some n2 \<and> length n2 = 16 \<and> n2 \<notin> rc_seen (uv_replay u)"
proof (rule demo_full)
  fix m2 m3 u1 u3
  assume h: "\<not> uv_legacyNoGsAuth u1" "uav_handleM2 ref_core ref_ossl demo_suite m2 160 u1 = Some (done_reply m3, u3)"
  from uav_verifies_before_responding [OF ref_env.sha3.crypto_suite_axioms h] h
  show ?thesis by fastforce
qed

subsection \<open>Legacy mode\<close>

text \<open>What becomes of a well-formed M2 with a wrong tag.\<close>

lemma uav_handleM2_forged_exact:
  assumes "core_laws C" and "ossl_laws L" and "crypto_suite S"
    and "M2_admitted C m2 now u n2 epkB ts tag input2"
    and "length (u2_authKey (uv_phase2 u)) = 32" and "su_mac S (u2_authKey (uv_phase2 u)) input2 \<noteq> Some tag"
    and "0 < length (u2_mk (uv_phase2 u))" and "length (u2_mk (uv_phase2 u)) \<le> 8160"
    and "length (u2_transcript (uv_phase2 u) @ input2) \<le> 65535" and "length (ds_tid (uv_state u)) \<le> 64"
    and "x25519Derive L (kp_secret (u2_ephemeral (uv_phase2 u))) epkB = (True, z)"
  obtains k input3 tag3 where
    "su_kdf S (u2_mk (uv_phase2 u) @ z) (u2_transcript (uv_phase2 u) @ input2) kP2Sess [] (su_keyLen S) = Some k"
    "length k = 32" "macInput C (m_suiteId m2) P2_M3_UAV_CONFIRM (signed_M3 (ds_tid (uv_state u))) = Some input3"
    "su_mac S (u2_authKey (uv_phase2 u)) (input3 @ u2_transcript (uv_phase2 u) @ input2) = Some tag3"
    "length tag3 = 16"
    "uav_handleM2 C L S m2 now u = (if uv_legacyNoGsAuth u
       then Some (done_reply (msg_set MAC_TAG tag3 (M3_body (m_suiteId m2) (uv_id u) (ds_tid (uv_state u)))),
         (uav_offered n2 u)\<lparr>uv_phase2 := u2_keyed k (u2_extended n2 input2 (uv_phase2 u))\<rparr>)
       else Some (fail MacVerifyFailed, uav_offered n2 u))"
proof -
  note env = protocol_envI [OF assms(1-3)]
  have zl: "length z = 32" using ossl_laws.x25519Derive_len [OF assms(2,11)] .
  obtain k where k: "su_kdf S (u2_mk (uv_phase2 u) @ z) (u2_transcript (uv_phase2 u) @ input2) kP2Sess []
      (su_keyLen S) = Some k" "length k = 32"
    using protocol_env.auth_key [OF env, of "u2_mk (uv_phase2 u) @ z" kP2Sess "u2_transcript (uv_phase2 u) @ input2"]
      assms(7-9) zl by auto
  obtain input3 where i: "macInput C (m_suiteId m2) P2_M3_UAV_CONFIRM (signed_M3 (ds_tid (uv_state u))) = Some input3"
    using protocol_env.macInput_M3 [OF env assms(10)] by blast
  obtain tag3 where t: "su_mac S (u2_authKey (uv_phase2 u)) (input3 @ u2_transcript (uv_phase2 u) @ input2) = Some tag3"
    using protocol_env.mac_some [OF env assms(5)] by blast
  obtain ok where v: "su_macVerify S (u2_authKey (uv_phase2 u)) input2 tag = Some ok"
    using protocol_env.verify_some [OF env assms(5)] by blast
  with assms(6) have "\<not> ok" using crypto_suite.mac_verified [OF assms(3)] by (cases ok) auto
  with v have step: "uav_handleM2 C L S m2 now u =
      (if \<not> uv_legacyNoGsAuth u then Some (fail MacVerifyFailed, uav_offered n2 u)
       else uav_confirm C L S m2 n2 epkB input2 (uav_offered n2 u))"
    by (simp add: uav_handleM2_admitted [OF assms(4)])
  have "uav_confirm C L S m2 n2 epkB input2 (uav_offered n2 u) = Some (done_reply
      (msg_set MAC_TAG tag3 (M3_body (m_suiteId m2) (uv_id u) (ds_tid (uv_state u)))),
      (uav_offered n2 u)\<lparr>uv_phase2 := u2_keyed k (u2_extended n2 input2 (uv_phase2 u))\<rparr>)"
    using uav_confirm_keyed [of L "uav_offered n2 u" epkB z S input2 k C m2 input3 tag3 n2] assms(11) k(1) i t
    by simp
  with step that [OF k i t crypto_suite.mac_len [OF assms(3) t]] show thesis by simp
qed

text \<open>A concrete forgery: the UAV of the demonstration in legacy mode, and an M2 with a wrong tag.\<close>

lemma demo_forgery:
  assumes "timestampFresh now 130 5000"
  obtains u n2 epkB tag input2 z where "uv_legacyNoGsAuth u" "uv_id u = 1" "length tag = 16"
    "M2_admitted ref_core (msg_set MAC_TAG tag (M2_body ref_core (suiteIdValue (su_id demo_suite)) 1 n2 130 epkB))
       now u n2 epkB (encodeTimestamp ref_core 130) tag input2"
    "length (u2_authKey (uv_phase2 u)) = 32" "su_mac demo_suite (u2_authKey (uv_phase2 u)) input2 \<noteq> Some tag"
    "0 < length (u2_mk (uv_phase2 u))" "length (u2_mk (uv_phase2 u)) \<le> 8160"
    "length (u2_transcript (uv_phase2 u) @ input2) \<le> 65535" "length (ds_tid (uv_state u)) \<le> 64"
    "x25519Derive ref_ossl (kp_secret (u2_ephemeral (uv_phase2 u))) epkB = (True, z)"
proof (rule demo_half)
  fix rec g grng urng u ak n1 n2 eph eph2 input1 input2 tag2 u1 g2 m1 m2 urng' grng'
  assume h: "gs_reach ref_core ref_ossl demo_suite fe_default 5000 g grng"
    "findByTid (ds_tid (uv_state u)) g = Some rec"
    "M2_under_way ref_core ref_ossl demo_suite 100 130 u g rec ak n1 n2 eph eph2 input1 input2 tag2 u1 g2 m2"
    "rc_seen (uv_replay u) = {}" "uv_windowMs u = 5000" "dr_uavId rec = 1" "uv_id u = 1"
  let ?u = "setLegacyNoGsAuth True u1" and ?tag = "map (\<lambda>b. b + 1) tag2"
  have inv: "gs_inv g" using gs_reach_inv [OF ref_proto.protocol_env_axioms demo_params(2,3) h(1)] by simp
  note d = findByTid_device [OF inv h(2)]
  note mid = h(3) [unfolded M2_under_way_def]
  have t: "timestampFresh now 130 (uv_windowMs u)" using assms by (simp add: h(5))
  have n: "n2 \<notin> rc_seen (uv_replay u)" by (simp add: h(4))
  have "msg_set MAC_TAG ?tag m2 =
      msg_set MAC_TAG ?tag (M2_body ref_core (suiteIdValue (su_id demo_suite)) 1 n2 130 (kp_public eph2))"
    using mid h(6) by (simp add: msg_set_def)
  with ref_proto.M2_under_way_admitted [OF h(3) t n, of ?tag] have
    a: "M2_admitted ref_core (msg_set MAC_TAG ?tag (M2_body ref_core (suiteIdValue (su_id demo_suite)) 1 n2 130
      (kp_public eph2))) now ?u n2 (kp_public eph2) (encodeTimestamp ref_core 130) ?tag input2" by simp
  have len: "length tag2 = 16" using mid ref_env.sha3.mac_len by blast
  then have "?tag \<noteq> tag2" by (cases tag2) auto
  then have wrong: "su_mac demo_suite (u2_authKey (uv_phase2 ?u)) input2 \<noteq> Some ?tag"
    using mid by (auto simp: setLegacyNoGsAuth_def uav_waiting_def)
  have "session_ok (gs_devices g2) (dr_uavId rec)
      (gs_session (dr_uavId rec) ak n1 100 (kp_public eph) n2 130 eph2 (input1 @ input2))"
    using mid by (auto simp: gs_inv_def)
  then have tr: "length (input1 @ input2) \<le> 65535" by (simp add: session_ok_def gs_session_def)
  obtain z where z: "x25519Derive ref_ossl (kp_secret eph) (kp_public eph2) = (True, z)"
    using refo.x25519_honest_agree mid by blast
  have f: "length (u2_authKey (uv_phase2 ?u)) = 32" "0 < length (u2_mk (uv_phase2 ?u))"
    "length (u2_mk (uv_phase2 ?u)) \<le> 8160" "length (u2_transcript (uv_phase2 ?u) @ input2) \<le> 65535"
    "length (ds_tid (uv_state ?u)) \<le> 64"
    "x25519Derive ref_ossl (kp_secret (u2_ephemeral (uv_phase2 ?u))) (kp_public eph2) = (True, z)"
    "uv_legacyNoGsAuth ?u" "uv_id ?u = 1"
    using mid d tr z h(7) by (auto simp: setLegacyNoGsAuth_def uav_waiting_def device_ok_def)
  show thesis by (rule that [OF f(7,8) _ a f(1) wrong f(2-6)]) (simp add: len)
qed

text \<open>C14. The legacy mode is the oracle it is meant to demonstrate: on the same well-formed, fresh M2
  with a wrong tag, the UAV in legacy mode answers with a correctly keyed M3 and holds a
  session key shared with whoever chose the ephemeral key, while the UAV proper refuses with
  \<open>MacVerifyFailed\<close> and keeps its session.\<close>

theorem legacy_uav_answers_forged_M2:
  assumes "core_laws C" and "ossl_laws L" and "crypto_suite S"
    and "M2_admitted C m2 now u n2 epkB ts tag input2"
    and "length (u2_authKey (uv_phase2 u)) = 32" and "su_mac S (u2_authKey (uv_phase2 u)) input2 \<noteq> Some tag"
    and "0 < length (u2_mk (uv_phase2 u))" and "length (u2_mk (uv_phase2 u)) \<le> 8160"
    and "length (u2_transcript (uv_phase2 u) @ input2) \<le> 65535" and "length (ds_tid (uv_state u)) \<le> 64"
    and "x25519Derive L (kp_secret (u2_ephemeral (uv_phase2 u))) epkB = (True, z)"
  shows "(uv_legacyNoGsAuth u \<longrightarrow> (\<exists>m3 u' tag3 input3 k.
      uav_handleM2 C L S m2 now u = Some (done_reply m3, u') \<and> msg_get m3 MAC_TAG = Some tag3 \<and>
      macInput C (m_suiteId m2) P2_M3_UAV_CONFIRM (signed_M3 (ds_tid (uv_state u))) = Some input3 \<and>
      su_mac S (u2_authKey (uv_phase2 u)) (input3 @ u2_transcript (uv_phase2 u) @ input2) = Some tag3 \<and>
      u2_sessionKey (uv_phase2 u') = k \<and> length k = 32 \<and>
      su_kdf S (u2_mk (uv_phase2 u) @ z) (u2_transcript (uv_phase2 u) @ input2) kP2Sess [] (su_keyLen S) = Some k)) \<and>
    (\<not> uv_legacyNoGsAuth u \<longrightarrow>
      uav_handleM2 C L S m2 now u = Some (fail MacVerifyFailed, uav_offered n2 u))"
  by (rule uav_handleM2_forged_exact [OF assms]) (auto simp: u2_keyed_def intro!: exI)

theorem legacy_uav_answers_forged_M2_witness:
  "\<exists>u m2 m3 u' tag. uv_legacyNoGsAuth u \<and> msg_get m2 MAC_TAG = Some tag \<and>
     uav_handleM2 ref_core ref_ossl demo_suite m2 160 u = Some (done_reply m3, u') \<and>
     length (u2_sessionKey (uv_phase2 u')) = 32"
proof -
  have "timestampFresh 160 130 5000" by (simp add: timestampFresh_iff)
  then obtain u n2 epkB tag input2 z where h: "uv_legacyNoGsAuth u"
    "M2_admitted ref_core (msg_set MAC_TAG tag (M2_body ref_core (suiteIdValue (su_id demo_suite)) 1 n2 130 epkB))
       160 u n2 epkB (encodeTimestamp ref_core 130) tag input2" and r:
    "length (u2_authKey (uv_phase2 u)) = 32" "su_mac demo_suite (u2_authKey (uv_phase2 u)) input2 \<noteq> Some tag"
    "0 < length (u2_mk (uv_phase2 u))" "length (u2_mk (uv_phase2 u)) \<le> 8160"
    "length (u2_transcript (uv_phase2 u) @ input2) \<le> 65535" "length (ds_tid (uv_state u)) \<le> 64"
    "x25519Derive ref_ossl (kp_secret (u2_ephemeral (uv_phase2 u))) epkB = (True, z)"
    by (rule demo_forgery)
  from legacy_uav_answers_forged_M2 [OF ref_core_laws refo.ossl_laws_axioms ref_env.sha3.crypto_suite_axioms
      h(2) r] h(1) obtain m3 u' where
    "uav_handleM2 ref_core ref_ossl demo_suite (msg_set MAC_TAG tag
       (M2_body ref_core (suiteIdValue (su_id demo_suite)) 1 n2 130 epkB)) 160 u = Some (done_reply m3, u')"
    "length (u2_sessionKey (uv_phase2 u')) = 32" by blast
  moreover have "msg_get (msg_set MAC_TAG tag
      (M2_body ref_core (suiteIdValue (su_id demo_suite)) 1 n2 130 epkB)) MAC_TAG = Some tag"
    by simp
  ultimately show ?thesis using h(1) by blast
qed

subsection \<open>The forgotten identity\<close>

lemma find_om_set_None:
  "om_wf ds \<Longrightarrow> \<forall>k r. om_find ds k = Some r \<and> k \<noteq> i \<longrightarrow> \<not> P r \<Longrightarrow> \<not> P v \<Longrightarrow>
   find P (map snd (om_set i v ds)) = None"
proof -
  assume h: "om_wf ds" "\<forall>k r. om_find ds k = Some r \<and> k \<noteq> i \<longrightarrow> \<not> P r" "\<not> P v"
  have "\<not> P r" if "(k, r) \<in> set (om_set i v ds)" for k r
  proof -
    have "om_find (om_set i v ds) k = Some r"
      using that om_find_in [of "om_set i v ds" k r] om_wf_set [OF h(1)] by simp
    with h(2,3) show ?thesis by (auto split: if_splits)
  qed
  then show ?thesis by (auto simp: find_None_iff)
qed

text \<open>C15. A device whose M4 is lost in a later session is locked out for good.  The ground station
  never makes the pending identity the current one; so when a device that came with its
  pending identity gets a new session, completing it overwrites the only entry under which the
  device is known, and as long as the device did not receive the M4 that names the next
  identity, the ground station answers none of its M1 messages, whatever they contain.\<close>

theorem lost_M4_strands_device:
  assumes "core_laws C" and "ossl_laws L" and "crypto_suite S"
    and "gs_inv g" and "findByTid tid g = Some rec" and "dr_tid rec \<noteq> tid"
    and "\<forall>k q. om_find (gs_devices g) k = Some q \<and> k \<noteq> dr_uavId rec \<longrightarrow> \<not> tid_matches tid q"
    and "msg_get m3 TID = Some tid" and "gs_handleM3 C L S m3 g = Some (r, g')" and "sr_hasReply r"
    and "gs_record (dr_uavId rec) g' = Some rec'" and "dr_pendingTid rec' \<noteq> tid"
  shows "dr_tid rec' = dr_tid rec \<and> findByTid tid g' = None \<and>
    (\<forall>m now rng r2 rng2 g2. msg_get m TID = Some tid \<longrightarrow>
       gs_handleM1 C L S m now rng g' = Some (r2, rng2, g2) \<longrightarrow> \<not> sr_hasReply r2)"
proof -
  note env = protocol_envI [OF assms(1-3)]
  obtain rec2 tid2 s where a: "M3_accepted C S m3 g rec2 tid2 s"
    using protocol_env.gs_handleM3_refused [OF env assms(4), of m3] assms(9,10) by fastforce
  then have eq: "rec2 = rec" "tid2 = tid" using assms(5,8) by (auto simp: M3_accepted_def)
  obtain z where z: "x25519Derive L (kp_secret (g2_ephemeral s)) (g2_epkA s) = (True, z)"
    using protocol_env.gs_handleM3_no_dh [OF env a] assms(9,10)
    by (cases "x25519Derive L (kp_secret (g2_ephemeral s)) (g2_epkA s)") fastforce
  have "\<exists>tidNew. gs_devices g' = om_set (dr_uavId rec) (rec\<lparr>dr_pendingTid := tidNew\<rparr>) (gs_devices g)"
    by (rule protocol_env.gs_handleM3_completes [OF env a assms(4) z]) (use assms(9) eq(1) in auto)
  then obtain tidNew where
    g': "gs_devices g' = om_set (dr_uavId rec) (rec\<lparr>dr_pendingTid := tidNew\<rparr>) (gs_devices g)" by blast
  then have rec': "rec' = rec\<lparr>dr_pendingTid := tidNew\<rparr>" using assms(11) by (simp add: gs_record_def)
  then have "\<not> tid_matches tid rec'" using assms(6,12) by (auto simp: tid_matches_def)
  moreover have "om_wf (gs_devices g)" using assms(4) by (simp add: gs_inv_def)
  ultimately have none: "findByTid tid g' = None"
    unfolding findByTid_def g' rec' [symmetric] using find_om_set_None assms(7) by metis
  moreover have "\<not> sr_hasReply r2" if "msg_get m TID = Some tid"
    "gs_handleM1 C L S m now rng g' = Some (r2, rng2, g2)" for m now rng r2 rng2 g2
    using that none by (cases rule: gs_handleM1_cases [OF that(2)]) (auto simp: M1_checks)
  ultimately show ?thesis using rec' by simp
qed

theorem lost_M4_strands_device_witness:
  "\<exists>g g' m3 r tid rec. findByTid tid g = Some rec \<and>
     gs_handleM3 ref_core ref_ossl demo_suite m3 g = Some (r, g') \<and> sr_hasReply r \<and>
     msg_get m3 TID = Some tid \<and> findByTid tid g' = None"
proof -
  define eph where "eph = \<lparr>kp_secret = replicate 32 5, kp_public = replicate 32 5, kp_erased = False\<rparr>"
  have eph: "x25519Generate ref_ossl (replicate 32 5) = Some eph"
    by (simp add: x25519Generate_Some eph_def ref_ossl_def)
  define s where "s = gs_session 1 (replicate 32 9) (replicate 16 1) 0 (kp_public eph) (replicate 16 2) 0 eph [7]"
  define rec where "rec = (\<lambda>t. device_record_empty\<lparr>dr_uavId := 1, dr_tid := replicate 16 0,
    dr_pendingTid := t, dr_mk := replicate 32 1, dr_enrolled := True\<rparr>)"
  define g where "g = (\<lambda>t. \<lparr>gs_feParams = fe_default, gs_windowMs = 5000, gs_numUavs = 1,
    gs_masterKey = replicate 32 3, gs_devices = [(1, rec t)], gs_sessions = [(1, s)],
    gs_replay = rc_new kReplayCapacity\<rparr>)"
  obtain t2 where t2: "su_kdf demo_suite (replicate 32 1) (replicate 16 0) kTidRotate
      (g2_n1 s @ g2_n2 s) kTidLen = Some t2"
    using ref_proto.kdf_some [of "replicate 32 1" "replicate 16 0" kTidRotate "g2_n1 s @ g2_n2 s" kTidLen]
    by (auto simp: s_def gs_session_def kTidLen_def)
  define t :: bytes where "t = (if t2 = replicate 16 1 then replicate 16 2 else replicate 16 1)"
  have t: "length t = 16" "t \<noteq> t2" "t \<noteq> replicate 16 0" "t \<noteq> []" by (auto simp: t_def)
  have inv: "gs_inv (g t)"
    using t(1) by (simp add: gs_inv_def g_def rc_inv_new rec_def device_ok_def session_ok_def s_def
        gs_session_def eph_def device_record_empty_def) (simp add: rc_new_def)
  have f: "findByTid t (g t) = Some (rec t)"
    using t by (simp add: findByTid_def g_def tid_matches_def rec_def)
  obtain i3 where i3: "macInput ref_core 1 P2_M3_UAV_CONFIRM (signed_M3 t) = Some i3"
    using ref_proto.macInput_M3 [of t] t(1) by auto
  obtain tag where tag: "su_mac demo_suite (replicate 32 9) (i3 @ [7]) = Some tag"
    using ref_proto.mac_some [of "replicate 32 9"] by auto
  let ?m3 = "msg_set MAC_TAG tag (M3_body 1 1 t)"
  have acc: "M3_accepted ref_core demo_suite ?m3 (g t) (rec t) t s"
    using f i3 ref_env.sha3.mac_verify_own [OF tag]
    by (simp add: M3_accepted_def msg_simps) (simp add: g_def rec_def s_def gs_session_def)
  obtain z where z: "x25519Derive ref_ossl (kp_secret (g2_ephemeral s)) (g2_epkA s) = (True, z)"
    using refo.x25519_honest_agree [OF eph eph] by (auto simp: s_def gs_session_def)
  have mk: "dr_mk (rec t) = replicate 32 1" "dr_tid (rec t) = replicate 16 0" "dr_uavId (rec t) = 1"
    by (simp_all add: rec_def)
  have "\<exists>m g'. gs_handleM3 ref_core ref_ossl demo_suite ?m3 (g t) = Some (done_reply m, g') \<and>
      gs_devices g' = om_set 1 ((rec t)\<lparr>dr_pendingTid := t2\<rparr>) (gs_devices (g t))"
    by (rule ref_proto.gs_handleM3_completes [OF acc inv z]) (use t2 in \<open>auto simp: mk\<close>)
  then obtain m g' where
    h: "gs_handleM3 ref_core ref_ossl demo_suite ?m3 (g t) = Some (done_reply m, g')"
    "gs_devices g' = om_set 1 ((rec t)\<lparr>dr_pendingTid := t2\<rparr>) (gs_devices (g t))" by blast
  have "dr_tid (rec t) \<noteq> t" using t(3) mk by simp
  moreover have "\<forall>k q. om_find (gs_devices (g t)) k = Some q \<and> k \<noteq> dr_uavId (rec t) \<longrightarrow> \<not> tid_matches t q"
    by (simp add: g_def rec_def)
  moreover have "gs_record (dr_uavId (rec t)) g' = Some ((rec t)\<lparr>dr_pendingTid := t2\<rparr>)"
    using h(2) by (simp add: gs_record_def rec_def)
  moreover have m: "msg_get ?m3 TID = Some t" by (simp add: msg_simps)
  ultimately have "findByTid t g' = None"
    using lost_M4_strands_device [OF ref_core_laws refo.ossl_laws_axioms ref_env.sha3.crypto_suite_axioms
        inv f _ _ m h(1), of "(rec t)\<lparr>dr_pendingTid := t2\<rparr>"] t(2) by simp
  with f h(1) m show ?thesis by (metis step_result_simps(5))
qed

end
