(* ===== verification/Phase3.thy ===== *)
theory Phase3
  imports Peer Phase2
begin

text \<open>
  The peer handshake between two UAVs, composed as \<open>UavNode\<close> composes it, and the whole way of two
  devices through Phase 2 and Phase 3.
\<close>

definition phase3_run ::
    "core_lib \<Rightarrow> ossl \<Rightarrow> suite \<Rightarrow> u32 \<times> u32 \<Rightarrow> int \<Rightarrow> drbg \<times> uav \<Rightarrow> drbg \<times> uav \<Rightarrow>
     ((drbg \<times> uav) \<times> (drbg \<times> uav)) option" where
  "phase3_run C L S = (\<lambda>(t1, t2) peerId (rngA, a) (rngB, b). do {
     (r1, rngA, a) \<leftarrow> startPhase3 C L S peerId t1 rngA a;
     require (sr_ok r1 \<and> sr_hasReply r1);
     (r2, rngB, b) \<leftarrow> uav_handleP1 C L S (sr_reply r1) t2 rngB b;
     require (sr_ok r2 \<and> sr_hasReply r2);
     (r3, a) \<leftarrow> uav_handleP2 C L S (sr_reply r2) a;
     require (sr_ok r3 \<and> sr_hasReply r3);
     (r4, b) \<leftarrow> uav_handleP3 C L S (sr_reply r3) b;
     require (sr_ok r4);
     Some ((rngA, a), (rngB, b)) })"

lemma peer_bodies [simp]:
  "m_type (P1_body C s i j n t e) = P3_P1_PEER_REQUEST" "m_suiteId (P1_body C s i j n t e) = s"
  "m_type (P2_body s i j n e) = P3_P2_PEER_RESPONSE" "m_suiteId (P2_body s i j n e) = s"
  "m_senderId (P2_body s i j n e) = i" "m_senderId (P1_body C s i j n t e) = i"
  by (simp_all add: P1_body_def P2_body_def msg_set_def)

lemma msg_get_peer_bodies:
  "msg_get (P1_body C s i j n t e) = [SENDER_ID \<mapsto> encodeId C i, RECEIVER_ID \<mapsto> encodeId C j,
     NONCE_1 \<mapsto> n, TIMESTAMP \<mapsto> encodeTimestamp C t, EPK_A \<mapsto> e]"
  "msg_get (P2_body s i j n e) = [NONCE_2 \<mapsto> n, EPK_B \<mapsto> e]"
  "msg_get (emptyMessage\<lparr>m_type := ty, m_suiteId := s, m_senderId := i, m_receiverId := j\<rparr>) = Map.empty"
  by (auto simp: P1_body_def P2_body_def msg_set_def msg_get_def emptyMessage_def fun_eq_iff)

text \<open>What both sides hold after a run.\<close>

definition phase3_agreed :: "uav \<Rightarrow> uav \<Rightarrow> uav \<Rightarrow> uav \<Rightarrow> bool" where
  "phase3_agreed a b a' b' \<longleftrightarrow> (\<exists>k sa sb. length k = 32 \<and>
     peerSessionKey (uv_id b) a' = Some k \<and> peerSessionKey (uv_id a) b' = Some k \<and>
     uv_peers a' = om_set (uv_id b) sa (uv_peers a) \<and> uv_peers b' = om_set (uv_id a) sb (uv_peers b) \<and>
     p3_initiator sa \<and> \<not> p3_initiator sb \<and>
     p3_nonceLocal sa = p3_nonceRemote sb \<and> p3_nonceRemote sa = p3_nonceLocal sb \<and>
     p3_p1Encoded sa = p3_p1Encoded sb \<and> p3_p2Encoded sa = p3_p2Encoded sb \<and>
     p3_ephemeralErased sa \<and> kp_secret (p3_ephemeral sa) = [] \<and>
     p3_ephemeralErased sb \<and> kp_secret (p3_ephemeral sb) = [] \<and>
     uv_phase2 a' = uv_phase2 a \<and> uv_phase2 b' = uv_phase2 b \<and>
     uv_state a' = uv_state a \<and> uv_state b' = uv_state b \<and> uv_replay a' = uv_replay a)"

text \<open>The situation when P2 is under way: what both sides hold, and the message.\<close>

definition p3_started :: "int \<Rightarrow> int \<Rightarrow> bytes \<Rightarrow> bytes \<Rightarrow> x25519_pair \<Rightarrow> bytes \<Rightarrow> p3_session" where
  "p3_started own peer ak n eph inputP1 =
     p3_empty\<lparr>p3_localId := own, p3_peerId := peer, p3_initiator := True, p3_authKey := ak,
       p3_nonceLocal := n, p3_ephemeral := eph, p3_epkLocal := kp_public eph, p3_p1Encoded := inputP1\<rparr>"

definition p3_answering ::
    "int \<Rightarrow> int \<Rightarrow> bytes \<Rightarrow> bytes \<Rightarrow> bytes \<Rightarrow> bytes \<Rightarrow> x25519_pair \<Rightarrow> bytes \<Rightarrow> bytes \<Rightarrow> p3_session" where
  "p3_answering own peer ak nr epkA n eph inputP1 inputP2 =
     p3_empty\<lparr>p3_localId := own, p3_peerId := peer, p3_initiator := False, p3_authKey := ak,
       p3_nonceRemote := nr, p3_epkRemote := epkA, p3_nonceLocal := n, p3_ephemeral := eph,
       p3_epkLocal := kp_public eph, p3_p1Encoded := inputP1, p3_p2Encoded := inputP2\<rparr>"

definition P2_under_way ::
    "core_lib \<Rightarrow> ossl \<Rightarrow> suite \<Rightarrow> uav \<Rightarrow> uav \<Rightarrow> bytes \<Rightarrow> bytes \<Rightarrow> bytes \<Rightarrow> x25519_pair \<Rightarrow> x25519_pair \<Rightarrow>
     bytes \<Rightarrow> bytes \<Rightarrow> bytes \<Rightarrow> uav \<Rightarrow> uav \<Rightarrow> message \<Rightarrow> bool" where
  "P2_under_way C L S a b ak n n2 eph eph2 inputP1 inputP2 tag2 a1 b1 p2 \<longleftrightarrow>
     length ak = 32 \<and> length (kp_public eph2) = 32 \<and>
     (\<exists>seed seed2. x25519Generate L seed = Some eph \<and> x25519Generate L seed2 = Some eph2) \<and>
     length inputP1 \<le> 4096 \<and> length inputP2 \<le> 4096 \<and>
     macInput C (suiteIdValue (su_id S)) P3_P2_PEER_RESPONSE (signed_P2 (encodeId C (uv_id a))
       (encodeId C (uv_id b)) n n2 (kp_public eph) (kp_public eph2)) = Some inputP2 \<and>
     su_mac S ak inputP2 = Some tag2 \<and>
     a1 = uav_put_peer (uv_id b) (p3_started (uv_id a) (uv_id b) ak n eph inputP1) a \<and>
     b1 = uav_put_peer (uv_id a) (p3_answering (uv_id b) (uv_id a) ak n (kp_public eph) n2 eph2 inputP1
       inputP2) (uav_offered n b) \<and>
     p2 = msg_set MAC_TAG tag2 (P2_body (suiteIdValue (su_id S)) (uv_id b) (uv_id a) n2 (kp_public eph2))"

context protocol_env
begin

lemma phase3_first_half:
  assumes creds: "om_find (u2_peerCredentials (uv_phase2 a)) (uv_id b) = Some cred"
      "om_find (u2_peerCredentials (uv_phase2 b)) (uv_id a) = Some cred"
      "0 < length cred" "length cred \<le> 8160"
    and ids: "0 \<le> uv_id a" "uv_id a < 65535" and rngs: "drbg_ok L rngA" "drbg_ok L rngB"
    and clock: "timestampFresh t2 t1 (uv_windowMs b)"
    and unseen: "\<forall>n r. drbg_bytes L kNonceLen rngA = Some (n, r) \<longrightarrow> n \<notin> rc_seen (uv_replay b)"
  obtains ak n n2 eph eph2 inputP1 inputP2 tag2 a1 b1 p1 p2 rngA' rngB' where
    "P2_under_way C L S a b ak n n2 eph eph2 inputP1 inputP2 tag2 a1 b1 p2"
    "startPhase3 C L S (uv_id b) t1 rngA a = Some (done_reply p1, rngA', a1)"
    "uav_handleP1 C L S p1 t2 rngB b = Some (done_reply p2, rngB', b1)" "drbg_ok L rngA'" "drbg_ok L rngB'"
proof -
  let ?sid = "suiteIdValue (su_id S)"
  obtain ak n seed eph rngA' inputP1 tag1 where
    p1: "su_kdf S cred [] kPeerAuth [] (su_keyLen S) = Some ak" "length ak = 32"
    "x25519Generate L seed = Some eph" "length (kp_public eph) = 32" "length n = 16"
    "\<exists>r. drbg_bytes L kNonceLen rngA = Some (n, r)" "drbg_ok L rngA'"
    "macInput C ?sid P3_P1_PEER_REQUEST (signed_P1 (encodeId C (uv_id a)) (encodeId C (uv_id b)) n
       (encodeTimestamp C t1) (kp_public eph)) = Some inputP1" "length inputP1 \<le> 4096"
    "su_mac S ak inputP1 = Some tag1"
    and step1: "startPhase3 C L S (uv_id b) t1 rngA a = Some (done_reply (msg_set MAC_TAG tag1
       (P1_body C ?sid (uv_id a) (uv_id b) n t1 (kp_public eph))), rngA',
       uav_put_peer (uv_id b) (p3_started (uv_id a) (uv_id b) ak n eph inputP1) a)"
    unfolding p3_started_def by (rule startPhase3_result [OF creds(1,3,4) rngs(1)])
  let ?p1 = "msg_set MAC_TAG tag1 (P1_body C ?sid (uv_id a) (uv_id b) n t1 (kp_public eph))"
  have "n \<notin> rc_seen (uv_replay b)" using unseen p1(6) by blast
  then have acc: "P1_accepted C S ?p1 t2 b (uv_id a) n (kp_public eph) ak inputP1"
    using p1 creds(2) clock ids mac_verify_own [OF p1(10)] decodeId_encodeId [of "uv_id a"]
    unfolding P1_accepted_def P1_admitted_def
    by (intro exI [of _ "encodeId C (uv_id a)"] exI [of _ "encodeId C (uv_id b)"]
        exI [of _ "encodeTimestamp C t1"] exI [of _ tag1] exI [of _ cred])
      (simp add: msg_simps msg_get_peer_bodies)
  obtain n2 seed2 eph2 rngB' inputP2 tag2 where
    p2: "x25519Generate L seed2 = Some eph2" "length (kp_public eph2) = 32" "length n2 = 16" "drbg_ok L rngB'"
    "macInput C (m_suiteId ?p1) P3_P2_PEER_RESPONSE (signed_P2 (encodeId C (uv_id a))
       (encodeId C (uv_id (uav_offered n b))) n n2 (kp_public eph) (kp_public eph2)) = Some inputP2"
    "length inputP2 \<le> 4096" "su_mac S ak inputP2 = Some tag2"
    and step2: "uav_peer_respond C L S ?p1 (uv_id a) n (kp_public eph) ak inputP1 rngB (uav_offered n b) =
      Some (done_reply (msg_set MAC_TAG tag2
       (P2_body (m_suiteId ?p1) (uv_id (uav_offered n b)) (uv_id a) n2 (kp_public eph2))), rngB',
       uav_put_peer (uv_id a) (p3_answering (uv_id (uav_offered n b)) (uv_id a) ak n (kp_public eph) n2
         eph2 inputP1 inputP2) (uav_offered n b))"
    unfolding p3_answering_def by (rule uav_peer_respond_result [OF p1(2,5,4) rngs(2)])
  note step2 = step2 [folded uav_handleP1_accepted [OF acc]]
  show thesis
    by (rule that [of ak n n2 eph eph2 inputP1 inputP2 tag2, OF _ step1 step2 p1(7) p2(4)])
      (use p1 p2 in \<open>auto simp: P2_under_way_def\<close>)
qed

lemma phase3_second_half:
  assumes mid: "P2_under_way C L S a b ak n n2 eph eph2 inputP1 inputP2 tag2 a1 b1 p2"
    and creds: "om_find (u2_peerCredentials (uv_phase2 a)) (uv_id b) = Some cred"
      "om_find (u2_peerCredentials (uv_phase2 b)) (uv_id a) = Some cred"
      "0 < length cred" "length cred \<le> 8160"
  obtains p3 a2 b2 where "uav_handleP2 C L S p2 a1 = Some (done_reply p3, a2)"
    "uav_handleP3 C L S p3 b1 = Some (done_quiet, b2)" "phase3_agreed a b a2 b2"
proof -
  let ?sid = "suiteIdValue (su_id S)"
  let ?sa = "p3_started (uv_id a) (uv_id b) ak n eph inputP1"
    and ?sb = "p3_answering (uv_id b) (uv_id a) ak n (kp_public eph) n2 eph2 inputP1 inputP2"
  note mid = mid [unfolded P2_under_way_def]
  have acc2: "P2_accepted C S p2 a1 ?sa n2 (kp_public eph2) inputP2"
    using mid mac_verify_own [of ak inputP2 tag2]
    by (simp add: P2_accepted_def msg_simps msg_get_peer_bodies p3_started_def kX25519KeyLen_def)
  obtain z where z: "x25519Derive L (kp_secret eph) (kp_public eph2) = (True, z)"
    "x25519Derive L (kp_secret eph2) (kp_public eph) = (True, z)"
    using x25519_honest_agree mid by blast
  have zl: "length z = 32" using x25519Derive_len [OF z(1)] .
  have "length (inputP1 @ inputP2) \<le> 65535" using mid by simp
  from peer_key [OF creds(3,4) zl this] obtain k where
    k: "su_kdf S (cred @ z) (inputP1 @ inputP2) kPeerSess [] (su_keyLen S) = Some k" "length k = 32" by blast
  obtain inputP3 where i3: "macInput C ?sid P3_P3_PEER_COMPLETE Map.empty = Some inputP3"
    using macInput_P3 by blast
  obtain tag3 where t3: "su_mac S ak (inputP3 @ inputP1 @ inputP2) = Some tag3" using mac_some mid by blast
  have has: "hasPeerCredential (uv_id b) (uav_put_peer (m_senderId p2) s1 a1)" "cred_at (uv_id b) a1 = cred"
    "hasPeerCredential (uv_id a) b1" "cred_at (uv_id a) b1 = cred" for s1
    using mid creds by (simp_all add: hasPeerCredential_def cred_at_def tid_or_empty_def)
  let ?p3 = "msg_set MAC_TAG tag3 (emptyMessage\<lparr>m_type := P3_P3_PEER_COMPLETE, m_suiteId := ?sid,
        m_senderId := uv_id a, m_receiverId := uv_id b\<rparr>)"
  let ?sa' = "p3_keyed k ((p3_heard n2 (kp_public eph2) ?sa)\<lparr>p3_p2Encoded := inputP2\<rparr>)"
  have step3: "uav_handleP2 C L S p2 a1 = Some (done_reply ?p3,
      uav_put_peer (uv_id b) ?sa' (uav_put_peer (uv_id b) (p3_heard n2 (kp_public eph2) ?sa) a1))"
    using uav_handleP2_keyed [OF acc2, of L z k inputP3 tag3] z(1) k(1) i3 t3 mid has
    by (simp add: p3_started_def)
  have acc3: "P3_accepted C S ?p3 b1 ?sb"
    using mid i3 mac_verify_own [OF t3]
    by (simp add: P3_accepted_def msg_simps msg_get_peer_bodies p3_answering_def)
  have step4: "uav_handleP3 C L S ?p3 b1 = Some (done_quiet, uav_put_peer (uv_id a) (p3_keyed k ?sb) b1)"
    using uav_handleP3_keyed [OF acc3, of L z k] z(2) k(1) mid has by (simp add: p3_answering_def)
  have om2: "om_set i s (om_set i s' m) = om_set i s m" for i :: int and s s' :: p3_session and m
    by (induction m) auto
  have "phase3_agreed a b
      (uav_put_peer (uv_id b) ?sa' (uav_put_peer (uv_id b) (p3_heard n2 (kp_public eph2) ?sa) a1))
      (uav_put_peer (uv_id a) (p3_keyed k ?sb) b1)"
    using k(2) mid unfolding phase3_agreed_def
    by (intro exI [of _ k] exI [of _ ?sa'] exI [of _ "p3_keyed k ?sb"])
      (simp add: peerSessionKey_def om2 p3_keyed_def p3_heard_def p3_started_def p3_answering_def)
  from that [OF step3 step4 this] show thesis .
qed

lemma phase3_run_honest:
  assumes creds: "om_find (u2_peerCredentials (uv_phase2 a)) (uv_id b) = Some cred"
      "om_find (u2_peerCredentials (uv_phase2 b)) (uv_id a) = Some cred"
      "0 < length cred" "length cred \<le> 8160"
    and ids: "0 \<le> uv_id a" "uv_id a < 65535" and rngs: "drbg_ok L rngA" "drbg_ok L rngB"
    and clock: "timestampFresh t2 t1 (uv_windowMs b)"
    and unseen: "\<forall>n r. drbg_bytes L kNonceLen rngA = Some (n, r) \<longrightarrow> n \<notin> rc_seen (uv_replay b)"
  shows "\<exists>rngA' a' rngB' b'. phase3_run C L S (t1, t2) (uv_id b) (rngA, a) (rngB, b) =
      Some ((rngA', a'), (rngB', b')) \<and> phase3_agreed a b a' b' \<and> drbg_ok L rngA' \<and> drbg_ok L rngB'"
proof (rule phase3_first_half [OF assms])
  fix ak n n2 eph eph2 inputP1 inputP2 tag2 a1 b1 p1 p2 rngA' rngB'
  assume h: "P2_under_way C L S a b ak n n2 eph eph2 inputP1 inputP2 tag2 a1 b1 p2"
    "startPhase3 C L S (uv_id b) t1 rngA a = Some (done_reply p1, rngA', a1)"
    "uav_handleP1 C L S p1 t2 rngB b = Some (done_reply p2, rngB', b1)" "drbg_ok L rngA'" "drbg_ok L rngB'"
  obtain p3 a2 b2 where "uav_handleP2 C L S p2 a1 = Some (done_reply p3, a2)"
    "uav_handleP3 C L S p3 b1 = Some (done_quiet, b2)" and r: "phase3_agreed a b a2 b2"
    by (rule phase3_second_half [OF h(1) creds])
  with h(2,3) have "phase3_run C L S (t1, t2) (uv_id b) (rngA, a) (rngB, b) = Some ((rngA', a2), (rngB', b2))"
    by (simp add: phase3_run_def)
  with r h(4,5) show ?thesis by blast
qed

end

end
