(* ===== verification/Uav_Invariant.thy ===== *)
theory Uav_Invariant
  imports Phase3
begin

text \<open>
  The states a UAV can reach, under any sequence of calls and received messages, and the invariant
  of its Phase 2 and Phase 3 sessions; the gates of the peer handshake.
\<close>

subsection \<open>Reachable states\<close>

inductive uav_reach ::
    "core_lib \<Rightarrow> ossl \<Rightarrow> suite \<Rightarrow> puf \<Rightarrow> int \<Rightarrow> fe_params \<Rightarrow> u32 \<Rightarrow> uav \<Rightarrow> drbg \<Rightarrow> bool" for C L S P i p w where
  ur_new: "uav_reach C L S P i p w (uav_new i p w) rng"
| ur_provision: "uav_reach C L S P i p w u rng \<Longrightarrow> uav_reach C L S P i p w (provision st u) rng"
| ur_legacy: "uav_reach C L S P i p w u rng \<Longrightarrow> uav_reach C L S P i p w (setLegacyNoGsAuth b u) rng"
| ur_inject: "uav_reach C L S P i p w u rng \<Longrightarrow> uav_reach C L S P i p w (injectPeerCredential k c t u) rng"
| ur_start2: "uav_reach C L S P i p w u rng \<Longrightarrow> startPhase2 C L S P now rng u = Some (r, rng', u') \<Longrightarrow>
    uav_reach C L S P i p w u' rng'"
| ur_M2: "uav_reach C L S P i p w u rng \<Longrightarrow> uav_handleM2 C L S m now u = Some (r, u') \<Longrightarrow>
    uav_reach C L S P i p w u' rng"
| ur_M4: "uav_reach C L S P i p w u rng \<Longrightarrow> uav_handleM4 C S m u = Some (r, u') \<Longrightarrow>
    uav_reach C L S P i p w u' rng"
| ur_start3: "uav_reach C L S P i p w u rng \<Longrightarrow> startPhase3 C L S k now rng u = Some (r, rng', u') \<Longrightarrow>
    uav_reach C L S P i p w u' rng'"
| ur_P1: "uav_reach C L S P i p w u rng \<Longrightarrow> uav_handleP1 C L S m now rng u = Some (r, rng', u') \<Longrightarrow>
    uav_reach C L S P i p w u' rng'"
| ur_P2: "uav_reach C L S P i p w u rng \<Longrightarrow> uav_handleP2 C L S m u = Some (r, u') \<Longrightarrow>
    uav_reach C L S P i p w u' rng"
| ur_P3: "uav_reach C L S P i p w u rng \<Longrightarrow> uav_handleP3 C L S m u = Some (r, u') \<Longrightarrow>
    uav_reach C L S P i p w u' rng"

subsection \<open>Invariant\<close>

definition p2_inv :: "p2_uav \<Rightarrow> bool" where
  "p2_inv p \<longleftrightarrow> (u2_established p \<longrightarrow> u2_ephemeralErased p) \<and>
     (if u2_ephemeralErased p then kp_secret (u2_ephemeral p) = [] \<and> length (u2_sessionKey p) = 32
      else u2_sessionKey p = [])"

definition p3_inv :: "int \<Rightarrow> int \<Rightarrow> p3_session \<Rightarrow> bool" where
  "p3_inv own k s \<longleftrightarrow> p3_localId s = own \<and> p3_peerId s = k \<and> length (p3_authKey s) = 32 \<and>
     p3_established s = p3_ephemeralErased s \<and>
     (if p3_ephemeralErased s then kp_secret (p3_ephemeral s) = [] \<and> length (p3_sessionKey s) = 32
      else p3_sessionKey s = [] \<and> length (kp_secret (p3_ephemeral s)) = 32)"

definition uav_inv :: "int \<Rightarrow> uav \<Rightarrow> bool" where
  "uav_inv i u \<longleftrightarrow> uv_id u = i \<and> p2_inv (uv_phase2 u) \<and> rc_inv (uv_replay u) \<and>
     (\<forall>k s. om_find (uv_peers u) k = Some s \<longrightarrow> p3_inv i k s)"

lemma uav_inv_put: "uav_inv i u \<Longrightarrow> p3_inv i k s \<Longrightarrow> uav_inv i (uav_put_peer k s u)"
  by (simp add: uav_inv_def)

lemma uav_inv_offered: "uav_inv i u \<Longrightarrow> uav_inv i (uav_offered n u)"
  by (simp add: uav_inv_def uav_offered_def rc_inv_offer)

lemma uav_inv_cred_insert: "uav_inv i u \<Longrightarrow> uav_inv i (cred_insert k u)"
  by (auto simp: uav_inv_def cred_insert_def p2_inv_def)

lemma p3_inv_heard: "p3_inv i k s \<Longrightarrow> p3_inv i k (p3_heard n e s)"
  "p3_inv i k s \<Longrightarrow> p3_inv i k (s\<lparr>p3_p2Encoded := b\<rparr>)"
  by (simp_all add: p3_inv_def p3_heard_def)

lemma p3_inv_keyed: "p3_inv i k s \<Longrightarrow> length key = 32 \<Longrightarrow> p3_inv i k (p3_keyed key s)"
  by (simp add: p3_inv_def p3_keyed_def)

lemma p2_inv_keyed: "p2_inv p \<Longrightarrow> length key = 32 \<Longrightarrow> p2_inv (u2_keyed key p)"
  by (simp add: p2_inv_def u2_keyed_def)

lemma p2_inv_extended: "p2_inv p \<Longrightarrow> p2_inv (u2_extended n b p)"
  by (simp add: p2_inv_def u2_extended_def)

lemmas uav_inv_intros = uav_inv_put uav_inv_offered uav_inv_cred_insert p3_inv_heard p3_inv_keyed
  p2_inv_keyed p2_inv_extended

lemma uav_inv_phase2: "uav_inv i u \<Longrightarrow> p2_inv p \<Longrightarrow> uav_inv i (u\<lparr>uv_phase2 := p\<rparr>)"
  by (simp add: uav_inv_def)

lemma uav_inv_D:
  "uav_inv i u \<Longrightarrow> p2_inv (uv_phase2 u)" "uav_inv i u \<Longrightarrow> uv_id u = i"
  "uav_inv i u \<Longrightarrow> om_find (uv_peers u) k = Some s \<Longrightarrow> p3_inv i k s"
  by (simp_all add: uav_inv_def)

context protocol_env
begin

lemma keys_32: "su_kdf S ikm salt lab info (su_keyLen S) = Some k \<Longrightarrow> length k = 32"
  using kdf_len suite_lens(3) by simp

lemma inv_start2:
  assumes "uav_inv i u" "startPhase2 C L S P now rng u = Some (r, rng', u')"
  shows "uav_inv i u'"
proof -
  have "uv_id u' = uv_id u \<and> uv_peers u' = uv_peers u \<and> uv_replay u' = uv_replay u \<and>
      (u' = u \<or> p2_inv (uv_phase2 u'))"
    using assms(2) by (auto simp: startPhase2_def Let_def Option.bind_eq_Some_conv p2_inv_def
        p2_uav_empty_def split: if_splits option.splits)
  with assms(1) show ?thesis by (auto simp: uav_inv_def)
qed

lemma inv_M2:
  assumes "uav_inv i u" "uav_handleM2 C L S m now u = Some (r, u')"
  shows "uav_inv i u'"
proof (cases rule: uav_handleM2_cases [OF assms(2)])
  case 1
  with assms(1) show ?thesis by (auto simp: uav_inv_offered)
next
  case (2 n2 epkB ts tag input2 macOk)
  note inv = uav_inv_offered [OF assms(1), of n2]
  show ?thesis
    by (cases rule: uav_confirm_cases [OF 2(4)])
      (use inv uav_inv_D(1) [OF assms(1)] in \<open>auto intro!: uav_inv_phase2 uav_inv_intros simp: keys_32\<close>)
qed

lemma inv_M4:
  assumes "uav_inv i u" "uav_handleM4 C S m u = Some (r, u')"
  shows "uav_inv i u'"
  using assms(1) by (cases rule: uav_handleM4_cases [OF assms(2)]) (auto simp: uav_inv_def p2_inv_def split: if_splits)

lemma inv_start3:
  assumes "uav_inv i u" "startPhase3 C L S k now rng u = Some (r, rng', u')"
  shows "uav_inv i u'"
proof -
  have "u' = u \<or> (\<exists>ak eph n b seed. su_kdf S (the (om_find (u2_peerCredentials (uv_phase2 u)) k)) []
        kPeerAuth [] (su_keyLen S) = Some ak \<and> x25519Generate L seed = Some eph \<and>
      u' = uav_put_peer k (p3_started (uv_id u) k ak n eph b) u)"
    using assms(2) by (auto simp: startPhase3_def Let_def Option.bind_eq_Some_conv p3_started_def
        split: option.splits)
  moreover have "p3_inv i k (p3_started (uv_id u) k ak n eph b)"
    if "length ak = 32" "x25519Generate L seed = Some eph" for ak eph n b seed
    using that x25519Generate_lengths [OF that(2)] assms(1)
    by (simp add: p3_inv_def p3_started_def p3_empty_def uav_inv_D)
  ultimately show ?thesis using assms(1) keys_32 uav_inv_put by metis
qed

lemma inv_P1:
  assumes "uav_inv i u" "uav_handleP1 C L S m now rng u = Some (r, rng', u')"
  shows "uav_inv i u'"
proof (cases rule: uav_handleP1_cases [OF assms(2)])
  case 1
  with assms(1) show ?thesis by (auto simp: uav_inv_offered)
next
  case (2 k n epkA ak inputP1)
  have "length ak = 32" using 2(1) keys_32 by (auto simp: P1_accepted_def)
  obtain n2 eph b seed where e: "x25519Generate L seed = Some eph"
    "u' = uav_put_peer k (p3_answering (uv_id u) k ak n epkA n2 eph inputP1 b) (uav_offered n u)"
    using 2(2) by (auto simp: uav_peer_respond_def Let_def Option.bind_eq_Some_conv p3_answering_def)
  have "p3_inv i k (p3_answering (uv_id u) k ak n epkA n2 eph inputP1 b)"
    using x25519Generate_lengths [OF e(1)] \<open>length ak = 32\<close> assms(1)
    by (simp add: p3_inv_def p3_answering_def p3_empty_def uav_inv_D)
  with e(2) assms(1) show ?thesis by (simp add: uav_inv_intros)
qed

lemma inv_P2:
  assumes "uav_inv i u" "uav_handleP2 C L S m u = Some (r, u')"
  shows "uav_inv i u'"
proof (cases rule: uav_handleP2_cases [OF assms(2)])
  case 1
  with assms(1) show ?thesis by (auto intro!: uav_inv_intros uav_inv_D)
next
  case (2 s n epk inputP2)
  have "p3_inv i (m_senderId m) s" using 2(1) assms(1) by (auto simp: P2_accepted_def uav_inv_D)
  with assms(1) show ?thesis
    by (cases rule: uav_peer_confirm_cases [OF 2(2)]) (auto intro!: uav_inv_intros simp: keys_32)
qed

lemma inv_P3:
  assumes "uav_inv i u" "uav_handleP3 C L S m u = Some (r, u')"
  shows "uav_inv i u'"
proof (cases rule: uav_handleP3_cases [OF assms(2)])
  case (2 s z k)
  have "p3_inv i (m_senderId m) s" using 2(2) assms(1) by (auto simp: P3_accepted_def uav_inv_D)
  with assms(1) 2 show ?thesis by (auto intro!: uav_inv_intros simp: keys_32)
qed (use assms(1) in simp)

end

lemma uav_reach_inv:
  assumes "protocol_env C L S" "uav_reach C L S P i p w u rng"
  shows "uav_inv i u"
  using assms(2)
proof (induction rule: uav_reach.induct)
  case (ur_new rng)
  then show ?case by (simp add: uav_inv_def uav_new_def p2_inv_def p2_uav_empty_def rc_inv_new)
next
  case (ur_provision u rng st)
  then show ?case by (simp add: uav_inv_def provision_def)
next
  case (ur_legacy u rng b)
  then show ?case by (simp add: uav_inv_def setLegacyNoGsAuth_def)
next
  case (ur_inject u rng k c t)
  then show ?case by (simp add: uav_inv_def injectPeerCredential_def p2_inv_def)
next
  case (ur_start2 u rng now r rng' u')
  then show ?case using protocol_env.inv_start2 [OF assms(1)] by blast
next
  case (ur_M2 u rng m now r u')
  then show ?case using protocol_env.inv_M2 [OF assms(1)] by blast
next
  case (ur_M4 u rng m r u')
  then show ?case using protocol_env.inv_M4 [OF assms(1)] by blast
next
  case (ur_start3 u rng k now r rng' u')
  then show ?case using protocol_env.inv_start3 [OF assms(1)] by blast
next
  case (ur_P1 u rng m now r rng' u')
  then show ?case using protocol_env.inv_P1 [OF assms(1)] by blast
next
  case (ur_P2 u rng m r u')
  then show ?case using protocol_env.inv_P2 [OF assms(1)] by blast
next
  case (ur_P3 u rng m r u')
  then show ?case using protocol_env.inv_P3 [OF assms(1)] by blast
qed

lemma phase3_run_reach:
  assumes "phase3_run C L S (t1, t2) k (rngA, a) (rngB, b) = Some ((rngA', a'), (rngB', b'))"
    and "uav_reach C L S P i p w a rngA" "uav_reach C L S Q j q v b rngB"
  shows "uav_reach C L S P i p w a' rngA'" "uav_reach C L S Q j q v b' rngB'"
proof -
  from assms(1) obtain r1 a1 r2 b1 r3 r4 where
    "startPhase3 C L S k t1 rngA a = Some (r1, rngA', a1)"
    "uav_handleP1 C L S (sr_reply r1) t2 rngB b = Some (r2, rngB', b1)"
    "uav_handleP2 C L S (sr_reply r2) a1 = Some (r3, a')" "uav_handleP3 C L S (sr_reply r3) b1 = Some (r4, b')"
    by (auto simp: phase3_run_def Option.bind_eq_Some_conv require_def split: if_splits)
  with assms(2,3) show "uav_reach C L S P i p w a' rngA'" "uav_reach C L S Q j q v b' rngB'"
    by (blast intro: ur_start3 ur_P1 ur_P2 ur_P3)+
qed

subsection \<open>A concrete pair\<close>

text \<open>Two fresh UAVs with an injected common credential.\<close>

abbreviation "demo_cred \<equiv> replicate 32 (7 :: u8)"
abbreviation "demo_a \<equiv> injectPeerCredential 2 demo_cred [] (uav_new 1 fe_default 5000)"
abbreviation "demo_b \<equiv> injectPeerCredential 1 demo_cred [] (uav_new 2 fe_default 5000)"

lemma demo_ab: "om_find (u2_peerCredentials (uv_phase2 demo_a)) (uv_id demo_b) = Some demo_cred"
  "om_find (u2_peerCredentials (uv_phase2 demo_b)) (uv_id demo_a) = Some demo_cred"
  "uv_id demo_a = 1" "uv_id demo_b = 2" "uv_windowMs demo_b = 5000" "rc_seen (uv_replay demo_b) = {}"
  "0 < length demo_cred" "length demo_cred \<le> 8160" "0 \<le> uv_id demo_a" "uv_id demo_a < 65535"
  by (simp_all add: injectPeerCredential_def uav_new_def rc_inv_new p2_uav_empty_def)

lemma demo_clock: "timestampFresh 120 100 (uv_windowMs demo_b)"
  by (simp add: demo_ab timestampFresh_iff)

lemma demo_pair:
  obtains rngA rngB p1 rngA' a1 p2 rngB' b1 p3 a2 b2 where
    "startPhase3 ref_core ref_ossl demo_suite 2 100 rngA demo_a = Some (done_reply p1, rngA', a1)"
    "uav_handleP1 ref_core ref_ossl demo_suite p1 120 rngB demo_b = Some (done_reply p2, rngB', b1)"
    "uav_handleP2 ref_core ref_ossl demo_suite p2 a1 = Some (done_reply p3, a2)"
    "uav_handleP3 ref_core ref_ossl demo_suite p3 b1 = Some (done_quiet, b2)"
    "phase3_agreed demo_a demo_b a2 b2" "m_senderId p2 = 2"
    "uav_reach ref_core ref_ossl demo_suite demo_puf 1 fe_default 5000 a2 rngA'"
proof -
  obtain rng where rng: "drbg_ok ref_ossl rng" using demo_rng by blast
  have unseen: "\<forall>n r. drbg_bytes ref_ossl kNonceLen rng = Some (n, r) \<longrightarrow> n \<notin> rc_seen (uv_replay demo_b)"
    by (simp add: demo_ab)
  obtain ak n n2 eph eph2 inputP1 inputP2 tag2 a1 b1 p1 p2 rngA' rngB' where
    h: "P2_under_way ref_core ref_ossl demo_suite demo_a demo_b ak n n2 eph eph2 inputP1 inputP2 tag2 a1 b1 p2"
    "startPhase3 ref_core ref_ossl demo_suite (uv_id demo_b) 100 rng demo_a = Some (done_reply p1, rngA', a1)"
    "uav_handleP1 ref_core ref_ossl demo_suite p1 120 rng demo_b = Some (done_reply p2, rngB', b1)"
    by (rule ref_proto.phase3_first_half [OF demo_ab(1,2,7-10) rng rng demo_clock unseen])
  obtain p3 a2 b2 where r: "uav_handleP2 ref_core ref_ossl demo_suite p2 a1 = Some (done_reply p3, a2)"
    "uav_handleP3 ref_core ref_ossl demo_suite p3 b1 = Some (done_quiet, b2)" "phase3_agreed demo_a demo_b a2 b2"
    by (rule ref_proto.phase3_second_half [OF h(1) demo_ab(1,2,7,8)])
  have "m_senderId p2 = 2" using h(1) by (auto simp: P2_under_way_def demo_ab)
  moreover have "uav_reach ref_core ref_ossl demo_suite demo_puf 1 fe_default 5000 demo_a rng"
    by (rule ur_inject [OF ur_new])
  then have "uav_reach ref_core ref_ossl demo_suite demo_puf 1 fe_default 5000 a2 rngA'"
    using h(2) r(1) by (blast intro: ur_start3 ur_P2)
  ultimately show thesis using that [OF h(2) [unfolded demo_ab] h(3) r] by blast
qed

subsection \<open>Properties\<close>

text \<open>Forward secrecy of the UAV's sessions, in every reachable state, under any calls and any
  messages in any order: the Phase 2 session has a key exactly when its ephemeral scalar has
  been erased and is established only then; each peer session, kept under its peer's identity,
  is established exactly when it has a key of 32 bytes and exactly when its scalar is gone.\<close>

theorem uav_session_invariant:
  assumes "core_laws C" and "ossl_laws L" and "crypto_suite S" and "uav_reach C L S P i p w u rng"
  shows "(u2_sessionKey (uv_phase2 u) \<noteq> [] \<longleftrightarrow> u2_ephemeralErased (uv_phase2 u)) \<and>
    (u2_ephemeralErased (uv_phase2 u) \<longrightarrow> kp_secret (u2_ephemeral (uv_phase2 u)) = []) \<and>
    (u2_established (uv_phase2 u) \<longrightarrow> length (u2_sessionKey (uv_phase2 u)) = 32) \<and>
    (\<forall>k s. om_find (uv_peers u) k = Some s \<longrightarrow> p3_localId s = i \<and> p3_peerId s = k \<and>
       (p3_established s \<longleftrightarrow> kp_secret (p3_ephemeral s) = []) \<and>
       (p3_established s \<longleftrightarrow> p3_ephemeralErased s) \<and>
       peerSessionKey k u = (if p3_established s then Some (p3_sessionKey s) else None) \<and>
       (p3_established s \<longrightarrow> length (p3_sessionKey s) = 32) \<and>
       (\<not> p3_established s \<longrightarrow> p3_sessionKey s = []))"
proof -
  have inv: "uav_inv i u" by (rule uav_reach_inv [OF protocol_envI [OF assms(1-3)] assms(4)])
  have "p2_inv (uv_phase2 u)" using inv by (rule uav_inv_D)
  moreover have "p3_localId s = i \<and> p3_peerId s = k \<and>
      (p3_established s \<longleftrightarrow> kp_secret (p3_ephemeral s) = []) \<and>
      (p3_established s \<longleftrightarrow> p3_ephemeralErased s) \<and>
      peerSessionKey k u = (if p3_established s then Some (p3_sessionKey s) else None) \<and>
      (p3_established s \<longrightarrow> length (p3_sessionKey s) = 32) \<and> (\<not> p3_established s \<longrightarrow> p3_sessionKey s = [])"
    if "om_find (uv_peers u) k = Some s" for k s
    using uav_inv_D(3) [OF inv that] that by (auto simp: p3_inv_def peerSessionKey_def split: if_splits)
  ultimately show ?thesis by (auto simp: p2_inv_def split: if_splits)
qed

theorem uav_session_invariant_witness:
  "\<exists>u rng s. uav_reach ref_core ref_ossl demo_suite demo_puf 1 fe_default 5000 u rng \<and>
     om_find (uv_peers u) 2 = Some s \<and> p3_established s \<and> kp_secret (p3_ephemeral s) = []"
proof (rule demo_pair)
  fix a2 rngA' b2
  assume h: "uav_reach ref_core ref_ossl demo_suite demo_puf 1 fe_default 5000 a2 rngA'"
    "phase3_agreed demo_a demo_b a2 b2"
  then obtain s k where s: "om_find (uv_peers a2) 2 = Some s" "peerSessionKey 2 a2 = Some k"
    by (auto simp: phase3_agreed_def demo_ab)
  then have "p3_established s" by (auto simp: peerSessionKey_def split: if_splits)
  with uav_session_invariant [OF ref_core_laws refo.ossl_laws_axioms ref_env.sha3.crypto_suite_axioms h(1)]
    h(1) s(1) show ?thesis by blast
qed

text \<open>C10. The peer handshake succeeds and agrees: two UAVs that hold the same credential for each
  other complete P1 to P3, with the same 32-byte key in \<open>peerSessionKey\<close> of both, over the same
  nonces and transcript, both scalars erased, and nothing else changed but the responder's
  replay cache.\<close>

theorem peers_authenticate:
  assumes "core_laws C" and "ossl_laws L" and "crypto_suite S"
    and "om_find (u2_peerCredentials (uv_phase2 a)) (uv_id b) = Some cred"
    and "om_find (u2_peerCredentials (uv_phase2 b)) (uv_id a) = Some cred"
    and "0 < length cred" and "length cred \<le> 8160" and "0 \<le> uv_id a" and "uv_id a < 65535"
    and "drbg_ok L rngA" and "drbg_ok L rngB" and "timestampFresh t2 t1 (uv_windowMs b)"
    and "\<forall>n r. drbg_bytes L kNonceLen rngA = Some (n, r) \<longrightarrow> n \<notin> rc_seen (uv_replay b)"
  shows "\<exists>rngA' a' rngB' b'. phase3_run C L S (t1, t2) (uv_id b) (rngA, a) (rngB, b) =
      Some ((rngA', a'), (rngB', b')) \<and> phase3_agreed a b a' b'"
  using protocol_env.phase3_run_honest [OF protocol_envI [OF assms(1-3)] assms(4-13)] by blast

theorem peers_authenticate_witness:
  "\<exists>rng rngA' a' rngB' b'. phase3_run ref_core ref_ossl demo_suite (100, 120) 2 (rng, demo_a) (rng, demo_b) =
      Some ((rngA', a'), (rngB', b')) \<and> phase3_agreed demo_a demo_b a' b'"
proof -
  obtain rng where rng: "drbg_ok ref_ossl rng" using demo_rng by blast
  have "\<forall>n r. drbg_bytes ref_ossl kNonceLen rng = Some (n, r) \<longrightarrow> n \<notin> rc_seen (uv_replay demo_b)"
    by (simp add: demo_ab)
  from peers_authenticate [OF ref_core_laws refo.ossl_laws_axioms ref_env.sha3.crypto_suite_axioms
      demo_ab(1,2,7-10) rng rng demo_clock this]
  show ?thesis unfolding demo_ab(4) by blast
qed

end
