(* ===== verification/Peer_Safety.thy ===== *)
theory Peer_Safety
  imports Uav_Invariant
begin

text \<open>
  What a UAV concedes to peer messages it did not expect, and how the credentials handed out in
  Phase 2 fit together in Phase 3.
\<close>

text \<open>C11. A UAV answers only an authenticated P1, and an unanswered one changes nothing but the replay
  cache: a reply means that the tag is the MAC, under the key derived from the credential for
  the claimed sender, over sender, receiver, nonce, timestamp and ephemeral key as received,
  within the window and with a nonce not seen before.\<close>

theorem uav_answers_only_authentic_P1:
  assumes "crypto_suite S" and "uav_handleP1 C L S p1 now rng u = Some (r, rng', u')"
  shows "if sr_hasReply r
    then \<exists>sid rid n ts t epkA tag i cred authKey inputP1.
      msg_get p1 SENDER_ID = Some sid \<and> decodeId C sid = Some i \<and> msg_get p1 RECEIVER_ID = Some rid \<and>
      om_find (u2_peerCredentials (uv_phase2 u)) i = Some cred \<and>
      msg_get p1 NONCE_1 = Some n \<and> n \<notin> rc_seen (uv_replay u) \<and> msg_get p1 EPK_A = Some epkA \<and>
      msg_get p1 TIMESTAMP = Some ts \<and> decodeTimestamp C ts = Some t \<and>
      \<bar>uint now - uint t\<bar> \<le> uint (uv_windowMs u) \<and>
      su_kdf S cred [] kPeerAuth [] (su_keyLen S) = Some authKey \<and>
      macInput C (m_suiteId p1) P3_P1_PEER_REQUEST (signed_P1 sid rid n ts epkA) = Some inputP1 \<and>
      msg_get p1 MAC_TAG = Some tag \<and> su_mac S authKey inputP1 = Some tag
    else \<not> sr_ok r \<and> rng' = rng \<and> uv_peers u' = uv_peers u \<and> uv_phase2 u' = uv_phase2 u \<and>
      uv_state u' = uv_state u"
proof (cases rule: uav_handleP1_cases [OF assms(2)])
  case 1
  then show ?thesis by auto
next
  case (2 i n epkA authKey inputP1)
  have "sr_hasReply r" using uav_peer_respond_Some [OF 2(2)] by blast
  moreover obtain sid rid ts tag cred where a: "P1_admitted C p1 now u i n epkA sid rid ts tag cred"
    "su_kdf S cred [] kPeerAuth [] (su_keyLen S) = Some authKey"
    "macInput C (m_suiteId p1) P3_P1_PEER_REQUEST (signed_P1 sid rid n ts epkA) = Some inputP1"
    "su_macVerify S authKey inputP1 tag = Some True"
    using 2(1) by (auto simp: P1_accepted_def)
  moreover have "su_mac S authKey inputP1 = Some tag"
    by (rule crypto_suite.mac_verified [OF assms(1) a(4)])
  ultimately show ?thesis by (auto simp: P1_admitted_def timestampFresh_iff)
qed

theorem uav_answers_only_authentic_P1_witness:
  "\<exists>u p1 rng r rng' u' cred i. uav_handleP1 ref_core ref_ossl demo_suite p1 120 rng u = Some (r, rng', u') \<and>
     sr_hasReply r \<and> om_find (u2_peerCredentials (uv_phase2 u)) i = Some cred"
proof (rule demo_pair)
  fix p1 rngB p2 rngB' b1
  assume h: "uav_handleP1 ref_core ref_ossl demo_suite p1 120 rngB demo_b = Some (done_reply p2, rngB', b1)"
  have "sr_hasReply (done_reply p2)" by simp
  with uav_answers_only_authentic_P1 [OF ref_env.sha3.crypto_suite_axioms h] h show ?thesis by fastforce
qed

text \<open>Of a session only what the initiator wrote when it started counts for an acceptable P2: the nonce,
  ephemeral key and encoding a previous P2 left in it are overwritten.\<close>

lemma uav_put_peer_twice: "uav_put_peer j y (uav_put_peer j x u) = uav_put_peer j y u"
  by (simp add: uav_put_peer_def)

lemma uav_handleP2_accepted:
  assumes "P2_accepted C S p2 u s n epk inputP2"
  shows "uav_handleP2 C L S p2 u =
    uav_peer_confirm C L S p2 s n epk inputP2 (uav_put_peer (m_senderId p2) (p3_heard n epk s) u)"
proof -
  obtain tag where t: "msg_get p2 MAC_TAG = Some tag" "su_macVerify S (p3_authKey s) inputP2 tag = Some True"
    using assms by (auto simp: P2_accepted_def)
  then show ?thesis using assms by (simp add: P2_accepted_def uav_handleP2_heard [where tag = tag] Let_def)
qed

lemma P2_accepted_after_other:
  assumes "P2_accepted C S p2 u s n epk inputP2"
  shows "P2_accepted C S p2 (uav_put_peer (m_senderId p2) ((p3_heard n0 epk0 s)\<lparr>p3_p2Encoded := i\<rparr>) u)
    ((p3_heard n0 epk0 s)\<lparr>p3_p2Encoded := i\<rparr>) n epk inputP2"
  using assms by (simp add: P2_accepted_def p3_heard_def)

lemma uav_peer_confirm_after_other:
  "uav_peer_confirm C L S p2 ((p3_heard n0 epk0 s)\<lparr>p3_p2Encoded := i\<rparr>) n epk inputP2 u =
   uav_peer_confirm C L S p2 s n epk inputP2 u"
proof -
  let ?s = "(p3_heard n0 epk0 s)\<lparr>p3_p2Encoded := i\<rparr>"
  have heard: "(p3_heard n epk ?s)\<lparr>p3_p2Encoded := inputP2\<rparr> = (p3_heard n epk s)\<lparr>p3_p2Encoded := inputP2\<rparr>"
    by (simp add: p3_heard_def)
  have sel: "p3_authKey ?s = p3_authKey s" "p3_p1Encoded ?s = p3_p1Encoded s" "p3_localId ?s = p3_localId s"
    "p3_peerId ?s = p3_peerId s" "p3_ephemeral ?s = p3_ephemeral s" by (simp_all add: p3_heard_def)
  show ?thesis unfolding uav_peer_confirm_def heard sel by (rule refl)
qed

lemma uav_peer_confirm_put:
  "uav_peer_confirm C L S p2 s n epk inputP2 (uav_put_peer (m_senderId p2) x u) =
   uav_peer_confirm C L S p2 s n epk inputP2 u"
proof -
  have put: "uav_put_peer j y (cred_insert p (uav_put_peer j x u)) = uav_put_peer j y (cred_insert p u)"
    "cred_at p (uav_put_peer j x u) = cred_at p u" for p j y
    by (simp_all add: uav_put_peer_def cred_insert_def hasPeerCredential_def cred_at_def)
  show ?thesis unfolding uav_peer_confirm_def uav_put_peer_twice put by (rule refl)
qed

lemma uav_handleP2_after_other:
  assumes "P2_accepted C S p2 u s n epk inputP2"
  shows "uav_handleP2 C L S p2 (uav_put_peer (m_senderId p2) ((p3_heard n0 epk0 s)\<lparr>p3_p2Encoded := i\<rparr>) u) =
    uav_handleP2 C L S p2 u"
  by (simp add: uav_handleP2_accepted [OF P2_accepted_after_other [OF assms]] uav_handleP2_accepted [OF assms]
      uav_peer_confirm_after_other uav_peer_confirm_put)

text \<open>A refusal leaves the UAV as it was, or writes what was heard into the initiator's session with
  the named sender; the encoding of P2 is written as well when only the key exchange failed.\<close>

lemma uav_handleP2_refused_state:
  assumes "uav_handleP2 C L S m u = Some (r, u')" and "\<not> sr_ok r"
  obtains "u' = u" | s n epk i where "om_find (uv_peers u) (m_senderId m) = Some s" "p3_initiator s"
    "u' = uav_put_peer (m_senderId m) ((p3_heard n epk s)\<lparr>p3_p2Encoded := i\<rparr>) u"
    "i \<noteq> p3_p2Encoded s \<longrightarrow> P2_accepted C S m u s n epk i \<and> r = fail DhFailed \<and>
       \<not> fst (x25519Derive L (kp_secret (p3_ephemeral s)) epk)"
proof (cases rule: uav_handleP2_cases [OF assms(1)])
  case 1
  have "p3_heard n epk s = (p3_heard n epk s)\<lparr>p3_p2Encoded := p3_p2Encoded s\<rparr>" for n epk s
    by (simp add: p3_heard_def)
  with 1 that show thesis by metis
next
  case (2 s n epk inputP2)
  then have "om_find (uv_peers u) (m_senderId m) = Some s" "p3_initiator s" by (simp_all add: P2_accepted_def)
  with 2 that(2) [of s inputP2 n epk] assms(2) show thesis
    by (cases rule: uav_peer_confirm_cases [OF 2(2)]) (simp_all add: uav_put_peer_twice)
qed

text \<open>C12. A refused P2 is harmless, whatever the reason of the refusal (a bad shape, a wrong tag, a
  failed key exchange) and whether or not the session is completed: no session gains, loses or
  changes a key; the only state it may leave behind is the nonce, the ephemeral key and the encoding
  of P2 in the session this UAV started with the named sender, the encoding only after an authentic P2
  whose key exchange failed; and every P2 of that sender that the
  UAV would have accepted before is answered with exactly the same result and leaves the same
  state as if the refused one had never come.\<close>

theorem forged_P2_is_harmless:
  assumes "uav_handleP2 C L S forged u = Some (r, u')" and "\<not> sr_ok r"
  shows "(\<forall>k. peerSessionKey k u' = peerSessionKey k u) \<and>
    (u' = u \<or> (\<exists>s n epk i. om_find (uv_peers u) (m_senderId forged) = Some s \<and> p3_initiator s \<and>
       u' = uav_put_peer (m_senderId forged) ((p3_heard n epk s)\<lparr>p3_p2Encoded := i\<rparr>) u \<and>
       (i = p3_p2Encoded s \<or> P2_accepted C S forged u s n epk i \<and> r = fail DhFailed \<and>
          \<not> fst (x25519Derive L (kp_secret (p3_ephemeral s)) epk)))) \<and>
    (\<forall>p2 s n epk inputP2. m_senderId p2 = m_senderId forged \<and> P2_accepted C S p2 u s n epk inputP2 \<longrightarrow>
       uav_handleP2 C L S p2 u' = uav_handleP2 C L S p2 u)"
proof (cases rule: uav_handleP2_refused_state [OF assms])
  case (2 s n epk i)
  have keys: "peerSessionKey k u' = peerSessionKey k u" for k
    using 2(1) by (simp add: 2(3) peerSessionKey_def p3_heard_def)
  have "uav_handleP2 C L S p2 u' = uav_handleP2 C L S p2 u"
    if "m_senderId p2 = m_senderId forged" "P2_accepted C S p2 u s' n' epk' i'" for p2 s' n' epk' i'
  proof -
    from that 2(1) have "s' = s" by (simp add: P2_accepted_def)
    with uav_handleP2_after_other [of C S p2 u s n' epk' i' L i n epk, unfolded that(1)] that show ?thesis by (simp add: 2(3))
  qed
  with keys 2 show ?thesis by blast
qed simp

theorem forged_P2_is_harmless_witness:
  "\<exists>u u' p2 forged r m u2. uav_handleP2 ref_core ref_ossl demo_suite forged u = Some (r, u') \<and> \<not> sr_ok r \<and>
     uav_handleP2 ref_core ref_ossl demo_suite p2 u' = Some (done_reply m, u2)"
proof (rule demo_pair)
  fix rngA p1 rngA' a1 p2 p3 a2
  assume h: "startPhase3 ref_core ref_ossl demo_suite 2 100 rngA demo_a = Some (done_reply p1, rngA', a1)"
    "uav_handleP2 ref_core ref_ossl demo_suite p2 a1 = Some (done_reply p3, a2)" "m_senderId p2 = 2"
  let ?f = "msg_set EPK_B [] p2"
  obtain s n epk i where a: "P2_accepted ref_core demo_suite p2 a1 s n epk i"
    by (cases rule: uav_handleP2_cases [OF h(2)]) auto
  then have s: "om_find (uv_peers a1) 2 = Some s" "p3_initiator s" "m_type ?f = P3_P2_PEER_RESPONSE"
    "msg_get ?f NONCE_2 = Some n" "msg_get ?f EPK_B = Some []" "length epk = 32"
    using h(3) by (auto simp: P2_accepted_def kX25519KeyLen_def)
  obtain tag where t: "msg_get ?f MAC_TAG = Some tag" using a by (auto simp: P2_accepted_def)
  have snd: "m_senderId ?f = 2" "m_senderId p2 = m_senderId ?f" using h(3) by simp_all
  define u' where "u' = uav_put_peer 2 (p3_heard n [] s) a1"
  have f: "uav_handleP2 ref_core ref_ossl demo_suite ?f a1 = Some (fail MalformedField, u')"
    using uav_handleP2_heard [of ?f a1 s n "[]" tag ref_core ref_ossl demo_suite] s t snd(1)
    by (simp add: kX25519KeyLen_def u'_def)
  have "\<not> sr_ok (fail MalformedField)" by (simp add: fail_def)
  from forged_P2_is_harmless [OF f this] snd(2) a
  have "uav_handleP2 ref_core ref_ossl demo_suite p2 u' = uav_handleP2 ref_core ref_ossl demo_suite p2 a1"
    by metis
  with f h(2) show ?thesis by (metis step_result_simps(1))
qed

text \<open>C13. The responder holds a key only after an authentic P3: an accepted P3 carries the MAC, under
  the session's authentication key, over the transcript of P1 and P2; the key is then derived
  from the credential and the shared secret over that transcript, and every other session is as
  before.  Any other P3 changes nothing at all.\<close>

theorem responder_key_needs_authentic_P3:
  assumes "crypto_suite S" and "uav_handleP3 C L S p3 u = Some (r, u')"
  shows "if sr_ok r
    then \<exists>s inputP3 tag z k. om_find (uv_peers u) (m_senderId p3) = Some s \<and> \<not> p3_initiator s \<and>
      macInput C (m_suiteId p3) P3_P3_PEER_COMPLETE Map.empty = Some inputP3 \<and>
      msg_get p3 MAC_TAG = Some tag \<and>
      su_mac S (p3_authKey s) (inputP3 @ p3_p1Encoded s @ p3_p2Encoded s) = Some tag \<and>
      x25519Derive L (kp_secret (p3_ephemeral s)) (p3_epkRemote s) = (True, z) \<and>
      su_kdf S (cred_at (p3_peerId s) u @ z) (p3_p1Encoded s @ p3_p2Encoded s) kPeerSess []
        (su_keyLen S) = Some k \<and>
      peerSessionKey (m_senderId p3) u' = Some k \<and>
      (\<forall>j. j \<noteq> m_senderId p3 \<longrightarrow> om_find (uv_peers u') j = om_find (uv_peers u) j)
    else u' = u"
proof (cases rule: uav_handleP3_cases [OF assms(2)])
  case 1
  then show ?thesis by simp
next
  case (2 s z k)
  obtain inputP3 tag where a: "macInput C (m_suiteId p3) P3_P3_PEER_COMPLETE Map.empty = Some inputP3"
    "msg_get p3 MAC_TAG = Some tag"
    "su_macVerify S (p3_authKey s) (inputP3 @ p3_p1Encoded s @ p3_p2Encoded s) tag = Some True"
    "om_find (uv_peers u) (m_senderId p3) = Some s" "\<not> p3_initiator s"
    using 2(2) by (auto simp: P3_accepted_def)
  have "su_mac S (p3_authKey s) (inputP3 @ p3_p1Encoded s @ p3_p2Encoded s) = Some tag"
    by (rule crypto_suite.mac_verified [OF assms(1) a(3)])
  moreover have "peerSessionKey (m_senderId p3) u' = Some k" by (simp add: 2(5) peerSessionKey_def p3_keyed_def)
  moreover have "\<forall>j. j \<noteq> m_senderId p3 \<longrightarrow> om_find (uv_peers u') j = om_find (uv_peers u) j" by (simp add: 2(5))
  ultimately show ?thesis using 2(1,3,4) a(1,2,4,5) by auto
qed

theorem responder_key_needs_authentic_P3_witness:
  "\<exists>u p3 r u' k. uav_handleP3 ref_core ref_ossl demo_suite p3 u = Some (r, u') \<and> sr_ok r \<and>
     peerSessionKey (m_senderId p3) u' = Some k"
proof (rule demo_pair)
  fix p3 b1 b2
  assume h: "uav_handleP3 ref_core ref_ossl demo_suite p3 b1 = Some (done_quiet, b2)"
  have "sr_ok done_quiet" by simp
  with responder_key_needs_authentic_P3 [OF ref_env.sha3.crypto_suite_axioms h] h show ?thesis by fastforce
qed

text \<open>Two devices after Phase 2, written down directly.\<close>

definition demo_rec :: "int \<Rightarrow> device_record" where
  "demo_rec i = device_record_empty\<lparr>dr_uavId := i, dr_tid := replicate 16 (word_of_int i),
     dr_mk := replicate 32 1, dr_enrolled := True\<rparr>"

definition demo_gs :: gs where
  "demo_gs = \<lparr>gs_feParams = fe_default, gs_windowMs = 5000, gs_numUavs = 2,
     gs_masterKey = replicate 32 3, gs_devices = [(1, demo_rec 1), (2, demo_rec 2)],
     gs_sessions = [], gs_replay = rc_new kReplayCapacity\<rparr>"

definition demo_completed_gs :: "device_record \<Rightarrow> gs \<Rightarrow> gs" where
  "demo_completed_gs r g = g\<lparr>gs_sessions := om_set (dr_uavId r) (gs_session_keyed (replicate 32 8)
       (gs_session (dr_uavId r) [] [] 0 [] [] 0 x25519_empty [])) (gs_sessions g),
     gs_devices := om_set (dr_uavId r) (r\<lparr>dr_pendingTid := replicate 16 9\<rparr>) (gs_devices g)\<rparr>"

definition demo_completed_uav :: "device_record \<Rightarrow> gs \<Rightarrow> uav \<Rightarrow> uav" where
  "demo_completed_uav r g u = u\<lparr>uv_phase2 := (u2_keyed (replicate 32 8) p2_uav_empty)\<lparr>u2_established := True,
       u2_peerCredentials := other_creds ref_core demo_suite (gs_masterKey g) (dr_uavId r) (gs_devices g),
       u2_peerTids := other_tids (dr_uavId r) (gs_devices g)\<rparr>,
     uv_state := (uv_state u)\<lparr>ds_tid := replicate 16 9\<rparr>\<rparr>"

lemma demo_completed:
  "phase2_agreed ref_core demo_suite u g r (demo_completed_uav r g u) (demo_completed_gs r g)"
  unfolding phase2_agreed_def
  by (intro exI [of _ "replicate 32 8"] exI [of _ "replicate 16 9"]
      exI [of _ "gs_session_keyed (replicate 32 8) (gs_session (dr_uavId r) [] [] 0 [] [] 0 x25519_empty [])"])
    (simp add: demo_completed_uav_def demo_completed_gs_def u2_keyed_def p2_uav_empty_def sessionKeyFor_def
      gs_session_keyed_def gs_session_def)

lemma demo_gs_inv: "gs_inv demo_gs"
  by (simp add: gs_inv_def demo_gs_def rc_inv_new device_ok_def demo_rec_def device_record_empty_def)
    (simp add: rc_new_def)

text \<open>C9. The whole way: two different devices of one ground station that have each completed the
  Phase 2 handshake, one after the other, complete the peer handshake with the credentials they
  were handed and end with one key; the credential of a pair does not depend on which of the
  two asks for it.\<close>

theorem authenticated_uavs_agree:
  assumes "core_laws C" and "ossl_laws L" and "crypto_suite S" and "gs_inv g"
    and "om_find (gs_devices g) (uv_id a) = Some recA" and "om_find (gs_devices g) (uv_id b) = Some recB"
    and "uv_id a \<noteq> uv_id b"
    and "phase2_agreed C S a g recA a1 g1" and "phase2_agreed C S b g1 recB b1 g2"
    and "drbg_ok L rngA" and "drbg_ok L rngB" and "timestampFresh t2 t1 (uv_windowMs b1)"
    and "\<forall>n r. drbg_bytes L kNonceLen rngA = Some (n, r) \<longrightarrow> n \<notin> rc_seen (uv_replay b1)"
  shows "pairCredential C S (gs_masterKey g) (uv_id a) (uv_id b) =
      pairCredential C S (gs_masterKey g) (uv_id b) (uv_id a) \<and>
    (\<exists>rngA' a2 rngB' b2. phase3_run C L S (t1, t2) (uv_id b) (rngA, a1) (rngB, b1) =
      Some ((rngA', a2), (rngB', b2)) \<and> phase3_agreed a1 b1 a2 b2)"
proof -
  note env = protocol_envI [OF assms(1-3)]
  let ?mk = "gs_masterKey g"
  have g: "om_wf (gs_devices g)" "length ?mk = 32"
    "\<And>k r. om_find (gs_devices g) k = Some r \<Longrightarrow> device_ok k r" using assms(4) by (simp_all add: gs_inv_def)
  have idA: "dr_uavId recA = uv_id a" "0 \<le> uv_id a" "uv_id a < 65535" and idB: "dr_uavId recB = uv_id b"
    using g(3) [OF assms(5)] g(3) [OF assms(6)] by (simp_all add: device_ok_def)
  have creds: "om_find (other_creds C S mk own ds) k = map_option (\<lambda>_. pair_cred C S mk own k) (om_find ds k)"
    if "k \<noteq> own" for mk own k and ds :: "(int, device_record) omap"
    using that by (induction ds) (auto simp: other_creds_def)
  have sym: "pairCredential C S ?mk (uv_id a) (uv_id b) = pairCredential C S ?mk (uv_id b) (uv_id a)"
    by (rule protocol_env.pairCredential_sym [OF env])
  let ?c = "pair_cred C S ?mk (uv_id a) (uv_id b)"
  have ids: "uv_id a1 = uv_id a" "uv_id b1 = uv_id b"
    using assms(8,9) by (auto simp: phase2_agreed_def)
  have "u2_peerCredentials (uv_phase2 a1) = other_creds C S ?mk (uv_id a) (gs_devices g)"
    using assms(8) idA(1) by (auto simp: phase2_agreed_def)
  then have cA: "om_find (u2_peerCredentials (uv_phase2 a1)) (uv_id b1) = Some ?c"
    using creds [of "uv_id b" "uv_id a"] assms(6,7) by (simp add: ids)
  have "\<exists>r. om_find (gs_devices g1) (uv_id a) = Some r" "gs_masterKey g1 = ?mk"
    using assms(8) idA(1) by (auto simp: phase2_agreed_def)
  moreover have "u2_peerCredentials (uv_phase2 b1) = other_creds C S (gs_masterKey g1) (uv_id b) (gs_devices g1)"
    using assms(9) idB by (auto simp: phase2_agreed_def)
  ultimately have cB: "om_find (u2_peerCredentials (uv_phase2 b1)) (uv_id a1) = Some ?c"
    using creds [of "uv_id a" "uv_id b"] assms(7) sym by (auto simp: ids pair_cred_def)
  have len: "length ?c = 32" using protocol_env.pair_cred(2) [OF env g(2)] .
  with protocol_env.phase3_run_honest [OF env cA cB _ _ _ _ assms(10-13)] idA sym ids
  show ?thesis by auto
qed

theorem authenticated_uavs_agree_witness:
  "\<exists>rng rngA' a2 rngB' b2. phase3_run ref_core ref_ossl demo_suite (100, 120) 2
     (rng, demo_completed_uav (demo_rec 1) demo_gs (uav_new 1 fe_default 5000))
     (rng, demo_completed_uav (demo_rec 2) (demo_completed_gs (demo_rec 1) demo_gs) (uav_new 2 fe_default 5000)) =
     Some ((rngA', a2), (rngB', b2))"
proof -
  obtain rng where rng: "drbg_ok ref_ossl rng" using demo_rng by blast
  let ?a = "uav_new 1 fe_default 5000" and ?b = "uav_new 2 fe_default 5000"
  have ids: "uv_id ?a = 1" "uv_id ?b = 2" by (simp_all add: uav_new_def)
  have d: "om_find (gs_devices demo_gs) (uv_id ?a) = Some (demo_rec 1)"
    "om_find (gs_devices demo_gs) (uv_id ?b) = Some (demo_rec 2)" "uv_id ?a \<noteq> uv_id ?b"
    by (simp_all add: demo_gs_def ids)
  let ?b1 = "demo_completed_uav (demo_rec 2) (demo_completed_gs (demo_rec 1) demo_gs) ?b"
  have "timestampFresh 120 100 (uv_windowMs ?b1)"
    "\<forall>n r. drbg_bytes ref_ossl kNonceLen rng = Some (n, r) \<longrightarrow> n \<notin> rc_seen (uv_replay ?b1)"
    by (simp_all add: demo_completed_uav_def uav_new_def timestampFresh_iff rc_inv_new)
  with authenticated_uavs_agree [OF ref_core_laws refo.ossl_laws_axioms ref_env.sha3.crypto_suite_axioms
      demo_gs_inv d demo_completed demo_completed rng rng, of 120 100]
  show ?thesis unfolding ids by blast
qed

end
