(* ===== verification/Signature.thy ===== *)
theory Signature
  imports Ossl
begin

text \<open>
  \<open>crypto/SignatureSuite.h\<close>, \<open>SignatureSuite.cc\<close>, \<open>EcdsaSuite.cc\<close>, \<open>RsaSuite.cc\<close>: the signature
  suites of the baseline protocol.  Their keys are OpenSSL objects, so the calls of the \<open>EVP_PKEY\<close>
  interface are a parameter, the record \<open>evp\<close>; the type of its keys is left open.  A call that
  draws from OpenSSL's generator gets what it draws as an argument.  What the protocol relies on is
  the locale \<open>signature_suite\<close>; both suites meet it over any library that satisfies \<open>evp_laws\<close>.
\<close>

datatype pkey_alg = EVP_PKEY_EC | EVP_PKEY_RSA

record 'k evp =
  ev_ctx_new :: "pkey_alg \<Rightarrow> bool"
  ev_keygen_init :: "pkey_alg \<Rightarrow> bool"
  ev_set_param :: "pkey_alg \<Rightarrow> nat \<Rightarrow> bool"
  ev_keygen :: "pkey_alg \<Rightarrow> bytes \<Rightarrow> 'k option"
  ev_i2d :: "'k \<Rightarrow> bytes option"
  ev_d2i :: "bytes \<Rightarrow> 'k option"
  ev_md_ctx_new :: bool
  ev_sign_init :: "'k \<Rightarrow> bool"
  ev_sign_size :: "'k \<Rightarrow> bytes \<Rightarrow> nat option"
  ev_sign :: "bytes \<Rightarrow> 'k \<Rightarrow> bytes \<Rightarrow> nat \<Rightarrow> bytes option"
  ev_verify_init :: "'k \<Rightarrow> bool"
  ev_verify :: "'k \<Rightarrow> bytes \<Rightarrow> bytes \<Rightarrow> bool"

text \<open>A \<open>SignatureKeyPair\<close> is its pointer: \<open>None\<close> is null, the pair that is not \<open>valid()\<close>.\<close>

type_synonym 'k sig_keypair = "'k option"

definition keypair_valid :: "'k sig_keypair \<Rightarrow> bool" where
  "keypair_valid kp \<longleftrightarrow> kp \<noteq> None"

record 'k sig_suite =
  sg_name :: string
  sg_generateKeypair :: "bytes \<Rightarrow> 'k sig_keypair"
  sg_publicKeyBytes :: "'k sig_keypair \<Rightarrow> bytes"
  sg_keyFromPublicBytes :: "bytes \<Rightarrow> 'k sig_keypair option"
  sg_sign :: "bytes \<Rightarrow> 'k sig_keypair \<Rightarrow> bytes \<Rightarrow> bytes"
  sg_verify :: "'k sig_keypair \<Rightarrow> bytes \<Rightarrow> bytes \<Rightarrow> bool"

subsection \<open>ECDSA over P-256\<close>

definition NID_X9_62_prime256v1 :: nat where "NID_X9_62_prime256v1 = 415"

definition ecdsa_generateKeypair :: "'k evp \<Rightarrow> bytes \<Rightarrow> 'k sig_keypair" where
  "ecdsa_generateKeypair E ent =
     (if \<not> ev_ctx_new E EVP_PKEY_EC then None
      else if ev_keygen_init E EVP_PKEY_EC \<and> ev_set_param E EVP_PKEY_EC NID_X9_62_prime256v1
      then ev_keygen E EVP_PKEY_EC ent else None)"

definition ecdsa_publicKeyBytes :: "'k evp \<Rightarrow> 'k sig_keypair \<Rightarrow> bytes" where
  "ecdsa_publicKeyBytes E kp = (case kp of None \<Rightarrow> []
     | Some key \<Rightarrow> (case ev_i2d E key of None \<Rightarrow> [] | Some der \<Rightarrow> der))"

definition ecdsa_keyFromPublicBytes :: "'k evp \<Rightarrow> bytes \<Rightarrow> 'k sig_keypair option" where
  "ecdsa_keyFromPublicBytes E spki =
     (case ev_d2i E spki of None \<Rightarrow> None | Some key \<Rightarrow> Some (Some key))"

definition ecdsa_sign :: "'k evp \<Rightarrow> bytes \<Rightarrow> 'k sig_keypair \<Rightarrow> bytes \<Rightarrow> bytes" where
  "ecdsa_sign E ent kp m =
     (case kp of None \<Rightarrow> []
      | Some key \<Rightarrow>
          if \<not> ev_md_ctx_new E then []
          else if \<not> ev_sign_init E key then []
          else (case ev_sign_size E key m of None \<Rightarrow> []
                | Some n \<Rightarrow> (case ev_sign E ent key m n of None \<Rightarrow> [] | Some sig \<Rightarrow> sig)))"

definition ecdsa_verify :: "'k evp \<Rightarrow> 'k sig_keypair \<Rightarrow> bytes \<Rightarrow> bytes \<Rightarrow> bool" where
  "ecdsa_verify E kp m sig =
     (case kp of None \<Rightarrow> False
      | Some key \<Rightarrow>
          if \<not> ev_md_ctx_new E then False else ev_verify_init E key \<and> ev_verify E key m sig)"

definition ecdsaSuite :: "'k evp \<Rightarrow> 'k sig_suite" where
  "ecdsaSuite E = \<lparr>sg_name = ''ecdsa-p256'', sg_generateKeypair = ecdsa_generateKeypair E,
     sg_publicKeyBytes = ecdsa_publicKeyBytes E, sg_keyFromPublicBytes = ecdsa_keyFromPublicBytes E,
     sg_sign = ecdsa_sign E, sg_verify = ecdsa_verify E\<rparr>"

subsection \<open>RSA\<close>

definition kRsaBits :: nat where "kRsaBits = 2048"

definition rsa_generateKeypair :: "'k evp \<Rightarrow> bytes \<Rightarrow> 'k sig_keypair" where
  "rsa_generateKeypair E ent =
     (if \<not> ev_ctx_new E EVP_PKEY_RSA then None
      else if ev_keygen_init E EVP_PKEY_RSA \<and> ev_set_param E EVP_PKEY_RSA kRsaBits
      then ev_keygen E EVP_PKEY_RSA ent else None)"

definition rsa_publicKeyBytes :: "'k evp \<Rightarrow> 'k sig_keypair \<Rightarrow> bytes" where
  "rsa_publicKeyBytes E kp = (case kp of None \<Rightarrow> []
     | Some key \<Rightarrow> (case ev_i2d E key of None \<Rightarrow> [] | Some der \<Rightarrow> der))"

definition rsa_keyFromPublicBytes :: "'k evp \<Rightarrow> bytes \<Rightarrow> 'k sig_keypair option" where
  "rsa_keyFromPublicBytes E spki =
     (case ev_d2i E spki of None \<Rightarrow> None | Some key \<Rightarrow> Some (Some key))"

definition rsa_sign :: "'k evp \<Rightarrow> bytes \<Rightarrow> 'k sig_keypair \<Rightarrow> bytes \<Rightarrow> bytes" where
  "rsa_sign E ent kp m =
     (case kp of None \<Rightarrow> []
      | Some key \<Rightarrow>
          if \<not> ev_md_ctx_new E then []
          else if \<not> ev_sign_init E key then []
          else (case ev_sign_size E key m of None \<Rightarrow> []
                | Some n \<Rightarrow> (case ev_sign E ent key m n of None \<Rightarrow> [] | Some sig \<Rightarrow> sig)))"

definition rsa_verify :: "'k evp \<Rightarrow> 'k sig_keypair \<Rightarrow> bytes \<Rightarrow> bytes \<Rightarrow> bool" where
  "rsa_verify E kp m sig =
     (case kp of None \<Rightarrow> False
      | Some key \<Rightarrow>
          if \<not> ev_md_ctx_new E then False else ev_verify_init E key \<and> ev_verify E key m sig)"

definition rsaSuite :: "'k evp \<Rightarrow> 'k sig_suite" where
  "rsaSuite E = \<lparr>sg_name = ''rsa2048'', sg_generateKeypair = rsa_generateKeypair E,
     sg_publicKeyBytes = rsa_publicKeyBytes E, sg_keyFromPublicBytes = rsa_keyFromPublicBytes E,
     sg_sign = rsa_sign E, sg_verify = rsa_verify E\<rparr>"

definition makeSignatureSuite :: "'k evp \<Rightarrow> string \<Rightarrow> 'k sig_suite option" where
  "makeSignatureSuite E nm =
     (if nm = ''rsa2048'' then Some (rsaSuite E)
      else if nm = ''ecdsa-p256'' then Some (ecdsaSuite E) else None)"

text \<open>The two suites sign and verify alike; only the keys differ.\<close>

lemma ecdsa_sign_eq: "ecdsa_sign = rsa_sign" "ecdsa_verify = rsa_verify"
  by (simp_all add: fun_eq_iff ecdsa_sign_def rsa_sign_def ecdsa_verify_def rsa_verify_def)

subsection \<open>The contract\<close>

text \<open>What the protocol relies on: what a generated pair signs is accepted under the key read back
  from its public bytes.  Nothing is assumed about who can produce a signature.\<close>

locale signature_suite =
  fixes G :: "'k sig_suite"
  assumes verify_sign: "sg_generateKeypair G ent = Some key \<Longrightarrow>
    \<exists>pk. sg_keyFromPublicBytes G (sg_publicKeyBytes G (Some key)) = Some (Some pk) \<and>
      (\<forall>ent' m. sg_verify G (Some pk) m (sg_sign G ent' (Some key) m))"

locale evp_laws =
  fixes E :: "'k evp"
  assumes public_bytes: "ev_keygen E alg ent = Some key \<Longrightarrow>
      \<exists>der pk. ev_i2d E key = Some der \<and> ev_d2i E der = Some pk \<and> ev_verify_init E pk \<and>
        (\<forall>ent' m n sig. ev_sign E ent' key m n = Some sig \<longrightarrow> ev_verify E pk m sig)"
    and can_sign: "ev_keygen E alg ent = Some key \<Longrightarrow> ev_md_ctx_new E \<and> ev_sign_init E key \<and>
      (\<forall>m. \<exists>n. ev_sign_size E key m = Some n \<and> (\<forall>ent'. \<exists>sig. ev_sign E ent' key m n = Some sig))"
begin

lemma own_key:
  assumes "ev_keygen E alg ent = Some key"
  obtains der pk where "ev_i2d E key = Some der" "ev_d2i E der = Some pk"
    "\<And>ent' m. rsa_verify E (Some pk) m (rsa_sign E ent' (Some key) m)"
proof -
  from public_bytes [OF assms] obtain der pk where d: "ev_i2d E key = Some der" "ev_d2i E der = Some pk"
    "ev_verify_init E pk" "\<forall>ent' m n sig. ev_sign E ent' key m n = Some sig \<longrightarrow> ev_verify E pk m sig" by blast
  have "rsa_verify E (Some pk) m (rsa_sign E ent' (Some key) m)" for ent' m
  proof -
    obtain n sig where "ev_sign_size E key m = Some n" "ev_sign E ent' key m n = Some sig"
      using can_sign [OF assms] by blast
    then show ?thesis using can_sign [OF assms] d(3,4) by (auto simp: rsa_sign_def rsa_verify_def)
  qed
  with that d show thesis by blast
qed

lemma rsa_suite: "signature_suite (rsaSuite E)"
proof
  fix ent key assume "sg_generateKeypair (rsaSuite E) ent = Some key"
  then have "ev_keygen E EVP_PKEY_RSA ent = Some key"
    by (simp add: rsaSuite_def rsa_generateKeypair_def split: if_splits)
  from own_key [OF this] obtain der pk where d: "ev_i2d E key = Some der" "ev_d2i E der = Some pk"
    "\<And>ent' m. rsa_verify E (Some pk) m (rsa_sign E ent' (Some key) m)" by blast
  then show "\<exists>pk. sg_keyFromPublicBytes (rsaSuite E) (sg_publicKeyBytes (rsaSuite E) (Some key)) = Some (Some pk) \<and>
      (\<forall>ent' m. sg_verify (rsaSuite E) (Some pk) m (sg_sign (rsaSuite E) ent' (Some key) m))"
    by (simp add: rsaSuite_def rsa_publicKeyBytes_def rsa_keyFromPublicBytes_def)
qed

lemma ecdsa_suite: "signature_suite (ecdsaSuite E)"
proof
  fix ent key assume "sg_generateKeypair (ecdsaSuite E) ent = Some key"
  then have "ev_keygen E EVP_PKEY_EC ent = Some key"
    by (simp add: ecdsaSuite_def ecdsa_generateKeypair_def split: if_splits)
  from own_key [OF this] obtain der pk where d: "ev_i2d E key = Some der" "ev_d2i E der = Some pk"
    "\<And>ent' m. rsa_verify E (Some pk) m (rsa_sign E ent' (Some key) m)" by blast
  then show "\<exists>pk. sg_keyFromPublicBytes (ecdsaSuite E) (sg_publicKeyBytes (ecdsaSuite E) (Some key)) = Some (Some pk) \<and>
      (\<forall>ent' m. sg_verify (ecdsaSuite E) (Some pk) m (sg_sign (ecdsaSuite E) ent' (Some key) m))"
    by (simp add: ecdsaSuite_def ecdsa_publicKeyBytes_def ecdsa_keyFromPublicBytes_def ecdsa_sign_eq)
qed

end

sublocale evp_laws \<subseteq> rsa: signature_suite "rsaSuite E"
  by (rule rsa_suite)

sublocale evp_laws \<subseteq> ecdsa: signature_suite "ecdsaSuite E"
  by (rule ecdsa_suite)

text \<open>A computable library: a key is its seed, a signature the seed with the digest.\<close>

definition ref_evp :: "bytes evp" where
  "ref_evp = \<lparr>ev_ctx_new = (\<lambda>a. True), ev_keygen_init = (\<lambda>a. True), ev_set_param = (\<lambda>a n. True),
     ev_keygen = (\<lambda>a ent. Some ent), ev_i2d = (\<lambda>k. Some (0x30 # k)),
     ev_d2i = (\<lambda>b. case b of [] \<Rightarrow> None | x # k \<Rightarrow> Some k), ev_md_ctx_new = True,
     ev_sign_init = (\<lambda>k. True), ev_sign_size = (\<lambda>k m. Some 8),
     ev_sign = (\<lambda>ent k m n. Some (ref_digest 8 (ref_tagged [k, m]))), ev_verify_init = (\<lambda>k. True),
     ev_verify = (\<lambda>k m s. s = ref_digest 8 (ref_tagged [k, m]))\<rparr>"

interpretation ref_evp: evp_laws ref_evp
  by unfold_locales (simp_all add: ref_evp_def)

lemma makeSignatureSuite_contract:
  "evp_laws E \<Longrightarrow> makeSignatureSuite E nm = Some G \<Longrightarrow> signature_suite G"
  by (auto simp: makeSignatureSuite_def evp_laws.rsa_suite evp_laws.ecdsa_suite split: if_splits)

end
