(* ===== verification/Baseline.thy ===== *)
theory Baseline
  imports Session Signature
begin

text \<open>
  \<open>protocol/BaselineSigAuth.h\<close>, \<open>protocol/BaselineSigAuth.cc\<close>: the signed Diffie-Hellman handshake
  B1 to B4 the PUF protocol is compared with.  Shared helpers (\<open>timestampFresh\<close>, \<open>fail\<close>,
  \<open>kNonceLen\<close>) are textual copies of those of \<open>Protocol.cc\<close> and are modelled in \<open>Session\<close>.  Lemmas:
  what each handler has checked when it answers, the honest run, and the cases in which
  \<open>handleM1\<close> does not return.
\<close>

subsection \<open>State\<close>

record b_gs_session =
  bg_uavId :: int
  bg_n1 :: bytes
  bg_n2 :: bytes
  bg_t1 :: u32
  bg_t2 :: u32
  bg_epkA :: bytes
  bg_epkB :: bytes
  bg_ephemeral :: x25519_pair
  bg_transcript :: bytes
  bg_sessionKey :: bytes
  bg_ephemeralErased :: bool

record b_uav_session =
  bs_n1 :: bytes
  bs_n2 :: bytes
  bs_t1 :: u32
  bs_ephemeral :: x25519_pair
  bs_transcript :: bytes
  bs_sessionKey :: bytes
  bs_established :: bool
  bs_ephemeralErased :: bool

definition b_uav_session_empty :: b_uav_session where
  "b_uav_session_empty = \<lparr>bs_n1 = [], bs_n2 = [], bs_t1 = 0, bs_ephemeral = x25519_empty,
     bs_transcript = [], bs_sessionKey = [], bs_established = False, bs_ephemeralErased = False\<rparr>"

record 'k b_gs =
  bgs_windowMs :: u32
  bgs_keypair :: "'k sig_keypair"
  bgs_uavPublicKeys :: "(int, 'k sig_keypair option) omap"
  bgs_sessions :: "(int, b_gs_session) omap"
  bgs_replay :: replay_cache

record 'k b_uav =
  bu_id :: int
  bu_windowMs :: u32
  bu_keypair :: "'k sig_keypair"
  bu_gsPublicKey :: "'k sig_keypair option"
  bu_session :: b_uav_session
  bu_replay :: replay_cache

definition b_gs_new :: "u32 \<Rightarrow> 'k b_gs" where
  "b_gs_new windowMs = \<lparr>bgs_windowMs = windowMs, bgs_keypair = None, bgs_uavPublicKeys = [],
     bgs_sessions = [], bgs_replay = rc_new 4096\<rparr>"

definition b_uav_new :: "int \<Rightarrow> u32 \<Rightarrow> 'k b_uav" where
  "b_uav_new uavId windowMs = \<lparr>bu_id = uavId, bu_windowMs = windowMs, bu_keypair = None,
     bu_gsPublicKey = None, bu_session = b_uav_session_empty, bu_replay = rc_new 4096\<rparr>"

subsection \<open>Enrollment\<close>

definition b_gs_ensureOwnKeypair :: "'k sig_suite \<Rightarrow> bytes \<Rightarrow> 'k b_gs \<Rightarrow> 'k b_gs" where
  "b_gs_ensureOwnKeypair G ent g =
     (if \<not> keypair_valid (bgs_keypair g) then g\<lparr>bgs_keypair := sg_generateKeypair G ent\<rparr> else g)"

definition enrollUav :: "'k sig_suite \<Rightarrow> int \<Rightarrow> bytes \<Rightarrow> 'k b_gs \<Rightarrow> 'k b_gs" where
  "enrollUav G uavId spki g =
     g\<lparr>bgs_uavPublicKeys := om_set uavId (sg_keyFromPublicBytes G spki) (bgs_uavPublicKeys g)\<rparr>"

definition b_gs_publicKeyBytes :: "'k sig_suite \<Rightarrow> 'k b_gs \<Rightarrow> bytes" where
  "b_gs_publicKeyBytes G g = sg_publicKeyBytes G (bgs_keypair g)"

definition b_uav_ensureOwnKeypair :: "'k sig_suite \<Rightarrow> bytes \<Rightarrow> 'k b_uav \<Rightarrow> 'k b_uav" where
  "b_uav_ensureOwnKeypair G ent u =
     (if \<not> keypair_valid (bu_keypair u) then u\<lparr>bu_keypair := sg_generateKeypair G ent\<rparr> else u)"

definition provisionGsPublicKey :: "'k sig_suite \<Rightarrow> bytes \<Rightarrow> 'k b_uav \<Rightarrow> 'k b_uav" where
  "provisionGsPublicKey G spki u = u\<lparr>bu_gsPublicKey := sg_keyFromPublicBytes G spki\<rparr>"

definition b_uav_publicKeyBytes :: "'k sig_suite \<Rightarrow> 'k b_uav \<Rightarrow> bytes" where
  "b_uav_publicKeyBytes G u = sg_publicKeyBytes G (bu_keypair u)"

subsection \<open>Messages\<close>

definition signed_B1 :: "bytes \<Rightarrow> bytes \<Rightarrow> bytes \<Rightarrow> bytes \<Rightarrow> field_map" where
  "signed_B1 sid n1 ts epkA = [SENDER_ID \<mapsto> sid, NONCE_1 \<mapsto> n1, TIMESTAMP \<mapsto> ts, EPK_A \<mapsto> epkA]"

definition signed_B2 :: "bytes \<Rightarrow> bytes \<Rightarrow> bytes \<Rightarrow> bytes \<Rightarrow> bytes \<Rightarrow> bytes \<Rightarrow> field_map" where
  "signed_B2 sid n1 n2 ts epkA epkB =
     [SENDER_ID \<mapsto> sid, NONCE_1 \<mapsto> n1, NONCE_2 \<mapsto> n2, TIMESTAMP \<mapsto> ts, EPK_A \<mapsto> epkA, EPK_B \<mapsto> epkB]"

definition B1_body :: "core_lib \<Rightarrow> int \<Rightarrow> bytes \<Rightarrow> u32 \<Rightarrow> bytes \<Rightarrow> message" where
  "B1_body C uavId n1 t1 epkA =
     msg_set EPK_A epkA (msg_set TIMESTAMP (encodeTimestamp C t1) (msg_set NONCE_1 n1
       (msg_set SENDER_ID (encodeId C uavId) (emptyMessage\<lparr>m_type := B1_M1_AUTH_REQUEST,
          m_suiteId := 0, m_senderId := uavId, m_receiverId := - 1\<rparr>))))"

definition B2_body :: "core_lib \<Rightarrow> u8 \<Rightarrow> int \<Rightarrow> bytes \<Rightarrow> u32 \<Rightarrow> bytes \<Rightarrow> message" where
  "B2_body C suite uavId n2 t2 epkB =
     msg_set EPK_B epkB (msg_set TIMESTAMP (encodeTimestamp C t2) (msg_set NONCE_2 n2
       (emptyMessage\<lparr>m_type := B1_M2_GS_RESPONSE, m_suiteId := suite, m_senderId := - 1,
          m_receiverId := uavId\<rparr>)))"

definition B3_body :: "u8 \<Rightarrow> int \<Rightarrow> message" where
  "B3_body suite uavId = emptyMessage\<lparr>m_type := B1_M3_UAV_CONFIRM, m_suiteId := suite,
     m_senderId := uavId, m_receiverId := - 1\<rparr>"

definition B4_body :: "u8 \<Rightarrow> int \<Rightarrow> message" where
  "B4_body suite uavId = emptyMessage\<lparr>m_type := B1_M4_GS_CONFIRM, m_suiteId := suite,
     m_senderId := - 1, m_receiverId := uavId\<rparr>"

subsection \<open>The ground station\<close>

definition bg_session ::
    "int \<Rightarrow> bytes \<Rightarrow> u32 \<Rightarrow> bytes \<Rightarrow> bytes \<Rightarrow> u32 \<Rightarrow> x25519_pair \<Rightarrow> bytes \<Rightarrow> b_gs_session" where
  "bg_session uavId n1 t1 epkA n2 t2 eph transcript =
     \<lparr>bg_uavId = uavId, bg_n1 = n1, bg_n2 = n2, bg_t1 = t1, bg_t2 = t2, bg_epkA = epkA,
      bg_epkB = kp_public eph, bg_ephemeral = eph, bg_transcript = transcript, bg_sessionKey = [],
      bg_ephemeralErased = False\<rparr>"

text \<open>The part of \<open>handleM1\<close> after the signature check; \<open>ent\<close> is what signing draws.\<close>

definition b_gs_respond ::
    "core_lib \<Rightarrow> ossl \<Rightarrow> 'k sig_suite \<Rightarrow> bytes \<Rightarrow> message \<Rightarrow> u32 \<Rightarrow> int \<Rightarrow> bytes \<Rightarrow> bytes \<Rightarrow> bytes \<Rightarrow> u32 \<Rightarrow>
     bytes \<Rightarrow> drbg \<Rightarrow> 'k b_gs \<Rightarrow> (step_result \<times> drbg \<times> 'k b_gs) option" where
  "b_gs_respond C L G ent m1 now uavId sid n1 epkA t1 input1 rng g = do {
     (n2, rng) \<leftarrow> drbg_bytes L kNonceLen rng;
     (eph_seed, rng) \<leftarrow> drbg_bytes L 32 rng;
     eph \<leftarrow> x25519Generate L eph_seed;
     let m2 = B2_body C (m_suiteId m1) uavId n2 now (kp_public eph);
     input2 \<leftarrow> macInput C (m_suiteId m2) B1_M2_GS_RESPONSE
       (signed_B2 sid n1 n2 (encodeTimestamp C now) epkA (kp_public eph));
     let session = bg_session uavId n1 t1 epkA n2 now eph (input1 @ input2);
     Some (done_reply (msg_set SIGNATURE (sg_sign G ent (bgs_keypair g) input2) m2), rng,
           g\<lparr>bgs_sessions := om_set uavId session (bgs_sessions g)\<rparr>) }"

text \<open>\<open>decodeId\<close> stands outside the \<open>try\<close>, so its exception leaves the handler.\<close>

definition b_gs_handleM1 ::
    "core_lib \<Rightarrow> ossl \<Rightarrow> 'k sig_suite \<Rightarrow> bytes \<Rightarrow> message \<Rightarrow> u32 \<Rightarrow> drbg \<Rightarrow> 'k b_gs \<Rightarrow>
     (step_result \<times> drbg \<times> 'k b_gs) option" where
  "b_gs_handleM1 C L G ent m1 now rng g =
     (if m_type m1 \<noteq> B1_M1_AUTH_REQUEST then Some (fail UnexpectedMessage, rng, g)
      else if \<not> list_all (msg_has m1) [SENDER_ID, NONCE_1, TIMESTAMP, EPK_A, SIGNATURE]
      then Some (fail MissingField, rng, g)
      else do {
        sid \<leftarrow> msg_get m1 SENDER_ID;
        uavId \<leftarrow> decodeId C sid;
        n1 \<leftarrow> msg_get m1 NONCE_1;
        epkA \<leftarrow> msg_get m1 EPK_A;
        ts \<leftarrow> msg_get m1 TIMESTAMP;
        (if length n1 \<noteq> kNonceLen \<or> length epkA \<noteq> kX25519KeyLen
         then Some (fail MalformedField, rng, g)
         else case decodeTimestamp C ts of
           None \<Rightarrow> Some (fail MalformedField, rng, g)
         | Some t1 \<Rightarrow>
             if \<not> timestampFresh now t1 (bgs_windowMs g) then Some (fail StaleTimestamp, rng, g)
             else let (isFresh, cache) = rc_offer n1 (bgs_replay g); g = g\<lparr>bgs_replay := cache\<rparr>
             in if \<not> isFresh then Some (fail ReplayedNonce, rng, g)
             else case om_find (bgs_uavPublicKeys g) uavId of
               None \<Rightarrow> Some (fail UnknownIdentity, rng, g)
             | Some None \<Rightarrow> Some (fail UnknownIdentity, rng, g)
             | Some (Some kp) \<Rightarrow> do {
                 input1 \<leftarrow> macInput C (m_suiteId m1) B1_M1_AUTH_REQUEST (signed_B1 sid n1 ts epkA);
                 sig \<leftarrow> msg_get m1 SIGNATURE;
                 (if \<not> sg_verify G kp input1 sig then Some (fail MacVerifyFailed, rng, g)
                  else b_gs_respond C L G ent m1 now uavId sid n1 epkA t1 input1 rng g) }) })"

text \<open>The session once the key is derived, which \<open>handleM3\<close> does before it looks at the MAC.\<close>

definition bg_keyed :: "bytes \<Rightarrow> b_gs_session \<Rightarrow> b_gs_session" where
  "bg_keyed k s = s\<lparr>bg_sessionKey := k, bg_ephemeral := x25519_erase (bg_ephemeral s),
     bg_ephemeralErased := True\<rparr>"

definition b_gs_handleM3 ::
    "core_lib \<Rightarrow> ossl \<Rightarrow> suite \<Rightarrow> message \<Rightarrow> 'k b_gs \<Rightarrow> (step_result \<times> 'k b_gs) option" where
  "b_gs_handleM3 C L S m3 g =
     (if m_type m3 \<noteq> B1_M3_UAV_CONFIRM then Some (fail UnexpectedMessage, g)
      else if \<not> msg_has m3 MAC_TAG then Some (fail MissingField, g)
      else case om_find (bgs_sessions g) (m_senderId m3) of
        None \<Rightarrow> Some (fail UnexpectedMessage, g)
      | Some session \<Rightarrow>
          let (dhOk, shared) = x25519Derive L (kp_secret (bg_ephemeral session)) (bg_epkA session)
          in if \<not> dhOk then Some (fail DhFailed, g)
          else do {
            k \<leftarrow> su_kdf S shared (bg_transcript session) kP2Sess [] (su_keyLen S);
            let g = g\<lparr>bgs_sessions := om_set (m_senderId m3) (bg_keyed k session) (bgs_sessions g)\<rparr>;
            tag \<leftarrow> msg_get m3 MAC_TAG;
            macOk \<leftarrow> su_macVerify S k (bg_transcript session) tag;
            (if \<not> macOk then Some (fail MacVerifyFailed, g)
             else do {
               tag4 \<leftarrow> su_mac S k (bg_transcript session @ fromString C ''confirm'');
               Some (done_reply (msg_set MAC_TAG tag4 (B4_body (m_suiteId m3) (bg_uavId session))), g) }) })"

subsection \<open>The UAV\<close>

definition b_startPhase2 ::
    "core_lib \<Rightarrow> ossl \<Rightarrow> 'k sig_suite \<Rightarrow> bytes \<Rightarrow> u32 \<Rightarrow> drbg \<Rightarrow> 'k b_uav \<Rightarrow>
     (step_result \<times> drbg \<times> 'k b_uav) option" where
  "b_startPhase2 C L G ent now rng u =
     (if bu_gsPublicKey u = None then Some (fail NotAuthenticated, rng, u)
      else do {
        (n1, rng) \<leftarrow> drbg_bytes L kNonceLen rng;
        (eph_seed, rng) \<leftarrow> drbg_bytes L 32 rng;
        eph \<leftarrow> x25519Generate L eph_seed;
        let m1 = B1_body C (bu_id u) n1 now (kp_public eph);
        input1 \<leftarrow> macInput C (m_suiteId m1) B1_M1_AUTH_REQUEST
          (signed_B1 (encodeId C (bu_id u)) n1 (encodeTimestamp C now) (kp_public eph));
        let session = b_uav_session_empty\<lparr>bs_n1 := n1, bs_t1 := now, bs_ephemeral := eph,
              bs_transcript := input1\<rparr>;
        Some (done_reply (msg_set SIGNATURE (sg_sign G ent (bu_keypair u) input1) m1), rng,
              u\<lparr>bu_session := session\<rparr>) })"

definition bs_keyed :: "bytes \<Rightarrow> b_uav_session \<Rightarrow> b_uav_session" where
  "bs_keyed k s = s\<lparr>bs_sessionKey := k, bs_ephemeral := x25519_erase (bs_ephemeral s),
     bs_ephemeralErased := True\<rparr>"

text \<open>The part of \<open>handleM2\<close> after the signature check.\<close>

definition b_uav_confirm ::
    "ossl \<Rightarrow> suite \<Rightarrow> message \<Rightarrow> bytes \<Rightarrow> bytes \<Rightarrow> bytes \<Rightarrow> 'k b_uav \<Rightarrow> (step_result \<times> 'k b_uav) option" where
  "b_uav_confirm L S m2 n2 epkB input2 u =
     (let s = (bu_session u)\<lparr>bs_n2 := n2, bs_transcript := bs_transcript (bu_session u) @ input2\<rparr>;
          (dhOk, shared) = x25519Derive L (kp_secret (bs_ephemeral s)) epkB
      in if \<not> dhOk then Some (fail DhFailed, u\<lparr>bu_session := s\<rparr>)
      else do {
        k \<leftarrow> su_kdf S shared (bs_transcript s) kP2Sess [] (su_keyLen S);
        tag \<leftarrow> su_mac S k (bs_transcript s);
        Some (done_reply (msg_set MAC_TAG tag (B3_body (m_suiteId m2) (bu_id u))),
              u\<lparr>bu_session := bs_keyed k s\<rparr>) })"

definition b_uav_handleM2 ::
    "core_lib \<Rightarrow> ossl \<Rightarrow> suite \<Rightarrow> 'k sig_suite \<Rightarrow> message \<Rightarrow> u32 \<Rightarrow> 'k b_uav \<Rightarrow>
     (step_result \<times> 'k b_uav) option" where
  "b_uav_handleM2 C L S G m2 now u =
     (if m_type m2 \<noteq> B1_M2_GS_RESPONSE then Some (fail UnexpectedMessage, u)
      else if bs_transcript (bu_session u) = [] then Some (fail UnexpectedMessage, u)
      else if \<not> list_all (msg_has m2) [NONCE_2, TIMESTAMP, EPK_B, SIGNATURE]
      then Some (fail MissingField, u)
      else do {
        n2 \<leftarrow> msg_get m2 NONCE_2;
        epkB \<leftarrow> msg_get m2 EPK_B;
        ts \<leftarrow> msg_get m2 TIMESTAMP;
        (if length n2 \<noteq> kNonceLen \<or> length epkB \<noteq> kX25519KeyLen then Some (fail MalformedField, u)
         else case decodeTimestamp C ts of
           None \<Rightarrow> Some (fail MalformedField, u)
         | Some t2 \<Rightarrow>
             if \<not> timestampFresh now t2 (bu_windowMs u) then Some (fail StaleTimestamp, u)
             else let (isFresh, cache) = rc_offer n2 (bu_replay u); u = u\<lparr>bu_replay := cache\<rparr>
             in if \<not> isFresh then Some (fail ReplayedNonce, u)
             else do {
               input2 \<leftarrow> macInput C (m_suiteId m2) B1_M2_GS_RESPONSE
                 (signed_B2 (encodeId C (bu_id u)) (bs_n1 (bu_session u)) n2 ts
                    (kp_public (bs_ephemeral (bu_session u))) epkB);
               sig \<leftarrow> msg_get m2 SIGNATURE;
               kp \<leftarrow> bu_gsPublicKey u;
               (if \<not> sg_verify G kp input2 sig then Some (fail MacVerifyFailed, u)
                else b_uav_confirm L S m2 n2 epkB input2 u) }) })"

definition b_uav_handleM4 :: "core_lib \<Rightarrow> suite \<Rightarrow> message \<Rightarrow> 'k b_uav \<Rightarrow> (step_result \<times> 'k b_uav) option" where
  "b_uav_handleM4 C S m4 u =
     (let s = bu_session u in
      if m_type m4 \<noteq> B1_M4_GS_CONFIRM then Some (fail UnexpectedMessage, u)
      else if bs_sessionKey s = [] then Some (fail UnexpectedMessage, u)
      else if \<not> msg_has m4 MAC_TAG then Some (fail MissingField, u)
      else do {
        tag \<leftarrow> msg_get m4 MAC_TAG;
        macOk \<leftarrow> su_macVerify S (bs_sessionKey s) (bs_transcript s @ fromString C ''confirm'') tag;
        (if \<not> macOk then Some (fail MacVerifyFailed, u)
         else Some (done_quiet, u\<lparr>bu_session := s\<lparr>bs_established := True\<rparr>\<rparr>)) })"

end
