(* ===== verification/Baseline_Safety.thy ===== *)
theory Baseline_Safety
  imports Baseline
begin

text \<open>
  The baseline handshake: what the ground station has checked when it answers B1, when
  \<open>handleM1\<close> does not return, the honest run, and the session a forged B3 destroys.
\<close>

subsection \<open>B1\<close>

definition B1_admitted ::
    "core_lib \<Rightarrow> message \<Rightarrow> u32 \<Rightarrow> 'k b_gs \<Rightarrow> 'k sig_keypair \<Rightarrow> int \<Rightarrow> bytes \<Rightarrow> bytes \<Rightarrow> bytes \<Rightarrow> bytes \<Rightarrow>
     u32 \<Rightarrow> bytes \<Rightarrow> bytes \<Rightarrow> bool" where
  "B1_admitted C m1 now g kp i sid n1 epkA ts t1 input1 sig \<longleftrightarrow>
     m_type m1 = B1_M1_AUTH_REQUEST \<and> msg_get m1 SENDER_ID = Some sid \<and> msg_get m1 NONCE_1 = Some n1 \<and>
     msg_get m1 EPK_A = Some epkA \<and> msg_get m1 TIMESTAMP = Some ts \<and> msg_get m1 SIGNATURE = Some sig \<and>
     decodeId C sid = Some i \<and> length n1 = kNonceLen \<and> length epkA = kX25519KeyLen \<and>
     decodeTimestamp C ts = Some t1 \<and> timestampFresh now t1 (bgs_windowMs g) \<and>
     n1 \<notin> rc_seen (bgs_replay g) \<and> om_find (bgs_uavPublicKeys g) i = Some (Some kp) \<and>
     macInput C (m_suiteId m1) B1_M1_AUTH_REQUEST (signed_B1 sid n1 ts epkA) = Some input1"

definition b_gs_offered :: "bytes \<Rightarrow> 'k b_gs \<Rightarrow> 'k b_gs" where
  "b_gs_offered n g = g\<lparr>bgs_replay := snd (rc_offer n (bgs_replay g))\<rparr>"

lemma b_gs_offered_simps [simp]:
  "bgs_sessions (b_gs_offered n g) = bgs_sessions g" "bgs_keypair (b_gs_offered n g) = bgs_keypair g"
  "bgs_uavPublicKeys (b_gs_offered n g) = bgs_uavPublicKeys g"
  "bgs_windowMs (b_gs_offered n g) = bgs_windowMs g"
  by (simp_all add: b_gs_offered_def)

lemma b_gs_handleM1_admitted:
  "B1_admitted C m1 now g kp i sid n1 epkA ts t1 input1 sig \<Longrightarrow>
   b_gs_handleM1 C L G ent m1 now rng g =
     (if \<not> sg_verify G kp input1 sig then Some (fail MacVerifyFailed, rng, b_gs_offered n1 g)
      else b_gs_respond C L G ent m1 now i sid n1 epkA t1 input1 rng (b_gs_offered n1 g))"
  by (auto simp: B1_admitted_def b_gs_handleM1_def msg_get_has b_gs_offered_def split_beta rc_offer_iff
      Let_def)

lemma b_gs_handleM1_cases:
  assumes "b_gs_handleM1 C L G ent m1 now rng g = Some (r, rng', g')"
  obtains (refused) "\<not> sr_ok r" "\<not> sr_hasReply r" "rng' = rng" "g' = g \<or> (\<exists>n1. g' = b_gs_offered n1 g)"
  | (answered) kp i sid n1 epkA ts t1 input1 sig where
      "B1_admitted C m1 now g kp i sid n1 epkA ts t1 input1 sig" "sg_verify G kp input1 sig"
      "b_gs_respond C L G ent m1 now i sid n1 epkA t1 input1 rng (b_gs_offered n1 g) = Some (r, rng', g')"
proof (cases "\<exists>kp i sid n1 epkA ts t1 input1 sig. B1_admitted C m1 now g kp i sid n1 epkA ts t1 input1 sig")
  case True
  then obtain kp i sid n1 epkA ts t1 input1 sig where
    a: "B1_admitted C m1 now g kp i sid n1 epkA ts t1 input1 sig" by blast
  show thesis
    using assms refused answered [OF a] unfolding b_gs_handleM1_admitted [OF a]
    by (cases "sg_verify G kp input1 sig") fastforce+
next
  case False
  have "\<not> sr_ok r \<and> \<not> sr_hasReply r \<and> rng' = rng \<and> (g' = g \<or> (\<exists>n1. g' = b_gs_offered n1 g))"
    using assms False
    by (auto simp: b_gs_handleM1_def B1_admitted_def b_gs_offered_def msg_get_has split_beta rc_offer_iff
        Let_def Option.bind_eq_Some_conv split: if_splits option.splits)
  then show thesis using refused by blast
qed

lemma b_gs_respond_cases:
  assumes "b_gs_respond C L G ent m1 now i sid n1 epkA t1 input1 rng g = Some (r, rng', g')"
  obtains n2 eph input2 sig where
    "r = done_reply (msg_set SIGNATURE sig (B2_body C (m_suiteId m1) i n2 now (kp_public eph)))"
    "g' = g\<lparr>bgs_sessions := om_set i (bg_session i n1 t1 epkA n2 now eph (input1 @ input2)) (bgs_sessions g)\<rparr>"
  using assms that by (auto simp: b_gs_respond_def Let_def Option.bind_eq_Some_conv)

text \<open>C32. The baseline ground station answers B1 only when the signature verifies under the key
  registered for the identity the message names, over that identity, a fresh timestamp, a nonce
  not seen before and an ephemeral key of the right sizes; the answer is addressed to that
  identity and opens its session.  Otherwise nothing but the replay cache changes and no
  randomness is drawn.\<close>

theorem baseline_gs_answers_only_signed_B1:
  assumes "b_gs_handleM1 C L G ent m1 now rng g = Some (r, rng', g')"
  shows "bgs_uavPublicKeys g' = bgs_uavPublicKeys g \<and> bgs_keypair g' = bgs_keypair g \<and>
    (if sr_hasReply r
     then \<exists>sid i n1 epkA ts t1 sig input1 kp s.
       msg_get m1 SENDER_ID = Some sid \<and> decodeId C sid = Some i \<and>
       msg_get m1 NONCE_1 = Some n1 \<and> length n1 = 16 \<and> n1 \<notin> rc_seen (bgs_replay g) \<and>
       msg_get m1 EPK_A = Some epkA \<and> length epkA = 32 \<and>
       msg_get m1 TIMESTAMP = Some ts \<and> decodeTimestamp C ts = Some t1 \<and>
       \<bar>uint now - uint t1\<bar> \<le> uint (bgs_windowMs g) \<and>
       om_find (bgs_uavPublicKeys g) i = Some (Some kp) \<and>
       macInput C (m_suiteId m1) B1_M1_AUTH_REQUEST (signed_B1 sid n1 ts epkA) = Some input1 \<and>
       msg_get m1 SIGNATURE = Some sig \<and> sg_verify G kp input1 sig \<and>
       m_receiverId (sr_reply r) = i \<and> bg_n1 s = n1 \<and> bg_epkA s = epkA \<and> bg_sessionKey s = [] \<and>
       bgs_sessions g' = om_set i s (bgs_sessions g)
     else \<not> sr_ok r \<and> rng' = rng \<and> bgs_sessions g' = bgs_sessions g)"
proof (cases rule: b_gs_handleM1_cases [OF assms])
  case 1
  then show ?thesis by auto
next
  case (2 kp i sid n1 epkA ts t1 input1 sig)
  obtain n2 eph input2 sg where
    "r = done_reply (msg_set SIGNATURE sg (B2_body C (m_suiteId m1) i n2 now (kp_public eph)))"
    "g' = (b_gs_offered n1 g)\<lparr>bgs_sessions :=
      om_set i (bg_session i n1 t1 epkA n2 now eph (input1 @ input2)) (bgs_sessions g)\<rparr>"
    by (rule b_gs_respond_cases [OF 2(3)]) auto
  with 2(1,2) show ?thesis
    by (auto simp: B1_admitted_def kNonceLen_def kX25519KeyLen_def timestampFresh_iff B2_body_def
        msg_set_def bg_session_def intro!: exI [of _ "bg_session i n1 t1 epkA n2 now eph (input1 @ input2)"])
qed

subsection \<open>Totality of \<open>handleM1\<close>\<close>

context protocol_env
begin

lemma macInput_B1:
  "length sid \<le> 64 \<Longrightarrow> length n1 \<le> 64 \<Longrightarrow> length ts \<le> 64 \<Longrightarrow> length epkA \<le> 64 \<Longrightarrow>
   \<exists>b. macInput C s B1_M1_AUTH_REQUEST (signed_B1 sid n1 ts epkA) = Some b \<and> length b \<le> 4096 \<and> b \<noteq> []"
  by (rule macInput_short) (simp add: signed_B1_def short_upd)

lemma macInput_B2:
  "length sid \<le> 64 \<Longrightarrow> length n1 \<le> 64 \<Longrightarrow> length n2 \<le> 64 \<Longrightarrow> length ts \<le> 64 \<Longrightarrow> length epkA \<le> 64 \<Longrightarrow>
   length epkB \<le> 64 \<Longrightarrow>
   \<exists>b. macInput C s B1_M2_GS_RESPONSE (signed_B2 sid n1 n2 ts epkA epkB) = Some b \<and> length b \<le> 4096 \<and> b \<noteq> []"
  by (rule macInput_short) (simp add: signed_B2_def short_upd)

text \<open>The answer to an admitted B1.\<close>

lemma b_gs_respond_result:
  assumes "drbg_ok L rng" "length sid \<le> 64" "length n1 = 16" "length epkA = 32"
  obtains n2 seed eph rng' input2 where
    "x25519Generate L seed = Some eph" "length (kp_public eph) = 32" "length n2 = 16"
    "\<exists>r. drbg_bytes L kNonceLen rng = Some (n2, r)" "drbg_ok L rng'"
    "macInput C (m_suiteId m1) B1_M2_GS_RESPONSE
       (signed_B2 sid n1 n2 (encodeTimestamp C now) epkA (kp_public eph)) = Some input2"
    "length input2 \<le> 4096"
    "\<And>i t1 input1 g. b_gs_respond C L G ent m1 now i sid n1 epkA t1 input1 rng g = Some
       (done_reply (msg_set SIGNATURE (sg_sign G ent (bgs_keypair g) input2)
          (B2_body C (m_suiteId m1) i n2 now (kp_public eph))), rng',
        g\<lparr>bgs_sessions := om_set i (bg_session i n1 t1 epkA n2 now eph (input1 @ input2)) (bgs_sessions g)\<rparr>)"
proof -
  obtain n2 rng1 seed rng2 eph where n: "drbg_bytes L kNonceLen rng = Some (n2, rng1)"
    "drbg_bytes L 32 rng1 = Some (seed, rng2)" "x25519Generate L seed = Some eph" "drbg_ok L rng2"
    "dk_key rng2 = dk_key rng" "length n2 = 16" "length (kp_secret eph) = 32" "length (kp_public eph) = 32"
    "from_stream L (dk_key rng) n2" "from_stream L (dk_key rng) seed"
    by (rule nonce_eph [OF assms(1)])
  obtain input2 where i: "macInput C (m_suiteId m1) B1_M2_GS_RESPONSE
      (signed_B2 sid n1 n2 (encodeTimestamp C now) epkA (kp_public eph)) = Some input2" "length input2 \<le> 4096"
    using macInput_B2 [of sid n1 n2 "encodeTimestamp C now" epkA "kp_public eph" "m_suiteId m1"] assms n by auto
  show thesis
    by (rule that [OF n(3,8,6) _ n(4) i])
      (use n i in \<open>simp_all add: b_gs_respond_def B2_body_def msg_set_def Let_def\<close>)
qed

lemma b_gs_respond_total:
  "drbg_ok L rng \<Longrightarrow> length sid \<le> 64 \<Longrightarrow> length n1 = 16 \<Longrightarrow> length epkA = 32 \<Longrightarrow>
   b_gs_respond C L G ent m1 now i sid n1 epkA t1 input1 rng g \<noteq> None"
  by (rule b_gs_respond_result [of rng sid n1 epkA m1 now G ent]) auto

lemma decodeId_length: "decodeId C b \<noteq> None \<longleftrightarrow> length b = 2"
  by (auto simp: decodeId_def readU16be require_def)

lemma b_gs_handleM1_total:
  assumes "drbg_ok L rng" and "\<forall>sid. msg_get m1 SENDER_ID = Some sid \<longrightarrow> length sid = 2"
  shows "b_gs_handleM1 C L G ent m1 now rng g \<noteq> None"
proof (cases "m_type m1 = B1_M1_AUTH_REQUEST \<and>
    list_all (msg_has m1) [SENDER_ID, NONCE_1, TIMESTAMP, EPK_A, SIGNATURE]")
  case False
  then show ?thesis by (auto simp: b_gs_handleM1_def)
next
  case True
  then obtain sid n1 ts epkA sig where f: "msg_get m1 SENDER_ID = Some sid" "msg_get m1 NONCE_1 = Some n1"
    "msg_get m1 TIMESTAMP = Some ts" "msg_get m1 EPK_A = Some epkA" "msg_get m1 SIGNATURE = Some sig"
    by (auto simp: msg_get_has)
  have sid: "length sid = 2" using assms(2) f(1) by blast
  then obtain i where i: "decodeId C sid = Some i" using decodeId_length by blast
  have ts: "decodeTimestamp C ts \<noteq> None \<Longrightarrow> length ts = 4"
    by (auto simp: decodeTimestamp_def split: if_splits)
  have "b_gs_respond C L G ent m1 now i sid n1 epkA t1 input1 rng g' \<noteq> None"
    if "length n1 = 16" "length epkA = 32" for t1 input1 g'
    using b_gs_respond_total [OF assms(1), of sid n1 epkA] sid that by simp
  moreover have "\<exists>b. macInput C (m_suiteId m1) B1_M1_AUTH_REQUEST (signed_B1 sid n1 ts epkA) = Some b"
    if "length n1 = 16" "length epkA = 32" "decodeTimestamp C ts \<noteq> None"
    using macInput_B1 [of sid n1 ts epkA] ts sid that by fastforce
  ultimately show ?thesis
    using True f i
    by (auto simp: b_gs_handleM1_def split_beta Let_def kNonceLen_def kX25519KeyLen_def
        split: option.splits)
qed

end

text \<open>C33. The baseline's \<open>handleM1\<close> returns a step result for every message but one kind: a B1 that
  carries all its fields and an identity field that is not two bytes long.  That exception
  leaves the handler before any check of freshness or signature, and nothing above it catches
  it.\<close>

theorem baseline_handleM1_throws_iff:
  assumes "core_laws C" and "ossl_laws L" and "crypto_suite (S :: suite)" and "drbg_ok L rng"
  shows "b_gs_handleM1 C L G ent m1 now rng g = None \<longleftrightarrow>
    m_type m1 = B1_M1_AUTH_REQUEST \<and> msg_has m1 NONCE_1 \<and> msg_has m1 TIMESTAMP \<and> msg_has m1 EPK_A \<and>
    msg_has m1 SIGNATURE \<and> (\<exists>sid. msg_get m1 SENDER_ID = Some sid \<and> length sid \<noteq> 2)"
proof -
  note env = protocol_envI [OF assms(1-3)]
  have "b_gs_handleM1 C L G ent m1 now rng g = None"
    if "m_type m1 = B1_M1_AUTH_REQUEST" "msg_has m1 NONCE_1" "msg_has m1 TIMESTAMP" "msg_has m1 EPK_A"
      "msg_has m1 SIGNATURE" "msg_get m1 SENDER_ID = Some sid" "length sid \<noteq> 2" for sid
    using that protocol_env.decodeId_length [OF env, of sid] by (simp add: b_gs_handleM1_def msg_get_has)
  moreover have "b_gs_handleM1 C L G ent m1 now rng g \<noteq> None"
    if "\<not> (m_type m1 = B1_M1_AUTH_REQUEST \<and> msg_has m1 NONCE_1 \<and> msg_has m1 TIMESTAMP \<and>
      msg_has m1 EPK_A \<and> msg_has m1 SIGNATURE)"
    using that by (auto simp: b_gs_handleM1_def)
  ultimately show ?thesis
    using protocol_env.b_gs_handleM1_total [OF env assms(4), of m1 G ent now g] by blast
qed


subsection \<open>B3\<close>

text \<open>A forged B3 reaches the key derivation, which consumes the scalar, before its MAC is looked
  at.\<close>

lemma b_gs_handleM3_keyed:
  assumes "m_type m3 = B1_M3_UAV_CONFIRM" "msg_get m3 MAC_TAG = Some tag"
    and "om_find (bgs_sessions g) (m_senderId m3) = Some s"
    and "x25519Derive L (kp_secret (bg_ephemeral s)) (bg_epkA s) = (True, z)"
    and "su_kdf S z (bg_transcript s) kP2Sess [] (su_keyLen S) = Some k"
    and "su_macVerify S k (bg_transcript s) tag = Some macOk"
    and "su_mac S k (bg_transcript s @ fromString C ''confirm'') = Some tag4"
  shows "b_gs_handleM3 C L S m3 g = Some
    (if macOk then done_reply (msg_set MAC_TAG tag4 (B4_body (m_suiteId m3) (bg_uavId s)))
     else fail MacVerifyFailed,
     g\<lparr>bgs_sessions := om_set (m_senderId m3) (bg_keyed k s) (bgs_sessions g)\<rparr>)"
  using assms by (simp add: b_gs_handleM3_def msg_get_has)

lemma b_gs_handleM3_erased:
  assumes "m_type m3 = B1_M3_UAV_CONFIRM" "msg_has m3 MAC_TAG"
    and "om_find (bgs_sessions g) (m_senderId m3) = Some (bg_keyed k s)"
  shows "b_gs_handleM3 C L S m3 g = Some (fail DhFailed, g)"
  using assms by (simp add: b_gs_handleM3_def bg_keyed_def)

text \<open>C34. One forged B3 destroys a session of the baseline.  Whatever its tag, a B3 that names a
  device with an open session makes the ground station derive the key and erase the scalar before
  it checks the MAC; the forgery is refused, and from then on the device's own confirmation,
  which would have completed the handshake, is refused with \<open>DhFailed\<close>, as is every other B3
  for that device until a new B1.\<close>

theorem forged_B3_destroys_session:
  assumes "crypto_suite S" and "om_find (bgs_sessions g) i = Some s"
    and "x25519Derive L (kp_secret (bg_ephemeral s)) (bg_epkA s) = (True, z)"
    and "su_kdf S z (bg_transcript s) kP2Sess [] (su_keyLen S) = Some k"
    and "su_mac S k (bg_transcript s) = Some right" and "wrong \<noteq> right"
    and "m_type forged = B1_M3_UAV_CONFIRM" and "m_senderId forged = i"
    and "msg_get forged MAC_TAG = Some wrong"
    and "m_type own = B1_M3_UAV_CONFIRM" and "m_senderId own = i" and "msg_get own MAC_TAG = Some right"
  shows "\<exists>g' g2 m4. b_gs_handleM3 C L S own g = Some (done_reply m4, g2) \<and>
    b_gs_handleM3 C L S forged g = Some (fail MacVerifyFailed, g') \<and>
    b_gs_handleM3 C L S own g' = Some (fail DhFailed, g') \<and>
    (\<forall>m r g3. m_senderId m = i \<and> b_gs_handleM3 C L S m g' = Some (r, g3) \<longrightarrow> \<not> sr_ok r \<and> g3 = g')"
proof -
  have k: "length k = 32" using crypto_suite.kdf_len [OF assms(1,4)] crypto_suite.suite_lens [OF assms(1)] by simp
  obtain tag4 where t4: "su_mac S k (bg_transcript s @ fromString C ''confirm'') = Some tag4"
    using crypto_suite.mac_total [OF assms(1) k] by blast
  note v = crypto_suite.mac_verify [OF assms(1,5)]
  let ?g' = "g\<lparr>bgs_sessions := om_set i (bg_keyed k s) (bgs_sessions g)\<rparr>"
  have "b_gs_handleM3 C L S own g = Some (done_reply (msg_set MAC_TAG tag4 (B4_body (m_suiteId own) (bg_uavId s))), ?g')"
    using b_gs_handleM3_keyed [OF assms(10,12) _ assms(3,4) v t4] assms(2,11) by simp
  moreover have "b_gs_handleM3 C L S forged g = Some (fail MacVerifyFailed, ?g')"
    using b_gs_handleM3_keyed [OF assms(7,9) _ assms(3,4) v t4] assms(2,6,8) by simp
  moreover have "b_gs_handleM3 C L S own ?g' = Some (fail DhFailed, ?g')"
    using assms(10-12) by (intro b_gs_handleM3_erased) (auto simp: msg_get_has)
  moreover have "\<not> sr_ok r \<and> g3 = ?g'"
    if "m_senderId m = i" "b_gs_handleM3 C L S m ?g' = Some (r, g3)" for m r g3
    using that by (auto simp: b_gs_handleM3_def bg_keyed_def split: if_splits)
  ultimately show ?thesis by blast
qed

end
