(* ===== verification/Baseline_Run.thy ===== *)
theory Baseline_Run
  imports Baseline_Safety
begin

text \<open>
  Enrollment of the baseline (\<open>BaselineGroundStationNode::enrollAll\<close>) and the honest handshake,
  composed as \<open>BaselineUavNode\<close> and \<open>BaselineGroundStationNode\<close> compose it: each reply goes to
  the other side.
\<close>

subsection \<open>Enrollment\<close>

definition b_enroll_one :: "'k sig_suite \<Rightarrow> bytes \<Rightarrow> int \<Rightarrow> 'k b_uav \<Rightarrow> 'k b_gs \<Rightarrow> 'k b_uav \<times> 'k b_gs" where
  "b_enroll_one G ent i u g =
     (let u = b_uav_ensureOwnKeypair G ent u;
          g = enrollUav G i (b_uav_publicKeyBytes G u) g;
          u = provisionGsPublicKey G (b_gs_publicKeyBytes G g) u
      in (u, g))"

fun b_enroll_loop ::
    "'k sig_suite \<Rightarrow> int \<Rightarrow> (bytes \<times> 'k b_uav) list \<Rightarrow> 'k b_gs \<Rightarrow> 'k b_uav list \<times> 'k b_gs" where
  "b_enroll_loop G i [] g = ([], g)"
| "b_enroll_loop G i ((ent, u) # rest) g =
     (let (u, g) = b_enroll_one G ent i u g; (us, g) = b_enroll_loop G (i + 1) rest g in (u # us, g))"

definition b_enrollAll ::
    "'k sig_suite \<Rightarrow> bytes \<Rightarrow> (bytes \<times> 'k b_uav) list \<Rightarrow> 'k b_gs \<Rightarrow> 'k b_uav list \<times> 'k b_gs" where
  "b_enrollAll G ent uavs g = b_enroll_loop G 0 uavs (b_gs_ensureOwnKeypair G ent g)"

definition own_pair :: "'k sig_suite \<Rightarrow> 'k sig_keypair \<Rightarrow> bool" where
  "own_pair G kp \<longleftrightarrow> (\<exists>ent key. kp = Some key \<and> sg_generateKeypair G ent = Some key)"

text \<open>Both sides hold a pair of their own and the other side's public key.\<close>

definition b_paired :: "'k sig_suite \<Rightarrow> 'k b_uav \<Rightarrow> 'k b_gs \<Rightarrow> bool" where
  "b_paired G u g \<longleftrightarrow> own_pair G (bu_keypair u) \<and> own_pair G (bgs_keypair g) \<and>
     om_find (bgs_uavPublicKeys g) (bu_id u) =
       Some (sg_keyFromPublicBytes G (sg_publicKeyBytes G (bu_keypair u))) \<and>
     bu_gsPublicKey u = sg_keyFromPublicBytes G (sg_publicKeyBytes G (bgs_keypair g))"

context signature_suite
begin

lemma own_pair_verifies:
  "own_pair G kp \<Longrightarrow> \<exists>pk. sg_keyFromPublicBytes G (sg_publicKeyBytes G kp) = Some (Some pk) \<and>
     (\<forall>ent m. sg_verify G (Some pk) m (sg_sign G ent kp m))"
  using verify_sign by (auto simp: own_pair_def)

end

lemma b_enroll_one_paired:
  assumes "b_enroll_one G ent (bu_id u0) u0 g0 = (u, g)" "own_pair G (bgs_keypair g0)"
    and "bu_keypair u0 = None" "sg_generateKeypair G ent \<noteq> None"
  shows "b_paired G u g" "bu_id u = bu_id u0" "bgs_keypair g = bgs_keypair g0"
    "bu_windowMs u = bu_windowMs u0" "bu_replay u = bu_replay u0"
    "bgs_windowMs g = bgs_windowMs g0" "bgs_replay g = bgs_replay g0" "bgs_sessions g = bgs_sessions g0"
    "\<And>j. j \<noteq> bu_id u0 \<Longrightarrow> om_find (bgs_uavPublicKeys g) j = om_find (bgs_uavPublicKeys g0) j"
  using assms
  by (auto simp: b_enroll_one_def Let_def b_uav_ensureOwnKeypair_def enrollUav_def keypair_valid_def
      b_uav_publicKeyBytes_def provisionGsPublicKey_def b_gs_publicKeyBytes_def b_paired_def own_pair_def)

text \<open>Enrolling a fleet pairs every UAV whose identity is its index.\<close>

lemma b_enroll_loop_paired:
  assumes "own_pair G (bgs_keypair g0)"
    and "\<forall>j < length uavs. bu_id (snd (uavs ! j)) = i + int j \<and> bu_keypair (snd (uavs ! j)) = None \<and>
      sg_generateKeypair G (fst (uavs ! j)) \<noteq> None"
    and "b_enroll_loop G i uavs g0 = (us, g)"
  shows "length us = length uavs \<and> bgs_windowMs g = bgs_windowMs g0 \<and> bgs_replay g = bgs_replay g0 \<and>
    bgs_sessions g = bgs_sessions g0 \<and> bgs_keypair g = bgs_keypair g0 \<and>
    (\<forall>k < i. om_find (bgs_uavPublicKeys g) k = om_find (bgs_uavPublicKeys g0) k) \<and>
    (\<forall>j < length us. b_paired G (us ! j) g \<and> bu_id (us ! j) = i + int j \<and>
      bu_windowMs (us ! j) = bu_windowMs (snd (uavs ! j)) \<and> bu_replay (us ! j) = bu_replay (snd (uavs ! j)))"
  using assms
proof (induction uavs arbitrary: i g0 us)
  case Nil
  then show ?case by simp
next
  case (Cons p rest)
  obtain ent u0 where p: "p = (ent, u0)" by (cases p)
  obtain u g1 where e: "b_enroll_one G ent i u0 g0 = (u, g1)" by fastforce
  obtain us' where l: "b_enroll_loop G (i + 1) rest g1 = (us', g)" and us: "us = u # us'"
    using Cons.prems(3) p e by (auto simp: Let_def split: prod.splits)
  have h: "bu_id u0 = i" "bu_keypair u0 = None" "sg_generateKeypair G ent \<noteq> None"
    using Cons.prems(2) p by (force dest: spec [of _ 0])+
  note one = b_enroll_one_paired [OF e [folded h(1)] Cons.prems(1) h(2,3)]
  have "\<forall>j < length rest. bu_id (snd (rest ! j)) = (i + 1) + int j \<and> bu_keypair (snd (rest ! j)) = None \<and>
      sg_generateKeypair G (fst (rest ! j)) \<noteq> None"
    using Cons.prems(2) by (auto dest: spec [of _ "Suc _"])
  from Cons.IH [OF _ this l] one(3) Cons.prems(1) have
    ih: "length us' = length rest \<and> bgs_windowMs g = bgs_windowMs g1 \<and> bgs_replay g = bgs_replay g1 \<and>
    bgs_sessions g = bgs_sessions g1 \<and> bgs_keypair g = bgs_keypair g1 \<and>
    (\<forall>k < i + 1. om_find (bgs_uavPublicKeys g) k = om_find (bgs_uavPublicKeys g1) k) \<and>
    (\<forall>j < length us'. b_paired G (us' ! j) g \<and> bu_id (us' ! j) = (i + 1) + int j \<and>
      bu_windowMs (us' ! j) = bu_windowMs (snd (rest ! j)) \<and> bu_replay (us' ! j) = bu_replay (snd (rest ! j)))"
    by simp
  have first: "b_paired G u g" using one(1,2) h(1) ih by (auto simp: b_paired_def)
  show ?case
    using ih one first h(1) p us by (auto simp: less_Suc_eq_0_disj)
qed

subsection \<open>The handshake\<close>

definition baseline_run ::
    "core_lib \<Rightarrow> ossl \<Rightarrow> suite \<Rightarrow> 'k sig_suite \<Rightarrow> bytes \<times> bytes \<Rightarrow> u32 \<times> u32 \<times> u32 \<Rightarrow> drbg \<times> 'k b_uav \<Rightarrow>
     drbg \<times> 'k b_gs \<Rightarrow> ((drbg \<times> 'k b_uav) \<times> (drbg \<times> 'k b_gs)) option" where
  "baseline_run C L S G = (\<lambda>(e1, e2) (t1, t2, t3) (urng, u) (grng, g). do {
     (r1, urng, u) \<leftarrow> b_startPhase2 C L G e1 t1 urng u;
     require (sr_ok r1 \<and> sr_hasReply r1);
     (r2, grng, g) \<leftarrow> b_gs_handleM1 C L G e2 (sr_reply r1) t2 grng g;
     require (sr_ok r2 \<and> sr_hasReply r2);
     (r3, u) \<leftarrow> b_uav_handleM2 C L S G (sr_reply r2) t3 u;
     require (sr_ok r3 \<and> sr_hasReply r3);
     (r4, g) \<leftarrow> b_gs_handleM3 C L S (sr_reply r3) g;
     require (sr_ok r4 \<and> sr_hasReply r4);
     (r5, u) \<leftarrow> b_uav_handleM4 C S (sr_reply r4) u;
     require (sr_ok r5);
     Some ((urng, u), (grng, g)) })"

lemma baseline_runI:
  assumes "b_startPhase2 C L G e1 t1 urng u = Some (done_reply m1, urng', u1)"
    "b_gs_handleM1 C L G e2 m1 t2 grng g = Some (done_reply m2, grng', g2)"
    "b_uav_handleM2 C L S G m2 t3 u1 = Some (done_reply m3, u3)"
    "b_gs_handleM3 C L S m3 g2 = Some (done_reply m4, g4)"
    "b_uav_handleM4 C S m4 u3 = Some (done_quiet, u5)"
  shows "baseline_run C L S G (e1, e2) (t1, t2, t3) (urng, u) (grng, g) = Some ((urng', u5), (grng', g4))"
  using assms by (simp add: baseline_run_def)

lemma baseline_runE:
  assumes "baseline_run C L S G (e1, e2) (t1, t2, t3) (urng, u) (grng, g) = Some x"
  obtains r1 urng' u1 r2 grng' g2 r3 u3 r4 g4 where
    "b_startPhase2 C L G e1 t1 urng u = Some (r1, urng', u1)"
    "b_gs_handleM1 C L G e2 (sr_reply r1) t2 grng g = Some (r2, grng', g2)" "sr_hasReply r2"
    "b_uav_handleM2 C L S G (sr_reply r2) t3 u1 = Some (r3, u3)"
    "b_gs_handleM3 C L S (sr_reply r3) g2 = Some (r4, g4)" "sr_ok r4"
  using assms by (auto simp: baseline_run_def Option.bind_eq_Some_conv split: if_splits)

definition baseline_agreed :: "'k b_uav \<Rightarrow> 'k b_gs \<Rightarrow> bool" where
  "baseline_agreed u g \<longleftrightarrow> (\<exists>s. om_find (bgs_sessions g) (bu_id u) = Some s \<and>
     bs_established (bu_session u) \<and> length (bg_sessionKey s) = 32 \<and>
     bs_sessionKey (bu_session u) = bg_sessionKey s \<and>
     bs_transcript (bu_session u) = bg_transcript s \<and>
     bs_ephemeralErased (bu_session u) \<and> kp_secret (bs_ephemeral (bu_session u)) = [] \<and>
     bg_ephemeralErased s \<and> kp_secret (bg_ephemeral s) = [])"

lemma b_bodies [simp]:
  "m_type (B1_body C i n t e) = B1_M1_AUTH_REQUEST" "m_suiteId (B1_body C i n t e) = 0"
  "m_type (B2_body C s i n t e) = B1_M2_GS_RESPONSE" "m_suiteId (B2_body C s i n t e) = s"
  "m_type (B3_body s i) = B1_M3_UAV_CONFIRM" "m_senderId (B3_body s i) = i" "m_suiteId (B3_body s i) = s"
  "m_type (B4_body s i) = B1_M4_GS_CONFIRM"
  "m_type (msg_set f v m) = m_type m" "m_suiteId (msg_set f v m) = m_suiteId m"
  "m_senderId (msg_set f v m) = m_senderId m"
  by (simp_all add: B1_body_def B2_body_def B3_body_def B4_body_def msg_set_def)

lemma b_msg_get:
  "msg_get (B1_body C i n t e) =
     [SENDER_ID \<mapsto> encodeId C i, NONCE_1 \<mapsto> n, TIMESTAMP \<mapsto> encodeTimestamp C t, EPK_A \<mapsto> e]"
  "msg_get (B2_body C s i n t e) = [NONCE_2 \<mapsto> n, TIMESTAMP \<mapsto> encodeTimestamp C t, EPK_B \<mapsto> e]"
  by (auto simp: B1_body_def B2_body_def msg_set_def msg_get_def emptyMessage_def fun_eq_iff)

context protocol_env
begin

lemma b_startPhase2_result:
  assumes "bu_gsPublicKey u \<noteq> None" "drbg_ok L rng"
  obtains n1 seed eph rng' input1 where
    "x25519Generate L seed = Some eph" "length (kp_public eph) = 32" "length n1 = 16" "drbg_ok L rng'"
    "\<exists>r. drbg_bytes L kNonceLen rng = Some (n1, r)"
    "macInput C 0 B1_M1_AUTH_REQUEST (signed_B1 (encodeId C (bu_id u)) n1 (encodeTimestamp C now)
       (kp_public eph)) = Some input1" "length input1 \<le> 4096" "input1 \<noteq> []"
    "b_startPhase2 C L G ent now rng u = Some (done_reply (msg_set SIGNATURE (sg_sign G ent (bu_keypair u) input1)
       (B1_body C (bu_id u) n1 now (kp_public eph))), rng', u\<lparr>bu_session := b_uav_session_empty\<lparr>bs_n1 := n1,
         bs_t1 := now, bs_ephemeral := eph, bs_transcript := input1\<rparr>\<rparr>)"
proof -
  obtain n1 rng1 seed rng2 eph where n: "drbg_bytes L kNonceLen rng = Some (n1, rng1)"
    "drbg_bytes L 32 rng1 = Some (seed, rng2)" "x25519Generate L seed = Some eph" "drbg_ok L rng2"
    "dk_key rng2 = dk_key rng" "length n1 = 16" "length (kp_secret eph) = 32" "length (kp_public eph) = 32"
    "from_stream L (dk_key rng) n1" "from_stream L (dk_key rng) seed"
    by (rule nonce_eph [OF assms(2)])
  obtain input1 where i: "macInput C 0 B1_M1_AUTH_REQUEST (signed_B1 (encodeId C (bu_id u)) n1
      (encodeTimestamp C now) (kp_public eph)) = Some input1" "length input1 \<le> 4096" "input1 \<noteq> []"
    using macInput_B1 [of "encodeId C (bu_id u)" n1 "encodeTimestamp C now" "kp_public eph" 0] n by auto
  show thesis
    by (rule that [OF n(3,8,6,4) _ i]) (use assms(1) n i in \<open>simp_all add: b_startPhase2_def Let_def\<close>)
qed

text \<open>The honest run of a paired UAV and ground station.\<close>

lemma baseline_run_honest:
  assumes G: "signature_suite G" and paired: "b_paired G u g"
    and rngs: "drbg_ok L urng" "drbg_ok L grng" and id: "0 \<le> bu_id u" "bu_id u < 65535"
    and clocks: "timestampFresh t2 t1 (bgs_windowMs g)" "timestampFresh t3 t2 (bu_windowMs u)"
    and unseen: "\<forall>n r. drbg_bytes L kNonceLen urng = Some (n, r) \<longrightarrow> n \<notin> rc_seen (bgs_replay g)"
      "\<forall>n r. drbg_bytes L kNonceLen grng = Some (n, r) \<longrightarrow> n \<notin> rc_seen (bu_replay u)"
  shows "\<exists>urng' u' grng' g'. baseline_run C L S G (e1, e2) (t1, t2, t3) (urng, u) (grng, g) =
      Some ((urng', u'), (grng', g')) \<and> baseline_agreed u' g'"
proof -
  let ?sid = "encodeId C (bu_id u)"
  obtain upk gpk where pk: "om_find (bgs_uavPublicKeys g) (bu_id u) = Some (Some (Some upk))"
    "bu_gsPublicKey u = Some (Some gpk)"
    "\<And>e m. sg_verify G (Some upk) m (sg_sign G e (bu_keypair u) m)"
    "\<And>e m. sg_verify G (Some gpk) m (sg_sign G e (bgs_keypair g) m)"
    using paired signature_suite.own_pair_verifies [OF G] unfolding b_paired_def by metis
  obtain n1 seed eph urng' input1 where m1: "x25519Generate L seed = Some eph" "length (kp_public eph) = 32"
    "length n1 = 16" "drbg_ok L urng'" "\<exists>r. drbg_bytes L kNonceLen urng = Some (n1, r)"
    "macInput C 0 B1_M1_AUTH_REQUEST (signed_B1 ?sid n1 (encodeTimestamp C t1) (kp_public eph)) = Some input1"
    "length input1 \<le> 4096" "input1 \<noteq> []"
    and step1: "b_startPhase2 C L G e1 t1 urng u = Some (done_reply (msg_set SIGNATURE
       (sg_sign G e1 (bu_keypair u) input1) (B1_body C (bu_id u) n1 t1 (kp_public eph))), urng',
       u\<lparr>bu_session := b_uav_session_empty\<lparr>bs_n1 := n1, bs_t1 := t1, bs_ephemeral := eph,
         bs_transcript := input1\<rparr>\<rparr>)" (is "_ = Some (done_reply ?m1, _, ?u1)")
    by (rule b_startPhase2_result [of u urng t1 G e1, OF _ rngs(1)]) (use pk(2) in auto)
  have "n1 \<notin> rc_seen (bgs_replay g)" using unseen(1) m1(5) by blast
  then have adm: "B1_admitted C ?m1 t2 g (Some upk) (bu_id u) ?sid n1 (kp_public eph)
      (encodeTimestamp C t1) t1 input1 (sg_sign G e1 (bu_keypair u) input1)"
    using m1 pk(1) clocks(1) decodeId_encodeId [of "bu_id u"] id
    by (simp add: B1_admitted_def b_msg_get kNonceLen_def kX25519KeyLen_def)
  obtain n2 seed2 eph2 grng' input2 where m2: "x25519Generate L seed2 = Some eph2"
    "length (kp_public eph2) = 32" "length n2 = 16" "\<exists>r. drbg_bytes L kNonceLen grng = Some (n2, r)"
    "drbg_ok L grng'" "macInput C 0 B1_M2_GS_RESPONSE (signed_B2 ?sid n1 n2 (encodeTimestamp C t2)
       (kp_public eph) (kp_public eph2)) = Some input2" "length input2 \<le> 4096"
    and respond: "\<And>i t1 input1 g. b_gs_respond C L G e2 ?m1 t2 i ?sid n1 (kp_public eph) t1 input1 grng g = Some
       (done_reply (msg_set SIGNATURE (sg_sign G e2 (bgs_keypair g) input2)
          (B2_body C 0 i n2 t2 (kp_public eph2))), grng',
        g\<lparr>bgs_sessions := om_set i (bg_session i n1 t1 (kp_public eph) n2 t2 eph2 (input1 @ input2)) (bgs_sessions g)\<rparr>)"
    by (rule b_gs_respond_result [OF rngs(2) _ m1(3,2), of ?sid ?m1 t2 G e2]) auto
  let ?s = "bg_session (bu_id u) n1 t1 (kp_public eph) n2 t2 eph2 (input1 @ input2)"
  let ?g1 = "b_gs_offered n1 g"
  let ?g2 = "?g1\<lparr>bgs_sessions := om_set (bu_id u) ?s (bgs_sessions ?g1)\<rparr>"
  let ?m2 = "msg_set SIGNATURE (sg_sign G e2 (bgs_keypair g) input2) (B2_body C 0 (bu_id u) n2 t2 (kp_public eph2))"
  have step2: "b_gs_handleM1 C L G e2 ?m1 t2 grng g = Some (done_reply ?m2, grng', ?g2)"
    using b_gs_handleM1_admitted [OF adm, of L G e2 grng] pk(3) respond [of "bu_id u" t1 input1 ?g1] by simp
  obtain z where z: "x25519Derive L (kp_secret eph) (kp_public eph2) = (True, z)"
    "x25519Derive L (kp_secret eph2) (kp_public eph) = (True, z)"
    using x25519_honest_agree [OF m1(1) m2(1)] by blast
  have zl: "length z = 32" using x25519Derive_len [OF z(1)] .
  have "z \<noteq> []" using zl by auto
  moreover have "length (input1 @ input2) \<le> 65535" using m1(7) m2(7) by simp
  ultimately obtain k where k: "su_kdf S z (input1 @ input2) kP2Sess [] (su_keyLen S) = Some k" "length k = 32"
    using auth_key [of z kP2Sess "input1 @ input2"] zl by auto
  obtain t where t: "su_mac S k (input1 @ input2) = Some t" using mac_some [OF k(2)] by blast
  let ?m3 = "msg_set MAC_TAG t (B3_body 0 (bu_id u))"
  let ?u2 = "?u1\<lparr>bu_replay := snd (rc_offer n2 (bu_replay u))\<rparr>"
  let ?s3 = "bs_keyed k ((bu_session ?u1)\<lparr>bs_n2 := n2, bs_transcript := input1 @ input2\<rparr>)"
  have "n2 \<notin> rc_seen (bu_replay u)" using unseen(2) m2(4) by blast
  then have step3: "b_uav_handleM2 C L S G ?m2 t3 ?u1 = Some (done_reply ?m3, ?u2\<lparr>bu_session := ?s3\<rparr>)"
    using m1 m2 clocks(2) pk(2,4) z(1) k(1) t
    by (simp add: b_uav_handleM2_def b_msg_get msg_get_has kNonceLen_def kX25519KeyLen_def split_beta
        rc_offer_iff b_uav_confirm_def Let_def)
  obtain t4 where t4: "su_mac S k ((input1 @ input2) @ fromString C ''confirm'') = Some t4"
    using mac_some [OF k(2)] by blast
  let ?m4 = "msg_set MAC_TAG t4 (B4_body 0 (bu_id u))"
  let ?g4 = "?g2\<lparr>bgs_sessions := om_set (bu_id u) (bg_keyed k ?s) (bgs_sessions ?g2)\<rparr>"
  have step4: "b_gs_handleM3 C L S ?m3 ?g2 = Some (done_reply ?m4, ?g4)"
    using b_gs_handleM3_keyed [of ?m3 t ?g2 ?s L z S k True C t4] z(2) k(1) t4 mac_verify_own [OF t]
    by (simp add: bg_session_def)
  have step5: "b_uav_handleM4 C S ?m4 (?u2\<lparr>bu_session := ?s3\<rparr>) =
      Some (done_quiet, ?u2\<lparr>bu_session := ?s3\<lparr>bs_established := True\<rparr>\<rparr>)"
    using k(2) mac_verify_own [OF t4]
    by (auto simp: b_uav_handleM4_def bs_keyed_def msg_get_has Let_def)
  have "baseline_agreed (?u2\<lparr>bu_session := ?s3\<lparr>bs_established := True\<rparr>\<rparr>) ?g4"
    using k(2) by (simp add: baseline_agreed_def bs_keyed_def bg_keyed_def bg_session_def)
  moreover have "baseline_run C L S G (e1, e2) (t1, t2, t3) (urng, u) (grng, g) =
      Some ((urng', ?u2\<lparr>bu_session := ?s3\<lparr>bs_established := True\<rparr>\<rparr>), (grng', ?g4))"
    by (rule baseline_runI [OF step1 step2 step3 step4 step5])
  ultimately show ?thesis by blast
qed

end


subsection \<open>The enrolled fleet authenticates\<close>

text \<open>C31. Every UAV of an enrolled baseline fleet completes the handshake: after the key exchange of
  enrollment, with key generation succeeding, clocks within the window and honest delivery, B1 to
  B4 all succeed, the UAV is established, and both sides hold the same 32-byte key over the same
  transcript with both ephemeral scalars erased.\<close>

theorem enrolled_baseline_authenticates:
  assumes "core_laws C" and "ossl_laws L" and "crypto_suite S" and "signature_suite G"
    and "b_enrollAll G e0 (zip ents (map (\<lambda>i. b_uav_new (int i) w) [0..<n])) (b_gs_new w) = (us, g)"
    and "length ents = n" and "j < n" and "n \<le> 65535"
    and "sg_generateKeypair G e0 \<noteq> None" and "\<forall>e \<in> set ents. sg_generateKeypair G e \<noteq> None"
    and "drbg_ok L urng" and "drbg_ok L grng"
    and "\<bar>uint t2 - uint t1\<bar> \<le> uint w" and "\<bar>uint t3 - uint t2\<bar> \<le> uint w"
  shows "\<exists>urng' u' grng' g'. baseline_run C L S G (e1, e2) (t1, t2, t3) (urng, us ! j) (grng, g) =
    Some ((urng', u'), (grng', g')) \<and> baseline_agreed u' g'"
proof -
  let ?g0 = "b_gs_ensureOwnKeypair G e0 (b_gs_new w)"
  let ?uavs = "zip ents (map (\<lambda>i. b_uav_new (int i) w) [0..<n])"
  have g0: "own_pair G (bgs_keypair ?g0)" "bgs_windowMs ?g0 = w" "rc_seen (bgs_replay ?g0) = {}"
    using assms(9) by (auto simp: b_gs_ensureOwnKeypair_def b_gs_new_def keypair_valid_def own_pair_def rc_new_def)
  have u: "\<forall>j < length ?uavs. bu_id (snd (?uavs ! j)) = 0 + int j \<and> bu_keypair (snd (?uavs ! j)) = None \<and>
      sg_generateKeypair G (fst (?uavs ! j)) \<noteq> None"
    using assms(6,10) by (simp add: b_uav_new_def)
  from b_enroll_loop_paired [OF g0(1) u assms(5) [unfolded b_enrollAll_def]] assms(6,7)
  have h: "b_paired G (us ! j) g" "bu_id (us ! j) = int j" "bu_windowMs (us ! j) = w"
    "rc_seen (bu_replay (us ! j)) = {}" "bgs_windowMs g = w" "rc_seen (bgs_replay g) = {}"
    using g0 by (simp_all add: b_uav_new_def rc_new_def)
  show ?thesis
    by (rule protocol_env.baseline_run_honest [OF protocol_envI [OF assms(1-3)] assms(4) h(1) assms(11,12)])
      (use h assms(7,8,13,14) in \<open>simp_all add: timestampFresh_iff\<close>)
qed

lemma b_demo_rng: "\<exists>rng. drbg_ok ref_ossl rng"
  using refo.drbg_reseed_total [of "[]"] by (auto simp: drbg_ok_def)

text \<open>A drone and a ground station of the computable libraries, and their run step by step.\<close>

abbreviation "b_demo_suite \<equiv> ecdsaSuite ref_evp"

abbreviation "b_demo_mac \<equiv> sha3Suite ref_core ref_ossl False"

lemma b_demo_keys: "sg_generateKeypair b_demo_suite e \<noteq> None"
  by (simp add: ecdsaSuite_def ecdsa_generateKeypair_def ref_evp_def)

lemma b_demo_run:
  obtains u u1 u3 g g2 g4 rng rng1 rng2 r1 r2 r3 r4 where "drbg_ok ref_ossl rng"
    "b_startPhase2 ref_core ref_ossl b_demo_suite [] 1 rng u = Some (r1, rng1, u1)"
    "b_gs_handleM1 ref_core ref_ossl b_demo_suite [] (sr_reply r1) 2 rng g = Some (r2, rng2, g2)" "sr_hasReply r2"
    "b_uav_handleM2 ref_core ref_ossl b_demo_mac b_demo_suite (sr_reply r2) 3 u1 = Some (r3, u3)"
    "b_gs_handleM3 ref_core ref_ossl b_demo_mac (sr_reply r3) g2 = Some (r4, g4)" "sr_ok r4"
proof -
  obtain rng where rng: "drbg_ok ref_ossl rng" using b_demo_rng by blast
  let ?g0 = "b_gs_ensureOwnKeypair b_demo_suite [] (b_gs_new 5)" and ?u0 = "b_uav_new 1 5 :: bytes b_uav"
  obtain u g where e: "b_enroll_one b_demo_suite [] (bu_id ?u0) ?u0 ?g0 = (u, g)" by fastforce
  have g0: "own_pair b_demo_suite (bgs_keypair ?g0)"
    using b_demo_keys [of "[]"] by (auto simp: b_gs_ensureOwnKeypair_def b_gs_new_def keypair_valid_def own_pair_def)
  have u0: "bu_keypair ?u0 = None" by (simp add: b_uav_new_def)
  note one = b_enroll_one_paired [OF e g0 u0 b_demo_keys]
  have "\<exists>urng' u' grng' g'. baseline_run ref_core ref_ossl b_demo_mac b_demo_suite ([], []) (1, 2, 3)
      (rng, u) (rng, g) = Some ((urng', u'), (grng', g')) \<and> baseline_agreed u' g'"
    by (rule ref_proto.baseline_run_honest [OF ref_evp.ecdsa_suite one(1) rng rng])
      (use one(2-7) in \<open>simp_all add: timestampFresh_iff b_uav_new_def b_gs_new_def rc_new_def
        b_gs_ensureOwnKeypair_def keypair_valid_def\<close>)
  then show thesis by (elim exE conjE baseline_runE) (rule that [OF rng])
qed

theorem enrolled_baseline_authenticates_witness:
  "\<exists>us g urng grng r. b_enrollAll b_demo_suite [9] (zip [[1], [2]] (map (\<lambda>i. b_uav_new (int i) 5000) [0..<2]))
      (b_gs_new 5000) = (us, g) \<and>
    baseline_run ref_core ref_ossl (sha3Suite ref_core ref_ossl False) b_demo_suite ([], []) (100, 120, 140)
      (urng, us ! 1) (grng, g) = Some r"
proof -
  obtain rng where rng: "drbg_ok ref_ossl rng" using b_demo_rng by blast
  obtain us g where e: "b_enrollAll b_demo_suite [9] (zip [[1], [2]] (map (\<lambda>i. b_uav_new (int i) 5000) [0..<2]))
      (b_gs_new 5000) = (us, g)" by fastforce
  from enrolled_baseline_authenticates [OF ref_core_laws refo.ossl_laws_axioms ref_env.sha3.crypto_suite_axioms
      ref_evp.ecdsa_suite e, of 1 rng rng 120 100 140 "[]" "[]"] rng b_demo_keys
  show ?thesis using e by fastforce
qed


subsection \<open>Instances of the properties of \<open>Baseline_Safety\<close>\<close>

theorem baseline_gs_answers_only_signed_B1_witness:
  "\<exists>g rng m1 r rng' g' i kp sg. b_gs_handleM1 ref_core ref_ossl b_demo_suite [] m1 2 rng g = Some (r, rng', g') \<and>
     sr_hasReply r \<and> om_find (bgs_uavPublicKeys g) i = Some (Some kp) \<and>
     msg_get m1 SIGNATURE = Some sg \<and> (\<exists>b. sg_verify b_demo_suite kp b sg)"
proof (rule b_demo_run)
  fix rng g r1 r2 rng2 g2
  assume h: "b_gs_handleM1 ref_core ref_ossl b_demo_suite [] (sr_reply r1) 2 rng g = Some (r2, rng2, g2)"
    "sr_hasReply r2"
  from baseline_gs_answers_only_signed_B1 [OF h(1)] h show ?thesis by fastforce
qed

theorem baseline_handleM1_throws_iff_witness:
  "\<exists>rng. b_gs_handleM1 ref_core ref_ossl b_demo_suite [] (msg_set SENDER_ID [0] (msg_set SIGNATURE []
     (B1_body ref_core 1 [] 0 []))) 2 rng (b_gs_new 5) = None"
proof -
  obtain rng where rng: "drbg_ok ref_ossl rng" using b_demo_rng by blast
  let ?m = "msg_set SENDER_ID [0] (msg_set SIGNATURE [] (B1_body ref_core 1 [] 0 []))"
  have "m_type ?m = B1_M1_AUTH_REQUEST" "msg_has ?m NONCE_1" "msg_has ?m TIMESTAMP" "msg_has ?m EPK_A"
    "msg_has ?m SIGNATURE" "msg_get ?m SENDER_ID = Some [0]" "length [0 :: u8] \<noteq> 2"
    by (simp_all add: msg_get_has b_msg_get)
  then have "b_gs_handleM1 ref_core ref_ossl b_demo_suite [] ?m 2 rng (b_gs_new 5) = None"
    using baseline_handleM1_throws_iff [OF ref_core_laws refo.ossl_laws_axioms
        ref_env.sha3.crypto_suite_axioms rng] by blast
  then show ?thesis by blast
qed

lemma b_gs_handleM3_ok:
  assumes "b_gs_handleM3 C L S m g = Some (r, g')" "sr_ok r"
  obtains tag s z k where "m_type m = B1_M3_UAV_CONFIRM" "msg_get m MAC_TAG = Some tag"
    "om_find (bgs_sessions g) (m_senderId m) = Some s"
    "x25519Derive L (kp_secret (bg_ephemeral s)) (bg_epkA s) = (True, z)"
    "su_kdf S z (bg_transcript s) kP2Sess [] (su_keyLen S) = Some k"
    "su_macVerify S k (bg_transcript s) tag = Some True"
  using assms
  by (auto simp: b_gs_handleM3_def Option.bind_eq_Some_conv split_beta Let_def prod_eq_iff
      split: if_splits option.splits)

theorem forged_B3_destroys_session_witness:
  "\<exists>(g :: bytes b_gs) g' forged own g2 m4. b_gs_handleM3 ref_core ref_ossl b_demo_mac own g = Some (done_reply m4, g2) \<and>
     b_gs_handleM3 ref_core ref_ossl b_demo_mac forged g = Some (fail MacVerifyFailed, g') \<and>
     b_gs_handleM3 ref_core ref_ossl b_demo_mac own g' = Some (fail DhFailed, g')"
proof (rule b_demo_run)
  fix r3 r4 and g2 g4 :: "bytes b_gs"
  assume "b_gs_handleM3 ref_core ref_ossl b_demo_mac (sr_reply r3) g2 = Some (r4, g4)" "sr_ok r4"
  then obtain tag s z k where h: "m_type (sr_reply r3) = B1_M3_UAV_CONFIRM"
    "msg_get (sr_reply r3) MAC_TAG = Some tag"
    "om_find (bgs_sessions g2) (m_senderId (sr_reply r3)) = Some s"
    "x25519Derive ref_ossl (kp_secret (bg_ephemeral s)) (bg_epkA s) = (True, z)"
    "su_kdf b_demo_mac z (bg_transcript s) kP2Sess [] (su_keyLen b_demo_mac) = Some k"
    "su_macVerify b_demo_mac k (bg_transcript s) tag = Some True"
    by (rule b_gs_handleM3_ok)
  have t: "su_mac b_demo_mac k (bg_transcript s) = Some tag" using ref_env.sha3.mac_verified [OF h(6)] .
  let ?own = "sr_reply r3" and ?forged = "msg_set MAC_TAG (0 # tag) (sr_reply r3)"
  have f: "0 # tag \<noteq> tag" "m_type ?forged = B1_M3_UAV_CONFIRM" "m_senderId ?forged = m_senderId ?own"
    "msg_get ?forged MAC_TAG = Some (0 # tag)" using h(1) by simp_all
  from forged_B3_destroys_session [OF ref_env.sha3.crypto_suite_axioms h(3-5) t f h(1) refl h(2), of ref_core]
  show ?thesis by blast
qed

end
