(* ===== verification/Medium.thy ===== *)
theory Medium
  imports Wire Fpu
begin

text \<open>
  \<open>nodes/SimMessage.h\<close>, \<open>nodes/WirelessMedium.h\<close>, \<open>nodes/WirelessMedium.cc\<close>: the carrier of a
  protocol message and the one transmission path.  A module of the network is a \<open>node\<close>; what
  \<open>sendDirect\<close> is called with, in order, is the list of deliveries.  The delay of a hop
  (\<open>computeDelay\<close>) is a definition of its own: every delivery of one call has the same delay, so the
  routing does not mention it, nor the time stamps taken from it (\<open>sentAt\<close>, \<open>txTime\<close>, ...).  Messages
  are values here, so ownership and \<open>delete\<close> have no counterpart.
\<close>

record sim_message =
  sm_payload :: message
  sm_injectedByAttacker :: bool
  sm_tampered :: bool

definition sim_message :: "message \<Rightarrow> sim_message" where
  "sim_message m = \<lparr>sm_payload = m, sm_injectedByAttacker = False, sm_tampered = False\<rparr>"

lemma sim_message_simps [simp]:
  "sm_payload (sim_message m) = m" "\<not> sm_injectedByAttacker (sim_message m)" "\<not> sm_tampered (sim_message m)"
  by (simp_all add: sim_message_def)

text \<open>\<open>SimMessage::wireBytes\<close>.\<close>

definition sm_wireBytes :: "core_lib \<Rightarrow> sim_message \<Rightarrow> nat option" where
  "sm_wireBytes C s = msg_wireBytes C (sm_payload s)"

text \<open>The submodules of the network; \<open>getSubmodule\<close> finds a UAV by its index.\<close>

datatype node = GroundStation | Uav int | Attacker

definition uav_module :: "int \<Rightarrow> int \<Rightarrow> node option" where
  "uav_module numUavs i = (if 0 \<le> i \<and> i < numUavs then Some (Uav i) else None)"

record trace_row =
  tr_phase :: string
  tr_label :: string
  tr_msgTypeCode :: int
  tr_srcId :: int
  tr_dstId :: int
  tr_wireBytes :: nat
  tr_delivered :: bool
  tr_dropped :: bool
  tr_tampered :: bool
  tr_injected :: bool

record medium =
  md_tapEnabled :: bool
  md_attackMode :: string
  md_attacker :: "node option"
  md_trace :: "trace_row list"

definition registerAttacker :: "node \<Rightarrow> medium \<Rightarrow> medium" where
  "registerAttacker a md = md\<lparr>md_attacker := Some a\<rparr>"

definition trace_phase :: "int \<Rightarrow> string" where
  "trace_phase code = (if code < 200 then ''phase1''
     else if code < 300 then ''phase2'' else if code < 400 then ''phase3'' else ''baseline_sig_auth'')"

definition md_row :: "sim_message \<Rightarrow> nat \<Rightarrow> bool \<Rightarrow> trace_row" where
  "md_row msg bytes delivered =
     (let code = messageTypeValue (m_type (sm_payload msg)) in
      \<lparr>tr_phase = trace_phase code, tr_label = messageLabel (m_type (sm_payload msg)),
       tr_msgTypeCode = code, tr_srcId = m_senderId (sm_payload msg),
       tr_dstId = m_receiverId (sm_payload msg), tr_wireBytes = bytes, tr_delivered = delivered,
       tr_dropped = False, tr_tampered = sm_tampered msg, tr_injected = sm_injectedByAttacker msg\<rparr>)"

type_synonym delivery = "node \<times> sim_message"

definition transmit ::
    "core_lib \<Rightarrow> sim_message \<Rightarrow> node \<Rightarrow> node option \<Rightarrow> medium \<Rightarrow> (delivery list \<times> medium) option" where
  "transmit C msg source dest md =
     (case dest of
        None \<Rightarrow> Some ([], md)
      | Some d \<Rightarrow> do {
          bytes \<leftarrow> sm_wireBytes C msg;
          let log = (\<lambda>delivered. md\<lparr>md_trace := md_trace md @ [md_row msg bytes delivered]\<rparr>);
          let payload = sm_payload msg;
          (if sm_injectedByAttacker msg \<or> Some source = md_attacker md
           then Some ([(d, msg)], log True)
           else if \<not> md_tapEnabled md \<or> md_attacker md = None
           then Some ([(d, msg)], log True)
           else if md_attackMode md = ''eavesdrop'' \<or> md_attackMode md = ''credsniff''
           then Some ([(the (md_attacker md), msg), (d, msg)], log True)
           else if md_attackMode md = ''impersonate'' \<and> 0 \<le> m_senderId payload \<and>
                   (m_type payload = P2_M1_AUTH_REQUEST \<or> m_type payload = P2_M3_UAV_CONFIRM)
           then Some ([(the (md_attacker md), msg)], log False)
           else if md_attackMode md = ''mitm'' \<or> md_attackMode md = ''tamper''
           then Some ([(the (md_attacker md), msg)], log False)
           else Some ([(d, msg)], log True)) })"

subsection \<open>The delay of a hop\<close>

record delay_breakdown =
  db_propagationMs :: double
  db_serializationMs :: double
  db_processingMs :: double
  db_jitterMs :: double

definition db_empty :: delay_breakdown where
  "db_empty = \<lparr>db_propagationMs = fp_zero, db_serializationMs = fp_zero, db_processingMs = fp_zero,
     db_jitterMs = fp_zero\<rparr>"

definition db_totalMs :: "fpu \<Rightarrow> delay_breakdown \<Rightarrow> double" where
  "db_totalMs F d = fp_add F (fp_add F (fp_add F (db_propagationMs d) (db_serializationMs d))
     (db_processingMs d)) (db_jitterMs d)"

record link_params =
  lk_linkBitrateBps :: double
  lk_propagationSpeedMps :: double
  lk_processingDelayMs :: double
  lk_enableJitter :: bool

text \<open>\<open>hasPar\<close>: a module without the parameter sits at 0.\<close>

definition coordinate :: "double option \<Rightarrow> double" where
  "coordinate v = (case v of Some x \<Rightarrow> x | None \<Rightarrow> fp_zero)"

text \<open>The parameters \<open>xpos\<close> and \<open>ypos\<close> of both modules; \<open>draw\<close> is what \<open>normal(0, jitterStddevMs_)\<close> returns.\<close>

definition computeDelay ::
    "fpu \<Rightarrow> link_params \<Rightarrow> double option \<times> double option \<Rightarrow> double option \<times> double option \<Rightarrow>
     nat \<Rightarrow> double \<Rightarrow> delay_breakdown" where
  "computeDelay F lk src dst payloadBytes draw =
     (let dx = fp_sub F (coordinate (fst src)) (coordinate (fst dst));
          dy = fp_sub F (coordinate (snd src)) (coordinate (snd dst));
          distance = fp_sqrt F (fp_add F (fp_mul F dx dx) (fp_mul F dy dy));
          d = db_empty\<lparr>
            db_propagationMs := fp_mul F (fp_div F distance (lk_propagationSpeedMps lk)) (fp_of_rat F 1000),
            db_serializationMs := fp_mul F (fp_div F (fp_mul F (fp_of_rat F 8) (fp_nat F payloadBytes))
              (lk_linkBitrateBps lk)) (fp_of_rat F 1000),
            db_processingMs := lk_processingDelayMs lk\<rparr>
      in if lk_enableJitter lk then d\<lparr>db_jitterMs := fp_fabs F draw\<rparr> else d)"

text \<open>Each part depends on its own inputs only: the bytes cost the same wherever the nodes are, the
  distance the same whatever is sent, and without jitter the random draw does not matter.\<close>

lemma computeDelay_parts:
  "db_serializationMs (computeDelay F lk a b n draw) = db_serializationMs (computeDelay F lk a' b' n draw')"
  "db_propagationMs (computeDelay F lk a b n draw) = db_propagationMs (computeDelay F lk a b n' draw')"
  "\<not> lk_enableJitter lk \<Longrightarrow> computeDelay F lk a b n draw = computeDelay F lk a b n draw'"
  by (simp_all add: computeDelay_def Let_def db_empty_def)

subsection \<open>Traces\<close>

text \<open>Each call logs one row, which says \<open>delivered\<close> exactly when the addressee got the message.\<close>

lemma transmit_trace:
  assumes "transmit C msg source (Some d) md = Some (ds, md')" "md_attacker md \<noteq> Some d"
  shows "\<exists>row. md_trace md' = md_trace md @ [row] \<and> (tr_delivered row \<longleftrightarrow> (d, msg) \<in> set ds) \<and>
    md_attacker md' = md_attacker md \<and> md_tapEnabled md' = md_tapEnabled md \<and>
    md_attackMode md' = md_attackMode md"
  using assms by (auto simp: transmit_def md_row_def Let_def Option.bind_eq_Some_conv split: if_splits)

lemma transmit_total:
  "sm_wireBytes C msg \<noteq> None \<Longrightarrow> transmit C msg source dest md \<noteq> None"
  by (auto simp: transmit_def Let_def split: option.splits)

text \<open>Without a tap the medium is a direct send; with one, nothing reaches a node that is neither
  the addressee nor the attacker, and what arrives is what was sent.\<close>

lemma transmit_direct:
  "\<not> md_tapEnabled md \<or> md_attacker md = None \<Longrightarrow> transmit C msg source (Some d) md = Some (ds, md') \<Longrightarrow>
   ds = [(d, msg)]"
  by (auto simp: transmit_def Let_def Option.bind_eq_Some_conv split: if_splits)

lemma transmit_faithful:
  "transmit C msg source dest md = Some (ds, md') \<Longrightarrow> (n, m) \<in> set ds \<Longrightarrow>
   m = msg \<and> (dest = Some n \<or> md_attacker md = Some n)"
  by (auto simp: transmit_def Let_def Option.bind_eq_Some_conv split: if_splits option.splits)

text \<open>The impersonation tap takes exactly M1 and M3 away from the ground station.\<close>

lemma transmit_impersonate:
  assumes "md_tapEnabled md" "md_attacker md = Some a" "md_attackMode md = ''impersonate''"
    and "sm_wireBytes C msg = Some n" "\<not> sm_injectedByAttacker msg" "source \<noteq> a"
  shows "fst (the (transmit C msg source (Some d) md)) =
    (if 0 \<le> m_senderId (sm_payload msg) \<and>
        (m_type (sm_payload msg) = P2_M1_AUTH_REQUEST \<or> m_type (sm_payload msg) = P2_M3_UAV_CONFIRM)
     then [(a, msg)] else [(d, msg)])"
  using assms by (auto simp: transmit_def Let_def)

subsection \<open>What a node does\<close>

text \<open>In the order of the calls: transmissions, scheduled self messages and emitted statistics.
  A time is a count of \<open>simtime_t\<close> ticks.\<close>

type_synonym simtime = int

datatype node_output =
    Transmit sim_message "node option"
  | Schedule simtime string
  | Emit string int

definition transmissions :: "node_output list \<Rightarrow> (sim_message \<times> node option) list" where
  "transmissions out = concat (map (\<lambda>x. case x of Transmit m d \<Rightarrow> [(m, d)] | _ \<Rightarrow> []) out)"

lemma transmissions_simps [simp]:
  "transmissions [] = []" "transmissions (Transmit m d # out) = (m, d) # transmissions out"
  "transmissions (Schedule t s # out) = transmissions out" "transmissions (Emit s v # out) = transmissions out"
  "transmissions (out @ out') = transmissions out @ transmissions out'"
  by (simp_all add: transmissions_def)

end
