(* ===== verification/Baseline_Nodes.thy ===== *)
theory Baseline_Nodes
  imports Medium Baseline_Run
begin

text \<open>
  \<open>nodes/BaselineGroundStationNode.{h,cc}\<close> and \<open>nodes/BaselineUavNode.{h,cc}\<close>: the simulation modules
  around the signature baseline, in the style of \<open>Gs_Node\<close> and \<open>Uav_Node\<close>.  \<open>ent\<close> is the randomness
  OpenSSL draws for a signature.
\<close>

subsection \<open>The ground station\<close>

record b_gs_record =
  br_success :: bool
  br_bytesM2 :: nat
  br_bytesM4 :: nat
  br_abortReason :: string

definition br_empty :: b_gs_record where
  "br_empty = \<lparr>br_success = False, br_bytesM2 = 0, br_bytesM4 = 0, br_abortReason = ''none''\<rparr>"

record 'k b_gs_node =
  bn_numUavs :: int
  bn_rng :: drbg
  bn_proto :: "'k b_gs"
  bn_records :: "(int, b_gs_record) omap"
  bn_authAttempts :: int
  bn_authSuccesses :: int

text \<open>\<open>records_[uavId]\<close>.\<close>

definition br_at :: "int \<Rightarrow> 'k b_gs_node \<Rightarrow> b_gs_record" where
  "br_at i n = (case om_find (bn_records n) i of None \<Rightarrow> br_empty | Some r \<Rightarrow> r)"

definition br_put :: "int \<Rightarrow> b_gs_record \<Rightarrow> 'k b_gs_node \<Rightarrow> 'k b_gs_node" where
  "br_put i r n = n\<lparr>bn_records := om_set i r (bn_records n)\<rparr>"

definition bn_send :: "core_lib \<Rightarrow> message \<Rightarrow> int \<Rightarrow> 'k b_gs_node \<Rightarrow> node_output list option" where
  "bn_send C payload destUavId n = do {
     bytes \<leftarrow> msg_wireBytes C payload;
     Some [Emit ''commOverhead'' (int bytes),
           Transmit (sim_message payload) (uav_module (bn_numUavs n) destUavId)] }"

definition bn_refuse :: "step_result \<Rightarrow> int \<Rightarrow> 'k b_gs_node \<Rightarrow> node_output list \<times> 'k b_gs_node" where
  "bn_refuse r i n = ([Emit ''authSuccess'' 0],
     br_put i ((br_at i n)\<lparr>br_abortReason := abortReasonName (sr_abort r)\<rparr>) n)"

definition bn_handleMessage ::
    "core_lib \<Rightarrow> ossl \<Rightarrow> suite \<Rightarrow> 'k sig_suite \<Rightarrow> bytes \<Rightarrow> u32 \<Rightarrow> sim_message \<Rightarrow> 'k b_gs_node \<Rightarrow>
     (node_output list \<times> 'k b_gs_node) option" where
  "bn_handleMessage C L S G ent nowMs msg n =
     (let payload = sm_payload msg; uavId = m_senderId payload in
      case m_type payload of
        B1_M1_AUTH_REQUEST \<Rightarrow> do {
          (r, rng, g) \<leftarrow> b_gs_handleM1 C L G ent payload nowMs (bn_rng n) (bn_proto n);
          let n = n\<lparr>bn_authAttempts := bn_authAttempts n + 1, bn_rng := rng, bn_proto := g\<rparr>;
          (if \<not> sr_ok r then Some (bn_refuse r uavId n)
           else do {
             bytes \<leftarrow> msg_wireBytes C (sr_reply r);
             let n = br_put uavId ((br_at uavId n)\<lparr>br_bytesM2 := bytes\<rparr>) n;
             out \<leftarrow> bn_send C (sr_reply r) uavId n;
             Some (out, n) }) }
      | B1_M3_UAV_CONFIRM \<Rightarrow> do {
          (r, g) \<leftarrow> b_gs_handleM3 C L S payload (bn_proto n);
          let n = n\<lparr>bn_proto := g\<rparr>;
          (if \<not> sr_ok r then Some (bn_refuse r uavId n)
           else do {
             bytes \<leftarrow> msg_wireBytes C (sr_reply r);
             let n = br_put uavId ((br_at uavId n)\<lparr>br_success := True, br_bytesM4 := bytes\<rparr>)
               (n\<lparr>bn_authSuccesses := bn_authSuccesses n + 1\<rparr>);
             out \<leftarrow> bn_send C (sr_reply r) uavId n;
             Some (Emit ''authSuccess'' 1 # out, n) }) }
      | _ \<Rightarrow> Some ([], n))"

subsection \<open>The UAV\<close>

record b_uav_record =
  bv_success :: bool
  bv_latency :: simtime
  bv_bytesM1 :: nat
  bv_bytesM2 :: nat
  bv_bytesM3 :: nat
  bv_bytesM4 :: nat
  bv_overheadBytes :: nat
  bv_abortReason :: string

definition bv_empty :: b_uav_record where
  "bv_empty = \<lparr>bv_success = False, bv_latency = 0, bv_bytesM1 = 0, bv_bytesM2 = 0, bv_bytesM3 = 0,
     bv_bytesM4 = 0, bv_overheadBytes = 0, bv_abortReason = ''none''\<rparr>"

record 'k b_uav_node =
  bw_rng :: drbg
  bw_proto :: "'k b_uav"
  bw_phase2Start :: simtime
  bw_rec :: b_uav_record

definition bw_upd :: "(b_uav_record \<Rightarrow> b_uav_record) \<Rightarrow> 'k b_uav_node \<Rightarrow> 'k b_uav_node" where
  "bw_upd f n = n\<lparr>bw_rec := f (bw_rec n)\<rparr>"

definition bw_abort :: "step_result \<Rightarrow> 'k b_uav_node \<Rightarrow> 'k b_uav_node" where
  "bw_abort r = bw_upd (\<lambda>v. v\<lparr>bv_abortReason := abortReasonName (sr_abort r)\<rparr>)"

definition bw_send ::
    "core_lib \<Rightarrow> message \<Rightarrow> 'k b_uav_node \<Rightarrow> (node_output list \<times> 'k b_uav_node) option" where
  "bw_send C payload n = do {
     bytes \<leftarrow> msg_wireBytes C payload;
     Some ([Emit ''commOverhead'' (int bytes), Transmit (sim_message payload) (Some GroundStation)],
           bw_upd (\<lambda>v. v\<lparr>bv_overheadBytes := bv_overheadBytes v + bytes\<rparr>) n) }"

text \<open>The node has one self message, \<open>startBaselineAuth\<close>.\<close>

definition bw_handleSelf ::
    "core_lib \<Rightarrow> ossl \<Rightarrow> 'k sig_suite \<Rightarrow> bytes \<Rightarrow> simtime \<Rightarrow> u32 \<Rightarrow> 'k b_uav_node \<Rightarrow>
     (node_output list \<times> 'k b_uav_node) option" where
  "bw_handleSelf C L G ent t nowMs n = do {
     (r, rng, u) \<leftarrow> b_startPhase2 C L G ent nowMs (bw_rng n) (bw_proto n);
     let n = n\<lparr>bw_phase2Start := t, bw_rng := rng, bw_proto := u\<rparr>;
     (if \<not> sr_ok r then Some ([], bw_abort r n)
      else do {
        bytes \<leftarrow> msg_wireBytes C (sr_reply r);
        bw_send C (sr_reply r) (bw_upd (\<lambda>v. v\<lparr>bv_bytesM1 := bytes\<rparr>) n) }) }"

definition bw_handleMessage ::
    "core_lib \<Rightarrow> ossl \<Rightarrow> suite \<Rightarrow> 'k sig_suite \<Rightarrow> simtime \<Rightarrow> u32 \<Rightarrow> sim_message \<Rightarrow> 'k b_uav_node \<Rightarrow>
     (node_output list \<times> 'k b_uav_node) option" where
  "bw_handleMessage C L S G t nowMs msg n =
     (case m_type (sm_payload msg) of
        B1_M2_GS_RESPONSE \<Rightarrow> do {
          b2 \<leftarrow> sm_wireBytes C msg;
          let n = bw_upd (\<lambda>v. v\<lparr>bv_bytesM2 := b2, bv_overheadBytes := bv_overheadBytes v + b2\<rparr>) n;
          (r, u) \<leftarrow> b_uav_handleM2 C L S G (sm_payload msg) nowMs (bw_proto n);
          let n = n\<lparr>bw_proto := u\<rparr>;
          (if \<not> sr_ok r then Some ([], bw_abort r n)
           else do {
             b3 \<leftarrow> msg_wireBytes C (sr_reply r);
             bw_send C (sr_reply r) (bw_upd (\<lambda>v. v\<lparr>bv_bytesM3 := b3\<rparr>) n) }) }
      | B1_M4_GS_CONFIRM \<Rightarrow> do {
          b4 \<leftarrow> sm_wireBytes C msg;
          let n = bw_upd (\<lambda>v. v\<lparr>bv_bytesM4 := b4, bv_overheadBytes := bv_overheadBytes v + b4\<rparr>) n;
          (r, u) \<leftarrow> b_uav_handleM4 C S (sm_payload msg) (bw_proto n);
          let n = n\<lparr>bw_proto := u\<rparr>;
          (if \<not> sr_ok r then Some ([], bw_abort r n)
           else Some ([Emit ''authLatency'' (t - bw_phase2Start n)],
             bw_upd (\<lambda>v. v\<lparr>bv_success := True, bv_latency := t - bw_phase2Start n\<rparr>) n)) }
      | _ \<Rightarrow> Some ([], n))"

subsection \<open>Lemmas\<close>

text \<open>The handlers transmit exactly what the protocol answers.\<close>

lemma bn_handleMessage_B1:
  assumes "m_type (sm_payload msg) = B1_M1_AUTH_REQUEST"
    and "b_gs_handleM1 C L G ent (sm_payload msg) now (bn_rng n) (bn_proto n) = Some (r, rng, g)"
    and "bn_handleMessage C L S G ent now msg n = Some (out, n')"
  shows "bn_proto n' = g" "bn_authSuccesses n' = bn_authSuccesses n" "bn_authAttempts n' = bn_authAttempts n + 1"
    "transmissions out = (if sr_ok r
      then [(sim_message (sr_reply r), uav_module (bn_numUavs n) (m_senderId (sm_payload msg)))] else [])"
  using assms
  by (auto simp: bn_handleMessage_def Let_def bn_refuse_def br_put_def bn_send_def
      Option.bind_eq_Some_conv split: if_splits)

text \<open>An exception of the protocol object is an exception of the node, and ends the simulation.\<close>

lemma bn_handleMessage_throws:
  assumes "m_type (sm_payload msg) = B1_M1_AUTH_REQUEST"
    and "b_gs_handleM1 C L G ent (sm_payload msg) now (bn_rng n) (bn_proto n) = None"
  shows "bn_handleMessage C L S G ent now msg n = None"
  using assms by (simp add: bn_handleMessage_def)

lemma bw_handleMessage_ignores:
  "m_type (sm_payload msg) \<notin> {B1_M2_GS_RESPONSE, B1_M4_GS_CONFIRM} \<Longrightarrow>
   bw_handleMessage C L S G t now msg n = Some ([], n)"
  by (auto simp: bw_handleMessage_def split: message_type.splits)

end
