(* ===== verification/Gs_Node.thy ===== *)
theory Gs_Node
  imports Medium Ground_Station
begin

text \<open>
  \<open>nodes/GroundStationNode.h\<close>, \<open>nodes/GroundStationNode.cc\<close>: the simulation module around
  \<open>GroundStationProtocol\<close>, its counters and per-UAV records.  A handler returns the new node and
  what it does to the rest of the simulation, in order: transmissions, scheduled self messages and
  emitted statistics.  The millisecond reading the handlers take from the simulation time is an
  argument; the timing members of the records are clock readings and not modelled.
\<close>

record gs_phase2_record =
  gp_success :: bool
  gp_bytesM2 :: nat
  gp_bytesM4 :: nat
  gp_abortReason :: string

definition gp_empty :: gs_phase2_record where
  "gp_empty = \<lparr>gp_success = False, gp_bytesM2 = 0, gp_bytesM4 = 0, gp_abortReason = ''none''\<rparr>"

record gs_phase1_record =
  ge_helperBytes :: nat
  ge_challengeBytes :: nat
  ge_success :: bool

record gs_node =
  gn_numUavs :: int
  gn_rng :: drbg
  gn_proto :: gs
  gn_phase1 :: "(int, gs_phase1_record) omap"
  gn_phase2 :: "(int, gs_phase2_record) omap"
  gn_authAttempts :: int
  gn_authSuccesses :: int

text \<open>\<open>phase2_[uavId]\<close>.\<close>

definition gp_at :: "int \<Rightarrow> gs_node \<Rightarrow> gs_phase2_record" where
  "gp_at i n = (case om_find (gn_phase2 n) i of None \<Rightarrow> gp_empty | Some r \<Rightarrow> r)"

definition gp_put :: "int \<Rightarrow> gs_phase2_record \<Rightarrow> gs_node \<Rightarrow> gs_node" where
  "gp_put i r n = n\<lparr>gn_phase2 := om_set i r (gn_phase2 n)\<rparr>"

subsection \<open>Enrollment of the fleet\<close>

text \<open>The loop of \<open>enrollAll\<close>: the list holds the PUFs of \<open>uav[i]\<close>, \<open>uav[i + 1]\<close>, ...; the result has
  the states the devices are provisioned with.\<close>

fun gn_enroll_loop ::
    "core_lib \<Rightarrow> ossl \<Rightarrow> suite \<Rightarrow> int \<Rightarrow> puf list \<Rightarrow> gs_node \<Rightarrow> (device_state list \<times> gs_node) option" where
  "gn_enroll_loop C L S i [] n = Some ([], n)"
| "gn_enroll_loop C L S i (P # Ps) n = do {
     (res, rng, g) \<leftarrow> enroll C L S i P (gn_rng n) (gn_proto n);
     (rec, st) \<leftarrow> res;
     let p1 = \<lparr>ge_helperBytes = sum_list (map length (hd_sketch (dr_helper rec))) + length (hd_seed (dr_helper rec)),
           ge_challengeBytes = length (dr_challenge rec), ge_success = True\<rparr>;
     (sts, n) \<leftarrow> gn_enroll_loop C L S (i + 1) Ps
       (n\<lparr>gn_rng := rng, gn_proto := g, gn_phase1 := om_set i p1 (gn_phase1 n)\<rparr>);
     Some (st # sts, n) }"

definition gn_enrollAll ::
    "core_lib \<Rightarrow> ossl \<Rightarrow> suite \<Rightarrow> puf list \<Rightarrow> gs_node \<Rightarrow> (device_state list \<times> gs_node) option" where
  "gn_enrollAll C L S Ps n = do {
     require (gn_numUavs n \<le> int (length Ps));
     gn_enroll_loop C L S 0 (take (nat (gn_numUavs n)) Ps) n }"

subsection \<open>Messages\<close>

definition gn_send :: "core_lib \<Rightarrow> message \<Rightarrow> int \<Rightarrow> gs_node \<Rightarrow> node_output list option" where
  "gn_send C payload destUavId n = do {
     bytes \<leftarrow> msg_wireBytes C payload;
     Some [Emit ''commOverhead'' (int bytes),
           Transmit (sim_message payload) (uav_module (gn_numUavs n) destUavId)] }"

definition gn_refuse :: "step_result \<Rightarrow> int \<Rightarrow> gs_node \<Rightarrow> node_output list \<times> gs_node" where
  "gn_refuse r i n = ([Emit ''authSuccess'' 0],
     gp_put i ((gp_at i n)\<lparr>gp_abortReason := abortReasonName (sr_abort r)\<rparr>) n)"

definition gn_handleMessage ::
    "core_lib \<Rightarrow> ossl \<Rightarrow> suite \<Rightarrow> u32 \<Rightarrow> sim_message \<Rightarrow> gs_node \<Rightarrow> (node_output list \<times> gs_node) option" where
  "gn_handleMessage C L S nowMs msg n =
     (let payload = sm_payload msg; uavId = m_senderId payload in
      case m_type payload of
        P2_M1_AUTH_REQUEST \<Rightarrow> do {
          (r, rng, g) \<leftarrow> gs_handleM1 C L S payload nowMs (gn_rng n) (gn_proto n);
          let n = n\<lparr>gn_authAttempts := gn_authAttempts n + 1, gn_rng := rng, gn_proto := g\<rparr>;
          (if \<not> sr_ok r then Some (gn_refuse r uavId n)
           else do {
             bytes \<leftarrow> msg_wireBytes C (sr_reply r);
             let n = gp_put uavId ((gp_at uavId n)\<lparr>gp_bytesM2 := bytes\<rparr>) n;
             out \<leftarrow> gn_send C (sr_reply r) uavId n;
             Some (out, n) }) }
      | P2_M3_UAV_CONFIRM \<Rightarrow> do {
          (r, g) \<leftarrow> gs_handleM3 C L S payload (gn_proto n);
          let n = n\<lparr>gn_proto := g\<rparr>;
          (if \<not> sr_ok r then Some (gn_refuse r uavId n)
           else do {
             bytes \<leftarrow> msg_wireBytes C (sr_reply r);
             let n = gp_put uavId ((gp_at uavId n)\<lparr>gp_success := True, gp_bytesM4 := bytes\<rparr>)
               (n\<lparr>gn_authSuccesses := gn_authSuccesses n + 1\<rparr>);
             out \<leftarrow> gn_send C (sr_reply r) uavId n;
             Some (Emit ''authSuccess'' 1 # out, n) }) }
      | _ \<Rightarrow> Some ([], n))"

text \<open>A stretch of the event loop: the messages the node handles, with their clock readings.\<close>

fun gn_run ::
    "core_lib \<Rightarrow> ossl \<Rightarrow> suite \<Rightarrow> (u32 \<times> sim_message) list \<Rightarrow> gs_node \<Rightarrow> (node_output list \<times> gs_node) option" where
  "gn_run C L S [] n = Some ([], n)"
| "gn_run C L S ((t, msg) # ms) n = do {
     (out, n) \<leftarrow> gn_handleMessage C L S t msg n;
     (outs, n) \<leftarrow> gn_run C L S ms n;
     Some (out @ outs, n) }"

subsection \<open>The replay cache of the node\<close>

text \<open>Every message offers at most one nonce.\<close>

lemma gs_respond_replay:
  "gs_respond C L S m1 now rec tid n1 epkA t1 authKey input1 rng g = Some (r, rng', g') \<Longrightarrow>
   gs_replay g' = gs_replay g"
  by (auto simp: gs_respond_def Let_def Option.bind_eq_Some_conv)

lemma gs_package_replay:
  "gs_package C S m3 tid rec s g = Some (r, g') \<Longrightarrow> gs_replay g' = gs_replay g"
  by (auto simp: gs_package_def Let_def split_beta Option.bind_eq_Some_conv split: if_splits)

lemma gs_handleM3_replay:
  assumes "gs_handleM3 C L S m3 g = Some (r, g')"
  shows "gs_replay g' = gs_replay g"
proof (cases "m_type m3 = P2_M3_UAV_CONFIRM \<and> msg_has m3 TID \<and> msg_has m3 MAC_TAG")
  case True
  then obtain tid where tid: "msg_get m3 TID = Some tid" by (auto simp: msg_get_has)
  show ?thesis
  proof (cases "findByTid tid g")
    case None
    with True tid assms show ?thesis by (simp add: gs_handleM3_def)
  next
    case (Some rec)
    note rec = this
    show ?thesis
    proof (cases "om_find (gs_sessions g) (dr_uavId rec)")
      case None
      with True tid rec assms show ?thesis by (simp add: gs_handleM3_def)
    next
      case (Some s)
      with True tid rec assms show ?thesis
        by (auto simp: gs_handleM3_def Let_def split_beta gs_put_session_def Option.bind_eq_Some_conv
            split: if_splits dest!: gs_package_replay)
    qed
  qed
next
  case False
  with assms show ?thesis by (auto simp: gs_handleM3_def split: if_splits)
qed

lemma gs_handleM1_replay:
  assumes "gs_handleM1 C L S m1 now rng g = Some (r, rng', g')"
  shows "\<exists>ns. length ns \<le> 1 \<and> gs_replay g' = snd (rc_run ns (gs_replay g))"
proof (cases rule: gs_handleM1_cases [OF assms])
  case 1
  then show ?thesis
    by (auto simp: gs_offered_def split_beta intro: exI [of _ "[]"] exI [of _ "[_]"])
next
  case (2 rec tid n1 epkA ts t1 authKey input1)
  then show ?thesis
    by (auto dest!: gs_respond_replay simp: gs_offered_def split_beta intro: exI [of _ "[n1]"])
qed

lemma gn_handleMessage_M1:
  assumes "m_type (sm_payload msg) = P2_M1_AUTH_REQUEST"
    and "gs_handleM1 C L S (sm_payload msg) t (gn_rng n) (gn_proto n) = Some (r, rng, g)"
    and "gn_handleMessage C L S t msg n = Some (out, n')"
  shows "gn_proto n' = g" "gn_authSuccesses n' = gn_authSuccesses n" "gn_authAttempts n' = gn_authAttempts n + 1"
    "transmissions out = (if sr_ok r
      then [(sim_message (sr_reply r), uav_module (gn_numUavs n) (m_senderId (sm_payload msg)))] else [])"
  using assms
  by (auto simp: gn_handleMessage_def Let_def gn_refuse_def gp_put_def gn_send_def
      Option.bind_eq_Some_conv split: if_splits)

lemma gn_handleMessage_M3:
  assumes "m_type (sm_payload msg) = P2_M3_UAV_CONFIRM"
    and "gs_handleM3 C L S (sm_payload msg) (gn_proto n) = Some (r, g)"
    and "gn_handleMessage C L S t msg n = Some (out, n')"
  shows "gn_proto n' = g"
    "gn_authSuccesses n' = (if sr_ok r then gn_authSuccesses n + 1 else gn_authSuccesses n)"
    "transmissions out = (if sr_ok r
      then [(sim_message (sr_reply r), uav_module (gn_numUavs n) (m_senderId (sm_payload msg)))] else [])"
  using assms
  by (auto simp: gn_handleMessage_def Let_def gn_refuse_def gp_put_def gn_send_def
      Option.bind_eq_Some_conv split: if_splits)

lemma gn_handleMessage_cases:
  assumes "gn_handleMessage C L S t msg n = Some (out, n')"
  obtains (M1) r rng g where "m_type (sm_payload msg) = P2_M1_AUTH_REQUEST"
      "gs_handleM1 C L S (sm_payload msg) t (gn_rng n) (gn_proto n) = Some (r, rng, g)"
  | (M3) r g where "m_type (sm_payload msg) = P2_M3_UAV_CONFIRM"
      "gs_handleM3 C L S (sm_payload msg) (gn_proto n) = Some (r, g)"
  | (ignored) "m_type (sm_payload msg) \<notin> {P2_M1_AUTH_REQUEST, P2_M3_UAV_CONFIRM}" "n' = n" "out = []"
  using assms
  by (cases "m_type (sm_payload msg)")
    (auto simp: gn_handleMessage_def Let_def Option.bind_eq_Some_conv)

lemma gn_handleMessage_replay:
  assumes "gn_handleMessage C L S t msg n = Some (out, n')"
  shows "\<exists>ns. length ns \<le> 1 \<and> gs_replay (gn_proto n') = snd (rc_run ns (gs_replay (gn_proto n)))"
proof (cases rule: gn_handleMessage_cases [OF assms])
  case (1 r rng g)
  with gs_handleM1_replay [OF 1(2)] gn_handleMessage_M1(1) [OF 1 assms] show ?thesis by simp
next
  case (2 r g)
  with gs_handleM3_replay [OF 2(2)] gn_handleMessage_M3(1) [OF 2 assms] show ?thesis
    by (auto intro: exI [of _ "[]"])
next
  case 3
  then show ?thesis by (auto intro: exI [of _ "[]"])
qed

lemma gn_run_replay:
  "gn_run C L S ms n = Some (outs, n') \<Longrightarrow>
   \<exists>ns. length ns \<le> length ms \<and> gs_replay (gn_proto n') = snd (rc_run ns (gs_replay (gn_proto n)))"
proof (induction ms arbitrary: n outs)
  case Nil
  then show ?case by (auto intro: exI [of _ "[]"])
next
  case (Cons m ms)
  obtain t msg where m: "m = (t, msg)" by (cases m)
  obtain out n1 outs1 where step: "gn_handleMessage C L S t msg n = Some (out, n1)"
    and rest: "gn_run C L S ms n1 = Some (outs1, n')"
    using Cons.prems m by (auto simp: Option.bind_eq_Some_conv)
  obtain ns1 where "length ns1 \<le> 1" "gs_replay (gn_proto n1) = snd (rc_run ns1 (gs_replay (gn_proto n)))"
    using gn_handleMessage_replay [OF step] by blast
  moreover obtain ns2 where "length ns2 \<le> length ms"
    "gs_replay (gn_proto n') = snd (rc_run ns2 (gs_replay (gn_proto n1)))"
    using Cons.IH [OF rest] by blast
  ultimately show ?case by (intro exI [of _ "ns1 @ ns2"]) (simp add: rc_run_append)
qed

text \<open>A message whose nonce is in the cache.\<close>

lemma gn_handleMessage_seen:
  assumes "m_type (sm_payload msg) = P2_M1_AUTH_REQUEST" "msg_get (sm_payload msg) NONCE_1 = Some n1"
    and "n1 \<in> rc_seen (gs_replay (gn_proto n))" "gn_handleMessage C L S t msg n = Some (out, n')"
  shows "transmissions out = []" "gn_authSuccesses n' = gn_authSuccesses n"
    "gs_sessions (gn_proto n') = gs_sessions (gn_proto n)" "gs_devices (gn_proto n') = gs_devices (gn_proto n)"
proof -
  obtain r rng g where h: "gs_handleM1 C L S (sm_payload msg) t (gn_rng n) (gn_proto n) = Some (r, rng, g)"
    using assms(1) by (cases rule: gn_handleMessage_cases [OF assms(4)]) auto
  have "\<not> sr_ok r \<and> gs_sessions g = gs_sessions (gn_proto n) \<and> gs_devices g = gs_devices (gn_proto n)"
    using assms(2,3)
    by (cases rule: gs_handleM1_cases [OF h]) (auto simp: gs_offered_def M1_checks)
  with gn_handleMessage_M1 [OF assms(1) h assms(4)] show "transmissions out = []"
    "gn_authSuccesses n' = gn_authSuccesses n"
    "gs_sessions (gn_proto n') = gs_sessions (gn_proto n)" "gs_devices (gn_proto n') = gs_devices (gn_proto n)"
    by simp_all
qed

end
