(* ===== verification/Gs_Accounting.thy ===== *)
theory Gs_Accounting
  imports Gs_Node Phase2
begin

text \<open>
  The books of the ground station node: every M4 it sends is paid for by an M2 of its own, which
  bounds the successes it reports by the attempts it saw, whatever arrives in whatever order.
\<close>

subsection \<open>Open sessions\<close>

text \<open>The devices whose session still has its ephemeral scalar: M2 sent, M3 not accepted yet.\<close>

definition open_sessions :: "gs \<Rightarrow> int set" where
  "open_sessions g = {i. \<exists>s. om_find (gs_sessions g) i = Some s \<and> \<not> g2_ephemeralErased s}"

lemma finite_open [simp]: "finite (open_sessions g)"
proof (rule finite_subset)
  show "open_sessions g \<subseteq> fst ` set (gs_sessions g)"
    by (auto simp: open_sessions_def dest!: map_of_SomeD) force
qed simp

lemma open_sessions_frame [simp]:
  "open_sessions (g\<lparr>gs_devices := d\<rparr>) = open_sessions g" "open_sessions (gs_offered n1 g) = open_sessions g"
  by (simp_all add: open_sessions_def gs_offered_def)

lemma open_sessions_put:
  "open_sessions (g\<lparr>gs_sessions := om_set i s (gs_sessions g)\<rparr>) =
   (if g2_ephemeralErased s then open_sessions g - {i} else insert i (open_sessions g))"
  by (auto simp: open_sessions_def)

lemma card_open_put:
  "\<not> g2_ephemeralErased s \<Longrightarrow>
   card (open_sessions (g\<lparr>gs_sessions := om_set i s (gs_sessions g)\<rparr>)) \<le> Suc (card (open_sessions g))"
  by (simp add: open_sessions_put card_insert_le_m1 card_insert_if)

lemma card_open_close:
  "g2_ephemeralErased s \<Longrightarrow> i \<in> open_sessions g \<Longrightarrow>
   Suc (card (open_sessions (g\<lparr>gs_sessions := om_set i s (gs_sessions g)\<rparr>))) = card (open_sessions g)"
  by (simp only: open_sessions_put if_True card_Suc_Diff1 finite_open)

subsection \<open>One message\<close>

definition sent :: "message_type \<Rightarrow> node_output list \<Rightarrow> nat" where
  "sent t out = length (filter (\<lambda>(m, d). m_type (sm_payload m) = t) (transmissions out))"

lemma sent_simps [simp]:
  "sent t [] = 0" "sent t (out @ out') = sent t out + sent t out'"
  "transmissions out = [] \<Longrightarrow> sent t out = 0"
  "transmissions out = [(sim_message m, d)] \<Longrightarrow> sent t out = (if m_type m = t then 1 else 0)"
  by (simp_all add: sent_def)

text \<open>What a node that satisfies the invariant of its protocol object adds to its books.\<close>

definition gn_ok :: "ossl \<Rightarrow> gs_node \<Rightarrow> bool" where
  "gn_ok L n \<longleftrightarrow> gs_inv (gn_proto n) \<and> drbg_ok L (gn_rng n)"

definition balanced :: "node_output list \<Rightarrow> gs_node \<Rightarrow> gs_node \<Rightarrow> bool" where
  "balanced out n n' \<longleftrightarrow>
     sent P2_M4_GS_CONFIRM out + card (open_sessions (gn_proto n')) \<le>
       sent P2_M2_GS_RESPONSE out + card (open_sessions (gn_proto n)) \<and>
     gn_authSuccesses n' = gn_authSuccesses n + int (sent P2_M4_GS_CONFIRM out) \<and>
     gn_authAttempts n + int (sent P2_M2_GS_RESPONSE out) \<le> gn_authAttempts n'"

lemma balanced_refl [simp]: "balanced [] n n"
  by (simp add: balanced_def)

lemma balanced_trans: "balanced out n n1 \<Longrightarrow> balanced outs n1 n2 \<Longrightarrow> balanced (out @ outs) n n2"
  by (auto simp: balanced_def)

context protocol_env
begin

lemma gs_handleM1_open:
  assumes "gs_inv g" "drbg_ok L rng" "gs_handleM1 C L S m1 now rng g = Some (r, rng', g')"
  shows "if sr_ok r then m_type (sr_reply r) = P2_M2_GS_RESPONSE \<and>
      card (open_sessions g') \<le> Suc (card (open_sessions g)) else open_sessions g' = open_sessions g"
proof (cases rule: gs_handleM1_cases [OF assms(3)])
  case 1
  then show ?thesis by auto
next
  case (2 rec tid n1 epkA ts t1 authKey input1)
  note f = M1_accepted_facts [OF 2(1) assms(1)]
  from gs_respond_result [OF f(1-4) assms(2), of m1 now] obtain n2 eph rng1 input2 tag where
    r: "\<And>rec t1 input1 g. gs_respond C L S m1 now rec tid n1 epkA t1 authKey input1 rng g = Some
       (done_reply (msg_set MAC_TAG tag (M2_body C (m_suiteId m1) (dr_uavId rec) n2 now (kp_public eph))),
        rng1, g\<lparr>gs_sessions := om_set (dr_uavId rec)
          (gs_session (dr_uavId rec) authKey n1 t1 epkA n2 now eph (input1 @ input2)) (gs_sessions g)\<rparr>)"
    by metis
  have "\<not> g2_ephemeralErased (gs_session (dr_uavId rec) authKey n1 t1 epkA n2 now eph (input1 @ input2))"
    by (simp add: gs_session_def)
  from card_open_put [OF this, of "dr_uavId rec" "gs_offered n1 g"] r [of rec t1 input1 "gs_offered n1 g"] 2(2)
  show ?thesis by auto
qed

lemma gs_handleM3_open:
  assumes "gs_inv g" "gs_handleM3 C L S m3 g = Some (r, g')"
  shows "if sr_ok r then m_type (sr_reply r) = P2_M4_GS_CONFIRM \<and>
      Suc (card (open_sessions g')) = card (open_sessions g) else open_sessions g' = open_sessions g"
proof (cases "\<exists>rec tid s. M3_accepted C S m3 g rec tid s")
  case False
  with gs_handleM3_refused [OF assms(1), of m3] assms(2) show ?thesis by fastforce
next
  case True
  then obtain rec tid s where a: "M3_accepted C S m3 g rec tid s" by blast
  obtain ok z where dh: "x25519Derive L (kp_secret (g2_ephemeral s)) (g2_epkA s) = (ok, z)" by fastforce
  have s: "om_find (gs_sessions g) (dr_uavId rec) = Some s" using a by (simp add: M3_accepted_def)
  then have so: "session_ok (gs_devices g) (dr_uavId rec) s" using assms(1) by (simp add: gs_inv_def)
  show ?thesis
  proof (cases ok)
    case False
    with gs_handleM3_no_dh [OF a] dh assms(2)
    have r: "r = fail DhFailed" "g' = gs_put_session (s\<lparr>g2_m3Verified := True\<rparr>) (dr_uavId rec) g"
      by simp_all
    have "open_sessions g' = open_sessions g"
      using s by (auto simp: r gs_put_session_def open_sessions_def)
    with r show ?thesis by simp
  next
    case True
    with dh have d: "x25519Derive L (kp_secret (g2_ephemeral s)) (g2_epkA s) = (True, z)" by simp
    then have "\<not> g2_ephemeralErased s" using so by (auto simp: session_ok_def)
    then have o: "dr_uavId rec \<in> open_sessions g" using s by (simp add: open_sessions_def)
    obtain k tidNew msg where h: "r = done_reply msg" "m_type msg = P2_M4_GS_CONFIRM"
      "g' = g\<lparr>gs_sessions := om_set (dr_uavId rec) (gs_session_keyed k s) (gs_sessions g),
         gs_devices := om_set (dr_uavId rec) (rec\<lparr>dr_pendingTid := tidNew\<rparr>) (gs_devices g)\<rparr>"
      by (rule gs_handleM3_completes [OF a assms(1) d]) (use assms(2) that in \<open>auto simp: M4_message_def msg_set_def\<close>)
    have "g2_ephemeralErased (gs_session_keyed k s)" by (simp add: gs_session_keyed_def)
    from card_open_close [OF this o] h show ?thesis by simp
  qed
qed

lemma gn_step_balanced:
  assumes "gn_ok L n" "gn_handleMessage C L S t msg n = Some (out, n')"
  shows "gn_ok L n' \<and> balanced out n n'"
proof (cases rule: gn_handleMessage_cases [OF assms(2)])
  case (1 r rng g)
  have i: "gs_inv (gn_proto n)" "drbg_ok L (gn_rng n)" using assms(1) by (simp_all add: gn_ok_def)
  have "gs_inv g" "drbg_ok L rng" using gs_handleM1_total [OF i, of "sm_payload msg" t] 1(2) by auto
  moreover have "gn_rng n' = rng"
    using 1 assms(2) by (auto simp: gn_handleMessage_def Let_def gn_refuse_def gp_put_def
        Option.bind_eq_Some_conv split: if_splits)
  ultimately show ?thesis
    using gs_handleM1_open [OF i 1(2)] gn_handleMessage_M1 [OF 1 assms(2)]
    by (cases "sr_ok r") (auto simp: gn_ok_def balanced_def)
next
  case (2 r g)
  have i: "gs_inv (gn_proto n)" using assms(1) by (simp add: gn_ok_def)
  have "gs_inv g" using gs_handleM3_total [OF i, of "sm_payload msg"] 2(2) by auto
  moreover have "gn_rng n' = gn_rng n \<and> gn_authAttempts n' = gn_authAttempts n"
    using 2 assms(2) by (auto simp: gn_handleMessage_def Let_def gn_refuse_def gp_put_def
        Option.bind_eq_Some_conv split: if_splits)
  ultimately show ?thesis
    using gs_handleM3_open [OF i 2(2)] gn_handleMessage_M3 [OF 2 assms(2)] assms(1)
    by (cases "sr_ok r") (auto simp: gn_ok_def balanced_def)
next
  case 3
  with assms(1) show ?thesis by simp
qed

lemma gn_run_balanced:
  "gn_ok L n \<Longrightarrow> gn_run C L S ms n = Some (outs, n') \<Longrightarrow> gn_ok L n' \<and> balanced outs n n'"
proof (induction ms arbitrary: n outs)
  case (Cons x ms)
  obtain t msg where x: "x = (t, msg)" by (cases x)
  obtain out n1 outs1 where s: "gn_handleMessage C L S t msg n = Some (out, n1)"
    "gn_run C L S ms n1 = Some (outs1, n')" "outs = out @ outs1"
    using Cons.prems(2) x by (auto simp: Option.bind_eq_Some_conv)
  from gn_step_balanced [OF Cons.prems(1) s(1)] Cons.IH [OF _ s(2)] s(3) balanced_trans
  show ?case by blast
qed simp

end

text \<open>The node of the demonstration answers its first M1.\<close>

lemma demo_gs_node:
  obtains n m1 m2 b n1 nonce where "gs_reach ref_core ref_ossl demo_suite fe_default 5000 (gn_proto n) (gn_rng n)"
    "m_type m1 = P2_M1_AUTH_REQUEST" "m_type m2 = P2_M2_GS_RESPONSE"
    "gn_handleMessage ref_core ref_ossl demo_suite 130 (sim_message m1) n =
       Some ([Emit ''commOverhead'' (int b), Transmit (sim_message m2) (uav_module 2 (m_senderId m1))], n1)"
    "gn_authAttempts n = 0" "gn_authSuccesses n = 0"
    "msg_get m1 NONCE_1 = Some nonce" "nonce \<notin> rc_seen (gs_replay (gn_proto n))"
    "gs_replay (gn_proto n1) = snd (rc_offer nonce (gs_replay (gn_proto n)))"
    "gs_inv (gn_proto n1)" "drbg_ok ref_ossl (gn_rng n1)"
proof (rule demo_half)
  fix rec g grng urng u ak n1 n2 eph eph2 input1 input2 tag2 u1 g2 m1 m2 urng' grng'
  assume h: "gs_reach ref_core ref_ossl demo_suite fe_default 5000 g grng"
    "gs_handleM1 ref_core ref_ossl demo_suite m1 130 grng g = Some (done_reply m2, grng', g2)"
    "M2_under_way ref_core ref_ossl demo_suite 100 130 u g rec ak n1 n2 eph eph2 input1 input2 tag2 u1 g2 m2"
    "drbg_ok ref_ossl grng'"
  let ?n = "\<lparr>gn_numUavs = 2, gn_rng = grng, gn_proto = g, gn_phase1 = [], gn_phase2 = [],
    gn_authAttempts = 0, gn_authSuccesses = 0\<rparr>"
  have "length tag2 = 16" using h(3) ref_env.sha3.mac_len by (auto simp: M2_under_way_def)
  then have "short (m_fields m2)"
    using h(3) ref_proto.short_encodings
    by (simp add: M2_under_way_def M2_body_def msg_set_def emptyMessage_def short_upd)
  then obtain b where b: "msg_wireBytes ref_core m2 = Some b" using ref.wireBytes_short by blast
  obtain nonce where m1: "m_type m1 = P2_M1_AUTH_REQUEST" "msg_get m1 NONCE_1 = Some nonce"
    "nonce \<notin> rc_seen (gs_replay g)" "gs_replay g2 = snd (rc_offer nonce (gs_replay g))"
    by (cases rule: gs_handleM1_cases [OF h(2)]) (auto simp: M1_checks gs_offered_def dest!: gs_respond_replay)
  define n1 where "n1 = snd (the (gn_handleMessage ref_core ref_ossl demo_suite 130 (sim_message m1) ?n))"
  have step: "gn_handleMessage ref_core ref_ossl demo_suite 130 (sim_message m1) ?n =
      Some ([Emit ''commOverhead'' (int b), Transmit (sim_message m2) (uav_module 2 (m_senderId m1))], n1)"
    "gn_proto n1 = g2" "gn_rng n1 = grng'"
    using h(2) m1(1) b by (simp_all add: n1_def gn_handleMessage_def gn_send_def gp_put_def Let_def)
  note mid = h(3) [unfolded M2_under_way_def]
  have m2: "m_type m2 = P2_M2_GS_RESPONSE" using mid by simp
  have "gs_inv g2" using mid by blast
  note m2 = m2 this
  show thesis by (rule that [of ?n m1 m2 b n1 nonce]) (use h(1,4) m1 m2 step in simp_all)
qed

subsection \<open>Property\<close>

text \<open>C19. The books of the ground station node balance.  From any reachable state and over any sequence
  of messages, honest or forged, every M4 it sends and every success it counts is paid for by an M2 of its
  own: the sessions still open plus the M4 sent never exceed the M2 sent plus the sessions open at
  the start, the successes counted are exactly the M4 sent, and every M2 sent was counted as an
  attempt.  So a node that started without open sessions never reports more successes than
  attempts.\<close>

theorem gs_node_books_balance:
  assumes "core_laws C" and "ossl_laws L" and "crypto_suite S"
    and "8 \<le> fp_keyBits p" and "fp_keyBits p \<le> 65280"
    and "gs_reach C L S p w (gn_proto n) (gn_rng n)" and "gn_run C L S ms n = Some (outs, n')"
  shows "sent P2_M4_GS_CONFIRM outs + card (open_sessions (gn_proto n')) \<le>
      sent P2_M2_GS_RESPONSE outs + card (open_sessions (gn_proto n)) \<and>
    gn_authSuccesses n' = gn_authSuccesses n + int (sent P2_M4_GS_CONFIRM outs) \<and>
    gn_authAttempts n + int (sent P2_M2_GS_RESPONSE outs) \<le> gn_authAttempts n' \<and>
    (open_sessions (gn_proto n) = {} \<and> gn_authSuccesses n \<le> gn_authAttempts n \<longrightarrow>
      gn_authSuccesses n' \<le> gn_authAttempts n')"
proof -
  note env = protocol_envI [OF assms(1-3)]
  have "gn_ok L n" using gs_reach_inv [OF env assms(4-6)] by (simp add: gn_ok_def)
  from protocol_env.gn_run_balanced [OF env this assms(7)] show ?thesis
    by (auto simp: balanced_def)
qed

theorem gs_node_books_balance_witness:
  "\<exists>n ms outs n'. gn_run ref_core ref_ossl demo_suite ms n = Some (outs, n') \<and>
     sent P2_M2_GS_RESPONSE outs = 1 \<and> 1 \<le> gn_authAttempts n' \<and> gn_authSuccesses n' = 0"
proof (rule demo_gs_node)
  fix n :: gs_node and m1 m2 :: message and b :: nat and n1 :: gs_node
  assume h: "gs_reach ref_core ref_ossl demo_suite fe_default 5000 (gn_proto n) (gn_rng n)"
    "m_type m2 = P2_M2_GS_RESPONSE"
    "gn_handleMessage ref_core ref_ossl demo_suite 130 (sim_message m1) n =
       Some ([Emit ''commOverhead'' (int b), Transmit (sim_message m2) (uav_module 2 (m_senderId m1))], n1)"
    "gn_authAttempts n = 0" "gn_authSuccesses n = 0"
  let ?out = "[Emit ''commOverhead'' (int b), Transmit (sim_message m2) (uav_module 2 (m_senderId m1))]"
  have r: "gn_run ref_core ref_ossl demo_suite [(130, sim_message m1)] n = Some (?out, n1)" using h(3) by simp
  have s: "sent P2_M2_GS_RESPONSE ?out = 1" "sent P2_M4_GS_CONFIRM ?out = 0" using h(2) by (simp_all add: sent_def)
  from gs_node_books_balance [OF ref_core_laws refo.ossl_laws_axioms ref_env.sha3.crypto_suite_axioms
      demo_params(2,3) h(1) r] have "gn_authSuccesses n1 = 0" "1 \<le> gn_authAttempts n1"
    by (simp_all only: s h(4,5)) simp_all
  with r s(1) show ?thesis by blast
qed

end
