(* ===== verification/Gs_Node_Safety.thy ===== *)
theory Gs_Node_Safety
  imports Gs_Accounting
begin

text \<open>
  The ground station node under replay: the whole module, over any stretch of its event loop
  shorter than the capacity of the cache.
\<close>

text \<open>What a node does with a nonce it has seen: the handler refuses, for whatever reason comes first,
  and touches nothing but the hit counter of the cache.\<close>

lemma gs_handleM1_seen:
  assumes "gs_handleM1 C L S m1 now rng g = Some (r, rng', g')"
    and "msg_get m1 NONCE_1 = Some n1" "n1 \<in> rc_seen (gs_replay g)"
  shows "\<exists>reason. r = fail reason \<and> rng' = rng \<and>
    g' = (if reason = ReplayedNonce then g\<lparr>gs_replay := (gs_replay g)\<lparr>rc_hits := rc_hits (gs_replay g) + 1\<rparr>\<rparr>
          else g)"
  using assms by (auto simp: gs_handleM1_def rc_offer_def Let_def Option.bind_eq_Some_conv
      split: if_splits option.splits)

lemma gn_handleMessage_replayed:
  assumes "m_type (sm_payload msg) = P2_M1_AUTH_REQUEST" "msg_get (sm_payload msg) NONCE_1 = Some n1"
    and "n1 \<in> rc_seen (gs_replay (gn_proto n))" "gn_handleMessage C L S t msg n = Some (out, n')"
  shows "\<exists>reason. out = [Emit ''authSuccess'' 0] \<and>
    n' = gp_put (m_senderId (sm_payload msg))
      ((gp_at (m_senderId (sm_payload msg)) n)\<lparr>gp_abortReason := abortReasonName reason\<rparr>)
      (n\<lparr>gn_authAttempts := gn_authAttempts n + 1,
         gn_proto := (if reason = ReplayedNonce
           then (gn_proto n)\<lparr>gs_replay := (gs_replay (gn_proto n))\<lparr>rc_hits := rc_hits (gs_replay (gn_proto n)) + 1\<rparr>\<rparr>
           else gn_proto n)\<rparr>)"
proof -
  obtain r rng g where h: "gs_handleM1 C L S (sm_payload msg) t (gn_rng n) (gn_proto n) = Some (r, rng, g)"
    using assms(1) by (cases rule: gn_handleMessage_cases [OF assms(4)]) auto
  from gs_handleM1_seen [OF this assms(2,3)] obtain reason where r: "r = fail reason" "rng = gn_rng n"
    "g = (if reason = ReplayedNonce
      then (gn_proto n)\<lparr>gs_replay := (gs_replay (gn_proto n))\<lparr>rc_hits := rc_hits (gs_replay (gn_proto n)) + 1\<rparr>\<rparr>
      else gn_proto n)"
    by blast
  from assms(1,4) h have "out = [Emit ''authSuccess'' 0]"
    "n' = gp_put (m_senderId (sm_payload msg))
      ((gp_at (m_senderId (sm_payload msg)) n)\<lparr>gp_abortReason := abortReasonName reason\<rparr>)
      (n\<lparr>gn_authAttempts := gn_authAttempts n + 1, gn_rng := gn_rng n, gn_proto := g\<rparr>)"
    by (simp_all add: gn_handleMessage_def gn_refuse_def gp_at_def r(1,2) Let_def)
  then show ?thesis unfolding r(3) by auto
qed

text \<open>C20. A replayed M1 gains nothing.  Once the ground station node has answered an M1, and while it
  has handled fewer than 4096 messages since, of whatever kind and from whomever, a message with
  the same nonce draws no transmission and no success, at any clock reading and with any other
  content.  The node emits a failure, and what changes is exactly this: the counter of attempts
  grows by one, the record of the named sender gets the reason of the refusal, and, when
  the reason is the nonce, the cache counts a hit.  Sessions, devices, generator and the set of
  seen nonces stay as they were.\<close>

theorem gs_node_refuses_replays:
  assumes "core_laws C" and "ossl_laws L" and "crypto_suite S"
    and "gs_inv (gn_proto n)" and "gn_handleMessage C L S t msg n = Some (out, n1)"
    and "m_type (sm_payload msg) = P2_M1_AUTH_REQUEST" and "transmissions out \<noteq> []"
    and "gn_run C L S ms n1 = Some (outs, n2)" and "length ms < 4096"
    and "m_type (sm_payload copy) = P2_M1_AUTH_REQUEST"
    and "msg_get (sm_payload copy) NONCE_1 = msg_get (sm_payload msg) NONCE_1"
    and "gn_handleMessage C L S t' copy n2 = Some (out', n3)"
  shows "transmissions out' = [] \<and> gn_authSuccesses n3 = gn_authSuccesses n2 \<and>
    gs_sessions (gn_proto n3) = gs_sessions (gn_proto n2) \<and> gs_devices (gn_proto n3) = gs_devices (gn_proto n2) \<and>
    out' = [Emit ''authSuccess'' 0] \<and>
    (\<exists>reason. n3 = gp_put (m_senderId (sm_payload copy))
      ((gp_at (m_senderId (sm_payload copy)) n2)\<lparr>gp_abortReason := abortReasonName reason\<rparr>)
      (n2\<lparr>gn_authAttempts := gn_authAttempts n2 + 1,
         gn_proto := (if reason = ReplayedNonce
           then (gn_proto n2)\<lparr>gs_replay := (gs_replay (gn_proto n2))\<lparr>rc_hits := rc_hits (gs_replay (gn_proto n2)) + 1\<rparr>\<rparr>
           else gn_proto n2)\<rparr>))"
proof -
  obtain r rng g where h: "gs_handleM1 C L S (sm_payload msg) t (gn_rng n) (gn_proto n) = Some (r, rng, g)"
    using assms(6) by (cases rule: gn_handleMessage_cases [OF assms(5)]) auto
  note m1 = gn_handleMessage_M1 [OF assms(6) h assms(5)]
  have "sr_ok r" using m1(4) assms(7) by (cases "sr_ok r") auto
  with h obtain n1' where n: "msg_get (sm_payload msg) NONCE_1 = Some n1'" "n1' \<notin> rc_seen (gs_replay (gn_proto n))"
    "gs_replay g = snd (rc_offer n1' (gs_replay (gn_proto n)))"
    by (cases rule: gs_handleM1_cases [OF h]) (auto simp: M1_checks gs_offered_def dest!: gs_respond_replay)
  obtain ns where ns: "length ns \<le> length ms" "gs_replay (gn_proto n2) = snd (rc_run ns (gs_replay g))"
    using gn_run_replay [OF assms(8)] m1(1) by auto
  have "rc_inv (gs_replay (gn_proto n))" "rc_capacity (gs_replay (gn_proto n)) = 4096"
    using assms(4) by (simp_all add: gs_inv_def kReplayCapacity_def)
  then have "n1' \<in> rc_seen (gs_replay (gn_proto n2))"
    using rc_offer_kept [of "gs_replay (gn_proto n)" n1' ns] n ns assms(9) by simp
  moreover have "msg_get (sm_payload copy) NONCE_1 = Some n1'" using n(1) assms(11) by simp
  ultimately show ?thesis
    using gn_handleMessage_seen [OF assms(10) _ _ assms(12)] gn_handleMessage_replayed [OF assms(10) _ _ assms(12)]
    by blast
qed

theorem gs_node_refuses_replays_witness:
  "\<exists>n m1 out n1 out' n2. gn_handleMessage ref_core ref_ossl demo_suite 130 (sim_message m1) n = Some (out, n1) \<and>
     transmissions out \<noteq> [] \<and>
     gn_handleMessage ref_core ref_ossl demo_suite 140 (sim_message m1) n1 = Some (out', n2) \<and>
     transmissions out' = []"
proof (rule demo_gs_node)
  fix n :: gs_node and m1 m2 :: message and b :: nat and n1 :: gs_node and nonce
  let ?out = "[Emit ''commOverhead'' (int b), Transmit (sim_message m2) (uav_module 2 (m_senderId m1))]"
  assume h: "gs_reach ref_core ref_ossl demo_suite fe_default 5000 (gn_proto n) (gn_rng n)"
    and m1: "m_type m1 = P2_M1_AUTH_REQUEST" "msg_get m1 NONCE_1 = Some nonce"
      "nonce \<notin> rc_seen (gs_replay (gn_proto n))"
      "gs_replay (gn_proto n1) = snd (rc_offer nonce (gs_replay (gn_proto n)))"
    and step: "gn_handleMessage ref_core ref_ossl demo_suite 130 (sim_message m1) n = Some (?out, n1)"
    and inv2: "gs_inv (gn_proto n1)" "drbg_ok ref_ossl (gn_rng n1)"
  have inv: "gs_inv (gn_proto n)"
    using gs_reach_inv [OF ref_proto.protocol_env_axioms demo_params(2,3) h] by simp
  then have seen: "nonce \<in> rc_seen (gs_replay (gn_proto n1))"
    using m1(3,4) rc_offer_kept [of "gs_replay (gn_proto n)" nonce "[]"]
    by (simp add: gs_inv_def kReplayCapacity_def)
  obtain r rng3 g3 where r: "gs_handleM1 ref_core ref_ossl demo_suite m1 140 (gn_rng n1) (gn_proto n1) = Some (r, rng3, g3)"
    using ref_proto.gs_handleM1_total [OF inv2, of m1 140] by auto
  have "\<not> sr_ok r" by (cases rule: gs_handleM1_cases [OF r]) (use seen m1(2) in \<open>auto simp: M1_checks\<close>)
  then obtain out' n2 where again: "gn_handleMessage ref_core ref_ossl demo_suite 140 (sim_message m1) n1 = Some (out', n2)"
    using r m1(1) by (simp add: gn_handleMessage_def Let_def gn_refuse_def)
  have "transmissions out' = []"
    using gs_node_refuses_replays [OF ref_core_laws refo.ossl_laws_axioms ref_env.sha3.crypto_suite_axioms
        inv step _ _ _ _ _ _ again, of "[]" "[]"] m1(1) by simp
  with step again show ?thesis by fastforce
qed

end
