(* ===== verification/Uav_Node.thy ===== *)
theory Uav_Node
  imports Medium Uav
begin

text \<open>
  \<open>nodes/UavNode.h\<close>, \<open>nodes/UavNode.cc\<close>: the simulation module around \<open>UavProtocol\<close>, with its
  records of Phase 2 and, per peer, of Phase 3.  A handler returns the node and its outputs.  The
  simulation time and the millisecond reading taken from it are arguments; latencies are kept in
  ticks (the conversion to milliseconds is arithmetic on \<open>double\<close>) and the other timing members of the
  records are clock readings and not modelled.
\<close>

record u_phase2_record =
  up_success :: bool
  up_latency :: simtime
  up_bytesM1 :: nat
  up_bytesM2 :: nat
  up_bytesM3 :: nat
  up_bytesM4 :: nat
  up_overheadBytes :: nat
  up_abortReason :: string
  up_ephemeralErased :: bool

definition up_empty :: u_phase2_record where
  "up_empty = \<lparr>up_success = False, up_latency = 0, up_bytesM1 = 0, up_bytesM2 = 0, up_bytesM3 = 0,
     up_bytesM4 = 0, up_overheadBytes = 0, up_abortReason = ''none'', up_ephemeralErased = False\<rparr>"

record u_phase3_record =
  uq_success :: bool
  uq_initiator :: bool
  uq_latency :: simtime
  uq_overheadBytes :: nat
  uq_abortReason :: string

definition uq_empty :: u_phase3_record where
  "uq_empty = \<lparr>uq_success = False, uq_initiator = False, uq_latency = 0, uq_overheadBytes = 0,
     uq_abortReason = ''none''\<rparr>"

record uav_node =
  un_uavId :: int
  un_numUavs :: int
  un_fullMesh :: bool
  un_peerAuthStart :: simtime
  un_rng :: drbg
  un_proto :: uav
  un_phase2Start :: simtime
  un_phase3Start :: "(int, simtime) omap"
  un_phase2 :: u_phase2_record
  un_phase3 :: "(int, u_phase3_record) omap"

definition uav_node_new :: "int \<Rightarrow> int \<Rightarrow> bool \<Rightarrow> simtime \<Rightarrow> drbg \<Rightarrow> uav \<Rightarrow> uav_node" where
  "uav_node_new uavId numUavs fullMesh peerStart rng proto =
     \<lparr>un_uavId = uavId, un_numUavs = numUavs, un_fullMesh = fullMesh, un_peerAuthStart = peerStart,
      un_rng = rng, un_proto = proto, un_phase2Start = 0, un_phase3Start = [], un_phase2 = up_empty,
      un_phase3 = []\<rparr>"

text \<open>\<open>phase3_[peer]\<close> and \<open>phase3Start_[peer]\<close>, which create the entry.\<close>

definition uq_at :: "int \<Rightarrow> uav_node \<Rightarrow> u_phase3_record" where
  "uq_at peer n = (case om_find (un_phase3 n) peer of None \<Rightarrow> uq_empty | Some r \<Rightarrow> r)"

definition uq_upd :: "int \<Rightarrow> (u_phase3_record \<Rightarrow> u_phase3_record) \<Rightarrow> uav_node \<Rightarrow> uav_node" where
  "uq_upd peer f n = n\<lparr>un_phase3 := om_set peer (f (uq_at peer n)) (un_phase3 n)\<rparr>"

definition us_at :: "int \<Rightarrow> uav_node \<Rightarrow> simtime" where
  "us_at peer n = (case om_find (un_phase3Start n) peer of None \<Rightarrow> 0 | Some t \<Rightarrow> t)"

definition us_put :: "int \<Rightarrow> simtime \<Rightarrow> uav_node \<Rightarrow> uav_node" where
  "us_put peer t n = n\<lparr>un_phase3Start := om_set peer t (un_phase3Start n)\<rparr>"

definition up_upd :: "(u_phase2_record \<Rightarrow> u_phase2_record) \<Rightarrow> uav_node \<Rightarrow> uav_node" where
  "up_upd f n = n\<lparr>un_phase2 := f (un_phase2 n)\<rparr>"

definition up_abort :: "step_result \<Rightarrow> uav_node \<Rightarrow> uav_node" where
  "up_abort r = up_upd (\<lambda>p. p\<lparr>up_abortReason := abortReasonName (sr_abort r)\<rparr>)"

definition uq_abort :: "int \<Rightarrow> step_result \<Rightarrow> uav_node \<Rightarrow> uav_node" where
  "uq_abort peer r = uq_upd peer (\<lambda>q. q\<lparr>uq_abortReason := abortReasonName (sr_abort r)\<rparr>)"

definition uq_heard :: "int \<Rightarrow> nat \<Rightarrow> uav_node \<Rightarrow> uav_node" where
  "uq_heard peer bytes = uq_upd peer (\<lambda>q. q\<lparr>uq_overheadBytes := uq_overheadBytes q + bytes\<rparr>)"

text \<open>A completed Phase 3: the record, its latency and the statistic.\<close>

definition uq_complete :: "int \<Rightarrow> simtime \<Rightarrow> uav_node \<Rightarrow> node_output list \<times> uav_node" where
  "uq_complete peer t n = ([Emit ''peerAuthLatency'' (t - us_at peer n)],
     uq_upd peer (\<lambda>q. q\<lparr>uq_success := True, uq_latency := t - us_at peer n\<rparr>) n)"

subsection \<open>Sending\<close>

definition un_sendToGs :: "core_lib \<Rightarrow> message \<Rightarrow> uav_node \<Rightarrow> (node_output list \<times> uav_node) option" where
  "un_sendToGs C payload n = do {
     bytes \<leftarrow> msg_wireBytes C payload;
     Some ([Emit ''commOverhead'' (int bytes), Transmit (sim_message payload) (Some GroundStation)],
           up_upd (\<lambda>p. p\<lparr>up_overheadBytes := up_overheadBytes p + bytes\<rparr>) n) }"

definition un_sendToPeer ::
    "core_lib \<Rightarrow> int \<Rightarrow> message \<Rightarrow> uav_node \<Rightarrow> (node_output list \<times> uav_node) option" where
  "un_sendToPeer C peer payload n = (case uav_module (un_numUavs n) peer of
     None \<Rightarrow> Some ([], n)
   | Some dest \<Rightarrow> do {
       bytes \<leftarrow> msg_wireBytes C payload;
       Some ([Emit ''commOverhead'' (int bytes), Transmit (sim_message payload) (Some dest)],
             uq_heard peer bytes n) })"

subsection \<open>Self messages\<close>

text \<open>One turn of the loop of \<open>startPhase3Round\<close>.\<close>

definition un_startPhase3 ::
    "core_lib \<Rightarrow> ossl \<Rightarrow> suite \<Rightarrow> simtime \<Rightarrow> u32 \<Rightarrow> int \<Rightarrow> uav_node \<Rightarrow> (node_output list \<times> uav_node) option" where
  "un_startPhase3 C L S t nowMs peer n = do {
     (r, rng, u) \<leftarrow> startPhase3 C L S peer nowMs (un_rng n) (un_proto n);
     let n = uq_upd peer (\<lambda>q. q\<lparr>uq_initiator := True\<rparr>) (n\<lparr>un_rng := rng, un_proto := u\<rparr>);
     (if \<not> sr_ok r then Some ([], uq_abort peer r n)
      else un_sendToPeer C peer (sr_reply r) (us_put peer t n)) }"

fun un_round ::
    "core_lib \<Rightarrow> ossl \<Rightarrow> suite \<Rightarrow> simtime \<Rightarrow> u32 \<Rightarrow> int list \<Rightarrow> uav_node \<Rightarrow> (node_output list \<times> uav_node) option" where
  "un_round C L S t nowMs [] n = Some ([], n)"
| "un_round C L S t nowMs (peer # peers) n = do {
     (out, n) \<leftarrow> un_startPhase3 C L S t nowMs peer n;
     (outs, n) \<leftarrow> un_round C L S t nowMs peers n;
     Some (out @ outs, n) }"

definition un_startPhase3Round ::
    "core_lib \<Rightarrow> ossl \<Rightarrow> suite \<Rightarrow> simtime \<Rightarrow> u32 \<Rightarrow> uav_node \<Rightarrow> (node_output list \<times> uav_node) option" where
  "un_startPhase3Round C L S t nowMs n =
     (if \<not> un_fullMesh n then Some ([], n)
      else un_round C L S t nowMs [un_uavId n + 1..un_numUavs n - 1] n)"

definition un_handleSelf ::
    "core_lib \<Rightarrow> ossl \<Rightarrow> suite \<Rightarrow> puf \<Rightarrow> simtime \<Rightarrow> u32 \<Rightarrow> string \<Rightarrow> uav_node \<Rightarrow>
     (node_output list \<times> uav_node) option" where
  "un_handleSelf C L S P t nowMs name n =
     (if name = ''startPhase2'' then do {
        (r, rng, u) \<leftarrow> startPhase2 C L S P nowMs (un_rng n) (un_proto n);
        let n = n\<lparr>un_phase2Start := t, un_rng := rng, un_proto := u\<rparr>;
        (if \<not> sr_ok r then Some ([], up_abort r n)
         else do {
           bytes \<leftarrow> msg_wireBytes C (sr_reply r);
           un_sendToGs C (sr_reply r) (up_upd (\<lambda>p. p\<lparr>up_bytesM1 := bytes\<rparr>) n) }) }
      else if name = ''startPhase3'' then un_startPhase3Round C L S t nowMs n
      else Some ([], n))"

subsection \<open>Messages\<close>

definition un_handleM2 ::
    "core_lib \<Rightarrow> ossl \<Rightarrow> suite \<Rightarrow> u32 \<Rightarrow> message \<Rightarrow> nat \<Rightarrow> uav_node \<Rightarrow> (node_output list \<times> uav_node) option" where
  "un_handleM2 C L S nowMs m bytes n = do {
     let n = up_upd (\<lambda>p. p\<lparr>up_bytesM2 := bytes, up_overheadBytes := up_overheadBytes p + bytes\<rparr>) n;
     (r, u) \<leftarrow> uav_handleM2 C L S m nowMs (un_proto n);
     let n = n\<lparr>un_proto := u\<rparr>;
     (if \<not> sr_ok r then Some ([], up_abort r n)
      else do {
        b3 \<leftarrow> msg_wireBytes C (sr_reply r);
        un_sendToGs C (sr_reply r) (up_upd (\<lambda>p. p\<lparr>up_bytesM3 := b3\<rparr>) n) }) }"

definition un_handleM4 ::
    "core_lib \<Rightarrow> suite \<Rightarrow> simtime \<Rightarrow> message \<Rightarrow> nat \<Rightarrow> uav_node \<Rightarrow> (node_output list \<times> uav_node) option" where
  "un_handleM4 C S t m bytes n = do {
     let n = up_upd (\<lambda>p. p\<lparr>up_bytesM4 := bytes, up_overheadBytes := up_overheadBytes p + bytes\<rparr>) n;
     (r, u) \<leftarrow> uav_handleM4 C S m (un_proto n);
     let n = n\<lparr>un_proto := u\<rparr>;
     (if \<not> sr_ok r then Some ([], up_abort r n)
      else Some ([Emit ''authLatency'' (t - un_phase2Start n), Schedule (max t (un_peerAuthStart n)) ''startPhase3''],
        up_upd (\<lambda>p. p\<lparr>up_success := True, up_ephemeralErased := u2_ephemeralErased (uv_phase2 u),
          up_latency := t - un_phase2Start n\<rparr>) n)) }"

definition un_handleP1 ::
    "core_lib \<Rightarrow> ossl \<Rightarrow> suite \<Rightarrow> simtime \<Rightarrow> u32 \<Rightarrow> message \<Rightarrow> nat \<Rightarrow> uav_node \<Rightarrow>
     (node_output list \<times> uav_node) option" where
  "un_handleP1 C L S t nowMs m bytes n =
     (let peer = m_senderId m;
          n = us_put peer t (uq_upd peer (\<lambda>q. q\<lparr>uq_initiator := False\<rparr>) (uq_heard peer bytes n))
      in do {
        (r, rng, u) \<leftarrow> uav_handleP1 C L S m nowMs (un_rng n) (un_proto n);
        let n = n\<lparr>un_rng := rng, un_proto := u\<rparr>;
        (if \<not> sr_ok r then Some ([], uq_abort peer r n) else un_sendToPeer C peer (sr_reply r) n) })"

definition un_handleP2 ::
    "core_lib \<Rightarrow> ossl \<Rightarrow> suite \<Rightarrow> message \<Rightarrow> nat \<Rightarrow> uav_node \<Rightarrow> (node_output list \<times> uav_node) option" where
  "un_handleP2 C L S m bytes n =
     (let peer = m_senderId m; n = uq_heard peer bytes n
      in do {
        (r, u) \<leftarrow> uav_handleP2 C L S m (un_proto n);
        let n = n\<lparr>un_proto := u\<rparr>;
        (if \<not> sr_ok r then Some ([], uq_abort peer r n) else un_sendToPeer C peer (sr_reply r) n) })"

definition un_handleP3 ::
    "core_lib \<Rightarrow> ossl \<Rightarrow> suite \<Rightarrow> simtime \<Rightarrow> message \<Rightarrow> nat \<Rightarrow> uav_node \<Rightarrow>
     (node_output list \<times> uav_node) option" where
  "un_handleP3 C L S t m bytes n =
     (let peer = m_senderId m; n = uq_heard peer bytes n
      in do {
        (r, u) \<leftarrow> uav_handleP3 C L S m (un_proto n);
        let n = n\<lparr>un_proto := u\<rparr>;
        (if \<not> sr_ok r then Some ([], uq_abort peer r n) else Some (uq_complete peer t n)) })"

text \<open>The initiator has no acknowledgement to wait for: after every P2 the node looks whether the
  session with its sender has a key.\<close>

definition un_after_P2 :: "simtime \<Rightarrow> message \<Rightarrow> uav_node \<Rightarrow> node_output list \<times> uav_node" where
  "un_after_P2 t m n =
     (if m_type m = P3_P2_PEER_RESPONSE \<and> peerSessionKey (m_senderId m) (un_proto n) \<noteq> None
      then uq_complete (m_senderId m) t n else ([], n))"

definition un_dispatch ::
    "core_lib \<Rightarrow> ossl \<Rightarrow> suite \<Rightarrow> simtime \<Rightarrow> u32 \<Rightarrow> message \<Rightarrow> nat \<Rightarrow> uav_node \<Rightarrow>
     (node_output list \<times> uav_node) option" where
  "un_dispatch C L S t nowMs m bytes n =
     (case m_type m of
        P2_M2_GS_RESPONSE \<Rightarrow> un_handleM2 C L S nowMs m bytes n
      | P2_M4_GS_CONFIRM \<Rightarrow> un_handleM4 C S t m bytes n
      | P3_P1_PEER_REQUEST \<Rightarrow> un_handleP1 C L S t nowMs m bytes n
      | P3_P2_PEER_RESPONSE \<Rightarrow> un_handleP2 C L S m bytes n
      | P3_P3_PEER_COMPLETE \<Rightarrow> un_handleP3 C L S t m bytes n
      | _ \<Rightarrow> Some ([], n))"

text \<open>\<open>msg->wireBytes()\<close> is only called in the cases above.\<close>

definition un_counts_bytes :: "message_type \<Rightarrow> bool" where
  "un_counts_bytes t \<longleftrightarrow> t \<in> {P2_M2_GS_RESPONSE, P2_M4_GS_CONFIRM, P3_P1_PEER_REQUEST,
     P3_P2_PEER_RESPONSE, P3_P3_PEER_COMPLETE}"

definition un_handleMessage ::
    "core_lib \<Rightarrow> ossl \<Rightarrow> suite \<Rightarrow> simtime \<Rightarrow> u32 \<Rightarrow> sim_message \<Rightarrow> uav_node \<Rightarrow>
     (node_output list \<times> uav_node) option" where
  "un_handleMessage C L S t nowMs msg n = do {
     bytes \<leftarrow> (if un_counts_bytes (m_type (sm_payload msg)) then sm_wireBytes C msg else Some 0);
     (out, n) \<leftarrow> un_dispatch C L S t nowMs (sm_payload msg) bytes n;
     let (out2, n) = un_after_P2 t (sm_payload msg) n;
     Some (out @ out2, n) }"

text \<open>The scalar \<open>numPeerSessionKeys\<close> that \<open>finish\<close> reports.\<close>

definition un_numPeerSessionKeys :: "uav_node \<Rightarrow> nat" where
  "un_numPeerSessionKeys n = length (un_phase3 n)"

end
