(* ===== verification/Uav_Node_Safety.thy ===== *)
theory Uav_Node_Safety
  imports Uav_Node Uav_Invariant
begin

text \<open>
  The UAV node: what it makes of messages its protocol object refuses.  A refused M2 leaves nothing but
  records behind; refused peer messages, however, complete sessions again and count as keys.
\<close>

lemmas un_upd_defs = up_upd_def up_abort_def uq_abort_def uq_heard_def uq_upd_def us_put_def

subsection \<open>Phase 2\<close>

text \<open>The node's M2 handler transmits exactly when the protocol accepts.\<close>

lemma un_handleMessage_M2:
  assumes "m_type (sm_payload msg) = P2_M2_GS_RESPONSE" "sm_wireBytes C msg = Some b"
    and "uav_handleM2 C L S (sm_payload msg) nowMs (un_proto n) = Some (r, u)"
    and "un_handleMessage C L S t nowMs msg n = Some (out, n')"
  shows "un_proto n' = u" "transmissions out =
    (if sr_ok r then [(sim_message (sr_reply r), Some GroundStation)] else [])"
  using assms
  by (auto simp: un_handleMessage_def un_counts_bytes_def un_dispatch_def un_handleM2_def un_after_P2_def
      un_sendToGs_def un_upd_defs Let_def Option.bind_eq_Some_conv split: if_splits)

subsection \<open>Refused peer messages\<close>

text \<open>Whatever P2 the protocol refuses, it never takes an established key away.\<close>

lemma uav_handleP2_refused_key:
  assumes "uav_handleP2 C L S m u = Some (r, u')" "\<not> sr_ok r"
  shows "peerSessionKey k u' = peerSessionKey k u"
proof (cases rule: uav_handleP2_cases [OF assms(1)])
  case 1
  then show ?thesis by (auto simp: peerSessionKey_def p3_heard_def)
next
  case (2 s n epk inputP2)
  then have "om_find (uv_peers u) (m_senderId m) = Some s" by (simp add: P2_accepted_def)
  then show ?thesis
    using assms(2)
    by (cases rule: uav_peer_confirm_cases [OF 2(2)]) (auto simp: peerSessionKey_def p3_heard_def)
qed

text \<open>C35. A refused P2 completes a finished session once more.  After every P2 the node asks whether the
  session with the claimed sender has a key, not whether this message was accepted; so once Phase 3 with
  a peer is complete, any later P2 that names this peer, forged, replayed or malformed, is recorded as
  aborted and as successful at once, emits another \<open>peerAuthLatency\<close> and overwrites the measured
  latency with the time of the forgery.  (The key itself is not affected.)\<close>

theorem refused_P2_completes_again:
  assumes "m_type (sm_payload msg) = P3_P2_PEER_RESPONSE" and "m_senderId (sm_payload msg) = peer"
    and "peerSessionKey peer (un_proto n) = Some k"
    and "uav_handleP2 C L S (sm_payload msg) (un_proto n) = Some (r, u)" and "\<not> sr_ok r"
    and "un_handleMessage C L S t nowMs msg n = Some (out, n')"
  shows "out = [Emit ''peerAuthLatency'' (t - us_at peer n)] \<and>
    uq_success (uq_at peer n') \<and> uq_latency (uq_at peer n') = t - us_at peer n \<and>
    uq_abortReason (uq_at peer n') = abortReasonName (sr_abort r) \<and>
    peerSessionKey peer (un_proto n') = Some k"
proof -
  have key: "peerSessionKey peer u = Some k"
    using uav_handleP2_refused_key [OF assms(4,5)] assms(3) by simp
  obtain bytes where "sm_wireBytes C msg = Some bytes"
    using assms(1,6) by (auto simp: un_handleMessage_def un_counts_bytes_def Option.bind_eq_Some_conv)
  then have h: "un_after_P2 t (sm_payload msg) (uq_abort peer r ((uq_heard peer bytes n)\<lparr>un_proto := u\<rparr>)) = (out, n')"
    using assms(1,2,4-6)
    by (auto simp: un_handleMessage_def un_counts_bytes_def un_dispatch_def un_handleP2_def uq_heard_def
        uq_upd_def Let_def split_beta)
  show ?thesis
    using h assms(1,2) key
    by (auto simp: un_after_P2_def uq_complete_def un_upd_defs uq_at_def us_at_def Let_def)
qed

theorem refused_P2_completes_again_witness:
  "\<exists>n msg out n' r u. uav_handleP2 ref_core ref_ossl demo_suite (sm_payload msg) (un_proto n) = Some (r, u) \<and>
     \<not> sr_ok r \<and> un_handleMessage ref_core ref_ossl demo_suite 700 0 msg n = Some (out, n') \<and>
     out = [Emit ''peerAuthLatency'' 700] \<and> uq_success (uq_at 2 n')"
proof (rule demo_pair)
  fix a2 b2 rngA'
  assume "phase3_agreed demo_a demo_b a2 b2"
  then obtain k where k: "peerSessionKey 2 a2 = Some k" by (auto simp: phase3_agreed_def demo_ab)
  let ?n = "uav_node_new 1 3 True 0 rngA' a2"
  let ?m = "sim_message (emptyMessage\<lparr>m_type := P3_P2_PEER_RESPONSE, m_senderId := 2\<rparr>)"
  have h: "uav_handleP2 ref_core ref_ossl demo_suite (sm_payload ?m) (un_proto ?n) = Some (fail MissingField, a2)"
    by (simp add: uav_handleP2_def uav_node_new_def msg_has_def emptyMessage_def)
  have t: "m_type (sm_payload ?m) = P3_P2_PEER_RESPONSE" "m_senderId (sm_payload ?m) = 2" by simp_all
  have "short (m_fields (sm_payload ?m))" by (simp add: emptyMessage_def short_upd)
  then obtain bytes where "sm_wireBytes ref_core ?m = Some bytes"
    using ref.wireBytes_short unfolding sm_wireBytes_def by blast
  then have "\<exists>x. un_handleMessage ref_core ref_ossl demo_suite 700 0 ?m ?n = Some x"
    using h unfolding un_handleMessage_def un_dispatch_def un_handleP2_def t
    by (simp add: un_counts_bytes_def uq_heard_def uq_upd_def Let_def split_beta)
  then obtain out n' where s: "un_handleMessage ref_core ref_ossl demo_suite 700 0 ?m ?n = Some (out, n')" by auto
  have z: "us_at 2 ?n = 0" "peerSessionKey 2 (un_proto ?n) = Some k"
    using k by (simp_all add: us_at_def uav_node_new_def)
  have "out = [Emit ''peerAuthLatency'' 700] \<and> uq_success (uq_at 2 n')"
    using refused_P2_completes_again [OF t z(2) h _ s] z(1) by simp
  moreover have "\<not> sr_ok (fail MissingField)" by simp
  ultimately show ?thesis using h s by blast
qed

text \<open>A refused P1 leaves a record behind, and restarts the clock of its claimed sender's session.\<close>

lemma refused_P1_counts_as_key:
  assumes "m_type (sm_payload msg) = P3_P1_PEER_REQUEST" and "m_senderId (sm_payload msg) = peer"
    and "uav_handleP1 C L S (sm_payload msg) nowMs (un_rng n) (un_proto n) = Some (r, rng', u)" and "\<not> sr_ok r"
    and "un_handleMessage C L S t nowMs msg n = Some (out, n')"
  shows "out = [] \<and> uv_peers (un_proto n') = uv_peers (un_proto n) \<and> us_at peer n' = t \<and>
    (om_find (un_phase3 n) peer = None \<longrightarrow> un_numPeerSessionKeys n' = Suc (un_numPeerSessionKeys n))"
proof -
  have "uv_peers u = uv_peers (un_proto n)"
    by (cases rule: uav_handleP1_cases [OF assms(3)]) (use assms(4) in \<open>auto simp: uav_offered_def dest: uav_peer_respond_Some\<close>)
  with assms show ?thesis
    by (auto simp: un_handleMessage_def un_counts_bytes_def un_dispatch_def un_handleP1_def un_after_P2_def
        un_upd_defs uq_at_def us_at_def un_numPeerSessionKeys_def Let_def Option.bind_eq_Some_conv om_set_length
        split: option.splits)
qed

end
