(* ===== verification/Attacker_Node.thy ===== *)
theory Attacker_Node
  imports Medium Session "HOL-Library.AList"
begin

text \<open>
  \<open>nodes/AttackerNode.h\<close>, \<open>nodes/AttackerNode.cc\<close>: the adversary of the experiments, its counters
  and the verdict \<open>finish\<close> reports.  Handlers return the node and its transmissions; the
  millisecond reading is an argument.  \<open>None\<close> is an exception.
\<close>

record attack_stat =
  as_attempts :: int
  as_accepted :: int
  as_rejected :: int
  as_repliesElicited :: int
  as_credentialsExposed :: int
  as_responsesLeaked :: int

definition as_empty :: attack_stat where
  "as_empty = \<lparr>as_attempts = 0, as_accepted = 0, as_rejected = 0, as_repliesElicited = 0,
     as_credentialsExposed = 0, as_responsesLeaked = 0\<rparr>"

record attacker =
  at_attackMode :: string
  at_targetUav :: int
  at_maxAttempts :: int
  at_expectSuccess :: bool
  at_numUavs :: int
  at_rng :: drbg
  at_stats :: "(string \<times> attack_stat) list"
  at_capturedM1 :: "(int, sim_message) omap"
  at_genuineM2Seen :: "int set"
  at_observedMessages :: int
  at_observedM4 :: int
  at_plaintextCredentialBytes :: int

definition attacker_new :: "string \<Rightarrow> int \<Rightarrow> int \<Rightarrow> bool \<Rightarrow> int \<Rightarrow> drbg \<Rightarrow> attacker" where
  "attacker_new mode target maxAttempts expect numUavs rng =
     \<lparr>at_attackMode = mode, at_targetUav = target, at_maxAttempts = maxAttempts,
      at_expectSuccess = expect, at_numUavs = numUavs, at_rng = rng, at_stats = [],
      at_capturedM1 = [], at_genuineM2Seen = {}, at_observedMessages = 0, at_observedM4 = 0,
      at_plaintextCredentialBytes = 0\<rparr>"

text \<open>\<open>stats_[name]\<close>, which creates the entry.  Only \<open>finish\<close> iterates over the entries, so the
  map is kept as an association list.\<close>

definition as_at :: "string \<Rightarrow> attacker \<Rightarrow> attack_stat" where
  "as_at nm a = (case map_of (at_stats a) nm of None \<Rightarrow> as_empty | Some s \<Rightarrow> s)"

definition as_upd :: "string \<Rightarrow> (attack_stat \<Rightarrow> attack_stat) \<Rightarrow> attacker \<Rightarrow> attacker" where
  "as_upd nm f a = a\<lparr>at_stats := AList.update nm (f (as_at nm a)) (at_stats a)\<rparr>"

definition as_attempt :: "attack_stat \<Rightarrow> attack_stat" where
  "as_attempt s = s\<lparr>as_attempts := as_attempts s + 1\<rparr>"

subsection \<open>Attacks\<close>

definition looksPlaintext :: "core_lib \<Rightarrow> suite \<Rightarrow> bytes \<Rightarrow> bool option" where
  "looksPlaintext C S blob =
     (if 4 < length blob then do {
        count \<leftarrow> readU16be C blob 0;
        (if 0 < count \<and> count < 64 then do {
           firstLen \<leftarrow> readU16be C blob 4;
           Some (unat firstLen = su_keyLen S) }
         else Some False) }
      else Some False)"

definition attemptCredentialRecovery :: "core_lib \<Rightarrow> suite \<Rightarrow> message \<Rightarrow> attacker \<Rightarrow> attacker option" where
  "attemptCredentialRecovery C S m a =
     (let a = as_upd ''credsniff'' as_attempt a in
      case msg_get m CRED_PKG of
        None \<Rightarrow> Some (as_upd ''credsniff'' (\<lambda>s. s\<lparr>as_rejected := as_rejected s + 1\<rparr>) a)
      | Some blob \<Rightarrow> do {
          plain \<leftarrow> looksPlaintext C S blob;
          Some (if plain
            then (as_upd ''credsniff'' (\<lambda>s. s\<lparr>as_accepted := as_accepted s + 1,
                    as_credentialsExposed := as_credentialsExposed s + 1\<rparr>) a)
                 \<lparr>at_plaintextCredentialBytes := at_plaintextCredentialBytes a + int (length blob)\<rparr>
            else as_upd ''credsniff'' (\<lambda>s. s\<lparr>as_rejected := as_rejected s + 1\<rparr>) a) })"

definition forged_M2 :: "core_lib \<Rightarrow> u8 \<Rightarrow> int \<Rightarrow> bytes \<Rightarrow> u32 \<Rightarrow> bytes \<Rightarrow> bytes \<Rightarrow> message" where
  "forged_M2 C suite victim n2 now epkB tag =
     msg_set MAC_TAG tag (msg_set EPK_B epkB (msg_set TIMESTAMP (encodeTimestamp C now) (msg_set NONCE_2 n2
       (emptyMessage\<lparr>m_type := P2_M2_GS_RESPONSE, m_suiteId := suite, m_senderId := - 1,
          m_receiverId := victim\<rparr>))))"

fun forge_loop ::
    "core_lib \<Rightarrow> ossl \<Rightarrow> suite \<Rightarrow> u32 \<Rightarrow> int \<Rightarrow> nat \<Rightarrow> attacker \<Rightarrow> (node_output list \<times> attacker) option" where
  "forge_loop C L S now victim 0 a = Some ([], a)"
| "forge_loop C L S now victim (Suc n) a =
     (if as_attempts (as_at ''gsimpersonate'' a) < at_maxAttempts a then do {
        (n2, rng) \<leftarrow> drbg_bytes L 16 (at_rng a);
        (epkB, rng) \<leftarrow> drbg_bytes L 32 rng;
        (tag, rng) \<leftarrow> drbg_bytes L (su_macLen S) rng;
        let forged = \<lparr>sm_payload = forged_M2 C (suiteIdValue (su_id S)) victim n2 now epkB tag,
              sm_injectedByAttacker = True, sm_tampered = False\<rparr>;
        (out, a) \<leftarrow> forge_loop C L S now victim n (as_upd ''gsimpersonate'' as_attempt (a\<lparr>at_rng := rng\<rparr>));
        Some (Transmit forged (Some (Uav victim)) # out, a) }
      else Some ([], a))"

definition injectForgedM2 ::
    "core_lib \<Rightarrow> ossl \<Rightarrow> suite \<Rightarrow> u32 \<Rightarrow> int \<Rightarrow> attacker \<Rightarrow> (node_output list \<times> attacker) option" where
  "injectForgedM2 C L S now victim a =
     (let a = as_upd ''gsimpersonate'' id a in
      if at_maxAttempts a \<le> as_attempts (as_at ''gsimpersonate'' a) then Some ([], a)
      else if uav_module (at_numUavs a) victim = None then Some ([], a)
      else forge_loop C L S now victim 8 a)"

definition injectReplay :: "sim_message \<Rightarrow> attacker \<Rightarrow> node_output list \<times> attacker" where
  "injectReplay captured a =
     (let a = as_upd ''replay'' id a in
      if at_maxAttempts a \<le> as_attempts (as_at ''replay'' a) then ([], a)
      else ([Transmit (captured\<lparr>sm_injectedByAttacker := True\<rparr>) (Some GroundStation)],
            as_upd ''replay'' as_attempt a))"

text \<open>The first key of a \<open>FieldMap\<close> in its order, which is that of \<open>core\<close>'s field identifiers; the
  code only reaches it for a message without a tag.\<close>

definition first_field :: "(field_map \<Rightarrow> field_id) \<Rightarrow> message \<Rightarrow> field_id option" where
  "first_field first m =
     (if msg_has m MAC_TAG then Some MAC_TAG
      else if m_fields m = Map.empty then None else Some (first (m_fields m)))"

definition forwardTampered ::
    "core_lib \<Rightarrow> ossl \<Rightarrow> (field_map \<Rightarrow> field_id) \<Rightarrow> sim_message \<Rightarrow> attacker \<Rightarrow>
     (node_output list \<times> attacker) option" where
  "forwardTampered C L first msg a =
     (let a = as_upd ''tamper'' id a; m = sm_payload msg in
      case first_field first m of
        None \<Rightarrow> Some ([], a)
      | Some victimField \<Rightarrow> do {
          v \<leftarrow> msg_get m victimField;
          (msg, a) \<leftarrow> (if v = [] then Some (msg, a)
            else do {
              (i, rng) \<leftarrow> drbg_uniform L (of_nat (length v)) (at_rng a);
              Some (msg\<lparr>sm_payload := msg_set victimField (v[unat i := v ! unat i XOR 1]) m,
                        sm_tampered := True\<rparr>,
                    as_upd ''tamper'' as_attempt (a\<lparr>at_rng := rng\<rparr>)) });
          let dest = (if m_receiverId m < 0 then Some GroundStation
                      else uav_module (at_numUavs a) (m_receiverId m));
          Some (case dest of None \<Rightarrow> ([], a) | Some d \<Rightarrow> ([Transmit msg (Some d)], a)) })"

subsection \<open>Observation\<close>

definition at_observeM1 ::
    "core_lib \<Rightarrow> ossl \<Rightarrow> suite \<Rightarrow> u32 \<Rightarrow> sim_message \<Rightarrow> attacker \<Rightarrow> (node_output list \<times> attacker) option" where
  "at_observeM1 C L S now msg a =
     (let victim = m_senderId (sm_payload msg) in
      if om_find (at_capturedM1 a) victim \<noteq> None then Some ([], a)
      else do {
        let a = a\<lparr>at_capturedM1 := om_set victim msg (at_capturedM1 a)\<rparr>;
        (if at_attackMode a = ''gsimpersonate'' \<and> victim = at_targetUav a
         then injectForgedM2 C L S now victim a
         else if at_attackMode a = ''replay'' \<and> victim = at_targetUav a
         then Some (injectReplay msg a)
         else Some ([], a)) })"

definition at_observeM3 :: "message \<Rightarrow> attacker \<Rightarrow> attacker" where
  "at_observeM3 m a =
     (if at_attackMode a = ''gsimpersonate'' \<and> m_senderId m = at_targetUav a
      then let a = as_upd ''gsimpersonate'' id a in
        if 0 < as_attempts (as_at ''gsimpersonate'' a) \<and> at_targetUav a \<notin> at_genuineM2Seen a
        then as_upd ''gsimpersonate'' (\<lambda>s. s\<lparr>as_repliesElicited := as_repliesElicited s + 1,
               as_accepted := as_accepted s + 1\<rparr>) a
        else a
      else a)"

definition at_observe ::
    "core_lib \<Rightarrow> ossl \<Rightarrow> suite \<Rightarrow> u32 \<Rightarrow> sim_message \<Rightarrow> attacker \<Rightarrow> (node_output list \<times> attacker) option" where
  "at_observe C L S now msg a =
     (let a = a\<lparr>at_observedMessages := at_observedMessages a + 1\<rparr>; m = sm_payload msg in
      case m_type m of
        P2_M4_GS_CONFIRM \<Rightarrow> do {
          a \<leftarrow> attemptCredentialRecovery C S m (a\<lparr>at_observedM4 := at_observedM4 a + 1\<rparr>);
          Some ([], a) }
      | P2_M1_AUTH_REQUEST \<Rightarrow> at_observeM1 C L S now msg a
      | P2_M2_GS_RESPONSE \<Rightarrow> Some ([], if \<not> sm_injectedByAttacker msg
          then a\<lparr>at_genuineM2Seen := insert (m_receiverId m) (at_genuineM2Seen a)\<rparr> else a)
      | P2_M3_UAV_CONFIRM \<Rightarrow> Some ([], at_observeM3 m a)
      | _ \<Rightarrow> Some ([], a))"

definition at_handleMessage ::
    "core_lib \<Rightarrow> ossl \<Rightarrow> suite \<Rightarrow> (field_map \<Rightarrow> field_id) \<Rightarrow> u32 \<Rightarrow> sim_message \<Rightarrow> attacker \<Rightarrow>
     (node_output list \<times> attacker) option" where
  "at_handleMessage C L S first now msg a = do {
     (out, a) \<leftarrow> at_observe C L S now msg a;
     (if at_attackMode a = ''gsimpersonate'' \<and> m_type (sm_payload msg) = P2_M1_AUTH_REQUEST
      then Some (out, a)
      else if at_attackMode a = ''tamper'' \<or> at_attackMode a = ''mitm'' then do {
        (out2, a) \<leftarrow> forwardTampered C L first msg a;
        Some (out @ out2, a) }
      else Some (out, a)) }"

fun at_run ::
    "core_lib \<Rightarrow> ossl \<Rightarrow> suite \<Rightarrow> (field_map \<Rightarrow> field_id) \<Rightarrow> (u32 \<times> sim_message) list \<Rightarrow> attacker \<Rightarrow>
     (node_output list \<times> attacker) option" where
  "at_run C L S first [] a = Some ([], a)"
| "at_run C L S first ((now, msg) # ms) a = do {
     (out, a) \<leftarrow> at_handleMessage C L S first now msg a;
     (outs, a) \<leftarrow> at_run C L S first ms a;
     Some (out @ outs, a) }"

subsection \<open>The verdict\<close>

definition attack_succeeded :: "attack_stat \<Rightarrow> bool" where
  "attack_succeeded s \<longleftrightarrow> 0 < as_accepted s \<or> 0 < as_repliesElicited s \<or> 0 < as_credentialsExposed s"

definition attack_expected :: "string \<Rightarrow> attacker \<Rightarrow> bool" where
  "attack_expected nm a = (if nm = at_attackMode a then at_expectSuccess a else False)"

text \<open>The scalar \<open>atk_<name>_outcome_matches_expectation\<close>.\<close>

definition outcome_matches :: "string \<Rightarrow> attack_stat \<Rightarrow> attacker \<Rightarrow> bool" where
  "outcome_matches nm s a \<longleftrightarrow> attack_succeeded s = attack_expected nm a"

subsection \<open>Lemmas\<close>

lemma as_at_upd [simp]: "as_at nm (as_upd nm' f a) = (if nm = nm' then f (as_at nm a) else as_at nm a)"
  by (simp add: as_at_def as_upd_def update_conv')

lemma as_at_frame [simp]:
  "as_at nm (a\<lparr>at_rng := r\<rparr>) = as_at nm a" "as_at nm (a\<lparr>at_capturedM1 := c\<rparr>) = as_at nm a"
  "as_at nm (a\<lparr>at_genuineM2Seen := g\<rparr>) = as_at nm a" "as_at nm (a\<lparr>at_observedMessages := i\<rparr>) = as_at nm a"
  "as_at nm (a\<lparr>at_observedM4 := i\<rparr>) = as_at nm a" "as_at nm (a\<lparr>at_plaintextCredentialBytes := i\<rparr>) = as_at nm a"
  by (simp_all add: as_at_def)

lemma as_upd_frame [simp]:
  "at_attackMode (as_upd nm f a) = at_attackMode a" "at_targetUav (as_upd nm f a) = at_targetUav a"
  "at_maxAttempts (as_upd nm f a) = at_maxAttempts a" "at_expectSuccess (as_upd nm f a) = at_expectSuccess a"
  "at_numUavs (as_upd nm f a) = at_numUavs a" "at_genuineM2Seen (as_upd nm f a) = at_genuineM2Seen a"
  "at_rng (as_upd nm f a) = at_rng a"
  by (simp_all add: as_upd_def)

lemma as_attempt_simps [simp]:
  "as_accepted (as_attempt s) = as_accepted s" "as_repliesElicited (as_attempt s) = as_repliesElicited s"
  "as_credentialsExposed (as_attempt s) = as_credentialsExposed s" "as_attempts (as_attempt s) = as_attempts s + 1"
  by (simp_all add: as_attempt_def)

text \<open>What the forging loop sends: at most eight M2, all marked as injected, all for the victim.\<close>

lemma forge_loop_result:
  "forge_loop C L S now victim n a = Some (out, a') \<Longrightarrow>
   at_attackMode a' = at_attackMode a \<and> at_expectSuccess a' = at_expectSuccess a \<and>
   at_targetUav a' = at_targetUav a \<and> at_genuineM2Seen a' = at_genuineM2Seen a \<and>
   at_maxAttempts a' = at_maxAttempts a \<and>
   (\<forall>nm. attack_succeeded (as_at nm a') = attack_succeeded (as_at nm a)) \<and>
   as_attempts (as_at ''gsimpersonate'' a') = as_attempts (as_at ''gsimpersonate'' a) + int (length out) \<and>
   length out \<le> n \<and>
   (\<forall>x \<in> set out. \<exists>n2 epkB tag. x = Transmit \<lparr>sm_payload = forged_M2 C (suiteIdValue (su_id S)) victim n2 now epkB tag,
      sm_injectedByAttacker = True, sm_tampered = False\<rparr> (Some (Uav victim)))"
proof (induction n arbitrary: a out)
  case 0
  then show ?case by simp
next
  case (Suc n)
  show ?case
  proof (cases "as_attempts (as_at ''gsimpersonate'' a) < at_maxAttempts a")
    case False
    with Suc.prems show ?thesis by auto
  next
    case True
    with Suc.prems obtain n2 epkB tag rng out1 where
      h: "forge_loop C L S now victim n (as_upd ''gsimpersonate'' as_attempt (a\<lparr>at_rng := rng\<rparr>)) = Some (out1, a')"
      "out = Transmit \<lparr>sm_payload = forged_M2 C (suiteIdValue (su_id S)) victim n2 now epkB tag,
          sm_injectedByAttacker = True, sm_tampered = False\<rparr> (Some (Uav victim)) # out1"
      by (auto simp: Option.bind_eq_Some_conv)
    from Suc.IH [OF h(1)] h(2) show ?thesis by (auto simp: attack_succeeded_def)
  qed
qed

end
