(* ===== verification/Attack_Safety.thy ===== *)
theory Attack_Safety
  imports Attacker_Node Uav_Node_Safety Phase2_Safety
begin

text \<open>
  What the attack experiments can observe: two of them cannot fail, and the impersonation
  experiment, run through node, medium and attacker, measures exactly the missing check.
\<close>

subsection \<open>Verdicts that cannot fail\<close>

text \<open>The configuration never changes, and two of the entries never record a success.\<close>

definition at_quiet :: "attacker \<Rightarrow> attacker \<Rightarrow> bool" where
  "at_quiet a a' \<longleftrightarrow> at_attackMode a' = at_attackMode a \<and> at_expectSuccess a' = at_expectSuccess a \<and>
     (\<forall>nm \<in> {''replay'', ''tamper''}. attack_succeeded (as_at nm a') = attack_succeeded (as_at nm a))"

lemma at_quiet_refl [simp]: "at_quiet a a"
  by (simp add: at_quiet_def)

lemma at_quiet_trans: "at_quiet a b \<Longrightarrow> at_quiet b c \<Longrightarrow> at_quiet a c"
  by (simp add: at_quiet_def)

lemma at_quiet_recovery: "attemptCredentialRecovery C S m a = Some a' \<Longrightarrow> at_quiet a a'"
  by (auto simp: attemptCredentialRecovery_def at_quiet_def attack_succeeded_def Let_def
      Option.bind_eq_Some_conv split: option.splits if_splits)

lemma at_quiet_forged: "injectForgedM2 C L S now victim a = Some (out, a') \<Longrightarrow> at_quiet a a'"
  by (auto simp: injectForgedM2_def at_quiet_def Let_def attack_succeeded_def split: if_splits
      dest!: forge_loop_result)

lemma at_quiet_replay: "at_quiet a (snd (injectReplay msg a))"
  by (auto simp: injectReplay_def at_quiet_def Let_def attack_succeeded_def)

lemma at_quiet_observe: "at_observe C L S now msg a = Some (out, a') \<Longrightarrow> at_quiet a a'"
proof -
  assume h: "at_observe C L S now msg a = Some (out, a')"
  let ?a = "a\<lparr>at_observedMessages := at_observedMessages a + 1\<rparr>"
  have q: "at_quiet a ?a" "at_quiet a (?a\<lparr>at_observedM4 := i\<rparr>)"
    "at_quiet a (?a\<lparr>at_capturedM1 := c\<rparr>)" "at_quiet a (?a\<lparr>at_genuineM2Seen := g\<rparr>)" for c g i
    by (simp_all add: at_quiet_def)
  show ?thesis
  proof (cases "m_type (sm_payload msg)")
    case P2_M1_AUTH_REQUEST
    with h have "at_observeM1 C L S now msg ?a = Some (out, a')" by (simp add: at_observe_def Let_def)
    then show ?thesis
      using q at_quiet_replay [of "?a\<lparr>at_capturedM1 := om_set (m_senderId (sm_payload msg)) msg (at_capturedM1 a)\<rparr>" msg]
      by (auto simp: at_observeM1_def Let_def split: if_splits
          dest!: at_quiet_forged intro: at_quiet_trans [OF q(3)] dest: arg_cong [of _ _ snd])
  next
    case P2_M4_GS_CONFIRM
    with h q show ?thesis
      by (auto simp: at_observe_def Let_def Option.bind_eq_Some_conv dest!: at_quiet_recovery
          intro: at_quiet_trans [OF q(2)])
  next
    case P2_M3_UAV_CONFIRM
    with h show ?thesis
      by (auto simp: at_observe_def at_observeM3_def Let_def at_quiet_def split: if_splits)
  qed (use h q in \<open>auto simp: at_observe_def Let_def split: if_splits\<close>)
qed

lemma at_quiet_tampered: "forwardTampered C L first msg a = Some (out, a') \<Longrightarrow> at_quiet a a'"
  by (auto simp: forwardTampered_def Let_def at_quiet_def attack_succeeded_def Option.bind_eq_Some_conv
      split: option.splits if_splits)

lemma at_quiet_handle: "at_handleMessage C L S first now msg a = Some (out, a') \<Longrightarrow> at_quiet a a'"
  by (auto simp: at_handleMessage_def Option.bind_eq_Some_conv split: if_splits
      dest!: at_quiet_observe at_quiet_tampered intro: at_quiet_trans)

lemma at_quiet_run: "at_run C L S first ms a = Some (out, a') \<Longrightarrow> at_quiet a a'"
proof (induction ms arbitrary: a out)
  case (Cons x ms)
  then show ?case
    by (cases x) (auto simp: Option.bind_eq_Some_conv dest!: at_quiet_handle intro: at_quiet_trans)
qed simp

text \<open>Two of the attack experiments cannot fail.  Whatever messages the attacker sees, in
  whatever order, and however the victims react to its replays and manipulations, its entries for
  \<open>replay\<close> and \<open>tamper\<close> never record a success: no statement of the node counts an accepted or
  answered copy.  So the reported agreement of outcome and expectation is decided by the
  configuration alone: it holds for these attacks exactly when success was not expected.\<close>

theorem replay_and_tamper_verdicts_are_vacuous:
  assumes "at_run C L S first ms (attacker_new mode target maxAttempts expect numUavs rng) = Some (out, a)"
    and "nm = ''replay'' \<or> nm = ''tamper''"
  shows "\<not> attack_succeeded (as_at nm a) \<and>
    (outcome_matches nm (as_at nm a) a \<longleftrightarrow> \<not> (nm = mode \<and> expect))"
proof -
  have "at_quiet (attacker_new mode target maxAttempts expect numUavs rng) a"
    using assms(1) by (rule at_quiet_run)
  moreover have "\<not> attack_succeeded (as_at nm (attacker_new mode target maxAttempts expect numUavs rng))"
    by (simp add: as_at_def attacker_new_def attack_succeeded_def as_empty_def)
  ultimately show ?thesis
    using assms(2) by (auto simp: at_quiet_def outcome_matches_def attack_expected_def attacker_new_def)
qed

theorem replay_and_tamper_verdicts_are_vacuous_witness:
  "\<exists>rng out a. at_run ref_core ref_ossl demo_suite (\<lambda>m. TID)
      [(5, sim_message (emptyMessage\<lparr>m_type := P2_M1_AUTH_REQUEST, m_senderId := 1\<rparr>))]
      (attacker_new ''replay'' 1 100 False 2 rng) = Some (out, a) \<and>
    transmissions out \<noteq> [] \<and> as_attempts (as_at ''replay'' a) = 1 \<and>
    outcome_matches ''replay'' (as_at ''replay'' a) a"
proof -
  let ?m = "sim_message (emptyMessage\<lparr>m_type := P2_M1_AUTH_REQUEST, m_senderId := 1\<rparr>)"
  define rng where "rng = \<lparr>dk_key = replicate 32 0, dk_buffer = [], dk_offset = 0, dk_counter = 0, dk_drawn = 0,
    dk_haveSpareNormal = False, dk_spareNormal = 0\<rparr>"
  let ?a = "attacker_new ''replay'' 1 100 False 2 rng"
  obtain out a where h: "at_run ref_core ref_ossl demo_suite (\<lambda>m. TID) [(5, ?m)] ?a = Some (out, a)"
    "transmissions out \<noteq> []" "as_attempts (as_at ''replay'' a) = 1"
    by (simp add: at_handleMessage_def at_observe_def at_observeM1_def injectReplay_def attacker_new_def
        Let_def) (simp add: as_at_def as_empty_def as_upd_def)
  from replay_and_tamper_verdicts_are_vacuous [OF h(1), of "''replay''"] h show ?thesis by auto
qed

subsection \<open>The impersonation experiment\<close>

text \<open>A list of transmissions handed to the medium one by one.\<close>

fun transmit_all ::
    "core_lib \<Rightarrow> node \<Rightarrow> (sim_message \<times> node option) list \<Rightarrow> medium \<Rightarrow> (delivery list \<times> medium) option" where
  "transmit_all C source [] md = Some ([], md)"
| "transmit_all C source ((msg, dest) # xs) md = do {
     (ds, md) \<leftarrow> transmit C msg source dest md;
     (ds2, md) \<leftarrow> transmit_all C source xs md;
     Some (ds @ ds2, md) }"

text \<open>One message reaches the UAV, what it sends passes the medium, what the medium hands to the
  attacker is handled there.\<close>

definition impersonation_round ::
    "core_lib \<Rightarrow> ossl \<Rightarrow> suite \<Rightarrow> (field_map \<Rightarrow> field_id) \<Rightarrow> simtime \<Rightarrow> u32 \<Rightarrow> sim_message \<Rightarrow> uav_node \<Rightarrow>
     medium \<Rightarrow> attacker \<Rightarrow> (uav_node \<times> medium \<times> attacker) option" where
  "impersonation_round C L S first t now msg n md a = do {
     (out, n) \<leftarrow> un_handleMessage C L S t now msg n;
     (ds, md) \<leftarrow> transmit_all C (Uav (un_uavId n)) (transmissions out) md;
     (out, a) \<leftarrow> at_run C L S first (map (\<lambda>(d, m). (now, m)) (filter (\<lambda>(d, m). d = Attacker) ds)) a;
     Some (n, md, a) }"

text \<open>The configuration \<open>AtkGsImpersonate\<close>: the tap hands M1 and M3 to the attacker, who has sent
  forgeries to its target and has seen no genuine M2 nor any success.\<close>

definition impersonating :: "medium \<Rightarrow> attacker \<Rightarrow> int \<Rightarrow> bool" where
  "impersonating md a i \<longleftrightarrow> md_tapEnabled md \<and> md_attacker md = Some Attacker \<and>
     md_attackMode md = ''impersonate'' \<and> at_attackMode a = ''gsimpersonate'' \<and> at_targetUav a = i \<and>
     i \<notin> at_genuineM2Seen a \<and> 0 < as_attempts (as_at ''gsimpersonate'' a) \<and>
     0 \<le> as_accepted (as_at ''gsimpersonate'' a) \<and>
     \<not> attack_succeeded (as_at ''gsimpersonate'' a)"

lemma impersonating_upd:
  "impersonating (md\<lparr>md_trace := tr\<rparr>) a i = impersonating md a i"
  by (simp add: impersonating_def)

text \<open>A forgery as \<open>injectForgedM2\<close> builds it, that passes everything before the tag: it is fresh, its
  nonce is new, its ephemeral key usable, its tag wrong.\<close>

definition forgery_lands ::
    "core_lib \<Rightarrow> ossl \<Rightarrow> suite \<Rightarrow> u32 \<Rightarrow> message \<Rightarrow> uav \<Rightarrow> bytes \<Rightarrow> bytes \<Rightarrow> bytes \<Rightarrow> bytes \<Rightarrow> bytes \<Rightarrow> bool" where
  "forgery_lands C L S now m u n2 epkB tag input2 z \<longleftrightarrow>
     m = forged_M2 C (suiteIdValue (su_id S)) (uv_id u) n2 now epkB tag \<and>
     M2_admitted C m now u n2 epkB (encodeTimestamp C now) tag input2 \<and> length tag = 16 \<and>
     su_mac S (u2_authKey (uv_phase2 u)) input2 \<noteq> Some tag \<and>
     x25519Derive L (kp_secret (u2_ephemeral (uv_phase2 u))) epkB = (True, z)"

text \<open>A UAV that has sent M1.\<close>

definition awaiting_M2 :: "uav \<Rightarrow> bytes \<Rightarrow> bool" where
  "awaiting_M2 u input2 \<longleftrightarrow> 0 \<le> uv_id u \<and> length (u2_authKey (uv_phase2 u)) = 32 \<and>
     0 < length (u2_mk (uv_phase2 u)) \<and> length (u2_mk (uv_phase2 u)) \<le> 8160 \<and>
     length (u2_transcript (uv_phase2 u) @ input2) \<le> 65535 \<and> length (ds_tid (uv_state u)) \<le> 64"

lemma short_M3:
  "length tid \<le> 64 \<Longrightarrow> length tag \<le> 64 \<Longrightarrow> short (m_fields (msg_set MAC_TAG tag (M3_body s i tid)))"
  by (simp add: M3_body_def msg_set_def emptyMessage_def short_upd)

lemma forged_M2_type [simp]:
  "m_type (forged_M2 C s i n2 t epkB tag) = P2_M2_GS_RESPONSE"
  by (simp add: forged_M2_def msg_set_def)

lemma M3_type:
  "m_type (msg_set MAC_TAG tag (M3_body s i tid)) = P2_M3_UAV_CONFIRM"
  "m_senderId (msg_set MAC_TAG tag (M3_body s i tid)) = i"
  by (simp_all add: M3_body_def msg_set_def)

context protocol_env
begin

lemma forged_M2_bytes:
  assumes "forgery_lands C L S now m u n2 epkB tag input2 z"
  shows "\<exists>b. msg_wireBytes C m = Some b" "m_type m = P2_M2_GS_RESPONSE"
proof -
  have "m_fields m = [NONCE_2 \<mapsto> n2, TIMESTAMP \<mapsto> encodeTimestamp C now, EPK_B \<mapsto> epkB, MAC_TAG \<mapsto> tag]"
    using assms by (auto simp: forgery_lands_def forged_M2_def msg_set_def emptyMessage_def)
  moreover have "length n2 \<le> 64" "length epkB \<le> 64" "length tag \<le> 64"
    using assms by (simp_all add: forgery_lands_def M2_admitted_def kNonceLen_def kX25519KeyLen_def)
  ultimately have "short (m_fields m)" by (simp add: short_upd)
  then show "\<exists>b. msg_wireBytes C m = Some b" by (rule wireBytes_short)
  show "m_type m = P2_M2_GS_RESPONSE" using assms by (simp add: forgery_lands_def)
qed

text \<open>The UAV node's answer to one forgery.\<close>

lemma forged_M2_answer:
  assumes lands: "forgery_lands C L S now (sm_payload msg) (un_proto n) n2 epkB tag input2 z"
    and waits: "awaiting_M2 (un_proto n) input2"
  obtains m3 b3 out n' where "un_handleMessage C L S t now msg n = Some (out, n')"
    "transmissions out = (if uv_legacyNoGsAuth (un_proto n) then [(sim_message m3, Some GroundStation)] else [])"
    "m_type m3 = P2_M3_UAV_CONFIRM" "m_senderId m3 = uv_id (un_proto n)" "msg_wireBytes C m3 = Some b3"
    "un_uavId n' = un_uavId n"
proof -
  let ?u = "un_proto n" and ?m = "sm_payload msg"
  note l = lands [unfolded forgery_lands_def] and w = waits [unfolded awaiting_M2_def]
  obtain k input3 tag3 where h: "length tag3 = 16"
    "uav_handleM2 C L S ?m now ?u = (if uv_legacyNoGsAuth ?u
       then Some (done_reply (msg_set MAC_TAG tag3 (M3_body (m_suiteId ?m) (uv_id ?u) (ds_tid (uv_state ?u)))),
         (uav_offered n2 ?u)\<lparr>uv_phase2 := u2_keyed k (u2_extended n2 input2 (uv_phase2 ?u))\<rparr>)
       else Some (fail MacVerifyFailed, uav_offered n2 ?u))"
    by (rule uav_handleM2_forged_exact [OF core_laws_axioms ossl_laws_axioms crypto_suite_axioms])
      (use l w in auto)
  define m3 where "m3 = msg_set MAC_TAG tag3 (M3_body (m_suiteId ?m) (uv_id ?u) (ds_tid (uv_state ?u)))"
  have s: "short (m_fields m3)" using w h(1) by (simp add: m3_def short_M3)
  obtain b3 where b3: "msg_wireBytes C m3 = Some b3" using wireBytes_short [OF s] by blast
  obtain b where b: "msg_wireBytes C ?m = Some b" using forged_M2_bytes(1) [OF lands] by blast
  note ty = forged_M2_bytes(2) [OF lands]
  have "\<exists>out n'. un_handleMessage C L S t now msg n = Some (out, n') \<and> un_uavId n' = un_uavId n \<and>
    transmissions out = (if uv_legacyNoGsAuth ?u then [(sim_message m3, Some GroundStation)] else [])"
    using h(2) b b3 ty
    by (cases "uv_legacyNoGsAuth ?u")
      (simp_all add: un_handleMessage_def un_counts_bytes_def un_dispatch_def un_handleM2_def un_after_P2_def
        un_sendToGs_def un_upd_defs sm_wireBytes_def Let_def m3_def [symmetric])
  then show thesis using that b3 M3_type by (metis m3_def)
qed

end

text \<open>The M3 of the target, tapped, is counted.\<close>

lemma tapped_M3:
  assumes "impersonating md a i" "0 \<le> i" "m_type m3 = P2_M3_UAV_CONFIRM" "m_senderId m3 = i"
    and "msg_wireBytes C m3 = Some b"
  shows "\<exists>md'. transmit C (sim_message m3) (Uav j) (Some GroundStation) md =
    Some ([(Attacker, sim_message m3)], md')"
  using assms by (simp add: impersonating_def transmit_def sm_wireBytes_def Let_def)

lemma counted_M3:
  assumes "impersonating md a i" "m_type m3 = P2_M3_UAV_CONFIRM" "m_senderId m3 = i"
  shows "\<exists>a'. at_run C L S first [(now, sim_message m3)] a = Some ([], a') \<and>
    attack_succeeded (as_at ''gsimpersonate'' a') \<and> at_attackMode a' = ''gsimpersonate'' \<and>
    at_expectSuccess a' = at_expectSuccess a"
  using assms
  by (simp add: impersonating_def at_handleMessage_def at_observe_def at_observeM3_def Let_def
      attack_succeeded_def)

text \<open>C16. The impersonation experiment measures exactly the missing check.  Let the attacker of the
  configuration \<open>AtkGsImpersonate\<close>, which has forged messages to its target and seen no answer yet,
  land a forgery that is fresh, well formed and wrongly tagged.  The round trip through UAV node,
  medium and attacker never fails, and afterwards the attacker has recorded a success if and only if
  the UAV runs in legacy mode; so the reported agreement of outcome and expectation holds in the
  hardened arm exactly when failure, in the legacy arm exactly when success was expected.\<close>

theorem impersonation_verdict:
  assumes "core_laws C" and "ossl_laws L" and "crypto_suite S"
    and "forgery_lands C L S now (sm_payload msg) (un_proto n) n2 epkB tag input2 z"
    and "awaiting_M2 (un_proto n) input2"
    and "impersonating md a (uv_id (un_proto n))"
  shows "\<exists>n' md' a'. impersonation_round C L S first t now msg n md a = Some (n', md', a') \<and>
    attack_succeeded (as_at ''gsimpersonate'' a') = uv_legacyNoGsAuth (un_proto n) \<and>
    outcome_matches ''gsimpersonate'' (as_at ''gsimpersonate'' a') a' =
      (uv_legacyNoGsAuth (un_proto n) = at_expectSuccess a)"
proof -
  note env = protocol_envI [OF assms(1-3)]
  obtain m3 b out n' where h: "un_handleMessage C L S t now msg n = Some (out, n')"
    "transmissions out = (if uv_legacyNoGsAuth (un_proto n) then [(sim_message m3, Some GroundStation)] else [])"
    "m_type m3 = P2_M3_UAV_CONFIRM" "m_senderId m3 = uv_id (un_proto n)" "msg_wireBytes C m3 = Some b"
    by (rule protocol_env.forged_M2_answer [OF env assms(4,5)])
  have "0 \<le> uv_id (un_proto n)" using assms(5) by (simp add: awaiting_M2_def)
  from tapped_M3 [OF assms(6) this h(3-5), of "un_uavId n'"] obtain md' where
    t: "transmit C (sim_message m3) (Uav (un_uavId n')) (Some GroundStation) md =
      Some ([(Attacker, sim_message m3)], md')" by blast
  from counted_M3 [OF assms(6) h(3,4)] obtain a' where
    a: "at_run C L S first [(now, sim_message m3)] a = Some ([], a')"
    "attack_succeeded (as_at ''gsimpersonate'' a')" "at_attackMode a' = ''gsimpersonate''"
    "at_expectSuccess a' = at_expectSuccess a" by blast
  show ?thesis
  proof (cases "uv_legacyNoGsAuth (un_proto n)")
    case True
    with h t a have "impersonation_round C L S first t now msg n md a = Some (n', md', a')"
      by (simp add: impersonation_round_def del: at_run.simps)
    with True a show ?thesis by (auto simp: outcome_matches_def attack_expected_def)
  next
    case False
    with h have "impersonation_round C L S first t now msg n md a = Some (n', md, a)"
      by (simp add: impersonation_round_def)
    with False assms(6) show ?thesis
      by (auto simp: outcome_matches_def attack_expected_def impersonating_def)
  qed
qed

theorem impersonation_verdict_witness:
  "\<exists>n md a msg n' md' a'. uv_legacyNoGsAuth (un_proto n) \<and> at_expectSuccess a \<and>
     impersonation_round ref_core ref_ossl demo_suite (\<lambda>m. TID) 0 130 msg n md a = Some (n', md', a') \<and>
     outcome_matches ''gsimpersonate'' (as_at ''gsimpersonate'' a') a'"
proof -
  have "timestampFresh 130 130 5000" by (simp add: timestampFresh_iff)
  then obtain u n2 epkB tag input2 z where h: "uv_legacyNoGsAuth u" "uv_id u = 1" "length tag = 16"
    "M2_admitted ref_core (msg_set MAC_TAG tag (M2_body ref_core (suiteIdValue (su_id demo_suite)) 1 n2 130 epkB))
       130 u n2 epkB (encodeTimestamp ref_core 130) tag input2"
    "length (u2_authKey (uv_phase2 u)) = 32" "su_mac demo_suite (u2_authKey (uv_phase2 u)) input2 \<noteq> Some tag"
    "0 < length (u2_mk (uv_phase2 u))" "length (u2_mk (uv_phase2 u)) \<le> 8160"
    "length (u2_transcript (uv_phase2 u) @ input2) \<le> 65535" "length (ds_tid (uv_state u)) \<le> 64"
    "x25519Derive ref_ossl (kp_secret (u2_ephemeral (uv_phase2 u))) epkB = (True, z)"
    by (rule demo_forgery)
  define rng where "rng = \<lparr>dk_key = replicate 32 0, dk_buffer = [], dk_offset = 0, dk_counter = 0, dk_drawn = 0,
    dk_haveSpareNormal = False, dk_spareNormal = 0\<rparr>"
  let ?n = "uav_node_new 1 3 True 0 rng u"
  let ?md = "\<lparr>md_tapEnabled = True, md_attackMode = ''impersonate'', md_attacker = Some Attacker, md_trace = []\<rparr>"
  let ?a = "as_upd ''gsimpersonate'' as_attempt (attacker_new ''gsimpersonate'' 1 100 True 3 rng)"
  let ?msg = "sim_message (forged_M2 ref_core (suiteIdValue (su_id demo_suite)) 1 n2 130 epkB tag)"
  have p: "un_proto ?n = u" by (simp add: uav_node_new_def)
  have m: "forged_M2 ref_core (suiteIdValue (su_id demo_suite)) 1 n2 130 epkB tag =
      msg_set MAC_TAG tag (M2_body ref_core (suiteIdValue (su_id demo_suite)) 1 n2 130 epkB)"
    by (simp add: forged_M2_def M2_body_def)
  have l: "forgery_lands ref_core ref_ossl demo_suite 130 (sm_payload ?msg) (un_proto ?n) n2 epkB tag input2 z"
    using h by (simp add: forgery_lands_def p m)
  have w: "awaiting_M2 (un_proto ?n) input2" using h by (simp add: awaiting_M2_def p)
  have i: "impersonating ?md ?a (uv_id (un_proto ?n))"
    by (simp add: impersonating_def p h(2)) (simp add: attacker_new_def as_at_def as_empty_def attack_succeeded_def)
  have e: "at_expectSuccess ?a" by (simp add: attacker_new_def)
  from impersonation_verdict [OF ref_core_laws refo.ossl_laws_axioms ref_env.sha3.crypto_suite_axioms l w i,
      of "\<lambda>m. TID" 0] obtain n' md' a' where
    r: "impersonation_round ref_core ref_ossl demo_suite (\<lambda>m. TID) 0 130 ?msg ?n ?md ?a = Some (n', md', a')"
    "outcome_matches ''gsimpersonate'' (as_at ''gsimpersonate'' a') a' =
      (uv_legacyNoGsAuth (un_proto ?n) = at_expectSuccess ?a)" by blast
  have leg: "uv_legacyNoGsAuth (un_proto ?n)" using h(1) p by simp
  with e r(2) have "outcome_matches ''gsimpersonate'' (as_at ''gsimpersonate'' a') a'" by simp
  with leg e r(1) show ?thesis by (intro exI conjI)
qed

end
