(* ===== verification/Inet_Apps.thy ===== *)
theory Inet_Apps
  imports Medium Ground_Station Uav
begin

text \<open>
  \<open>src_inet/apps/UavNodeInetApp.{h,cc}\<close> and \<open>src_inet/apps/GroundStationNodeInetApp.{h,cc}\<close>: the protocol
  behind UDP sockets of the INET framework.  A layer 3 address is of an arbitrary type \<open>'a\<close>, the address
  resolver a parameter.  A handler returns the application and what it does to the simulation: datagrams
  handed to the socket and scheduled timers.  Scheduling a timer that is already scheduled is an exception of
  the simulation kernel.  Accumulated compute times are clock readings and not modelled; the latency is kept
  in ticks.  Socket and lifecycle callbacks without logic of their own are left out.
\<close>

type_synonym port = int

datatype 'a app_output = SendTo bytes 'a port | ScheduleTimer simtime string

definition datagrams :: "'a app_output list \<Rightarrow> (bytes \<times> 'a \<times> port) list" where
  "datagrams out = concat (map (\<lambda>x. case x of SendTo b a p \<Rightarrow> [(b, a, p)] | _ \<Rightarrow> []) out)"

lemma datagrams_simps [simp]:
  "datagrams [] = []" "datagrams (SendTo b a p # out) = (b, a, p) # datagrams out"
  "datagrams (ScheduleTimer t s # out) = datagrams out"
  "datagrams (out @ out') = datagrams out @ datagrams out'"
  by (simp_all add: datagrams_def)

subsection \<open>The ground station\<close>

record gs_app =
  ga_numUavs :: int
  ga_rng :: drbg
  ga_proto :: gs
  ga_attemptsM1 :: int
  ga_successesM4 :: int

text \<open>\<open>sendMessage\<close> without the packet's name.\<close>

definition ga_sendMessage :: "core_lib \<Rightarrow> message \<Rightarrow> 'a \<Rightarrow> port \<Rightarrow> 'a app_output list option" where
  "ga_sendMessage C msg addr port = map_option (\<lambda>wire. [SendTo wire addr port]) (msg_encode C msg)"

text \<open>The loop of \<open>enrollAll\<close> over the PUFs of \<open>uav[i]\<close>, \<open>uav[i + 1]\<close>, ...\<close>

fun ga_enroll_loop ::
    "core_lib \<Rightarrow> ossl \<Rightarrow> suite \<Rightarrow> int \<Rightarrow> puf list \<Rightarrow> gs_app \<Rightarrow> (device_state list \<times> gs_app) option" where
  "ga_enroll_loop C L S i [] n = Some ([], n)"
| "ga_enroll_loop C L S i (P # Ps) n = do {
     (res, rng, g) \<leftarrow> enroll C L S i P (ga_rng n) (ga_proto n);
     (rec, st) \<leftarrow> res;
     (sts, n) \<leftarrow> ga_enroll_loop C L S (i + 1) Ps (n\<lparr>ga_rng := rng, ga_proto := g\<rparr>);
     Some (st # sts, n) }"

definition ga_enrollAll ::
    "core_lib \<Rightarrow> ossl \<Rightarrow> suite \<Rightarrow> puf list \<Rightarrow> gs_app \<Rightarrow> (device_state list \<times> gs_app) option" where
  "ga_enrollAll C L S Ps n = do {
     require (ga_numUavs n \<le> int (length Ps));
     ga_enroll_loop C L S 0 (take (nat (ga_numUavs n)) Ps) n }"

definition ga_socketDataArrived ::
    "core_lib \<Rightarrow> ossl \<Rightarrow> suite \<Rightarrow> u32 \<Rightarrow> 'a \<Rightarrow> port \<Rightarrow> bytes \<Rightarrow> gs_app \<Rightarrow> ('a app_output list \<times> gs_app) option" where
  "ga_socketDataArrived C L S nowMs srcAddr srcPort wire n =
     (case decodeMessage C wire (- 1) (- 1) of
        None \<Rightarrow> Some ([], n)
      | Some decoded \<Rightarrow>
          if m_type decoded = P2_M1_AUTH_REQUEST then do {
            (r, rng, g) \<leftarrow> gs_handleM1 C L S decoded nowMs (ga_rng n) (ga_proto n);
            let n = n\<lparr>ga_attemptsM1 := ga_attemptsM1 n + 1, ga_rng := rng, ga_proto := g\<rparr>;
            (if sr_ok r then do {
               out \<leftarrow> ga_sendMessage C (sr_reply r) srcAddr srcPort;
               Some (out, n) }
             else Some ([], n)) }
          else if m_type decoded = P2_M3_UAV_CONFIRM then do {
            (r, g) \<leftarrow> gs_handleM3 C L S decoded (ga_proto n);
            let n = n\<lparr>ga_proto := g\<rparr>;
            (if sr_ok r then do {
               out \<leftarrow> ga_sendMessage C (sr_reply r) srcAddr srcPort;
               Some (out, n\<lparr>ga_successesM4 := ga_successesM4 n + 1\<rparr>) }
             else Some ([], n)) }
          else Some ([], n))"

subsection \<open>The UAV\<close>

record peer_rec =
  pr_initiator :: bool
  pr_start :: simtime
  pr_success :: bool

definition pr_empty :: peer_rec where
  "pr_empty = \<lparr>pr_initiator = False, pr_start = 0, pr_success = False\<rparr>"

record 'a uav_app =
  ua_uavId :: int
  ua_numUavs :: int
  ua_fullMesh :: bool
  ua_peerAuthStart :: simtime
  ua_gsPort :: port
  ua_peerBasePort :: port
  ua_rng :: drbg
  ua_proto :: uav
  ua_gsAddr :: 'a
  ua_peerTimer :: bool
  ua_phase2Start :: simtime
  ua_phase2Success :: bool
  ua_wallLatency :: simtime
  ua_bytesSent :: nat
  ua_bytesReceived :: nat
  ua_peerAddr :: "(int, 'a) omap"
  ua_peers :: "(int, peer_rec) omap"
  ua_p3Successes :: int

definition ua_peer_at :: "int \<Rightarrow> 'a uav_app \<Rightarrow> peer_rec" where
  "ua_peer_at peer n = (case om_find (ua_peers n) peer of None \<Rightarrow> pr_empty | Some r \<Rightarrow> r)"

definition ua_peer_upd :: "int \<Rightarrow> (peer_rec \<Rightarrow> peer_rec) \<Rightarrow> 'a uav_app \<Rightarrow> 'a uav_app" where
  "ua_peer_upd peer f n = n\<lparr>ua_peers := om_set peer (f (ua_peer_at peer n)) (ua_peers n)\<rparr>"

text \<open>\<open>buildPeerTable\<close>; the resolver knows the hosts of the network.\<close>

fun ua_peer_table :: "(int \<Rightarrow> 'a option) \<Rightarrow> int \<Rightarrow> int list \<Rightarrow> (int, 'a) omap \<Rightarrow> (int, 'a) omap" where
  "ua_peer_table resolve own [] m = m"
| "ua_peer_table resolve own (i # is) m = ua_peer_table resolve own is
     (if i = own then m else case resolve i of None \<Rightarrow> m | Some a \<Rightarrow> om_set i a m)"

definition buildPeerTable :: "(int \<Rightarrow> 'a option) \<Rightarrow> 'a uav_app \<Rightarrow> 'a uav_app" where
  "buildPeerTable resolve n =
     (if ua_peerAddr n \<noteq> [] then n
      else n\<lparr>ua_peerAddr := ua_peer_table resolve (ua_uavId n) [0..ua_numUavs n - 1] (ua_peerAddr n)\<rparr>)"

definition peerByPort :: "port \<Rightarrow> 'a uav_app \<Rightarrow> int" where
  "peerByPort srcPort n =
     (let i = srcPort - ua_peerBasePort n in
      if 0 \<le> i \<and> i < ua_numUavs n \<and> i \<noteq> ua_uavId n then i else - 1)"

definition ua_sendMessage ::
    "core_lib \<Rightarrow> message \<Rightarrow> 'a \<Rightarrow> port \<Rightarrow> 'a uav_app \<Rightarrow> ('a app_output list \<times> 'a uav_app) option" where
  "ua_sendMessage C msg addr port n = do {
     wire \<leftarrow> msg_encode C msg;
     Some ([SendTo wire addr port], n\<lparr>ua_bytesSent := ua_bytesSent n + length wire\<rparr>) }"

text \<open>The replies of Phase 3 go to the table's address for the peer, if it has one.\<close>

definition ua_sendPeer ::
    "core_lib \<Rightarrow> message \<Rightarrow> int \<Rightarrow> 'a uav_app \<Rightarrow> ('a app_output list \<times> 'a uav_app) option" where
  "ua_sendPeer C msg peer n = (case om_find (ua_peerAddr n) peer of
     None \<Rightarrow> Some ([], n)
   | Some addr \<Rightarrow> ua_sendMessage C msg addr (ua_peerBasePort n + peer) n)"

definition ua_startPhase2 ::
    "core_lib \<Rightarrow> ossl \<Rightarrow> suite \<Rightarrow> puf \<Rightarrow> (int \<Rightarrow> 'a option) \<Rightarrow> simtime \<Rightarrow> u32 \<Rightarrow> 'a uav_app \<Rightarrow>
     ('a app_output list \<times> 'a uav_app) option" where
  "ua_startPhase2 C L S P resolve t nowMs n = do {
     let n = (buildPeerTable resolve n)\<lparr>ua_phase2Start := t\<rparr>;
     (r, rng, u) \<leftarrow> startPhase2 C L S P nowMs (ua_rng n) (ua_proto n);
     let n = n\<lparr>ua_rng := rng, ua_proto := u\<rparr>;
     (if \<not> sr_ok r then Some ([], n)
      else ua_sendMessage C (sr_reply r) (ua_gsAddr n) (ua_gsPort n) n) }"

definition ua_startPhase3 ::
    "core_lib \<Rightarrow> ossl \<Rightarrow> suite \<Rightarrow> simtime \<Rightarrow> u32 \<Rightarrow> int \<Rightarrow> 'a uav_app \<Rightarrow> ('a app_output list \<times> 'a uav_app) option" where
  "ua_startPhase3 C L S t nowMs peer n = do {
     (r, rng, u) \<leftarrow> startPhase3 C L S peer nowMs (ua_rng n) (ua_proto n);
     let n = n\<lparr>ua_rng := rng, ua_proto := u\<rparr>;
     (if \<not> sr_ok r then Some ([], n)
      else ua_sendPeer C (sr_reply r) peer
        (ua_peer_upd peer (\<lambda>p. p\<lparr>pr_initiator := True, pr_start := t\<rparr>) n)) }"

fun ua_round ::
    "core_lib \<Rightarrow> ossl \<Rightarrow> suite \<Rightarrow> simtime \<Rightarrow> u32 \<Rightarrow> int list \<Rightarrow> 'a uav_app \<Rightarrow>
     ('a app_output list \<times> 'a uav_app) option" where
  "ua_round C L S t nowMs [] n = Some ([], n)"
| "ua_round C L S t nowMs (peer # peers) n = do {
     (out, n) \<leftarrow> ua_startPhase3 C L S t nowMs peer n;
     (outs, n) \<leftarrow> ua_round C L S t nowMs peers n;
     Some (out @ outs, n) }"

definition ua_startPhase3Round ::
    "core_lib \<Rightarrow> ossl \<Rightarrow> suite \<Rightarrow> simtime \<Rightarrow> u32 \<Rightarrow> 'a uav_app \<Rightarrow> ('a app_output list \<times> 'a uav_app) option" where
  "ua_startPhase3Round C L S t nowMs n =
     (if \<not> ua_fullMesh n then Some ([], n)
      else ua_round C L S t nowMs [ua_uavId n + 1..ua_numUavs n - 1] n)"

text \<open>The two timers; a timer that fires is no longer scheduled.\<close>

definition ua_handleTimer ::
    "core_lib \<Rightarrow> ossl \<Rightarrow> suite \<Rightarrow> puf \<Rightarrow> (int \<Rightarrow> 'a option) \<Rightarrow> simtime \<Rightarrow> u32 \<Rightarrow> string \<Rightarrow> 'a uav_app \<Rightarrow>
     ('a app_output list \<times> 'a uav_app) option" where
  "ua_handleTimer C L S P resolve t nowMs name n =
     (if name = ''startPhase2Inet'' then ua_startPhase2 C L S P resolve t nowMs n
      else if name = ''startPhase3Inet'' then ua_startPhase3Round C L S t nowMs (n\<lparr>ua_peerTimer := False\<rparr>)
      else Some ([], n))"

text \<open>\<open>scheduleAt(\<dots>, peerTimer_)\<close>.\<close>

definition ua_schedule :: "simtime \<Rightarrow> 'a uav_app \<Rightarrow> ('a app_output list \<times> 'a uav_app) option" where
  "ua_schedule t n = (if ua_peerTimer n then None
     else Some ([ScheduleTimer t ''startPhase3Inet''], n\<lparr>ua_peerTimer := True\<rparr>))"

definition ua_dispatch ::
    "core_lib \<Rightarrow> ossl \<Rightarrow> suite \<Rightarrow> simtime \<Rightarrow> u32 \<Rightarrow> message \<Rightarrow> 'a uav_app \<Rightarrow>
     ('a app_output list \<times> 'a uav_app) option" where
  "ua_dispatch C L S t nowMs m n = (case m_type m of
     P2_M2_GS_RESPONSE \<Rightarrow> do {
       (r, u) \<leftarrow> uav_handleM2 C L S m nowMs (ua_proto n);
       let n = n\<lparr>ua_proto := u\<rparr>;
       (if sr_ok r then ua_sendMessage C (sr_reply r) (ua_gsAddr n) (ua_gsPort n) n else Some ([], n)) }
   | P2_M4_GS_CONFIRM \<Rightarrow> do {
       (r, u) \<leftarrow> uav_handleM4 C S m (ua_proto n);
       let n = n\<lparr>ua_proto := u\<rparr>;
       (if sr_ok r then ua_schedule (max t (ua_peerAuthStart n))
          (n\<lparr>ua_phase2Success := True, ua_wallLatency := t - ua_phase2Start n\<rparr>)
        else Some ([], n)) }
   | P3_P1_PEER_REQUEST \<Rightarrow> do {
       (r, rng, u) \<leftarrow> uav_handleP1 C L S m nowMs (ua_rng n) (ua_proto n);
       let n = n\<lparr>ua_rng := rng, ua_proto := u\<rparr>;
       (if \<not> sr_ok r then Some ([], n)
        else ua_sendPeer C (sr_reply r) (m_senderId m)
          (ua_peer_upd (m_senderId m) (\<lambda>p. p\<lparr>pr_initiator := False, pr_start := t\<rparr>) n)) }
   | P3_P2_PEER_RESPONSE \<Rightarrow> do {
       (r, u) \<leftarrow> uav_handleP2 C L S m (ua_proto n);
       let n = n\<lparr>ua_proto := u\<rparr>;
       (if \<not> sr_ok r then Some ([], n)
        else ua_sendPeer C (sr_reply r) (m_senderId m)
          ((ua_peer_upd (m_senderId m) (\<lambda>p. p\<lparr>pr_success := True\<rparr>) n)\<lparr>ua_p3Successes := ua_p3Successes n + 1\<rparr>)) }
   | P3_P3_PEER_COMPLETE \<Rightarrow> do {
       (r, u) \<leftarrow> uav_handleP3 C L S m (ua_proto n);
       let n = n\<lparr>ua_proto := u\<rparr>;
       (if \<not> sr_ok r then Some ([], n)
        else Some ([], (ua_peer_upd (m_senderId m) (\<lambda>p. p\<lparr>pr_success := True\<rparr>) n)
          \<lparr>ua_p3Successes := ua_p3Successes n + 1\<rparr>)) }
   | _ \<Rightarrow> Some ([], n))"

definition ua_socketDataArrived ::
    "core_lib \<Rightarrow> ossl \<Rightarrow> suite \<Rightarrow> simtime \<Rightarrow> u32 \<Rightarrow> port \<Rightarrow> bytes \<Rightarrow> 'a uav_app \<Rightarrow>
     ('a app_output list \<times> 'a uav_app) option" where
  "ua_socketDataArrived C L S t nowMs srcPort wire n =
     (let n = n\<lparr>ua_bytesReceived := ua_bytesReceived n + length wire\<rparr>;
          sender = (if srcPort = ua_gsPort n then - 1 else peerByPort srcPort n)
      in case decodeMessage C wire sender (- 1) of
        None \<Rightarrow> Some ([], n)
      | Some decoded \<Rightarrow> ua_dispatch C L S t nowMs decoded n)"

text \<open>\<open>handleStopOperation\<close> and \<open>handleCrashOperation\<close> cancel the timers.\<close>

definition ua_stop :: "'a uav_app \<Rightarrow> 'a uav_app" where
  "ua_stop n = n\<lparr>ua_peerTimer := False\<rparr>"

end
