(* ===== verification/Inet_Run.thy ===== *)
theory Inet_Run
  imports Inet_Apps Phase2 Peer
begin

text \<open>
  Phase 2 between the INET applications: every message is encoded, sent as a datagram and decoded
  without the identities the simulation messages carry.  The handshake still completes, because no
  handler of Phase 2 looks at them; and what a repeated M4 does to the UAV application.
\<close>

subsection \<open>Decoded messages\<close>

definition arrived :: "int \<Rightarrow> message \<Rightarrow> message" where
  "arrived s m = m\<lparr>m_senderId := s, m_receiverId := - 1, m_sessionId := 0\<rparr>"

lemma arrived_simps [simp]:
  "m_type (arrived s m) = m_type m" "m_suiteId (arrived s m) = m_suiteId m" "m_fields (arrived s m) = m_fields m"
  "msg_get (arrived s m) = msg_get m" "msg_has (arrived s m) = msg_has m" "m_senderId (arrived s m) = s"
  by (simp_all add: arrived_def msg_get_def msg_has_def fun_eq_iff)

text \<open>Phase 2 does not look at the identities of a message.\<close>

lemma handleM1_arrived: "gs_handleM1 C L S (arrived s m) now rng g = gs_handleM1 C L S m now rng g"
  by (simp add: gs_handleM1_def gs_respond_def cong: Option.bind_cong option.case_cong if_cong)

lemma handleM2_arrived: "uav_handleM2 C L S (arrived s m) now u = uav_handleM2 C L S m now u"
  by (simp add: uav_handleM2_def uav_confirm_def cong: Option.bind_cong option.case_cong if_cong)

lemma handleM3_arrived: "gs_handleM3 C L S (arrived s m) g = gs_handleM3 C L S m g"
  by (simp add: gs_handleM3_def gs_package_def cong: Option.bind_cong option.case_cong if_cong)

lemma handleM4_arrived: "uav_handleM4 C S (arrived s m) u = uav_handleM4 C S m u"
  by (simp add: uav_handleM4_def cong: Option.bind_cong option.case_cong if_cong)

lemmas handle_arrived = handleM1_arrived handleM2_arrived handleM3_arrived handleM4_arrived

text \<open>Only messages of the right type are answered.\<close>

lemma handle_types:
  "gs_handleM1 C L S m now rng g = Some (done_reply r, rng', g') \<Longrightarrow> m_type m = P2_M1_AUTH_REQUEST"
  "uav_handleM2 C L S m now u = Some (done_reply r, u') \<Longrightarrow> m_type m = P2_M2_GS_RESPONSE"
  "gs_handleM3 C L S m g = Some (done_reply r, g') \<Longrightarrow> m_type m = P2_M3_UAV_CONFIRM"
  "uav_handleM4 C S m u = Some (done_quiet, u') \<Longrightarrow> m_type m = P2_M4_GS_CONFIRM"
  by (rule ccontr; simp add: gs_handleM1_def uav_handleM2_def gs_handleM3_def uav_handleM4_def
      fail_def done_reply_def done_quiet_def)+

subsection \<open>The applications on honest messages\<close>

context core_tlv
begin

lemma decode_sent: "msg_encode C m = Some b \<Longrightarrow> m_type m \<noteq> CTRL_ABORT \<Longrightarrow>
  decodeMessage C b s (- 1) = Some (arrived s m)"
  using decodeMessage_encode [of m b s "- 1"] by (simp add: arrived_def)

lemma ga_M1:
  assumes "msg_encode C m1 = Some b1" "msg_encode C m2 = Some b2"
    and "gs_handleM1 C L S m1 now (ga_rng n) (ga_proto n) = Some (done_reply m2, rng, g)"
  shows "ga_socketDataArrived C L S now addr port b1 n = Some ([SendTo b2 addr port],
    n\<lparr>ga_attemptsM1 := ga_attemptsM1 n + 1, ga_rng := rng, ga_proto := g\<rparr>)"
  using assms handle_types(1) [OF assms(3)]
  by (simp add: ga_socketDataArrived_def decode_sent handle_arrived ga_sendMessage_def)

lemma ga_M3:
  assumes "msg_encode C m3 = Some b3" "msg_encode C m4 = Some b4"
    and "gs_handleM3 C L S m3 (ga_proto n) = Some (done_reply m4, g)"
  shows "ga_socketDataArrived C L S now addr port b3 n = Some ([SendTo b4 addr port],
    n\<lparr>ga_proto := g, ga_successesM4 := ga_successesM4 n + 1\<rparr>)"
  using assms handle_types(3) [OF assms(3)]
  by (simp add: ga_socketDataArrived_def decode_sent handle_arrived ga_sendMessage_def)

lemma ua_M2:
  assumes "msg_encode C m2 = Some b2" "msg_encode C m3 = Some b3"
    and "uav_handleM2 C L S m2 now (ua_proto n) = Some (done_reply m3, u)"
  shows "ua_socketDataArrived C L S t now p b2 n = Some ([SendTo b3 (ua_gsAddr n) (ua_gsPort n)],
    n\<lparr>ua_bytesReceived := ua_bytesReceived n + length b2, ua_proto := u,
      ua_bytesSent := ua_bytesSent n + length b3\<rparr>)"
  using assms handle_types(2) [OF assms(3)]
  by (simp add: ua_socketDataArrived_def decode_sent ua_dispatch_def handle_arrived ua_sendMessage_def Let_def)

lemma ua_M4:
  assumes "msg_encode C m4 = Some b4" "uav_handleM4 C S m4 (ua_proto n) = Some (done_quiet, u)"
  shows "ua_socketDataArrived C L S t now p b4 n = (if ua_peerTimer n then None
    else Some ([ScheduleTimer (max t (ua_peerAuthStart n)) ''startPhase3Inet''],
      n\<lparr>ua_bytesReceived := ua_bytesReceived n + length b4, ua_proto := u, ua_phase2Success := True,
        ua_wallLatency := t - ua_phase2Start n, ua_peerTimer := True\<rparr>))"
  using assms handle_types(4) [OF assms(2)]
  by (simp add: ua_socketDataArrived_def decode_sent ua_dispatch_def handle_arrived ua_schedule_def Let_def)

end

subsection \<open>The handshake over datagrams\<close>

text \<open>The one datagram an application sent, if it went where it should.\<close>

definition the_datagram :: "'a app_output list \<Rightarrow> 'a \<Rightarrow> port \<Rightarrow> bytes option" where
  "the_datagram out addr port = (case datagrams out of
     [(b, a, p)] \<Rightarrow> if a = addr \<and> p = port then Some b else None | _ \<Rightarrow> None)"

lemma the_datagram_simps [simp]: "the_datagram [SendTo b addr port] addr port = Some b"
  by (simp add: the_datagram_def)

text \<open>The UAV at \<open>self\<close> starts; each datagram arrives at its addressee.\<close>

definition inet_phase2 ::
    "core_lib \<Rightarrow> ossl \<Rightarrow> suite \<Rightarrow> puf \<Rightarrow> (int \<Rightarrow> 'a option) \<Rightarrow> 'a \<times> port \<Rightarrow> (simtime \<times> u32) list \<Rightarrow>
     'a uav_app \<Rightarrow> gs_app \<Rightarrow> ('a uav_app \<times> gs_app) option" where
  "inet_phase2 C L S P resolve self clock n a =
     (let tk = (\<lambda>i. fst (clock ! i)); ms = (\<lambda>i. snd (clock ! i)); gsAddr = ua_gsAddr n; gsPort = ua_gsPort n
      in do {
     (out, n) \<leftarrow> ua_handleTimer C L S P resolve (tk 0) (ms 0) ''startPhase2Inet'' n;
     b1 \<leftarrow> the_datagram out gsAddr gsPort;
     (out, a) \<leftarrow> ga_socketDataArrived C L S (ms 1) (fst self) (snd self) b1 a;
     b2 \<leftarrow> the_datagram out (fst self) (snd self);
     (out, n) \<leftarrow> ua_socketDataArrived C L S (tk 2) (ms 2) gsPort b2 n;
     b3 \<leftarrow> the_datagram out gsAddr gsPort;
     (out, a) \<leftarrow> ga_socketDataArrived C L S (ms 3) (fst self) (snd self) b3 a;
     b4 \<leftarrow> the_datagram out (fst self) (snd self);
     (out, n) \<leftarrow> ua_socketDataArrived C L S (tk 4) (ms 4) gsPort b4 n;
     Some (n, a) })"

lemma buildPeerTable_simps [simp]:
  "ua_rng (buildPeerTable R n) = ua_rng n" "ua_proto (buildPeerTable R n) = ua_proto n"
  "ua_gsAddr (buildPeerTable R n) = ua_gsAddr n" "ua_gsPort (buildPeerTable R n) = ua_gsPort n"
  "ua_peerTimer (buildPeerTable R n) = ua_peerTimer n"
  by (simp_all add: buildPeerTable_def)

context protocol_env
begin

lemma inet_phase2_honest:
  assumes inv: "gs_inv (ga_proto a)" and rngs: "drbg_ok L rng1" "drbg_ok L (ga_rng a)"
    and found: "findByTid (ds_tid (uv_state (ua_proto n))) (ga_proto a) = Some rec"
    and prov: "ds_provisioned (uv_state (ua_proto n))"
    and regen: "regenerateMasterKey C S P (ua_rng n) (ua_proto n) = Some (Some (dr_mk rec), rng1)"
    and clocks: "timestampFresh (snd (clock ! 1)) (snd (clock ! 0)) (gs_windowMs (ga_proto a))"
      "timestampFresh (snd (clock ! 2)) (snd (clock ! 1)) (uv_windowMs (ua_proto n))"
    and unseen: "\<forall>x r. drbg_bytes L kNonceLen rng1 = Some (x, r) \<longrightarrow> x \<notin> rc_seen (gs_replay (ga_proto a))"
      "\<forall>x r. drbg_bytes L kNonceLen (ga_rng a) = Some (x, r) \<longrightarrow> x \<notin> rc_seen (uv_replay (ua_proto n))"
    and fleet: "length (gs_devices (ga_proto a)) \<le> 1200" and timer: "\<not> ua_peerTimer n"
  obtains n' a' b n4 T where "inet_phase2 C L S P R self clock n a = Some (n', a')" "ua_phase2Success n'"
    "ua_peerTimer n'" "ga_successesM4 a' = ga_successesM4 a + 1"
    "phase2_agreed C S (ua_proto n) (ga_proto a) rec (ua_proto n') (ga_proto a')"
    "ua_socketDataArrived C L S (fst (clock ! 4)) (snd (clock ! 4)) (ua_gsPort n) b n4 =
      Some ([ScheduleTimer T ''startPhase3Inet''], n')"
proof (rule phase2_first_half [OF inv rngs found prov regen clocks(1) unseen(1)])
  fix ak n1 n2 eph eph2 input1 input2 tag2 u1 g2 m1 m2 urng' grng'
  assume mid: "M2_under_way C L S (snd (clock ! 0)) (snd (clock ! 1)) (ua_proto n) (ga_proto a) rec
      ak n1 n2 eph eph2 input1 input2 tag2 u1 g2 m2"
    and s1: "startPhase2 C L S P (snd (clock ! 0)) (ua_rng n) (ua_proto n) = Some (done_reply m1, urng', u1)"
    and s2: "gs_handleM1 C L S m1 (snd (clock ! 1)) (ga_rng a) (ga_proto a) = Some (done_reply m2, grng', g2)"
    and nn: "\<exists>r. drbg_bytes L kNonceLen (ga_rng a) = Some (n2, r)"
    and enc: "\<exists>b. msg_encode C m1 = Some b" "\<exists>b. msg_encode C m2 = Some b"
  have "n2 \<notin> rc_seen (uv_replay (ua_proto n))" using unseen(2) nn by blast
  from phase2_second_half [OF mid inv found clocks(2) this] obtain m3 m4 u3 g4 u5 where
    s3: "uav_handleM2 C L S m2 (snd (clock ! 2)) u1 = Some (done_reply m3, u3)"
    and s4: "gs_handleM3 C L S m3 g2 = Some (done_reply m4, g4)"
    and s5: "uav_handleM4 C S m4 u3 = Some (done_quiet, u5)"
    and agreed: "phase2_agreed C S (ua_proto n) (ga_proto a) rec u5 g4"
    and enc34: "\<exists>b. msg_encode C m3 = Some b" "\<exists>b. msg_encode C m4 = Some b" using fleet by metis
  obtain b1 b2 b3 b4 where b: "msg_encode C m1 = Some b1" "msg_encode C m2 = Some b2"
    "msg_encode C m3 = Some b3" "msg_encode C m4 = Some b4" using enc enc34 by blast
  define n1 where "n1 = (buildPeerTable R n)\<lparr>ua_phase2Start := fst (clock ! 0), ua_rng := urng', ua_proto := u1,
    ua_bytesSent := ua_bytesSent (buildPeerTable R n) + length b1\<rparr>"
  have r1: "ua_handleTimer C L S P R (fst (clock ! 0)) (snd (clock ! 0)) ''startPhase2Inet'' n =
      Some ([SendTo b1 (ua_gsAddr n) (ua_gsPort n)], n1)"
    using s1 b(1) by (simp add: ua_handleTimer_def ua_startPhase2_def ua_sendMessage_def n1_def Let_def)
  define a1 where "a1 = a\<lparr>ga_attemptsM1 := ga_attemptsM1 a + 1, ga_rng := grng', ga_proto := g2\<rparr>"
  note r2 = ga_M1 [OF b(1,2) s2, of "fst self" "snd self", folded a1_def]
  define n2 where "n2 = n1\<lparr>ua_bytesReceived := ua_bytesReceived n1 + length b2, ua_proto := u3,
    ua_bytesSent := ua_bytesSent n1 + length b3\<rparr>"
  have n1: "ua_proto n1 = u1" "ua_gsAddr n1 = ua_gsAddr n" "ua_gsPort n1 = ua_gsPort n" "\<not> ua_peerTimer n1"
    using timer by (simp_all add: n1_def)
  have r3: "ua_socketDataArrived C L S (fst (clock ! 2)) (snd (clock ! 2)) (ua_gsPort n) b2 n1 =
      Some ([SendTo b3 (ua_gsAddr n) (ua_gsPort n)], n2)"
    using ua_M2 [OF b(2,3), of L S "snd (clock ! 2)" n1 u3] s3 n1 by (simp add: n2_def)
  define a2 where "a2 = a1\<lparr>ga_proto := g4, ga_successesM4 := ga_successesM4 a1 + 1\<rparr>"
  have r4: "ga_socketDataArrived C L S (snd (clock ! 3)) (fst self) (snd self) b3 a1 =
      Some ([SendTo b4 (fst self) (snd self)], a2)"
    using ga_M3 [OF b(3,4), of L S a1 g4] s4 by (simp add: a1_def a2_def)
  have n2: "ua_proto n2 = u3" "\<not> ua_peerTimer n2" using n1 by (simp_all add: n2_def)
  note r5 = ua_M4 [OF b(4), of S n2 u5 L "fst (clock ! 4)" "snd (clock ! 4)" "ua_gsPort n", unfolded n2(1), OF s5]
  define n' where "n' = n2\<lparr>ua_bytesReceived := ua_bytesReceived n2 + length b4, ua_proto := u5,
    ua_phase2Success := True, ua_wallLatency := fst (clock ! 4) - ua_phase2Start n2, ua_peerTimer := True\<rparr>"
  have r5: "ua_socketDataArrived C L S (fst (clock ! 4)) (snd (clock ! 4)) (ua_gsPort n) b4 n2 =
      Some ([ScheduleTimer (max (fst (clock ! 4)) (ua_peerAuthStart n2)) ''startPhase3Inet''], n')"
    using r5 n2(2) by (simp add: n'_def)
  show ?thesis
  proof (rule that [OF _ _ _ _ _ r5])
    show "inet_phase2 C L S P R self clock n a = Some (n', a2)"
      by (simp add: inet_phase2_def r1 r2 r3 r4 r5 Let_def del: One_nat_def)
  qed (use agreed in \<open>simp_all add: n'_def a2_def a1_def\<close>)
qed

end

text \<open>C18. Phase 2 between the INET applications: an enrolled UAV whose timer starts Phase 2 and a ground
  station with at most 1200 devices exchange four UDP datagrams, each encoded, addressed, delivered and
  decoded without the identities of the simulation.  No application throws, both sides hold the same
  session key, the UAV has its credentials and its new temporary identity, Phase 3 is scheduled and the
  ground station counts one success.\<close>

theorem inet_phase2_authenticates:
  assumes "core_laws C" and "ossl_laws L" and "crypto_suite S" and "puf_model C L P"
    and "gs_reach C L S p w g0 grng0" and "fe_sizes p" and "8 \<le> fp_keyBits p"
    and "0 \<le> i" and "i < 65535"
    and "enroll C L S i P grng0 g0 = Some (Some (rec, st), ga_rng a, ga_proto a)"
    and "findByTid (dr_tid rec) g0 = None"
    and "uv_state (ua_proto n) = st" and "uv_feParams (ua_proto n) = p"
    and "reading_agrees C P p (dr_challenge rec) (ua_rng n) urng1" and "drbg_ok L urng1"
    and "timestampFresh (snd (clock ! 1)) (snd (clock ! 0)) (gs_windowMs (ga_proto a))"
    and "timestampFresh (snd (clock ! 2)) (snd (clock ! 1)) (uv_windowMs (ua_proto n))"
    and "\<forall>x r. drbg_bytes L kNonceLen urng1 = Some (x, r) \<longrightarrow> x \<notin> rc_seen (gs_replay (ga_proto a))"
    and "\<forall>x r. drbg_bytes L kNonceLen (ga_rng a) = Some (x, r) \<longrightarrow> x \<notin> rc_seen (uv_replay (ua_proto n))"
    and "length (gs_devices (ga_proto a)) \<le> 1200" and "\<not> ua_peerTimer n"
  shows "\<exists>n' a'. inet_phase2 C L S P resolve self clock n a = Some (n', a') \<and> ua_phase2Success n' \<and>
    ua_peerTimer n' \<and> ga_successesM4 a' = ga_successesM4 a + 1 \<and>
    phase2_agreed C S (ua_proto n) (ga_proto a) rec (ua_proto n') (ga_proto a')"
proof -
  note env = protocol_envI [OF assms(1-3)]
  note e = protocol_env.enrolled [OF env assms(4-14)]
  show ?thesis
    by (rule protocol_env.inet_phase2_honest [OF env e(1) assms(15) e(2-5) assms(16-21)]) blast
qed

definition demo_uav_app :: "drbg \<Rightarrow> uav \<Rightarrow> nat uav_app" where
  "demo_uav_app rng u = \<lparr>ua_uavId = 1, ua_numUavs = 2, ua_fullMesh = True, ua_peerAuthStart = 0,
     ua_gsPort = 5000, ua_peerBasePort = 6000, ua_rng = rng, ua_proto = u, ua_gsAddr = 7,
     ua_peerTimer = False, ua_phase2Start = 0, ua_phase2Success = False, ua_wallLatency = 0,
     ua_bytesSent = 0, ua_bytesReceived = 0, ua_peerAddr = [], ua_peers = [], ua_p3Successes = 0\<rparr>"

definition demo_clock :: "(simtime \<times> u32) list" where
  "demo_clock = [(10, 100), (20, 130), (30, 160), (40, 190), (50, 220)]"

lemma demo_inet:
  obtains rng u grng g g0 grng0 rec st n a urng1 where
    "n = demo_uav_app rng u"
    "a = \<lparr>ga_numUavs = 2, ga_rng = grng, ga_proto = g, ga_attemptsM1 = 0, ga_successesM4 = 0\<rparr>"
    "gs_reach ref_core ref_ossl demo_suite fe_default 5000 g0 grng0" "(0::int) \<le> 1" "(1::int) < 65535"
    "enroll ref_core ref_ossl demo_suite 1 demo_puf grng0 g0 = Some (Some (rec, st), ga_rng a, ga_proto a)"
    "findByTid (dr_tid rec) g0 = None" "uv_state (ua_proto n) = st" "uv_feParams (ua_proto n) = fe_default"
    "reading_agrees ref_core demo_puf fe_default (dr_challenge rec) (ua_rng n) urng1" "drbg_ok ref_ossl urng1"
    "timestampFresh (snd (demo_clock ! 1)) (snd (demo_clock ! 0)) (gs_windowMs (ga_proto a))"
    "timestampFresh (snd (demo_clock ! 2)) (snd (demo_clock ! 1)) (uv_windowMs (ua_proto n))"
    "\<forall>x r. drbg_bytes ref_ossl kNonceLen urng1 = Some (x, r) \<longrightarrow> x \<notin> rc_seen (gs_replay (ga_proto a))"
    "\<forall>x r. drbg_bytes ref_ossl kNonceLen (ga_rng a) = Some (x, r) \<longrightarrow> x \<notin> rc_seen (uv_replay (ua_proto n))"
    "length (gs_devices (ga_proto a)) \<le> 1200" "\<not> ua_peerTimer n"
proof -
  obtain rng g0 grng0 rec st grng g where d: "drbg_ok ref_ossl rng"
    "gs_new ref_ossl demo_suite fe_default 5000 rng = Some (g0, grng0)"
    "gs_reach ref_core ref_ossl demo_suite fe_default 5000 g0 grng0"
    "enroll ref_core ref_ossl demo_suite 1 demo_puf grng0 g0 = Some (Some (rec, st), grng, g)"
    "findByTid (dr_tid rec) g0 = None" "rc_seen (gs_replay g) = {}" "gs_windowMs g = 5000" "gs_devices g0 = []"
    by (rule demo_enrolled)
  obtain urng1 where r: "reading_agrees ref_core demo_puf fe_default (dr_challenge rec) rng urng1"
    "drbg_ok ref_ossl urng1" using demo_reading [OF d(1)] by blast
  have one: "length (gs_devices g) \<le> 1200" by (rule ref_proto.enroll_Some [OF d(4)]) (simp add: d(8))
  show thesis
    by (rule that [of "demo_uav_app rng (provision st (uav_new 1 fe_default 5000))" rng
        "provision st (uav_new 1 fe_default 5000)"
        "\<lparr>ga_numUavs = 2, ga_rng = grng, ga_proto = g, ga_attemptsM1 = 0, ga_successesM4 = 0\<rparr>" grng g g0 grng0 rec st urng1])
      (use d r one in \<open>simp_all add: demo_uav_app_def demo_clock_def provision_def uav_new_def rc_inv_new
        timestampFresh_iff del: One_nat_def\<close>)
qed

theorem inet_phase2_authenticates_witness:
  "\<exists>rng u grng g n' a' rec. inet_phase2 ref_core ref_ossl demo_suite demo_puf (\<lambda>i. Some (nat i)) (9, 6001)
       demo_clock (demo_uav_app rng u)
       \<lparr>ga_numUavs = 2, ga_rng = grng, ga_proto = g, ga_attemptsM1 = 0, ga_successesM4 = 0\<rparr> = Some (n', a') \<and>
     ua_phase2Success n' \<and> ga_successesM4 a' = 1 \<and>
     phase2_agreed ref_core demo_suite u g rec (ua_proto n') (ga_proto a')"
proof (rule demo_inet)
  fix rng u grng g g0 grng0 rec st n a urng1
  assume h: "n = demo_uav_app rng u"
    "a = \<lparr>ga_numUavs = 2, ga_rng = grng, ga_proto = g, ga_attemptsM1 = 0, ga_successesM4 = 0\<rparr>"
    "gs_reach ref_core ref_ossl demo_suite fe_default 5000 g0 grng0" "(0::int) \<le> 1" "(1::int) < 65535"
    "enroll ref_core ref_ossl demo_suite 1 demo_puf grng0 g0 = Some (Some (rec, st), ga_rng a, ga_proto a)"
    "findByTid (dr_tid rec) g0 = None" "uv_state (ua_proto n) = st" "uv_feParams (ua_proto n) = fe_default"
    "reading_agrees ref_core demo_puf fe_default (dr_challenge rec) (ua_rng n) urng1" "drbg_ok ref_ossl urng1"
    "timestampFresh (snd (demo_clock ! 1)) (snd (demo_clock ! 0)) (gs_windowMs (ga_proto a))"
    "timestampFresh (snd (demo_clock ! 2)) (snd (demo_clock ! 1)) (uv_windowMs (ua_proto n))"
    "\<forall>x r. drbg_bytes ref_ossl kNonceLen urng1 = Some (x, r) \<longrightarrow> x \<notin> rc_seen (gs_replay (ga_proto a))"
    "\<forall>x r. drbg_bytes ref_ossl kNonceLen (ga_rng a) = Some (x, r) \<longrightarrow> x \<notin> rc_seen (uv_replay (ua_proto n))"
    "length (gs_devices (ga_proto a)) \<le> 1200" "\<not> ua_peerTimer n"
  obtain n' a' where "inet_phase2 ref_core ref_ossl demo_suite demo_puf (\<lambda>i. Some (nat i)) (9, 6001)
      demo_clock n a = Some (n', a')" "ua_phase2Success n'" "ga_successesM4 a' = ga_successesM4 a + 1"
      "phase2_agreed ref_core demo_suite (ua_proto n) (ga_proto a) rec (ua_proto n') (ga_proto a')"
    using inet_phase2_authenticates [OF ref_core_laws refo.ossl_laws_axioms ref_env.sha3.crypto_suite_axioms
      ref_puf.ideal.puf_model_axioms h(3) demo_params(1,2) h(4-17)] by blast
  then show ?thesis using h(1,2) by (intro exI conjI) (auto simp: demo_uav_app_def)
qed

subsection \<open>A repeated M4\<close>

lemma uav_handleM4_again:
  assumes "uav_handleM4 C S m u = Some (done_quiet, u')"
  shows "uav_handleM4 C S m u' = Some (done_quiet, u')"
proof -
  have nonce: "msg_has m AEAD_NONCE"
    using assms handle_types(4) [OF assms] by (rule_tac ccontr) (simp add: uav_handleM4_def fail_def done_quiet_def Let_def split: if_splits)
  from assms show ?thesis
  proof (cases rule: uav_handleM4_cases)
    case refused then show ?thesis by (simp add: done_quiet_def)
  next
    case (opened creds tids tidNew kn aad package pt)
    show ?thesis
      using uav_handleM4_Some [of u' m package S kn C aad pt creds tids tidNew] opened nonce
        handle_types(4) [OF assms] by (auto split: if_splits)
  qed
qed

lemma ua_no_timer [simp]:
  "ua_sendMessage C m addr port n = Some (out, n') \<Longrightarrow> ScheduleTimer T s \<notin> set out"
  "ua_sendPeer C m peer n = Some (out, n') \<Longrightarrow> ScheduleTimer T s \<notin> set out"
  by (auto simp: ua_sendMessage_def ua_sendPeer_def Option.bind_eq_Some_conv split: option.splits)

lemma ua_schedules_only_on_M4:
  assumes "ua_dispatch C L S t now m n = Some (out, n')" and "ScheduleTimer T s \<in> set out"
  obtains u where "m_type m = P2_M4_GS_CONFIRM" "uav_handleM4 C S m (ua_proto n) = Some (done_quiet, u)"
    "n' = n\<lparr>ua_proto := u, ua_phase2Success := True, ua_wallLatency := t - ua_phase2Start n, ua_peerTimer := True\<rparr>"
proof -
  have type: "m_type m = P2_M4_GS_CONFIRM"
  proof (rule ccontr)
    assume "m_type m \<noteq> P2_M4_GS_CONFIRM"
    with assms show False
      by (auto simp: ua_dispatch_def Let_def Option.bind_eq_Some_conv
        split: message_type.splits if_splits)
  qed
  with assms obtain r u where h: "uav_handleM4 C S m (ua_proto n) = Some (r, u)" "sr_ok r"
    "n' = n\<lparr>ua_proto := u, ua_phase2Success := True, ua_wallLatency := t - ua_phase2Start n, ua_peerTimer := True\<rparr>"
    by (auto simp: ua_dispatch_def ua_schedule_def Let_def Option.bind_eq_Some_conv split: if_splits)
  moreover from h(1) have "r = done_quiet" by (cases rule: uav_handleM4_cases) (use h(2) in simp_all)
  ultimately show thesis using that type by simp
qed

text \<open>Who a datagram from a port is taken to come from.\<close>

definition ua_sender :: "port \<Rightarrow> 'a uav_app \<Rightarrow> int" where
  "ua_sender p n = (if p = ua_gsPort n then - 1 else peerByPort p n)"

lemma ua_socketDataArrived_sender: "ua_socketDataArrived C L S t now p b n =
    (case decodeMessage C b (ua_sender p n) (- 1) of
       None \<Rightarrow> Some ([], n\<lparr>ua_bytesReceived := ua_bytesReceived n + length b\<rparr>)
     | Some m \<Rightarrow> ua_dispatch C L S t now m (n\<lparr>ua_bytesReceived := ua_bytesReceived n + length b\<rparr>))"
  by (cases "p = ua_gsPort n")
    (simp_all add: ua_socketDataArrived_def ua_sender_def peerByPort_def Let_def)

lemma ua_M4_decoded:
  assumes "decodeMessage C b (ua_sender p n) (- 1) = Some m"
    and "m_type m = P2_M4_GS_CONFIRM" "uav_handleM4 C S m (ua_proto n) = Some (done_quiet, u)"
  shows "ua_socketDataArrived C L S t now p b n = (if ua_peerTimer n then None
    else Some ([ScheduleTimer (max t (ua_peerAuthStart n)) ''startPhase3Inet''],
      n\<lparr>ua_bytesReceived := ua_bytesReceived n + length b, ua_proto := u, ua_phase2Success := True,
        ua_wallLatency := t - ua_phase2Start n, ua_peerTimer := True\<rparr>))"
  using assms by (simp add: ua_socketDataArrived_sender ua_dispatch_def ua_schedule_def Let_def)

text \<open>The answer to M4 depends on the session key and on the values the request was made with; what
  Phase 3 has done meanwhile to the sessions, credentials and counters plays no part in it.\<close>

definition same_request :: "uav \<Rightarrow> uav \<Rightarrow> bool" where
  "same_request u v \<longleftrightarrow> u2_sessionKey (uv_phase2 v) = u2_sessionKey (uv_phase2 u) \<and>
     u2_tidAtRequest (uv_phase2 v) = u2_tidAtRequest (uv_phase2 u) \<and>
     u2_n1 (uv_phase2 v) = u2_n1 (uv_phase2 u) \<and> u2_n2 (uv_phase2 v) = u2_n2 (uv_phase2 u)"

lemma uav_handleM4_later:
  assumes "uav_handleM4 C S m u = Some (done_quiet, u')" and "same_request u' v"
  shows "\<exists>v'. uav_handleM4 C S m v = Some (done_quiet, v') \<and>
    u2_peerCredentials (uv_phase2 v') = u2_peerCredentials (uv_phase2 u')"
proof -
  have nonce: "msg_has m AEAD_NONCE"
    using assms(1) handle_types(4) [OF assms(1)]
    by (rule_tac ccontr) (simp add: uav_handleM4_def fail_def done_quiet_def Let_def split: if_splits)
  from assms(1) show ?thesis
  proof (cases rule: uav_handleM4_cases)
    case refused then show ?thesis by (simp add: done_quiet_def)
  next
    case (opened creds tids tidNew kn aad package pt)
    then show ?thesis
      using uav_handleM4_Some [of v m package S kn C aad pt creds tids tidNew] nonce assms(2)
        handle_types(4) [OF assms(1)] by (simp add: same_request_def)
  qed
qed

subsection \<open>The round of Phase 3\<close>

text \<open>A round writes the generator, the sessions, the records of the peers and the counter of bytes.\<close>

definition round_frame :: "'a uav_app \<Rightarrow> 'a uav_app \<Rightarrow> bool" where
  "round_frame n n' \<longleftrightarrow> (\<exists>rng ps recs sent. n' = n\<lparr>ua_rng := rng, ua_proto := (ua_proto n)\<lparr>uv_peers := ps\<rparr>,
     ua_peers := recs, ua_bytesSent := sent\<rparr>)"

lemma round_frame_refl: "round_frame n n"
  unfolding round_frame_def
  by (intro exI [of _ "ua_rng n"] exI [of _ "uv_peers (ua_proto n)"] exI [of _ "ua_peers n"]
      exI [of _ "ua_bytesSent n"]) simp

lemma round_frame_trans: "round_frame n n1 \<Longrightarrow> round_frame n1 n2 \<Longrightarrow> round_frame n n2"
  unfolding round_frame_def by (elim exE) (simp, blast)

text \<open>Peer \<open>j\<close> starts afresh: its session is one this UAV opened, without a key, and P1 has gone
  to its address when the table has one.\<close>

definition peer_restarted :: "core_lib \<Rightarrow> int \<Rightarrow> 'a uav_app \<Rightarrow> 'a app_output list \<Rightarrow> 'a uav_app \<Rightarrow> bool" where
  "peer_restarted C j n out n' \<longleftrightarrow>
     (\<exists>s. om_find (uv_peers (ua_proto n')) j = Some s \<and> p3_initiator s \<and> \<not> p3_established s \<and>
        p3_sessionKey s = []) \<and> peerSessionKey j (ua_proto n') = None \<and>
     (case om_find (ua_peerAddr n) j of None \<Rightarrow> True
      | Some addr \<Rightarrow> \<exists>p1 wire. m_type p1 = P3_P1_PEER_REQUEST \<and> msg_encode C p1 = Some wire \<and>
          SendTo wire addr (ua_peerBasePort n + j) \<in> set out)"

context protocol_env
begin

lemma P1_encodes:
  assumes "length n = 16" "length epk = 32" "length tag \<le> 64"
  shows "\<exists>b. msg_encode C (msg_set MAC_TAG tag (P1_body C suite own j n now epk)) = Some b"
proof (rule encodes_short)
  show "short (m_fields (msg_set MAC_TAG tag (P1_body C suite own j n now epk)))"
    using assms by (simp add: P1_body_def msg_set_def emptyMessage_def short_upd)
qed

lemma ua_startPhase3_result:
  assumes "drbg_ok L (ua_rng n)"
    and "\<forall>cred. om_find (u2_peerCredentials (uv_phase2 (ua_proto n))) j = Some cred \<longrightarrow>
      0 < length cred \<and> length cred \<le> 8160"
  shows "\<exists>out n'. ua_startPhase3 C L S t now j n = Some (out, n') \<and> drbg_ok L (ua_rng n') \<and> round_frame n n' \<and>
    (\<forall>i. i \<noteq> j \<longrightarrow> om_find (uv_peers (ua_proto n')) i = om_find (uv_peers (ua_proto n)) i) \<and>
    (om_find (u2_peerCredentials (uv_phase2 (ua_proto n))) j \<noteq> None \<longrightarrow> peer_restarted C j n out n')"
proof (cases "om_find (u2_peerCredentials (uv_phase2 (ua_proto n))) j")
  case None
  then have "ua_startPhase3 C L S t now j n = Some ([], n)"
    by (simp add: ua_startPhase3_def startPhase3_def fail_def)
  with None assms(1) round_frame_refl show ?thesis by auto
next
  case (Some cred)
  with assms(2) have "0 < length cred" "length cred \<le> 8160" by auto
  from startPhase3_result [OF Some this assms(1), of now] obtain ak nn eph rng' inputP1 tag where
    r: "length (kp_public eph) = 32" "length nn = 16" "drbg_ok L rng'" "su_mac S ak inputP1 = Some tag"
    "startPhase3 C L S j now (ua_rng n) (ua_proto n) = Some (done_reply (msg_set MAC_TAG tag
       (P1_body C (suiteIdValue (su_id S)) (uv_id (ua_proto n)) j nn now (kp_public eph))), rng',
       uav_put_peer j (p3_empty\<lparr>p3_localId := uv_id (ua_proto n), p3_peerId := j, p3_initiator := True,
         p3_authKey := ak, p3_nonceLocal := nn, p3_ephemeral := eph, p3_epkLocal := kp_public eph,
         p3_p1Encoded := inputP1\<rparr>) (ua_proto n))" by metis
  let ?p1 = "msg_set MAC_TAG tag (P1_body C (suiteIdValue (su_id S)) (uv_id (ua_proto n)) j nn now (kp_public eph))"
  let ?s = "p3_empty\<lparr>p3_localId := uv_id (ua_proto n), p3_peerId := j, p3_initiator := True,
         p3_authKey := ak, p3_nonceLocal := nn, p3_ephemeral := eph, p3_epkLocal := kp_public eph,
         p3_p1Encoded := inputP1\<rparr>"
  obtain wire where w: "msg_encode C ?p1 = Some wire"
    using P1_encodes [OF r(2,1)] mac_len [OF r(4)] by fastforce
  have t: "m_type ?p1 = P3_P1_PEER_REQUEST" by (simp add: P1_body_def msg_set_def)
  define n1 where "n1 = ua_peer_upd j (\<lambda>p. p\<lparr>pr_initiator := True, pr_start := t\<rparr>)
    (n\<lparr>ua_rng := rng', ua_proto := uav_put_peer j ?s (ua_proto n)\<rparr>)"
  have n1: "ua_rng n1 = rng'" "ua_proto n1 = uav_put_peer j ?s (ua_proto n)" "ua_peerAddr n1 = ua_peerAddr n"
    "ua_peerBasePort n1 = ua_peerBasePort n" by (simp_all add: n1_def ua_peer_upd_def)
  have frame: "round_frame n (n1\<lparr>ua_bytesSent := b\<rparr>)" for b
    unfolding round_frame_def
    by (intro exI [of _ rng'] exI [of _ "uv_peers (ua_proto n1)"] exI [of _ "ua_peers n1"] exI [of _ b])
      (simp add: n1_def ua_peer_upd_def uav_put_peer_def)
  have start: "ua_startPhase3 C L S t now j n = ua_sendPeer C ?p1 j n1"
    using r(5) by (simp add: ua_startPhase3_def n1_def Let_def)
  obtain out b where sent: "ua_sendPeer C ?p1 j n1 = Some (out, n1\<lparr>ua_bytesSent := b\<rparr>)"
    "case om_find (ua_peerAddr n) j of None \<Rightarrow> True
     | Some addr \<Rightarrow> SendTo wire addr (ua_peerBasePort n + j) \<in> set out"
  proof (cases "om_find (ua_peerAddr n) j")
    case None
    then show thesis using that [of "[]" "ua_bytesSent n1"] n1 by (simp add: ua_sendPeer_def)
  next
    case (Some addr)
    then show thesis using that [of "[SendTo wire addr (ua_peerBasePort n + j)]" "ua_bytesSent n1 + length wire"] n1 w
      by (simp add: ua_sendPeer_def ua_sendMessage_def)
  qed
  have "om_find (uv_peers (ua_proto n1)) j = Some ?s" by (simp add: n1 uav_put_peer_def)
  moreover have "p3_initiator ?s" "\<not> p3_established ?s" "p3_sessionKey ?s = []" by (simp_all add: p3_empty_def)
  moreover have "case om_find (ua_peerAddr n) j of None \<Rightarrow> True
      | Some addr \<Rightarrow> \<exists>p1 wire. m_type p1 = P3_P1_PEER_REQUEST \<and> msg_encode C p1 = Some wire \<and>
          SendTo wire addr (ua_peerBasePort n + j) \<in> set out"
  proof (cases "om_find (ua_peerAddr n) j")
    case (Some addr)
    with sent(2) have "SendTo wire addr (ua_peerBasePort n + j) \<in> set out" by simp
    with t w show ?thesis unfolding Some option.case by blast
  qed simp
  ultimately have "peer_restarted C j n out (n1\<lparr>ua_bytesSent := b\<rparr>)"
    by (simp add: peer_restarted_def peerSessionKey_def)
  moreover have "om_find (uv_peers (ua_proto n1)) i = om_find (uv_peers (ua_proto n)) i" if "i \<noteq> j" for i
    using that by (simp add: n1 uav_put_peer_def)
  ultimately show ?thesis using start sent(1) frame r(3) n1(1) by auto
qed

lemma ua_round_result:
  assumes "drbg_ok L (ua_rng n)"
    and "\<forall>j cred. om_find (u2_peerCredentials (uv_phase2 (ua_proto n))) j = Some cred \<longrightarrow>
      0 < length cred \<and> length cred \<le> 8160"
  shows "\<exists>out n'. ua_round C L S t now js n = Some (out, n') \<and> drbg_ok L (ua_rng n') \<and> round_frame n n' \<and>
    (\<forall>i. i \<notin> set js \<longrightarrow> om_find (uv_peers (ua_proto n')) i = om_find (uv_peers (ua_proto n)) i) \<and>
    (\<forall>j \<in> set js. om_find (u2_peerCredentials (uv_phase2 (ua_proto n))) j \<noteq> None \<longrightarrow> peer_restarted C j n out n')"
  using assms
proof (induction js arbitrary: n)
  case Nil
  then show ?case using round_frame_refl by auto
next
  case (Cons j js)
  obtain out n1 where one: "ua_startPhase3 C L S t now j n = Some (out, n1)" "drbg_ok L (ua_rng n1)"
    "round_frame n n1"
    "\<forall>i. i \<noteq> j \<longrightarrow> om_find (uv_peers (ua_proto n1)) i = om_find (uv_peers (ua_proto n)) i"
    "om_find (u2_peerCredentials (uv_phase2 (ua_proto n))) j \<noteq> None \<longrightarrow> peer_restarted C j n out n1"
    using ua_startPhase3_result [OF Cons.prems(1), of j t now] Cons.prems(2) by blast
  have same: "uv_phase2 (ua_proto n1) = uv_phase2 (ua_proto n)" "ua_peerAddr n1 = ua_peerAddr n"
    "ua_peerBasePort n1 = ua_peerBasePort n" using one(3) by (auto simp: round_frame_def)
  obtain outs n2 where rest: "ua_round C L S t now js n1 = Some (outs, n2)" "drbg_ok L (ua_rng n2)"
    "round_frame n1 n2"
    "\<forall>i. i \<notin> set js \<longrightarrow> om_find (uv_peers (ua_proto n2)) i = om_find (uv_peers (ua_proto n1)) i"
    "\<forall>j \<in> set js. om_find (u2_peerCredentials (uv_phase2 (ua_proto n))) j \<noteq> None \<longrightarrow> peer_restarted C j n1 outs n2"
    using Cons.IH [OF one(2)] Cons.prems(2) unfolding same by blast
  have "peer_restarted C i n (out @ outs) n2"
    if i: "i \<in> set (j # js)" "om_find (u2_peerCredentials (uv_phase2 (ua_proto n))) i \<noteq> None" for i
  proof (cases "i \<in> set js")
    case True
    then have "peer_restarted C i n1 outs n2" using rest(5) i(2) by blast
    then show ?thesis by (auto simp: peer_restarted_def same split: option.splits)
  next
    case False
    then have "peer_restarted C i n out n1" "om_find (uv_peers (ua_proto n2)) i = om_find (uv_peers (ua_proto n1)) i"
      using i one(5) rest(4) by auto
    then show ?thesis by (auto simp: peer_restarted_def peerSessionKey_def split: option.splits)
  qed
  moreover have "round_frame n n2" by (rule round_frame_trans [OF one(3) rest(3)])
  moreover have "ua_round C L S t now (j # js) n = Some (out @ outs, n2)" using one(1) rest(1) by simp
  ultimately show ?case using rest(2,4) one(4) by auto
qed

text \<open>The Phase 3 timer fires.\<close>

lemma ua_timer_fires:
  assumes "drbg_ok L (ua_rng n)"
    and "\<forall>j cred. om_find (u2_peerCredentials (uv_phase2 (ua_proto n))) j = Some cred \<longrightarrow>
      0 < length cred \<and> length cred \<le> 8160"
  shows "\<exists>out n'. ua_handleTimer C L S P R t now ''startPhase3Inet'' n = Some (out, n') \<and>
    drbg_ok L (ua_rng n') \<and> round_frame (n\<lparr>ua_peerTimer := False\<rparr>) n' \<and>
    (\<not> ua_fullMesh n \<longrightarrow> out = [] \<and> n' = n\<lparr>ua_peerTimer := False\<rparr>) \<and>
    (ua_fullMesh n \<longrightarrow> (\<forall>j. ua_uavId n < j \<and> j < ua_numUavs n \<and>
       om_find (u2_peerCredentials (uv_phase2 (ua_proto n))) j \<noteq> None \<longrightarrow> peer_restarted C j n out n'))"
proof (cases "ua_fullMesh n")
  case True
  obtain out n' where "ua_round C L S t now [ua_uavId n + 1..ua_numUavs n - 1] (n\<lparr>ua_peerTimer := False\<rparr>) =
      Some (out, n')" "drbg_ok L (ua_rng n')" "round_frame (n\<lparr>ua_peerTimer := False\<rparr>) n'"
    "\<forall>j \<in> set [ua_uavId n + 1..ua_numUavs n - 1].
       om_find (u2_peerCredentials (uv_phase2 (ua_proto n))) j \<noteq> None \<longrightarrow>
       peer_restarted C j (n\<lparr>ua_peerTimer := False\<rparr>) out n'"
    using ua_round_result [of "n\<lparr>ua_peerTimer := False\<rparr>" t now "[ua_uavId n + 1..ua_numUavs n - 1]"] assms by auto
  moreover have "peer_restarted C j (n\<lparr>ua_peerTimer := False\<rparr>) out n' = peer_restarted C j n out n'" for j
    by (simp add: peer_restarted_def cong: option.case_cong)
  ultimately show ?thesis using True by (simp add: ua_handleTimer_def ua_startPhase3Round_def)
next
  case False
  then show ?thesis using assms(1) round_frame_refl by (simp add: ua_handleTimer_def ua_startPhase3Round_def)
qed

text \<open>A package that carries one credential, sealed under a session key, decoded and opened.\<close>

lemma sealed_M4:
  assumes "length (u2_sessionKey (uv_phase2 u)) = 32" "length (u2_tidAtRequest (uv_phase2 u)) = 16"
    and "length (u2_n1 (uv_phase2 u)) = 16" "length (u2_n2 (uv_phase2 u)) = 16"
    and "0 \<le> j" "j \<le> 65535" "length cred = 32" "length (tid :: bytes) = 16"
    and "length (tidNew :: bytes) = 16"
  obtains m b u' where "msg_encode C m = Some b" "m_type m = P2_M4_GS_CONFIRM"
    "uav_handleM4 C S m u = Some (done_quiet, u')" "u2_peerCredentials (uv_phase2 u') = [(j, cred)]"
proof -
  have pk: "packable [(j, cred)] [(j, tid)] tidNew" using assms by (simp add: packable_def tid_or_empty_def)
  obtain pt where pt: "packCredentials C [(j, cred)] [(j, tid)] tidNew = Some pt"
    "unpackCredentials C pt = Some ([(j, cred)], [(j, tid)], tidNew)"
  proof (rule unpack_pack [OF pk])
    fix b assume "packCredentials C [(j, cred)] [(j, tid)] tidNew = Some b"
      "\<And>ys. unpackCredentials C (b @ ys) = (if ys = []
        then Some ([(j, cred)], map (\<lambda>(k, c). (k, tid_or_empty [(j, tid)] k)) [(j, cred)], tidNew) else None)"
    with this(2) [of "[]"] show thesis using that by (simp add: tid_or_empty_def)
  qed
  obtain body where "pack_entries C [(j, tid)] [(j, cred)] = Some body" "length pt = length body + 20"
    using pt(1) assms(9) by (auto simp: packCredentials_def Option.bind_eq_Some_conv lengthPrefixed)
  then have len: "length pt = 74"
    using pack_entries_length [of "[(j, tid)]" "[(j, cred)]" body] assms(7,8) by (simp add: tid_or_empty_def)
  obtain kn where kn: "su_kdf S (u2_sessionKey (uv_phase2 u)) [] kP2Aead [] (su_aeadKeyLen S + su_aeadNonceLen S) = Some kn"
    "length (fst (kpack S kn)) = su_aeadKeyLen S" "length (snd (kpack S kn)) = su_aeadNonceLen S"
    using aead_key_nonce [OF assms(1)] by blast
  have "length kn \<le> 64" using kdf_len [OF kn(1)] aead_lens by simp
  then have nl: "length (snd (kpack S kn)) \<le> 65535" by (simp add: kpack_def)
  have "short (aad_M4 (u2_tidAtRequest (uv_phase2 u)) (u2_n1 (uv_phase2 u)) (u2_n2 (uv_phase2 u)))"
    using assms by (simp add: short_defs)
  then obtain aad where aad: "macInput C 1 P2_M4_GS_CONFIRM
      (aad_M4 (u2_tidAtRequest (uv_phase2 u)) (u2_n1 (uv_phase2 u)) (u2_n2 (uv_phase2 u))) = Some aad"
    using macInput_short by blast
  obtain ct where ct: "su_aeadSeal S (fst (kpack S kn)) (snd (kpack S kn)) aad pt [] = (True, ct)"
    using seal_total [OF kn(2,3)] by blast
  let ?m = "M4_message 1 0 (snd (kpack S kn)) ct"
  have "length ct \<le> 65535" using seal_len [OF ct] len by simp
  with nl have "fields_fit (m_fields ?m)"
    by (auto simp: fields_fit_def M4_message_def msg_set_def emptyMessage_def ran_def)
  then obtain b where b: "msg_encode C ?m = Some b" using encodes_fit by blast
  have "u2_sessionKey (uv_phase2 u) \<noteq> []" using assms(1) by auto
  then have "uav_handleM4 C S ?m u = Some (done_quiet,
      u\<lparr>uv_phase2 := (uv_phase2 u)\<lparr>u2_peerCredentials := [(j, cred)], u2_peerTids := [(j, tid)], u2_established := True\<rparr>,
        uv_state := (uv_state u)\<lparr>ds_tid := if tidNew \<noteq> [] then tidNew else ds_tid (uv_state u)\<rparr>\<rparr>)"
    using kn(1) aad open_sealed [OF ct] pt(2)
    by (intro uav_handleM4_Some [where package = ct]) (simp_all add: M4_message_def msg_simps)
  then show thesis using that [OF b] by (simp add: M4_message_def msg_set_def)
qed

end

text \<open>Any later state of the application: the same configuration, table of peers and the same Phase 2 exchange, the
  timer not scheduled, the generator sound; sessions, credentials, peers and counters are free.\<close>

definition ua_since :: "ossl \<Rightarrow> 'a uav_app \<Rightarrow> 'a uav_app \<Rightarrow> bool" where
  "ua_since L n m \<longleftrightarrow> \<not> ua_peerTimer m \<and> drbg_ok L (ua_rng m) \<and> same_request (ua_proto n) (ua_proto m) \<and>
     ua_uavId m = ua_uavId n \<and> ua_numUavs m = ua_numUavs n \<and> ua_fullMesh m = ua_fullMesh n \<and>
     ua_peerAuthStart m = ua_peerAuthStart n \<and> ua_gsPort m = ua_gsPort n \<and> ua_peerBasePort m = ua_peerBasePort n \<and>
     ua_peerAddr m = ua_peerAddr n"

text \<open>In a full mesh, every peer with a higher number and a credential starts afresh.\<close>

definition mesh_restarted ::
    "core_lib \<Rightarrow> 'a uav_app \<Rightarrow> 'a uav_app \<Rightarrow> 'a app_output list \<Rightarrow> 'a uav_app \<Rightarrow> bool" where
  "mesh_restarted C n' n out m \<longleftrightarrow>
     (if ua_fullMesh n' then \<forall>j. ua_uavId n' < j \<and> j < ua_numUavs n' \<and>
        om_find (u2_peerCredentials (uv_phase2 (ua_proto n'))) j \<noteq> None \<longrightarrow> peer_restarted C j n' out m
      else out = [] \<and> m = n\<lparr>ua_peerTimer := False\<rparr>)"

text \<open>C36. M4 is not protected against repetition.  When a datagram has made the UAV application
  schedule its Phase 3 timer, the same datagram from the same port, arriving before the timer fires,
  makes the application schedule the pending timer again, which is an exception of the simulation.  The
  timer, when it fires, starts Phase 3 with every peer of a higher number for which there is a credential
  (in a full mesh, the default; otherwise with none).  And in any later state of the application with the same
  Phase 2 exchange, whatever Phase 3 has achieved meanwhile, the datagram schedules the
  timer once more, and when it fires again Phase 3 starts anew with all these peers: the session of each,
  established or not, is replaced by a fresh one without a key, and P1 is sent again.  The
  credentials handed out are assumed to be keys the KDF takes (1 to 8160 bytes).\<close>

theorem repeated_M4_aborts:
  assumes "core_laws C" and "ossl_laws L" and "crypto_suite S"
    and "ua_socketDataArrived C L S t now p b n = Some (out, n')" and "ScheduleTimer T s \<in> set out"
    and "drbg_ok L (ua_rng n)"
    and "\<forall>j cred. om_find (u2_peerCredentials (uv_phase2 (ua_proto n'))) j = Some cred \<longrightarrow>
      0 < length cred \<and> length cred \<le> 8160"
  shows "ua_socketDataArrived C L S t' now' p b n' = None \<and>
    (\<exists>out1 n1. ua_handleTimer C L S P R t1 now1 ''startPhase3Inet'' n' = Some (out1, n1) \<and>
       ua_since L n' n1 \<and> mesh_restarted C n' n' out1 n1) \<and>
    (\<forall>m1. ua_since L n' m1 \<longrightarrow> (\<exists>n2 out3 n3.
       ua_socketDataArrived C L S t2 now2 p b m1 =
         Some ([ScheduleTimer (max t2 (ua_peerAuthStart n)) ''startPhase3Inet''], n2) \<and>
       ua_handleTimer C L S P R t3 now3 ''startPhase3Inet'' n2 = Some (out3, n3) \<and>
       mesh_restarted C n' n2 out3 n3))"
proof -
  let ?n = "n\<lparr>ua_bytesReceived := ua_bytesReceived n + length b\<rparr>"
  note pe = protocol_envI [OF assms(1-3)]
  obtain m where m: "decodeMessage C b (ua_sender p n) (- 1) = Some m" and d: "ua_dispatch C L S t now m ?n = Some (out, n')"
    using assms(4,5) by (auto simp: ua_socketDataArrived_sender split: option.splits)
  obtain u where h: "m_type m = P2_M4_GS_CONFIRM" "uav_handleM4 C S m (ua_proto ?n) = Some (done_quiet, u)"
    and n': "n' = ?n\<lparr>ua_proto := u, ua_phase2Success := True, ua_wallLatency := t - ua_phase2Start ?n, ua_peerTimer := True\<rparr>"
    by (rule ua_schedules_only_on_M4 [OF d assms(5)])
  have same: "ua_peerTimer n'" "ua_proto n' = u" "ua_sender p n' = ua_sender p n" "ua_rng n' = ua_rng n"
      "ua_peerAuthStart n' = ua_peerAuthStart n"
    by (simp_all add: n' peerByPort_def ua_sender_def)
  have "ua_socketDataArrived C L S t' now' p b n' = None"
    using ua_M4_decoded [of C b p n' m S u L t' now'] m h(1) uav_handleM4_again [OF h(2)] same by simp
  moreover obtain out1 n1 where "ua_handleTimer C L S P R t1 now1 ''startPhase3Inet'' n' = Some (out1, n1)"
      "drbg_ok L (ua_rng n1)" "round_frame (n'\<lparr>ua_peerTimer := False\<rparr>) n1" "mesh_restarted C n' n' out1 n1"
    using protocol_env.ua_timer_fires [OF pe _ assms(7), of P R t1 now1] assms(6) same(4)
    by (auto simp: mesh_restarted_def)
  moreover from this(3) have "ua_since L n' n1" if "drbg_ok L (ua_rng n1)"
    using that by (auto simp: round_frame_def ua_since_def same_request_def)
  moreover have "\<exists>n2 out3 n3. ua_socketDataArrived C L S t2 now2 p b m1 =
         Some ([ScheduleTimer (max t2 (ua_peerAuthStart n)) ''startPhase3Inet''], n2) \<and>
       ua_handleTimer C L S P R t3 now3 ''startPhase3Inet'' n2 = Some (out3, n3) \<and>
       mesh_restarted C n' n2 out3 n3" if since: "ua_since L n' m1" for m1
  proof -
    obtain v where v: "uav_handleM4 C S m (ua_proto m1) = Some (done_quiet, v)"
      "u2_peerCredentials (uv_phase2 v) = u2_peerCredentials (uv_phase2 u)"
      using uav_handleM4_later [OF h(2), of "ua_proto m1"] since same(2) by (auto simp: ua_since_def)
    have "ua_sender p m1 = ua_sender p n" "\<not> ua_peerTimer m1" "ua_peerAuthStart m1 = ua_peerAuthStart n"
      using since same(3,5) by (auto simp: ua_since_def ua_sender_def peerByPort_def)
    then obtain n2 where n2: "ua_socketDataArrived C L S t2 now2 p b m1 =
        Some ([ScheduleTimer (max t2 (ua_peerAuthStart n)) ''startPhase3Inet''], n2)"
      "ua_proto n2 = v" "ua_rng n2 = ua_rng m1" "ua_uavId n2 = ua_uavId m1" "ua_numUavs n2 = ua_numUavs m1"
      "ua_fullMesh n2 = ua_fullMesh m1" "ua_peerAddr n2 = ua_peerAddr m1" "ua_peerBasePort n2 = ua_peerBasePort m1"
      using ua_M4_decoded [of C b p m1 m S v L t2 now2] m h(1) v(1) by simp
    have "\<forall>j cred. om_find (u2_peerCredentials (uv_phase2 (ua_proto n2))) j = Some cred \<longrightarrow>
        0 < length cred \<and> length cred \<le> 8160" using assms(7) v(2) n2(2) same(2) by simp
    from protocol_env.ua_timer_fires [OF pe _ this, of P R t3 now3] obtain out3 n3 where
      "ua_handleTimer C L S P R t3 now3 ''startPhase3Inet'' n2 = Some (out3, n3)" "mesh_restarted C n2 n2 out3 n3"
      using since n2(3) by (auto simp: mesh_restarted_def ua_since_def)
    moreover have "mesh_restarted C n' n2 out3 n3 = mesh_restarted C n2 n2 out3 n3"
      using since n2(2,4-8) v(2) same(2)
      by (simp add: mesh_restarted_def ua_since_def peer_restarted_def cong: option.case_cong)
    ultimately show ?thesis using n2(1) by blast
  qed
  ultimately show ?thesis by blast
qed

text \<open>A UAV with a session key, one peer in its table, and the package the ground station would send.\<close>

definition demo_keyed_app :: "drbg \<Rightarrow> nat uav_app" where
  "demo_keyed_app rng = (demo_uav_app rng ((uav_new 1 fe_default 5000)\<lparr>uv_phase2 := p2_uav_empty\<lparr>
     u2_sessionKey := replicate 32 5, u2_tidAtRequest := replicate 16 1, u2_n1 := replicate 16 2,
     u2_n2 := replicate 16 3\<rparr>\<rparr>))\<lparr>ua_numUavs := 3, ua_peerAddr := [(2, 8)]\<rparr>"

theorem repeated_M4_aborts_witness:
  "\<exists>b (n :: nat uav_app) out n' out1 n1 n2 out3 n3 wire wire'.
     ua_socketDataArrived ref_core ref_ossl demo_suite 50 220 5000 b n = Some (out, n') \<and>
     ua_socketDataArrived ref_core ref_ossl demo_suite 60 230 5000 b n' = None \<and>
     ua_handleTimer ref_core ref_ossl demo_suite demo_puf (\<lambda>_. None) 70 240 ''startPhase3Inet'' n' = Some (out1, n1) \<and>
     SendTo wire 8 6002 \<in> set out1 \<and>
     ua_socketDataArrived ref_core ref_ossl demo_suite 80 250 5000 b n1 = Some ([ScheduleTimer 80 ''startPhase3Inet''], n2) \<and>
     ua_handleTimer ref_core ref_ossl demo_suite demo_puf (\<lambda>_. None) 90 260 ''startPhase3Inet'' n2 = Some (out3, n3) \<and>
     SendTo wire' 8 6002 \<in> set out3 \<and> peerSessionKey 2 (ua_proto n3) = None"
proof -
  obtain rng where rng: "drbg_ok ref_ossl rng" using demo_rng by blast
  have tlv: "core_tlv ref_core" using ref_core_laws by (simp add: core_laws_def)
  let ?n = "demo_keyed_app rng"
  obtain m b u where m: "msg_encode ref_core m = Some b" "m_type m = P2_M4_GS_CONFIRM"
    "uav_handleM4 ref_core demo_suite m (ua_proto ?n) = Some (done_quiet, u)"
    "u2_peerCredentials (uv_phase2 u) = [(2, replicate 32 9)]"
    by (rule ref_proto.sealed_M4 [of "ua_proto ?n" 2 "replicate 32 9" "replicate 16 4" "replicate 16 6"])
      (simp_all add: demo_keyed_app_def demo_uav_app_def)
  obtain n' where one: "ua_socketDataArrived ref_core ref_ossl demo_suite 50 220 5000 b ?n =
      Some ([ScheduleTimer 50 ''startPhase3Inet''], n')" "ua_proto n' = u" "ua_peerAuthStart ?n = 0"
    "ua_uavId n' = 1" "ua_numUavs n' = 3" "ua_fullMesh n'" "ua_peerAddr n' = [(2, 8)]" "ua_peerBasePort n' = 6000"
    using core_tlv.ua_M4 [OF tlv m(1,3), of ref_ossl 50 220 5000]
    by (simp add: demo_keyed_app_def demo_uav_app_def)
  have r: "drbg_ok ref_ossl (ua_rng ?n)" using rng by (simp add: demo_keyed_app_def demo_uav_app_def)
  have c: "\<forall>j cred. om_find (u2_peerCredentials (uv_phase2 (ua_proto n'))) j = Some cred \<longrightarrow>
      0 < length cred \<and> length cred \<le> 8160" by (simp add: one(2) m(4))
  note again = repeated_M4_aborts [OF ref_core_laws refo.ossl_laws_axioms ref_env.sha3.crypto_suite_axioms
    one(1) _ r c, of 50 "''startPhase3Inet''" 60 230 demo_puf "\<lambda>_. None" 70 240 80 250 90 260, unfolded one(3)]
  obtain out1 n1 where f1: "ua_handleTimer ref_core ref_ossl demo_suite demo_puf (\<lambda>_. None) 70 240
      ''startPhase3Inet'' n' = Some (out1, n1)" "ua_since ref_ossl n' n1" "mesh_restarted ref_core n' n' out1 n1"
    using again by auto
  obtain n2 out3 n3 where f2: "ua_socketDataArrived ref_core ref_ossl demo_suite 80 250 5000 b n1 =
      Some ([ScheduleTimer 80 ''startPhase3Inet''], n2)"
    "ua_handleTimer ref_core ref_ossl demo_suite demo_puf (\<lambda>_. None) 90 260 ''startPhase3Inet'' n2 = Some (out3, n3)"
    "mesh_restarted ref_core n' n2 out3 n3"
    using again f1(2) by auto
  have "ua_socketDataArrived ref_core ref_ossl demo_suite 60 230 5000 b n' = None" using again by simp
  moreover have "peer_restarted ref_core 2 n' out1 n1" "peer_restarted ref_core 2 n' out3 n3"
    using f1(3) f2(3) one(4-6) by (simp_all add: mesh_restarted_def one(2) m(4))
  then obtain wire wire' where "SendTo wire 8 6002 \<in> set out1" "SendTo wire' 8 6002 \<in> set out3"
    "peerSessionKey 2 (ua_proto n3) = None" by (auto simp: peer_restarted_def one(7,8))
  ultimately show ?thesis using one(1) f1(1) f2(1,2) by blast
qed

end
