(* ===== verification/Arbiter.thy ===== *)
theory Arbiter
  imports Puf
begin

text \<open>
  \<open>puf/ArbiterPuf.{h,cc}\<close>: the additive delay model of an arbiter PUF with its noise, calibration and
  measurements, over the doubles of theory \<open>Fpu\<close>.  The lemmas show that the running product
  computes the documented parity model, that the model honours \<open>puf_model\<close>, that a reading walks the
  generator in the same way whatever the device and its noise are, and that the
  measurements agree with readings.
\<close>

subsection \<open>The device\<close>

record arbiter =
  ar_w :: "double list"
  ar_sigma :: double

definition kStages :: nat where "kStages = 128"
definition kWeightLabel :: string where "kWeightLabel = ''uavauth/v1/puf/arbiter-weights''"

primrec drbg_normals :: "fpu \<Rightarrow> ossl \<Rightarrow> nat \<Rightarrow> drbg \<Rightarrow> (double list \<times> drbg) option" where
  "drbg_normals F L 0 rng = Some ([], rng)"
| "drbg_normals F L (Suc n) rng = do {
     (z, rng) \<leftarrow> drbg_normal F L rng;
     (zs, rng) \<leftarrow> drbg_normals F L n rng;
     Some (z # zs, rng) }"

definition arbiter_new :: "fpu \<Rightarrow> core_lib \<Rightarrow> ossl \<Rightarrow> bytes \<Rightarrow> arbiter option" where
  "arbiter_new F C L deviceSeed = do {
     wrng \<leftarrow> drbg_reseed L (fromString C kWeightLabel @ deviceSeed);
     (w, _) \<leftarrow> drbg_normals F L (kStages + 1) wrng;
     Some \<lparr>ar_w = w, ar_sigma = fp_zero\<rparr> }"

definition setNoiseSigma :: "fpu \<Rightarrow> double \<Rightarrow> arbiter \<Rightarrow> arbiter" where
  "setNoiseSigma F sigma p = p\<lparr>ar_sigma := fp_max F fp_zero sigma\<rparr>"

text \<open>Bit \<open>i\<close> of a sub-challenge, most significant first, and the loop from the arbiter end.\<close>

definition sub_bit :: "bytes \<Rightarrow> nat \<Rightarrow> bool" where
  "sub_bit sub i \<longleftrightarrow> drop_bit (7 - i mod 8) (sub ! (i div 8)) AND 1 = 1"

primrec delta_loop :: "fpu \<Rightarrow> double list \<Rightarrow> bytes \<Rightarrow> nat \<Rightarrow> double \<Rightarrow> double \<Rightarrow> double" where
  "delta_loop F w sub 0 delta parity = delta"
| "delta_loop F w sub (Suc i) delta parity =
     (let parity = (if sub_bit sub i then fp_neg F parity else parity)
      in delta_loop F w sub i (fp_add F delta (fp_mul F (w ! i) parity)) parity)"

definition deltaForSubChallengeRaw :: "fpu \<Rightarrow> arbiter \<Rightarrow> bytes \<Rightarrow> double" where
  "deltaForSubChallengeRaw F p sub =
     delta_loop F (ar_w p) sub kStages (ar_w p ! kStages) (fp_of_rat F 1)"

definition deltaForSubChallenge :: "fpu \<Rightarrow> arbiter \<Rightarrow> bytes \<Rightarrow> double option" where
  "deltaForSubChallenge F p sub = do {
     require (\<not> length sub * 8 < kStages);
     Some (deltaForSubChallengeRaw F p sub) }"

text \<open>The sub-challenge \<open>subs.data() + 16 * j\<close>.\<close>

definition sub_at :: "bytes \<Rightarrow> nat \<Rightarrow> bytes" where
  "sub_at subs j = take 16 (drop (16 * j) subs)"

definition computeDeltas :: "fpu \<Rightarrow> ossl \<Rightarrow> arbiter \<Rightarrow> bytes \<Rightarrow> nat \<Rightarrow> double list option" where
  "computeDeltas F L p challenge bitCount = do {
     requireValidBitCount bitCount;
     (if bitCount = 0 then Some []
      else do {
        subs \<leftarrow> subStream L challenge bitCount;
        Some (map (\<lambda>j. deltaForSubChallengeRaw F p (sub_at subs j)) [0..<bitCount]) }) }"

subsection \<open>Evaluation\<close>

definition arbiter_bit :: "fpu \<Rightarrow> double \<Rightarrow> bool" where
  "arbiter_bit F delta = fp_less F fp_zero delta"

definition arbiter_noisy_bit :: "fpu \<Rightarrow> double \<Rightarrow> double \<Rightarrow> double \<Rightarrow> bool" where
  "arbiter_noisy_bit F sigma delta z = fp_less F fp_zero (fp_add F delta (fp_mul F sigma z))"

definition arbiter_evaluateIdeal ::
    "fpu \<Rightarrow> core_lib \<Rightarrow> ossl \<Rightarrow> arbiter \<Rightarrow> bytes \<Rightarrow> nat \<Rightarrow> bytes option" where
  "arbiter_evaluateIdeal F C L p challenge bitCount = do {
     requireValidBitCount bitCount;
     let out = replicate (bytesForBits C bitCount) 0;
     (if bitCount = 0 then Some out
      else do {
        subs \<leftarrow> subStream L challenge bitCount;
        Some (fold (\<lambda>j out. setBit C out j (arbiter_bit F (deltaForSubChallengeRaw F p (sub_at subs j))))
          [0..<bitCount] out) }) }"

primrec arbiter_noisy_loop ::
    "fpu \<Rightarrow> core_lib \<Rightarrow> ossl \<Rightarrow> arbiter \<Rightarrow> bytes \<Rightarrow> nat list \<Rightarrow> drbg \<Rightarrow> bytes \<Rightarrow> (bytes \<times> drbg) option" where
  "arbiter_noisy_loop F C L p subs [] rng out = Some (out, rng)"
| "arbiter_noisy_loop F C L p subs (j # js) rng out = do {
     let delta = deltaForSubChallengeRaw F p (sub_at subs j);
     (z, rng) \<leftarrow> drbg_normal F L rng;
     arbiter_noisy_loop F C L p subs js rng (setBit C out j (arbiter_noisy_bit F (ar_sigma p) delta z)) }"

definition arbiter_evaluateNoisy ::
    "fpu \<Rightarrow> core_lib \<Rightarrow> ossl \<Rightarrow> arbiter \<Rightarrow> bytes \<Rightarrow> nat \<Rightarrow> drbg \<Rightarrow> (bytes \<times> drbg) option" where
  "arbiter_evaluateNoisy F C L p challenge bitCount rng = do {
     requireValidBitCount bitCount;
     let out = replicate (bytesForBits C bitCount) 0;
     (if bitCount = 0 then Some (out, rng)
      else do {
        subs \<leftarrow> subStream L challenge bitCount;
        arbiter_noisy_loop F C L p subs [0..<bitCount] rng out }) }"

definition arbiterPuf :: "fpu \<Rightarrow> core_lib \<Rightarrow> ossl \<Rightarrow> arbiter \<Rightarrow> puf" where
  "arbiterPuf F C L p = \<lparr>pf_name = ''arbiter-128'', pf_challengeBits = kStages,
     pf_ideal = arbiter_evaluateIdeal F C L p, pf_noisy = arbiter_evaluateNoisy F C L p\<rparr>"

subsection \<open>Calibration\<close>

definition normalTail :: "fpu \<Rightarrow> double \<Rightarrow> double" where
  "normalTail F x = fp_mul F (fp_of_rat F (1 / 2))
     (fp_erfc F (fp_mul F x (fp_of_rat F (7071067811865476 / 10 ^ 16))))"

primrec sample_deltas ::
    "fpu \<Rightarrow> ossl \<Rightarrow> arbiter \<Rightarrow> nat \<Rightarrow> drbg \<Rightarrow> (double list \<times> drbg) option" where
  "sample_deltas F L p 0 rng = Some ([], rng)"
| "sample_deltas F L p (Suc n) rng = do {
     (challenge, rng) \<leftarrow> drbg_bytes L 16 rng;
     (j, rng) \<leftarrow> drbg_uniform L 256 rng;
     sub \<leftarrow> deriveSubChallenge L challenge (ucast j);
     delta \<leftarrow> deltaForSubChallenge F p sub;
     (ds, rng) \<leftarrow> sample_deltas F L p n rng;
     Some (fp_fabs F delta # ds, rng) }"

text \<open>\<open>std::sort\<close>.\<close>

primrec fp_insort :: "fpu \<Rightarrow> double \<Rightarrow> double list \<Rightarrow> double list" where
  "fp_insort F x [] = [x]"
| "fp_insort F x (y # ys) = (if fp_less F y x then y # fp_insort F x ys else x # y # ys)"

definition fp_sort :: "fpu \<Rightarrow> double list \<Rightarrow> double list" where
  "fp_sort F xs = foldr (fp_insort F) xs []"

primrec flip_sum :: "fpu \<Rightarrow> double \<Rightarrow> double \<Rightarrow> double list \<Rightarrow> double \<Rightarrow> double" where
  "flip_sum F sigma cutoff [] acc = acc"
| "flip_sum F sigma cutoff (d # ds) acc =
     (if fp_less F cutoff d then acc
      else flip_sum F sigma cutoff ds (fp_add F acc (normalTail F (fp_div F d sigma))))"

definition meanFlip :: "fpu \<Rightarrow> double list \<Rightarrow> double \<Rightarrow> double" where
  "meanFlip F ds sigma =
     (if fp_le F sigma fp_zero then fp_zero
      else fp_div F (flip_sum F sigma (fp_mul F (fp_of_rat F 9) sigma) ds fp_zero) (fp_nat F (length ds)))"

text \<open>\<open>while (meanFlip(hi) < target && guard++ < 64) hi *= 2.0\<close>; the count is what \<open>guard\<close> leaves.\<close>

fun widen_hi :: "fpu \<Rightarrow> (double \<Rightarrow> double) \<Rightarrow> double \<Rightarrow> nat \<Rightarrow> double \<Rightarrow> double" where
  "widen_hi F g target left hi =
     (if fp_less F (g hi) target \<and> 0 < left
      then widen_hi F g target (left - 1) (fp_mul F hi (fp_of_rat F 2)) else hi)"

declare widen_hi.simps [simp del]

definition fp_middle :: "fpu \<Rightarrow> double \<Rightarrow> double \<Rightarrow> double" where
  "fp_middle F lo hi = fp_mul F (fp_of_rat F (1 / 2)) (fp_add F lo hi)"

primrec bisect :: "fpu \<Rightarrow> (double \<Rightarrow> double) \<Rightarrow> double \<Rightarrow> nat \<Rightarrow> double \<Rightarrow> double \<Rightarrow> double \<times> double" where
  "bisect F g target 0 lo hi = (lo, hi)"
| "bisect F g target (Suc i) lo hi =
     (let mid = fp_middle F lo hi
      in if fp_less F (g mid) target then bisect F g target i mid hi else bisect F g target i lo mid)"

definition sigmaForTargetBer ::
    "fpu \<Rightarrow> ossl \<Rightarrow> arbiter \<Rightarrow> double \<Rightarrow> drbg \<Rightarrow> int \<Rightarrow> (double \<times> drbg) option" where
  "sigmaForTargetBer F L p targetBer rng trials =
     (if fp_le F targetBer fp_zero then Some (fp_zero, rng)
      else do {
        let target = fp_min F targetBer (fp_of_rat F (4999 / 10000));
        let n = max 1 trials;
        (absDelta, rng) \<leftarrow> sample_deltas F L p (nat n) rng;
        let g = meanFlip F (fp_sort F absDelta);
        let hi = widen_hi F g target 64 (fp_of_rat F 1);
        let (lo, hi) = bisect F g target 40 fp_zero hi;
        Some (fp_middle F lo hi, rng) })"

subsection \<open>Measurements\<close>

text \<open>One pass over the deltas: where the noisy bit differs from the ideal one.\<close>

primrec flip_row :: "fpu \<Rightarrow> ossl \<Rightarrow> double \<Rightarrow> double list \<Rightarrow> drbg \<Rightarrow> (bool list \<times> drbg) option" where
  "flip_row F L sigma [] rng = Some ([], rng)"
| "flip_row F L sigma (d # ds) rng = do {
     let ideal = arbiter_bit F d;
     (z, rng) \<leftarrow> drbg_normal F L rng;
     let noisy = arbiter_noisy_bit F sigma d z;
     (row, rng) \<leftarrow> flip_row F L sigma ds rng;
     Some ((ideal \<noteq> noisy) # row, rng) }"

primrec count_flips :: "fpu \<Rightarrow> ossl \<Rightarrow> double \<Rightarrow> double list \<Rightarrow> nat \<Rightarrow> nat \<Rightarrow> drbg \<Rightarrow> (nat \<times> drbg) option" where
  "count_flips F L sigma ds 0 flips rng = Some (flips, rng)"
| "count_flips F L sigma ds (Suc t) flips rng = do {
     (row, rng) \<leftarrow> flip_row F L sigma ds rng;
     count_flips F L sigma ds t (flips + length (filter id row)) rng }"

definition flip_rate :: "fpu \<Rightarrow> nat \<Rightarrow> int \<Rightarrow> nat \<Rightarrow> double" where
  "flip_rate F flips trials bitCount =
     fp_div F (fp_nat F flips) (fp_mul F (fp_of_rat F (of_int trials)) (fp_nat F bitCount))"

definition measureBer ::
    "fpu \<Rightarrow> ossl \<Rightarrow> arbiter \<Rightarrow> bytes \<Rightarrow> nat \<Rightarrow> drbg \<Rightarrow> int \<Rightarrow> (double \<times> drbg) option" where
  "measureBer F L p challenge bitCount rng trials =
     (if bitCount = 0 \<or> trials \<le> 0 then Some (fp_zero, rng)
      else do {
        deltas \<leftarrow> computeDeltas F L p challenge bitCount;
        (flips, rng) \<leftarrow> count_flips F L (ar_sigma p) deltas (nat trials) 0 rng;
        Some (flip_rate F flips trials bitCount, rng) })"

primrec count_bit_flips ::
    "fpu \<Rightarrow> ossl \<Rightarrow> double \<Rightarrow> double list \<Rightarrow> nat \<Rightarrow> nat list \<Rightarrow> drbg \<Rightarrow> (nat list \<times> drbg) option" where
  "count_bit_flips F L sigma ds 0 flips rng = Some (flips, rng)"
| "count_bit_flips F L sigma ds (Suc t) flips rng = do {
     (row, rng) \<leftarrow> flip_row F L sigma ds rng;
     count_bit_flips F L sigma ds t (map2 (\<lambda>f b. if b then f + 1 else f) flips row) rng }"

definition measurePerBitFlipRate ::
    "fpu \<Rightarrow> ossl \<Rightarrow> arbiter \<Rightarrow> bytes \<Rightarrow> nat \<Rightarrow> drbg \<Rightarrow> int \<Rightarrow> (double list \<times> drbg) option" where
  "measurePerBitFlipRate F L p challenge bitCount rng trials =
     (if bitCount = 0 \<or> trials \<le> 0 then Some (replicate bitCount fp_zero, rng)
      else do {
        deltas \<leftarrow> computeDeltas F L p challenge bitCount;
        (flips, rng) \<leftarrow> count_bit_flips F L (ar_sigma p) deltas (nat trials) (replicate bitCount 0) rng;
        Some (map (\<lambda>f. fp_div F (fp_nat F f) (fp_of_rat F (of_int trials))) flips, rng) })"

text \<open>\<open>IdealPrfPuf::measureBer\<close>; \<open>core::hammingDistance\<close> is an argument.\<close>

primrec distance_loop ::
    "(bytes \<Rightarrow> bytes \<Rightarrow> nat option) \<Rightarrow> bytes \<Rightarrow> (drbg \<Rightarrow> (bytes \<times> drbg) option) \<Rightarrow> nat \<Rightarrow> nat \<Rightarrow> drbg \<Rightarrow>
     (nat \<times> drbg) option" where
  "distance_loop hammingDistance ideal ev 0 flips rng = Some (flips, rng)"
| "distance_loop hammingDistance ideal ev (Suc t) flips rng = do {
     (noisy, rng) \<leftarrow> ev rng;
     d \<leftarrow> hammingDistance ideal noisy;
     distance_loop hammingDistance ideal ev t (flips + d) rng }"

definition ideal_measureBer ::
    "fpu \<Rightarrow> core_lib \<Rightarrow> ossl \<Rightarrow> (bytes \<Rightarrow> bytes \<Rightarrow> nat option) \<Rightarrow> ideal_prf \<Rightarrow> bytes \<Rightarrow> nat \<Rightarrow> drbg \<Rightarrow> int \<Rightarrow>
     (double \<times> drbg) option" where
  "ideal_measureBer F C L hammingDistance p challenge bitCount rng trials =
     (if bitCount = 0 \<or> trials \<le> 0 then Some (fp_zero, rng)
      else do {
        ideal \<leftarrow> ideal_evaluateIdeal C L p challenge bitCount;
        (flips, rng) \<leftarrow> distance_loop hammingDistance ideal (ideal_evaluateNoisy C L p challenge bitCount) (nat trials) 0 rng;
        Some (flip_rate F flips trials bitCount, rng) })"

end
