(* ===== verification/Arbiter_Props.thy ===== *)
theory Arbiter_Props
  imports Arbiter
begin

text \<open>
  Lemmas of the arbiter PUF: its draws, its bits, the contract \<open>puf_model\<close>, and the properties.
\<close>

subsection \<open>Draws\<close>

definition spare_ok :: "drbg \<Rightarrow> bool" where
  "spare_ok st \<longleftrightarrow> (dk_haveSpareNormal st \<longrightarrow> fp_finite (dk_spareNormal st))"

lemma drbg_ok_spare [simp]:
  "drbg_ok L (st\<lparr>dk_haveSpareNormal := b\<rparr>) = drbg_ok L st"
  "drbg_ok L (st\<lparr>dk_spareNormal := x\<rparr>) = drbg_ok L st"
  "drbg_ok L (st\<lparr>dk_haveSpareNormal := b, dk_spareNormal := x\<rparr>) = drbg_ok L st"
  by (simp_all add: drbg_ok_def drbg_at_def)

context ossl_laws
begin

lemma uniformDouble_ok:
  assumes "drbg_ok L st"
  obtains v st' where "drbg_uniformDouble L st = Some (v, st')" "0 \<le> v" "v < 1" "drbg_ok L st'"
    "dk_key st' = dk_key st"
proof -
  obtain b st' where b: "drbg_bytes L 8 st = Some (b, st')" "drbg_ok L st'" "dk_key st' = dk_key st"
    using drbg_bytes_ok [OF assms, of 8] by blast
  define n where "n = unat (drop_bit 11 (fold (\<lambda>x v. push_bit 8 v OR ucast x) b (0::u64)))"
  have "unat (fold (\<lambda>x v. push_bit 8 v OR ucast x) b (0::u64)) < 2 ^ 64"
    using unsigned_less [of "fold (\<lambda>x v. push_bit 8 v OR ucast x) b (0::u64)"] by simp
  then have "n < 2 ^ 53"
    unfolding n_def unat_drop_bit_eq by (simp add: drop_bit_nat_def less_mult_imp_div_less)
  then have lt: "(of_nat n :: rat) / 9007199254740992 < 1"
    by (simp add: of_nat_less_iff [of n "2 ^ 53", where 'a=rat, simplified])
  have u: "drbg_uniformDouble L st = Some (of_nat n / 9007199254740992, st')"
    using b(1) by (simp add: drbg_uniformDouble_def n_def Let_def)
  show thesis by (rule that [OF u _ lt b(2,3)]) simp
qed

lemma drbg_normal_ok:
  assumes "drbg_ok L st"
  obtains z st' where "drbg_normal F L st = Some (z, st')" "drbg_ok L st'" "dk_key st' = dk_key st"
    "fpu_laws F \<and> spare_ok st \<longrightarrow> fp_finite z \<and> spare_ok st'"
proof (cases "dk_haveSpareNormal st")
  case True
  with assms that [of "dk_spareNormal st" "st\<lparr>dk_haveSpareNormal := False\<rparr>"] show thesis
    by (simp add: drbg_normal_def spare_ok_def)
next
  case False
  obtain v1 st1 where 1: "drbg_uniformDouble L st = Some (v1, st1)" "0 \<le> v1" "v1 < 1" "drbg_ok L st1"
    "dk_key st1 = dk_key st" by (rule uniformDouble_ok [OF assms])
  obtain v2 st2 where 2: "drbg_uniformDouble L st1 = Some (v2, st2)" "0 \<le> v2" "v2 < 1" "drbg_ok L st2"
    "dk_key st2 = dk_key st1" by (rule uniformDouble_ok [OF 1(4)])
  let ?r = "bm_radius F (bm_guard F (fp_of_rat F v1))" and ?a = "bm_angle F (fp_of_rat F v2)"
  have "drbg_normal F L st = Some (fp_mul F ?r (fp_cos F ?a),
      st2\<lparr>dk_spareNormal := fp_mul F ?r (fp_sin F ?a), dk_haveSpareNormal := True\<rparr>)"
    using False 1(1) 2(1) by (simp add: drbg_normal_def Let_def)
  then show thesis
    by (rule that) (use 1 2 fpu_laws.finite_normal [of F v1 v2] in \<open>simp_all add: spare_ok_def\<close>)
qed

lemma drbg_normals_ok:
  assumes "drbg_ok L st"
  shows "\<exists>zs st'. drbg_normals F L n st = Some (zs, st') \<and> length zs = n \<and> drbg_ok L st' \<and>
    dk_key st' = dk_key st \<and> (fpu_laws F \<and> spare_ok st \<longrightarrow> (\<forall>z \<in> set zs. fp_finite z) \<and> spare_ok st')"
  using assms
proof (induction n arbitrary: st)
  case (Suc n)
  obtain z st1 where 1: "drbg_normal F L st = Some (z, st1)" "drbg_ok L st1" "dk_key st1 = dk_key st"
    "fpu_laws F \<and> spare_ok st \<longrightarrow> fp_finite z \<and> spare_ok st1" by (rule drbg_normal_ok [OF Suc.prems, where F = F])
  from Suc.IH [OF 1(2)] 1 show ?case by fastforce
qed simp

text \<open>The stream of sub-challenges.\<close>

lemma subStream_loop_total:
  "\<exists>out'. subStream_loop L prefix need ctr out = Some out'"
proof (induction "need - length out" arbitrary: out ctr rule: less_induct)
  case less
  obtain d where d: "o_sha3_256 L (prefix @ be16 ctr) = Some d" "length d = 32" using sha3 by blast
  show ?case
  proof (cases "length out < need")
    case True
    with d less.hyps [of "out @ d" "ctr + 1"] show ?thesis by (subst subStream_loop.simps) simp
  qed (subst subStream_loop.simps, simp)
qed

lemma subStream_total:
  assumes "n \<le> kMaxResponseBits" "length ch \<le> 65535"
  obtains subs where "subStream L ch n = Some subs" "length subs = 16 * n"
proof -
  obtain out where "subStream_loop L (map of_char subStream_label @ be16 (of_nat (length ch)) @ ch) (16 * n) 0 [] = Some out"
    using subStream_loop_total by blast
  with assms that show thesis
    by (cases "n = 0") (auto simp: subStream_def requireValidBitCount_def Let_def)
qed

end

subsection \<open>Bits\<close>

text \<open>The loop of a reading is all draws, then all bits.\<close>

lemma arbiter_noisy_loop_normals:
  "arbiter_noisy_loop F C L p subs js rng out = do {
     (zs, rng) \<leftarrow> drbg_normals F L (length js) rng;
     Some (fold (\<lambda>(j, z) out. setBit C out j
       (arbiter_noisy_bit F (ar_sigma p) (deltaForSubChallengeRaw F p (sub_at subs j)) z)) (zip js zs) out, rng) }"
  by (induction js arbitrary: rng out)
    (auto simp: Let_def split: Option.bind_split intro!: Option.bind_cong)

lemma flip_row_normals:
  "flip_row F L sigma ds rng = do {
     (zs, rng) \<leftarrow> drbg_normals F L (length ds) rng;
     Some (map2 (\<lambda>d z. arbiter_bit F d \<noteq> arbiter_noisy_bit F sigma d z) ds zs, rng) }"
  by (induction ds arbitrary: rng)
    (auto simp: Let_def split: Option.bind_split intro!: Option.bind_cong)

lemma fold_zip_upt:
  assumes "length zs = n"
  shows "fold (\<lambda>(j, z) out. f j z out) (zip [0..<n] zs) out = fold (\<lambda>j. f j (zs ! j)) [0..<n] out"
proof -
  have "zip [0..<n] zs = map (\<lambda>j. (j, zs ! j)) [0..<n]"
    using assms by (intro nth_equalityI) simp_all
  then show ?thesis by (simp add: fold_map comp_def)
qed

subsection \<open>The contract\<close>

context puf_env
begin

text \<open>Both evaluations, from the draws on.\<close>

lemma arbiter_ideal_exact:
  assumes "n \<le> kMaxResponseBits" "subStream L ch n = Some subs"
  obtains r where "arbiter_evaluateIdeal F C L p ch n = Some r" "length r = bytesForBits C n"
    "\<forall>j < 8 * length r. getBit C r j =
       (j < n \<and> arbiter_bit F (deltaForSubChallengeRaw F p (sub_at subs j)))"
proof -
  have b: "n \<le> 8 * length (replicate (bytesForBits C n) (0::u8))" using bytesForBits_bound by simp
  show thesis
  proof (cases "n = 0")
    case True
    with assms(1) that [of "replicate (bytesForBits C n) 0"] show thesis
      by (simp add: arbiter_evaluateIdeal_def requireValidBitCount_def)
  next
    case False
    with assms that [of "fold (\<lambda>j out. setBit C out j (arbiter_bit F (deltaForSubChallengeRaw F p (sub_at subs j))))
        [0..<n] (replicate (bytesForBits C n) 0)"] b fold_setBit_0 [OF b]
    show thesis by (simp add: arbiter_evaluateIdeal_def requireValidBitCount_def Let_def)
  qed
qed

lemma arbiter_noisy_exact:
  assumes "n \<le> kMaxResponseBits" "subStream L ch n = Some subs"
    and "drbg_normals F L n rng = Some (zs, rng')" "length zs = n"
  obtains r where "arbiter_evaluateNoisy F C L p ch n rng = Some (r, rng')" "length r = bytesForBits C n"
    "\<forall>j < 8 * length r. getBit C r j =
       (j < n \<and> arbiter_noisy_bit F (ar_sigma p) (deltaForSubChallengeRaw F p (sub_at subs j)) (zs ! j))"
proof -
  have b: "n \<le> 8 * length (replicate (bytesForBits C n) (0::u8))" using bytesForBits_bound by simp
  show thesis
  proof (cases "n = 0")
    case True
    with assms that [of "replicate (bytesForBits C n) 0"] show thesis
      by (simp add: arbiter_evaluateNoisy_def requireValidBitCount_def)
  next
    case False
    with assms that [of "fold (\<lambda>j out. setBit C out j (arbiter_noisy_bit F (ar_sigma p)
        (deltaForSubChallengeRaw F p (sub_at subs j)) (zs ! j))) [0..<n] (replicate (bytesForBits C n) 0)"]
      b fold_setBit_0 [OF b]
    show thesis by (simp add: arbiter_evaluateNoisy_def requireValidBitCount_def Let_def
        arbiter_noisy_loop_normals fold_zip_upt)
  qed
qed

text \<open>Without delay noise a field reading is the ideal response.\<close>

lemma arbiter_noiseless:
  assumes "n \<le> kMaxResponseBits" "subStream L ch n = Some subs" "drbg_ok L rng" "spare_ok rng"
    and F: "fpu_laws F" and "ar_sigma p = fp_zero"
    and "arbiter_evaluateIdeal F C L p ch n = Some ideal" "arbiter_evaluateNoisy F C L p ch n rng = Some (noisy, rng')"
  shows "noisy = ideal"
proof -
  obtain zs rng1 where z: "drbg_normals F L n rng = Some (zs, rng1)" "length zs = n" "\<forall>z \<in> set zs. fp_finite z"
    using drbg_normals_ok [OF assms(3), of F n] F assms(4) by blast
  have i: "length ideal = bytesForBits C n" "\<forall>j < 8 * length ideal. getBit C ideal j =
      (j < n \<and> arbiter_bit F (deltaForSubChallengeRaw F p (sub_at subs j)))"
    by (rule arbiter_ideal_exact [OF assms(1,2), of F p]; use assms(7) in simp)+
  have r: "length noisy = bytesForBits C n" "\<forall>j < 8 * length noisy. getBit C noisy j =
      (j < n \<and> arbiter_noisy_bit F (ar_sigma p) (deltaForSubChallengeRaw F p (sub_at subs j)) (zs ! j))"
    by (rule arbiter_noisy_exact [OF assms(1,2) z(1,2), of p]; use assms(8) in simp)+
  show ?thesis
  proof (rule getBit_ext)
    fix j assume j: "j < 8 * length noisy"
    have "j < n \<Longrightarrow> fp_finite (zs ! j)" using z(2,3) by simp
    then show "getBit C noisy j = getBit C ideal j"
      using i r j fpu_laws.zero_noise [OF F] by (auto simp: arbiter_bit_def arbiter_noisy_bit_def assms(6))
  qed (use i(1) r(1) in simp)
qed

end

text \<open>Every arbiter PUF provides the interface.\<close>

sublocale puf_env \<subseteq> arbiter: puf_model C L "arbiterPuf F C L p" for F p
proof
  fix n ch rng r
  assume n: "n \<le> kMaxResponseBits" and ch: "length (ch :: bytes) \<le> 65535"
  obtain subs where s: "subStream L ch n = Some subs" using subStream_total [OF n ch] by blast
  show "\<exists>r. pf_ideal (arbiterPuf F C L p) ch n = Some r"
    by (rule arbiter_ideal_exact [OF n s, of F p]) (simp add: arbiterPuf_def)
  assume ok: "drbg_ok L rng"
  obtain zs rng' where z: "drbg_normals F L n rng = Some (zs, rng')" "length zs = n" "drbg_ok L rng'"
    "dk_key rng' = dk_key rng" using drbg_normals_ok [OF ok] by blast
  show "\<exists>r rng'. pf_noisy (arbiterPuf F C L p) ch n rng = Some (r, rng') \<and> length r = bytesForBits C n \<and>
      drbg_ok L rng' \<and> dk_key rng' = dk_key rng"
    by (rule arbiter_noisy_exact [OF n s z(1,2), of p]) (use z in \<open>auto simp: arbiterPuf_def\<close>)
next
  fix n ch r
  assume a: "pf_ideal (arbiterPuf F C L p) ch n = Some r"
  then have n: "n \<le> kMaxResponseBits"
    by (auto simp: arbiterPuf_def arbiter_evaluateIdeal_def requireValidBitCount_def Option.bind_eq_Some_conv split: if_splits)
  show "length r = bytesForBits C n"
  proof (cases "subStream L ch n")
    case None
    with a show ?thesis
      by (auto simp: arbiterPuf_def arbiter_evaluateIdeal_def Option.bind_eq_Some_conv Let_def split: if_splits)
  next
    case (Some subs)
    show ?thesis
      by (rule arbiter_ideal_exact [OF n Some, of F p]) (use a in \<open>simp add: arbiterPuf_def\<close>)
  qed
qed

subsection \<open>The parity model\<close>

text \<open>The documented feature \<open>phi[i]\<close>, the product of the signs of the stages from \<open>i\<close> on, as a double.\<close>

definition phi :: "fpu \<Rightarrow> bytes \<Rightarrow> nat \<Rightarrow> double" where
  "phi F sub i = (if even (card {k. i \<le> k \<and> k < kStages \<and> sub_bit sub k})
     then fp_of_rat F 1 else fp_neg F (fp_of_rat F 1))"

lemma phi_step:
  assumes "i < kStages"
  shows "card {k. i \<le> k \<and> k < kStages \<and> sub_bit sub k} =
    (if sub_bit sub i then 1 else 0) + card {k. Suc i \<le> k \<and> k < kStages \<and> sub_bit sub k}"
proof -
  have "{k. i \<le> k \<and> k < kStages \<and> sub_bit sub k} =
    (if sub_bit sub i then {i} else {}) \<union> {k. Suc i \<le> k \<and> k < kStages \<and> sub_bit sub k}"
    using assms by (auto simp: Suc_le_eq le_less)
  also have "card \<dots> = card (if sub_bit sub i then {i} else {}) + card {k. Suc i \<le> k \<and> k < kStages \<and> sub_bit sub k}"
    by (rule card_Un_disjoint) auto
  finally show ?thesis by simp
qed

context fpu_laws
begin

lemma delta_loop_phi:
  "i \<le> kStages \<Longrightarrow> delta_loop F w sub i delta (phi F sub i) =
    foldl (\<lambda>d i. fp_add F d (fp_mul F (w ! i) (phi F sub i))) delta (rev [0..<i])"
proof (induction i arbitrary: delta)
  case (Suc i)
  have "(if sub_bit sub i then fp_neg F (phi F sub (Suc i)) else phi F sub (Suc i)) = phi F sub i"
    using phi_step [of i sub] Suc.prems by (simp add: phi_def neg_neg)
  then show ?case using Suc by (simp add: Let_def)
qed simp

end

subsection \<open>Readings and measurements\<close>

primrec readings ::
    "(drbg \<Rightarrow> (bytes \<times> drbg) option) \<Rightarrow> nat \<Rightarrow> drbg \<Rightarrow> (bytes list \<times> drbg) option" where
  "readings ev 0 rng = Some ([], rng)"
| "readings ev (Suc t) rng = do {
     (r, rng) \<leftarrow> ev rng;
     (rs, rng) \<leftarrow> readings ev t rng;
     Some (r # rs, rng) }"

text \<open>The bits in which two responses differ, and how many readings differ from \<open>ideal\<close> in bit \<open>j\<close>.\<close>

definition diff_row :: "core_lib \<Rightarrow> nat \<Rightarrow> bytes \<Rightarrow> bytes \<Rightarrow> bool list" where
  "diff_row C n a b = map (\<lambda>j. getBit C a j \<noteq> getBit C b j) [0..<n]"

definition hamming :: "core_lib \<Rightarrow> nat \<Rightarrow> bytes \<Rightarrow> bytes \<Rightarrow> nat" where
  "hamming C n a b = card {j. j < n \<and> getBit C a j \<noteq> getBit C b j}"

definition diff_count :: "core_lib \<Rightarrow> bytes \<Rightarrow> bytes list \<Rightarrow> nat \<Rightarrow> nat" where
  "diff_count C a bs j = length (filter (\<lambda>b. getBit C a j \<noteq> getBit C b j) bs)"

lemma hamming_diff_row: "length (filter id (diff_row C n a b)) = hamming C n a b"
proof -
  have "length (filter id (diff_row C n a b)) = length (filter (\<lambda>j. getBit C a j \<noteq> getBit C b j) [0..<n])"
    by (simp add: diff_row_def filter_map comp_def)
  also have "\<dots> = card (set (filter (\<lambda>j. getBit C a j \<noteq> getBit C b j) [0..<n]))"
    by (rule distinct_card [symmetric]) simp
  also have "set (filter (\<lambda>j. getBit C a j \<noteq> getBit C b j) [0..<n]) = {j. j < n \<and> getBit C a j \<noteq> getBit C b j}"
    by auto
  finally show ?thesis unfolding hamming_def .
qed

text \<open>The measurement of the keyed PUF adds up the distances of successive readings.\<close>

lemma distance_loop_readings:
  assumes "readings ev t rng = Some (rs, rng')" and "\<And>r. r \<in> set rs \<Longrightarrow> D ideal r = Some (h r)"
  shows "distance_loop D ideal ev t flips rng = Some (flips + sum_list (map h rs), rng')"
  using assms
  by (induction t arbitrary: rng rs flips) (auto simp: Option.bind_eq_Some_conv)

text \<open>If every pass is a reading, the counters count differences between readings.\<close>

lemma counters_agree:
  assumes pass: "\<And>rng. ok rng \<Longrightarrow> \<exists>r rng'. ev rng = Some (r, rng') \<and> ok rng' \<and>
      flip_row F L sigma ds rng = Some (diff_row C n ideal r, rng')"
    and "ok rng"
  shows "\<exists>rs rng'. readings ev t rng = Some (rs, rng') \<and> length rs = t \<and>
    (\<forall>k. count_flips F L sigma ds t k rng = Some (k + sum_list (map (hamming C n ideal) rs), rng')) \<and>
    (\<forall>f. count_bit_flips F L sigma ds t (map f [0..<n]) rng =
      Some (map (\<lambda>j. f j + diff_count C ideal rs j) [0..<n], rng'))"
  using assms(2)
proof (induction t arbitrary: rng)
  case 0
  then show ?case by (auto simp: diff_count_def)
next
  case (Suc t)
  obtain r rng1 where 1: "ev rng = Some (r, rng1)" "ok rng1"
    "flip_row F L sigma ds rng = Some (diff_row C n ideal r, rng1)" using pass [OF Suc.prems] by blast
  from Suc.IH [OF 1(2)] obtain rs rng' where 2: "readings ev t rng1 = Some (rs, rng')" "length rs = t"
    and c: "\<And>k. count_flips F L sigma ds t k rng1 = Some (k + sum_list (map (hamming C n ideal) rs), rng')"
    and b: "\<And>f. count_bit_flips F L sigma ds t (map f [0..<n]) rng1 =
      Some (map (\<lambda>j. f j + diff_count C ideal rs j) [0..<n], rng')" by blast
  have m: "map2 (\<lambda>f b. if b then f + 1 else f) (map f [0..<n]) (diff_row C n ideal r) =
      map (\<lambda>j. if getBit C ideal j \<noteq> getBit C r j then f j + 1 else f j) [0..<n]" for f :: "nat \<Rightarrow> nat"
    by (intro nth_equalityI) (simp_all add: diff_row_def)
  show ?case
    using 1 2 by (auto simp: c b m hamming_diff_row diff_count_def)
qed

context puf_env
begin

lemma arbiter_pass:
  assumes "0 < n" "n \<le> kMaxResponseBits" "subStream L ch n = Some subs" "drbg_ok L rng"
    and ideal: "arbiter_evaluateIdeal F C L p ch n = Some ideal"
  shows "\<exists>r rng'. arbiter_evaluateNoisy F C L p ch n rng = Some (r, rng') \<and> drbg_ok L rng' \<and>
    flip_row F L (ar_sigma p) (map (\<lambda>j. deltaForSubChallengeRaw F p (sub_at subs j)) [0..<n]) rng =
      Some (diff_row C n ideal r, rng')"
proof -
  obtain zs rng' where z: "drbg_normals F L n rng = Some (zs, rng')" "length zs = n" "drbg_ok L rng'"
    using drbg_normals_ok [OF assms(4)] by blast
  obtain r where r: "arbiter_evaluateNoisy F C L p ch n rng = Some (r, rng')" "length r = bytesForBits C n"
    "\<forall>j < 8 * length r. getBit C r j =
       (j < n \<and> arbiter_noisy_bit F (ar_sigma p) (deltaForSubChallengeRaw F p (sub_at subs j)) (zs ! j))"
    by (rule arbiter_noisy_exact [OF assms(2,3) z(1,2), of p])
  have i: "length ideal = bytesForBits C n" "\<forall>j < 8 * length ideal. getBit C ideal j =
       (j < n \<and> arbiter_bit F (deltaForSubChallengeRaw F p (sub_at subs j)))"
    by (rule arbiter_ideal_exact [OF assms(2,3), of F p]; use ideal in simp)+
  have "j < 8 * bytesForBits C n" if "j < n" for j using that bytesForBits_bound [of n] by linarith
  then have "map2 (\<lambda>d z. arbiter_bit F d \<noteq> arbiter_noisy_bit F (ar_sigma p) d z)
      (map (\<lambda>j. deltaForSubChallengeRaw F p (sub_at subs j)) [0..<n]) zs = diff_row C n ideal r"
    using z(2) i r(2,3) by (intro nth_equalityI) (simp_all add: diff_row_def)
  then show ?thesis using r(1) z by (simp add: flip_row_normals)
qed

end

subsection \<open>Properties\<close>

text \<open>C39. The running product computes the documented delay model: for every device and
  sub-challenge, the delay difference is the sum, in the order of the loop, of \<open>w[128]\<close> and of
  \<open>w[i] * phi[i]\<close> for \<open>i\<close> from 127 down to 0, where \<open>phi[i]\<close> is 1 or -1 as the number of ones among the
  challenge bits \<open>i\<close> to 127 is even or odd.\<close>

theorem arbiter_delta_is_parity_model:
  assumes "fpu_laws F"
  shows "deltaForSubChallengeRaw F p sub =
    foldl (\<lambda>d i. fp_add F d (fp_mul F (ar_w p ! i) (phi F sub i))) (ar_w p ! kStages) (rev [0..<kStages])"
proof -
  have "{k. kStages \<le> k \<and> k < kStages \<and> sub_bit sub k} = {}" by auto
  then have "phi F sub kStages = fp_of_rat F 1" unfolding phi_def by (simp only: card.empty even_zero if_True)
  then show ?thesis
    using fpu_laws.delta_loop_phi [OF assms, of kStages "ar_w p" sub "ar_w p ! kStages"]
    by (simp add: deltaForSubChallengeRaw_def)
qed

theorem arbiter_delta_is_parity_model_witness:
  "deltaForSubChallengeRaw ref_fpu \<lparr>ar_w = replicate 129 0x100000, ar_sigma = 0\<rparr> (replicate 16 0x5A) =
     foldl (\<lambda>d i. fp_add ref_fpu d (fp_mul ref_fpu (replicate 129 0x100000 ! i) (phi ref_fpu (replicate 16 0x5A) i)))
       0x100000 (rev [0..<kStages])"
  using arbiter_delta_is_parity_model [OF ref_fp.fpu_laws_axioms,
      of "\<lparr>ar_w = replicate 129 0x100000, ar_sigma = 0\<rparr>" "replicate 16 0x5A"]
  by (simp add: kStages_def)

text \<open>Readings of an arbiter PUF: for a challenge of at most 65535 bytes, a length of at most 65536
  bits and any state of the generator, there is one sequence of normal deviates and one final state of
  the generator, the same for every device and every noise setting, such that bit \<open>j\<close> of the ideal
  response is set exactly when the delay difference is positive and bit \<open>j\<close> of the field response
  exactly when it is positive after adding sigma times deviate \<open>j\<close>; with sigma 0 the field response is
  the ideal one.\<close>

theorem arbiter_reading_exact:
  assumes "core_laws C" and "ossl_laws L" and "n \<le> kMaxResponseBits" and "length ch \<le> 65535"
    and "drbg_ok L rng"
  shows "\<exists>subs zs rng'. subStream L ch n = Some subs \<and> drbg_normals F L n rng = Some (zs, rng') \<and> length zs = n \<and>
    (\<forall>p. \<exists>ideal noisy. arbiter_evaluateIdeal F C L p ch n = Some ideal \<and>
      arbiter_evaluateNoisy F C L p ch n rng = Some (noisy, rng') \<and>
      length ideal = bytesForBits C n \<and> length noisy = bytesForBits C n \<and>
      (\<forall>j < n. getBit C ideal j = fp_less F fp_zero (deltaForSubChallengeRaw F p (sub_at subs j)) \<and>
        getBit C noisy j = fp_less F fp_zero
          (fp_add F (deltaForSubChallengeRaw F p (sub_at subs j)) (fp_mul F (ar_sigma p) (zs ! j)))) \<and>
      (fpu_laws F \<and> spare_ok rng \<and> ar_sigma p = fp_zero \<longrightarrow> noisy = ideal))"
proof -
  note env = ideal_pufI [OF assms(1,2)]
  have bits: "core_bits C" using assms(1) by (simp add: core_laws_def)
  obtain subs where s: "subStream L ch n = Some subs"
    using ossl_laws.subStream_total [OF assms(2-4)] by blast
  obtain zs rng' where z: "drbg_normals F L n rng = Some (zs, rng')" "length zs = n"
    using ossl_laws.drbg_normals_ok [OF assms(2,5), of F n] by blast
  have n: "n \<le> 8 * bytesForBits C n" by (rule core_bits.bytesForBits_bound [OF bits])
  have "\<exists>ideal noisy. arbiter_evaluateIdeal F C L p ch n = Some ideal \<and>
      arbiter_evaluateNoisy F C L p ch n rng = Some (noisy, rng') \<and>
      length ideal = bytesForBits C n \<and> length noisy = bytesForBits C n \<and>
      (\<forall>j < n. getBit C ideal j = fp_less F fp_zero (deltaForSubChallengeRaw F p (sub_at subs j)) \<and>
        getBit C noisy j = fp_less F fp_zero
          (fp_add F (deltaForSubChallengeRaw F p (sub_at subs j)) (fp_mul F (ar_sigma p) (zs ! j)))) \<and>
      (fpu_laws F \<and> spare_ok rng \<and> ar_sigma p = fp_zero \<longrightarrow> noisy = ideal)" for p
  proof (rule puf_env.arbiter_ideal_exact [OF env assms(3) s, of F p],
      rule puf_env.arbiter_noisy_exact [OF env assms(3) s z(1,2), of p])
    fix ideal noisy
    assume i: "arbiter_evaluateIdeal F C L p ch n = Some ideal" "length ideal = bytesForBits C n"
      "\<forall>j < 8 * length ideal. getBit C ideal j = (j < n \<and> arbiter_bit F (deltaForSubChallengeRaw F p (sub_at subs j)))"
      and r: "arbiter_evaluateNoisy F C L p ch n rng = Some (noisy, rng')" "length noisy = bytesForBits C n"
      "\<forall>j < 8 * length noisy. getBit C noisy j =
        (j < n \<and> arbiter_noisy_bit F (ar_sigma p) (deltaForSubChallengeRaw F p (sub_at subs j)) (zs ! j))"
    have "noisy = ideal" if "fpu_laws F" "spare_ok rng" "ar_sigma p = fp_zero"
      by (rule puf_env.arbiter_noiseless [OF env assms(3) s assms(5) that(2,1,3) i(1) r(1)])
    with i r n show ?thesis by (intro exI [of _ ideal] exI [of _ noisy]) (simp add: arbiter_bit_def arbiter_noisy_bit_def)
  qed
  with s z(1,2) show ?thesis by blast
qed

theorem arbiter_reading_exact_witness:
  "\<exists>rng r rng'. arbiter_evaluateIdeal ref_fpu ref_core ref_ossl \<lparr>ar_w = replicate 129 0x100000, ar_sigma = 0\<rparr> [2] 1020 = Some r \<and>
     arbiter_evaluateNoisy ref_fpu ref_core ref_ossl \<lparr>ar_w = replicate 129 0x100000, ar_sigma = 0\<rparr> [2] 1020 rng = Some (r, rng')"
proof -
  obtain rng where rng: "drbg_reseed ref_ossl [1] = Some rng" "drbg_at ref_ossl rng 0"
    using refo.drbg_reseed_total by blast
  then have ok: "drbg_ok ref_ossl rng" "spare_ok rng"
    by (auto simp: drbg_ok_def spare_ok_def drbg_reseed_def Option.bind_eq_Some_conv)
  from arbiter_reading_exact [OF ref_core_laws refo.ossl_laws_axioms _ _ ok(1), of 1020 "[2]" ref_fpu]
  have "\<exists>rng'. \<forall>p. \<exists>ideal noisy. arbiter_evaluateIdeal ref_fpu ref_core ref_ossl p [2] 1020 = Some ideal \<and>
      arbiter_evaluateNoisy ref_fpu ref_core ref_ossl p [2] 1020 rng = Some (noisy, rng') \<and>
      (ar_sigma p = fp_zero \<longrightarrow> noisy = ideal)"
    using ok(2) ref_fp.fpu_laws_axioms by (simp add: kMaxResponseBits_def) blast
  then obtain rng' where "\<exists>ideal noisy. arbiter_evaluateIdeal ref_fpu ref_core ref_ossl
        \<lparr>ar_w = replicate 129 0x100000, ar_sigma = 0\<rparr> [2] 1020 = Some ideal \<and>
      arbiter_evaluateNoisy ref_fpu ref_core ref_ossl \<lparr>ar_w = replicate 129 0x100000, ar_sigma = 0\<rparr> [2] 1020 rng =
        Some (noisy, rng') \<and> (ar_sigma \<lparr>ar_w = replicate 129 0x100000, ar_sigma = 0\<rparr> = fp_zero \<longrightarrow> noisy = ideal)"
    by blast
  then show ?thesis by (auto simp: fp_zero_def)
qed

text \<open>C38. The measurements agree with readings, bit for bit: \<open>measureBer\<close> over some trials is the total Hamming
  distance of that many successive field readings from the ideal response, divided by the number of
  bits read, \<open>measurePerBitFlipRate\<close> counts for each bit the readings that differ in it, and both leave
  the generator where the readings leave it.\<close>

theorem measurements_agree_with_readings:
  assumes "core_laws C" and "ossl_laws L" and "0 < n" and "n \<le> kMaxResponseBits" and "length ch \<le> 65535"
    and "drbg_ok L rng" and "0 < trials"
  shows "\<exists>ideal rs rng'. arbiter_evaluateIdeal F C L p ch n = Some ideal \<and>
    readings (arbiter_evaluateNoisy F C L p ch n) (nat trials) rng = Some (rs, rng') \<and>
    measureBer F L p ch n rng trials =
      Some (flip_rate F (sum_list (map (hamming C n ideal) rs)) trials n, rng') \<and>
    measurePerBitFlipRate F L p ch n rng trials =
      Some (map (\<lambda>j. fp_div F (fp_nat F (diff_count C ideal rs j)) (fp_of_rat F (of_int trials))) [0..<n], rng')"
proof -
  note env = ideal_pufI [OF assms(1,2)]
  obtain subs where s: "subStream L ch n = Some subs"
    using ossl_laws.subStream_total [OF assms(2,4,5)] by blast
  obtain ideal where i: "arbiter_evaluateIdeal F C L p ch n = Some ideal"
    using puf_env.arbiter_ideal_exact [OF env assms(4) s, of F p] by blast
  let ?ds = "map (\<lambda>j. deltaForSubChallengeRaw F p (sub_at subs j)) [0..<n]"
  have d: "computeDeltas F L p ch n = Some ?ds"
    using assms(3,4) s by (simp add: computeDeltas_def requireValidBitCount_def)
  have "\<exists>r rng'. arbiter_evaluateNoisy F C L p ch n rng = Some (r, rng') \<and> drbg_ok L rng' \<and>
      flip_row F L (ar_sigma p) ?ds rng = Some (diff_row C n ideal r, rng')" if "drbg_ok L rng" for rng
    by (rule puf_env.arbiter_pass [OF env assms(3,4) s that i])
  from counters_agree [where ok = "drbg_ok L" and t = "nat trials", OF this assms(6)] obtain rs rng' where
    r: "readings (arbiter_evaluateNoisy F C L p ch n) (nat trials) rng = Some (rs, rng')"
    and c: "\<And>k. count_flips F L (ar_sigma p) ?ds (nat trials) k rng =
      Some (k + sum_list (map (hamming C n ideal) rs), rng')"
    and b: "\<And>f. count_bit_flips F L (ar_sigma p) ?ds (nat trials) (map f [0..<n]) rng =
      Some (map (\<lambda>j. f j + diff_count C ideal rs j) [0..<n], rng')" by blast
  have z: "replicate n 0 = map (\<lambda>j. 0 :: nat) [0..<n]" by (simp add: map_replicate_const)
  show ?thesis
    using i r c [of 0] b [of "\<lambda>_. 0"] assms(3,7) by (simp add: measureBer_def measurePerBitFlipRate_def d z comp_def)
qed

theorem measurements_agree_with_readings_witness:
  "\<exists>rng ideal rs rng'. arbiter_evaluateIdeal ref_fpu ref_core ref_ossl \<lparr>ar_w = replicate 129 0x100000, ar_sigma = 5\<rparr> [2] 64 = Some ideal \<and>
     length rs = 3 \<and>
     measureBer ref_fpu ref_ossl \<lparr>ar_w = replicate 129 0x100000, ar_sigma = 5\<rparr> [2] 64 rng 3 =
       Some (flip_rate ref_fpu (sum_list (map (hamming ref_core 64 ideal) rs)) 3 64, rng')"
proof -
  obtain rng where rng: "drbg_at ref_ossl rng 0" using refo.drbg_reseed_total by blast
  then have ok: "drbg_ok ref_ossl rng" by (auto simp: drbg_ok_def)
  have len: "length rs = t" if "readings ev t r = Some (rs, r')" for ev t r rs r'
    using that by (induction t arbitrary: r rs) (auto simp: Option.bind_eq_Some_conv)
  obtain ideal rs rng' where
    "arbiter_evaluateIdeal ref_fpu ref_core ref_ossl \<lparr>ar_w = replicate 129 0x100000, ar_sigma = 5\<rparr> [2] 64 = Some ideal"
    "readings (arbiter_evaluateNoisy ref_fpu ref_core ref_ossl \<lparr>ar_w = replicate 129 0x100000, ar_sigma = 5\<rparr> [2] 64)
      (nat 3) rng = Some (rs, rng')"
    "measureBer ref_fpu ref_ossl \<lparr>ar_w = replicate 129 0x100000, ar_sigma = 5\<rparr> [2] 64 rng 3 =
       Some (flip_rate ref_fpu (sum_list (map (hamming ref_core 64 ideal) rs)) 3 64, rng')"
    using measurements_agree_with_readings [OF ref_core_laws refo.ossl_laws_axioms _ _ _ ok, of 64 "[2]" 3 ref_fpu
        "\<lparr>ar_w = replicate 129 0x100000, ar_sigma = 5\<rparr>"] by (auto simp: kMaxResponseBits_def)
  moreover from len [OF this(2)] have "length rs = 3" by simp
  ultimately show ?thesis by blast
qed

end
