(* ===== verification/Calibration.thy ===== *)
theory Calibration
  imports Arbiter_Props
begin

text \<open>
  The calibration of the noise (\<open>ArbiterPuf::sigmaForTargetBer\<close>): how far the doubling goes, what the
  forty halvings leave of the bracket, and that none of it is disturbed by rounding.  The
  locale \<open>fpu_dyadic\<close> states what IEEE 754 says of the numbers involved, which are multiples of a common
  power of two with a short significand; \<open>float_fpu\<close> is a computable floating point format that
  satisfies it.
\<close>

subsection \<open>Exact arithmetic on a dyadic grid\<close>

definition dyadic :: "nat \<Rightarrow> nat \<Rightarrow> nat \<Rightarrow> rat" where
  "dyadic k b m = of_nat m * 2 ^ k / 2 ^ b"

text \<open>A double has 53 significant bits and an exponent of 11: sums of numbers on the same grid below
  \<open>2^50\<close> steps, halves and doubles are exact, and the order is that of the numbers.\<close>

locale fpu_dyadic =
  fixes F :: fpu
  assumes zero_exact: "fp_of_rat F 0 = fp_zero"
    and add_exact: "m < 2 ^ 50 \<Longrightarrow> n < 2 ^ 50 \<Longrightarrow> k \<le> 100 \<Longrightarrow> b \<le> 100 \<Longrightarrow>
      fp_add F (fp_of_rat F (dyadic k b m)) (fp_of_rat F (dyadic k b n)) = fp_of_rat F (dyadic k b (m + n))"
    and half_exact: "m < 2 ^ 50 \<Longrightarrow> k \<le> 100 \<Longrightarrow> b \<le> 100 \<Longrightarrow>
      fp_mul F (fp_of_rat F (1 / 2)) (fp_of_rat F (dyadic k b m)) = fp_of_rat F (dyadic k (Suc b) m)"
    and double_exact: "m < 2 ^ 50 \<Longrightarrow> k \<le> 100 \<Longrightarrow> b \<le> 100 \<Longrightarrow>
      fp_mul F (fp_of_rat F (dyadic k b m)) (fp_of_rat F 2) = fp_of_rat F (dyadic (Suc k) b m)"
    and less_exact: "m < 2 ^ 50 \<Longrightarrow> n < 2 ^ 50 \<Longrightarrow> k \<le> 100 \<Longrightarrow> b \<le> 100 \<Longrightarrow>
      fp_less F (fp_of_rat F (dyadic k b m)) (fp_of_rat F (dyadic k b n)) \<longleftrightarrow> m < n"
begin

lemma dyadic_finer: "dyadic k b m = dyadic k (Suc b) (2 * m)"
  by (simp add: dyadic_def)

lemma middle_exact:
  assumes "m < 2 ^ 48" "k \<le> 100" "b < 100"
  shows "fp_middle F (fp_of_rat F (dyadic k b m)) (fp_of_rat F (dyadic k b (Suc m))) =
    fp_of_rat F (dyadic k (Suc b) (2 * m + 1))"
proof -
  have "fp_add F (fp_of_rat F (dyadic k b m)) (fp_of_rat F (dyadic k b (Suc m))) = fp_of_rat F (dyadic k b (2 * m + 1))"
    using add_exact [of m "Suc m" k b] assms by (simp add: mult_2)
  then show ?thesis using half_exact [of "2 * m + 1" k b] assms by (simp add: fp_middle_def)
qed

text \<open>The doublings stop at the first power of two that reaches the target, or at \<open>2^64\<close>.\<close>

lemma widen_hi_exact:
  assumes "j + left = 64"
  obtains k where "widen_hi F g target left (fp_of_rat F (2 ^ j)) = fp_of_rat F (2 ^ k)" "j \<le> k" "k \<le> 64"
    "\<forall>i. j \<le> i \<and> i < k \<longrightarrow> fp_less F (g (fp_of_rat F (2 ^ i))) target"
    "k < 64 \<longrightarrow> \<not> fp_less F (g (fp_of_rat F (2 ^ k))) target"
  using assms
proof (induction left arbitrary: j thesis)
  case 0
  show ?case by (rule 0(1) [of 64]) (use 0(2) in \<open>auto simp: widen_hi.simps [of F g target 0]\<close>)
next
  case (Suc left)
  show ?case
  proof (cases "fp_less F (g (fp_of_rat F (2 ^ j))) target")
    case True
    have "fp_mul F (fp_of_rat F (2 ^ j)) (fp_of_rat F 2) = fp_of_rat F (2 ^ Suc j)"
      using double_exact [of 1 j 0] Suc.prems(2) by (simp add: dyadic_def)
    with True have w: "widen_hi F g target (Suc left) (fp_of_rat F (2 ^ j)) =
        widen_hi F g target left (fp_of_rat F (2 ^ Suc j))" by (subst widen_hi.simps) simp
    obtain k where k: "widen_hi F g target left (fp_of_rat F (2 ^ Suc j)) = fp_of_rat F (2 ^ k)" "Suc j \<le> k" "k \<le> 64"
      "\<forall>i. Suc j \<le> i \<and> i < k \<longrightarrow> fp_less F (g (fp_of_rat F (2 ^ i))) target"
      "k < 64 \<longrightarrow> \<not> fp_less F (g (fp_of_rat F (2 ^ k))) target"
      using Suc.IH [of "Suc j"] Suc.prems(2) by auto
    then have "\<forall>i. j \<le> i \<and> i < k \<longrightarrow> fp_less F (g (fp_of_rat F (2 ^ i))) target"
      using True by (metis Suc_leI le_neq_implies_less)
    with k w show thesis by (intro Suc.prems(1) [of k]) simp_all
  next
    case False
    then have "widen_hi F g target (Suc left) (fp_of_rat F (2 ^ j)) = fp_of_rat F (2 ^ j)"
      by (subst widen_hi.simps) simp
    then show thesis by (intro Suc.prems(1) [of j]) (use False Suc.prems(2) in auto)
  qed
qed

text \<open>The bracket: step \<open>m\<close> of the grid of \<open>2^b\<close> steps over \<open>[0, 2^k]\<close>.\<close>

definition bracket :: "(double \<Rightarrow> double) \<Rightarrow> double \<Rightarrow> nat \<Rightarrow> nat \<Rightarrow> nat \<Rightarrow> bool" where
  "bracket g target k b m \<longleftrightarrow> m < 2 ^ b \<and>
     (m = 0 \<or> fp_less F (g (fp_of_rat F (dyadic k b m))) target) \<and>
     (\<not> fp_less F (g (fp_of_rat F (dyadic k b (Suc m)))) target \<or> Suc m = 2 ^ b \<and> k = 64)"

lemma bracket_halves:
  assumes "bracket g target k b m"
  shows "fp_less F (g (fp_of_rat F (dyadic k (Suc b) (Suc (2 * m))))) target \<Longrightarrow>
      bracket g target k (Suc b) (Suc (2 * m))"
    and "\<not> fp_less F (g (fp_of_rat F (dyadic k (Suc b) (Suc (2 * m))))) target \<Longrightarrow>
      bracket g target k (Suc b) (2 * m)"
proof -
  have e: "dyadic k (Suc b) (Suc (Suc (2 * m))) = dyadic k b (Suc m)" "dyadic k (Suc b) (2 * m) = dyadic k b m"
    using dyadic_finer [of k b "Suc m"] dyadic_finer [of k b m] by simp_all
  have "m < 2 ^ b" using assms by (simp add: bracket_def)
  then have m: "Suc (2 * m) < 2 ^ Suc b" "2 * m < 2 ^ Suc b" by simp_all
  have s: "Suc (Suc (2 * m)) = 2 ^ Suc b \<longleftrightarrow> Suc m = 2 ^ b" by simp arith
  show "fp_less F (g (fp_of_rat F (dyadic k (Suc b) (Suc (2 * m))))) target \<Longrightarrow>
      bracket g target k (Suc b) (Suc (2 * m))"
    using assms m unfolding bracket_def e s by blast
  show "\<not> fp_less F (g (fp_of_rat F (dyadic k (Suc b) (Suc (2 * m))))) target \<Longrightarrow>
      bracket g target k (Suc b) (2 * m)"
    using assms m unfolding bracket_def e by simp
qed

text \<open>Every halving keeps the bracket one step wide, on a grid twice as fine.\<close>

lemma bisect_exact:
  assumes "b + n \<le> 40" "k \<le> 64" "bracket g target k b m"
  shows "\<exists>m'. bisect F g target n (fp_of_rat F (dyadic k b m)) (fp_of_rat F (dyadic k b (Suc m))) =
      (fp_of_rat F (dyadic k (b + n) m'), fp_of_rat F (dyadic k (b + n) (Suc m'))) \<and> bracket g target k (b + n) m'"
  using assms
proof (induction n arbitrary: b m)
  case (Suc n)
  have "(2 :: nat) ^ b \<le> 2 ^ 48" using Suc.prems(1) by (intro power_increasing) auto
  then have mid: "fp_middle F (fp_of_rat F (dyadic k b m)) (fp_of_rat F (dyadic k b (Suc m))) =
      fp_of_rat F (dyadic k (Suc b) (Suc (2 * m)))"
    using middle_exact [of m k b] Suc.prems by (simp add: bracket_def)
  have e: "dyadic k b (Suc m) = dyadic k (Suc b) (Suc (Suc (2 * m)))" "dyadic k b m = dyadic k (Suc b) (2 * m)"
    using dyadic_finer [of k b "Suc m"] dyadic_finer [of k b m] by simp_all
  have b: "Suc b + n \<le> 40" "Suc b + n = b + Suc n" using Suc.prems(1) by simp_all
  note halves = bracket_halves [OF Suc.prems(3)]
  show ?case
  proof (cases "fp_less F (g (fp_of_rat F (dyadic k (Suc b) (Suc (2 * m))))) target")
    case True
    then have "bisect F g target (Suc n) (fp_of_rat F (dyadic k b m)) (fp_of_rat F (dyadic k b (Suc m))) =
        bisect F g target n (fp_of_rat F (dyadic k (Suc b) (Suc (2 * m)))) (fp_of_rat F (dyadic k b (Suc m)))"
      by (simp only: bisect.simps Let_def mid if_True)
    with Suc.IH [OF b(1) Suc.prems(2) halves(1) [OF True]] show ?thesis by (simp only: e(1) b(2))
  next
    case False
    then have "bisect F g target (Suc n) (fp_of_rat F (dyadic k b m)) (fp_of_rat F (dyadic k b (Suc m))) =
        bisect F g target n (fp_of_rat F (dyadic k b m)) (fp_of_rat F (dyadic k (Suc b) (Suc (2 * m))))"
      by (simp only: bisect.simps Let_def mid if_False)
    with Suc.IH [OF b(1) Suc.prems(2) halves(2) [OF False]] show ?thesis by (simp only: e(2) b(2))
  qed
qed auto

text \<open>The two loops together, from 0 and 1.\<close>

lemma calibration_loops:
  obtains k m where
    "bisect F g target 40 fp_zero (widen_hi F g target 64 (fp_of_rat F 1)) =
      (fp_of_rat F (dyadic k 40 m), fp_of_rat F (dyadic k 40 (Suc m)))"
    "k \<le> 64" "\<forall>i < k. fp_less F (g (fp_of_rat F (2 ^ i))) target"
    "k < 64 \<longrightarrow> \<not> fp_less F (g (fp_of_rat F (2 ^ k))) target" "bracket g target k 40 m"
proof -
  obtain k where k: "widen_hi F g target 64 (fp_of_rat F 1) = fp_of_rat F (2 ^ k)" "k \<le> 64"
    "\<forall>i < k. fp_less F (g (fp_of_rat F (2 ^ i))) target"
    "k < 64 \<longrightarrow> \<not> fp_less F (g (fp_of_rat F (2 ^ k))) target"
    using widen_hi_exact [of 0 64 g target] by auto
  have e: "fp_zero = fp_of_rat F (dyadic k 0 0)" "fp_of_rat F (2 ^ k) = fp_of_rat F (dyadic k 0 (Suc 0))"
    by (simp_all add: dyadic_def zero_exact)
  have "bracket g target k 0 0" using k(2,4) e(2) by (auto simp: bracket_def)
  from bisect_exact [of 0 40, OF _ k(2) this] obtain m where
    "bisect F g target 40 (fp_of_rat F (dyadic k 0 0)) (fp_of_rat F (dyadic k 0 (Suc 0))) =
      (fp_of_rat F (dyadic k (0 + 40) m), fp_of_rat F (dyadic k (0 + 40) (Suc m)))" "bracket g target k (0 + 40) m"
    by auto
  then show thesis by (intro that [OF _ k(2-4)]) (simp_all only: k(1) e add_0)
qed

end

subsection \<open>A floating point format\<close>

text \<open>Sign, exponent with a bias of 100, and a significand below \<open>2^51\<close>, packed like a double; numbers
  beyond the range are cut to zero.  Sums and products are those of the numbers, rounded towards zero;
  the tail of the normal distribution is a step.\<close>

definition fl_mag :: "rat \<Rightarrow> int" where
  "fl_mag r = (case find (\<lambda>e. r * 2 ^ 100 < 2 ^ (51 + e)) [0..<250] of
     None \<Rightarrow> 0 | Some e \<Rightarrow> \<lfloor>r * 2 ^ 100 / 2 ^ e\<rfloor> + int e * 2 ^ 52)"

definition fl_enc :: "rat \<Rightarrow> double" where
  "fl_enc r = word_of_int (if r < 0 then 2 ^ 63 + fl_mag (- r) else fl_mag r)"

definition fl_val :: "int \<Rightarrow> rat" where
  "fl_val v = of_int (v mod 2 ^ 52) * 2 ^ nat (v div 2 ^ 52) / 2 ^ 100"

definition fl_dec :: "double \<Rightarrow> rat" where
  "fl_dec x = (if uint x < 2 ^ 63 then fl_val (uint x) else - fl_val (uint x - 2 ^ 63))"

definition float_fpu :: fpu where
  "float_fpu = \<lparr>
     fp_of_rat = fl_enc, fp_to_nat = (\<lambda>x. nat \<lfloor>fl_dec x\<rfloor>),
     fp_add = (\<lambda>x y. fl_enc (fl_dec x + fl_dec y)), fp_sub = (\<lambda>x y. fl_enc (fl_dec x - fl_dec y)),
     fp_mul = (\<lambda>x y. fl_enc (fl_dec x * fl_dec y)), fp_div = (\<lambda>x y. fl_enc (fl_dec x / fl_dec y)),
     fp_neg = (\<lambda>x. fl_enc (- fl_dec x)), fp_fabs = (\<lambda>x. fl_enc \<bar>fl_dec x\<bar>),
     fp_less = (\<lambda>x y. fl_dec x < fl_dec y), fp_le = (\<lambda>x y. fl_dec x \<le> fl_dec y),
     fp_sqrt = (\<lambda>x. fl_enc 1), fp_log = (\<lambda>x. fl_enc 0), fp_log2 = (\<lambda>x. fl_enc 0),
     fp_sin = (\<lambda>x. fl_enc 1), fp_cos = (\<lambda>x. fl_enc 1),
     fp_erfc = (\<lambda>x. fl_enc (if fl_dec x < 1 then 1 else 0)), fp_pow = (\<lambda>x y. x)\<rparr>"

lemma fl_dec_enc:
  assumes r: "r * 2 ^ 100 = of_nat m * 2 ^ e" and m: "m < 2 ^ 51" and e: "e < 250"
  shows "fl_dec (fl_enc r) = r"
proof -
  let ?P = "\<lambda>e. r * 2 ^ 100 < (2 :: rat) ^ (51 + e)"
  have "of_nat m < (of_nat (2 ^ 51) :: rat)" using m by (simp only: of_nat_less_iff)
  then have "of_nat m * 2 ^ e < (2 :: rat) ^ 51 * 2 ^ e" by (simp del: power_numeral_reduce)
  then have pe: "?P e" unfolding r power_add .
  obtain d where d: "find ?P [0..<250] = Some d" "?P d" "d \<le> e"
  proof (cases "find ?P [0..<250]")
    case None
    with pe e show thesis by (auto simp: find_None_iff)
  next
    case (Some d)
    then obtain i where i: "i < 250" "?P d" "d = i" "\<forall>j < i. \<not> ?P j"
      by (auto simp: find_Some_iff)
    with pe have "d \<le> e" by (metis not_less)
    with that Some i(2) show thesis by blast
  qed
  have "(2 :: rat) ^ e = 2 ^ (e - d) * 2 ^ d" using d(3) by (simp flip: power_add)
  moreover define n where "n = m * 2 ^ (e - d)"
  ultimately have q: "r * 2 ^ 100 / 2 ^ d = of_nat n"
    unfolding r by simp
  have "(of_nat n :: rat) < 2 ^ 51"
    using d(2) unfolding q [symmetric] power_add by (simp add: field_simps)
  then have "(of_nat n :: rat) < of_nat (2 ^ 51)" by simp
  then have n: "n < 2 ^ 51" by (simp only: of_nat_less_iff)
  have mag: "fl_mag r = int n + int d * 2 ^ 52" by (simp only: fl_mag_def d(1) option.case q floor_of_nat)
  have "0 \<le> r * 2 ^ 100" unfolding r by simp
  then have pos: "\<not> r < 0" by (simp add: zero_le_mult_iff)
  have dd: "d < 250" using d(3) e by simp
  have "fl_mag r < 2 ^ 63" "0 \<le> fl_mag r" unfolding mag using n dd by simp_all
  then have u: "uint (fl_enc r) = fl_mag r" using pos by (simp add: fl_enc_def uint_word_of_int_eq take_bit_int_eq_self)
  have "fl_mag r mod 2 ^ 52 = int n" "fl_mag r div 2 ^ 52 = int d"
    unfolding mag using n by simp_all
  then have "fl_val (fl_mag r) = of_nat n * 2 ^ d / 2 ^ 100" unfolding fl_val_def by simp
  also have "\<dots> = r" unfolding q [symmetric] by simp
  finally show ?thesis using \<open>fl_mag r < 2 ^ 63\<close> by (simp add: fl_dec_def u)
qed

lemma fl_dec_dyadic:
  assumes "m < 2 ^ 51" "k \<le> 101" "b \<le> 100"
  shows "fl_dec (fl_enc (dyadic k b m)) = dyadic k b m"
proof (rule fl_dec_enc [OF _ assms(1)])
  have eq: "(2 :: rat) ^ 100 = 2 ^ (100 - b) * 2 ^ b" using assms(3) by (simp flip: power_add)
  show "dyadic k b m * 2 ^ 100 = of_nat m * 2 ^ (k + (100 - b))"
    unfolding dyadic_def power_add eq by simp
qed (use assms in simp)

interpretation fl: fpu_dyadic float_fpu
proof
  have "find (\<lambda>e. (0 :: rat) < 2 ^ (51 + e)) [0..<250] = Some 0" by (simp add: upt_rec [of 0 250])
  then show "fp_of_rat float_fpu 0 = fp_zero"
    by (simp add: float_fpu_def fl_enc_def fl_mag_def fp_zero_def)
next
  fix m n k b :: nat assume m: "m < 2 ^ 50" and k: "k \<le> 100" and b: "b \<le> 100"
  have d: "fl_dec (fl_enc (dyadic k b m)) = dyadic k b m" if "m < 2 ^ 50" for m
    using fl_dec_dyadic [of m k b] that k b by simp
  have two: "fl_dec (fl_enc 2) = 2" "fl_dec (fl_enc (1 / 2)) = 1 / 2"
    using fl_dec_dyadic [of 2 0 0] fl_dec_dyadic [of 1 0 1] by (simp_all add: dyadic_def)
  show "fp_mul float_fpu (fp_of_rat float_fpu (1 / 2)) (fp_of_rat float_fpu (dyadic k b m)) =
      fp_of_rat float_fpu (dyadic k (Suc b) m)"
    by (simp add: float_fpu_def d [OF m] two) (simp add: dyadic_def mult_ac)
  show "fp_mul float_fpu (fp_of_rat float_fpu (dyadic k b m)) (fp_of_rat float_fpu 2) =
      fp_of_rat float_fpu (dyadic (Suc k) b m)"
    by (simp add: float_fpu_def d [OF m] two) (simp add: dyadic_def mult_ac)
  assume n: "n < 2 ^ 50"
  show "fp_add float_fpu (fp_of_rat float_fpu (dyadic k b m)) (fp_of_rat float_fpu (dyadic k b n)) =
      fp_of_rat float_fpu (dyadic k b (m + n))"
    by (simp add: float_fpu_def d [OF m] d [OF n]) (simp add: dyadic_def field_simps)
  show "fp_less float_fpu (fp_of_rat float_fpu (dyadic k b m)) (fp_of_rat float_fpu (dyadic k b n)) \<longleftrightarrow> m < n"
    by (simp add: float_fpu_def d [OF m] d [OF n]) (simp add: dyadic_def divide_less_cancel)
qed

subsection \<open>The calibration\<close>

text \<open>C40. The calibration finds the target to within one of \<open>2^40\<close> equal steps of the range.  A target of 0 or
  less gives 0 without any draw.  Otherwise the target is capped at 0.4999 and the rate is averaged over
  \<open>max 1 trials\<close> sampled delay differences, the same sample whatever the target; the upper end
  is the first power of two \<open>2^k\<close>, \<open>k \<le> 64\<close>, whose rate is not below the
  target (or \<open>2^64\<close>, if none is); of the \<open>2^40\<close> equal steps of \<open>[0, 2^k]\<close> the halvings
  pick one, step \<open>m\<close>, whose lower end is 0 or has a rate below the target and whose upper end, the
  greater number, has not (unless it is \<open>2^64\<close>); and the result is exactly the middle of that step.
  The arithmetic of the machine is only assumed exact on these short dyadic numbers.\<close>

theorem calibration_brackets_target:
  assumes "fpu_dyadic F" and "sigmaForTargetBer F L p targetBer rng trials = Some (sigma, rng')"
  shows "if fp_le F targetBer fp_zero then sigma = fp_zero \<and> rng' = rng
    else \<exists>ds k m lo hi. sample_deltas F L p (nat (max 1 trials)) rng = Some (ds, rng') \<and>
      length ds = nat (max 1 trials) \<and> k \<le> 64 \<and>
      (\<forall>i < k. fp_less F (meanFlip F (fp_sort F ds) (fp_of_rat F (2 ^ i)))
         (fp_min F targetBer (fp_of_rat F (4999 / 10000)))) \<and>
      (k < 64 \<longrightarrow> \<not> fp_less F (meanFlip F (fp_sort F ds) (fp_of_rat F (2 ^ k)))
         (fp_min F targetBer (fp_of_rat F (4999 / 10000)))) \<and>
      m < 2 ^ 40 \<and> lo = fp_of_rat F (of_nat m * 2 ^ k / 2 ^ 40) \<and> hi = fp_of_rat F (of_nat (m + 1) * 2 ^ k / 2 ^ 40) \<and>
      fp_less F lo hi \<and>
      (m = 0 \<and> lo = fp_zero \<or>
        fp_less F (meanFlip F (fp_sort F ds) lo) (fp_min F targetBer (fp_of_rat F (4999 / 10000)))) \<and>
      (\<not> fp_less F (meanFlip F (fp_sort F ds) hi) (fp_min F targetBer (fp_of_rat F (4999 / 10000))) \<or>
        k = 64 \<and> m + 1 = 2 ^ 40) \<and>
      sigma = fp_middle F lo hi \<and> sigma = fp_of_rat F (of_nat (2 * m + 1) * 2 ^ k / 2 ^ 41)"
proof (cases "fp_le F targetBer fp_zero")
  case True
  with assms show ?thesis by (simp add: sigmaForTargetBer_def)
next
  case False
  define target where "target = fp_min F targetBer (fp_of_rat F (4999 / 10000))"
  have len: "length ds = n" if "sample_deltas F L p n r = Some (ds, r')" for n r ds r'
    using that by (induction n arbitrary: r ds) (auto simp: Option.bind_eq_Some_conv)
  from assms(2) False obtain ds where ds: "sample_deltas F L p (nat (max 1 trials)) rng = Some (ds, rng')"
    and s: "sigma = fp_middle F
        (fst (bisect F (meanFlip F (fp_sort F ds)) target 40 fp_zero
          (widen_hi F (meanFlip F (fp_sort F ds)) target 64 (fp_of_rat F 1))))
        (snd (bisect F (meanFlip F (fp_sort F ds)) target 40 fp_zero
          (widen_hi F (meanFlip F (fp_sort F ds)) target 64 (fp_of_rat F 1))))"
    by (auto simp: sigmaForTargetBer_def target_def Let_def split_beta Option.bind_eq_Some_conv)
  obtain k m where l: "bisect F (meanFlip F (fp_sort F ds)) target 40 fp_zero
        (widen_hi F (meanFlip F (fp_sort F ds)) target 64 (fp_of_rat F 1)) =
      (fp_of_rat F (dyadic k 40 m), fp_of_rat F (dyadic k 40 (Suc m)))"
    "k \<le> 64" "\<forall>i < k. fp_less F (meanFlip F (fp_sort F ds) (fp_of_rat F (2 ^ i))) target"
    "k < 64 \<longrightarrow> \<not> fp_less F (meanFlip F (fp_sort F ds) (fp_of_rat F (2 ^ k))) target"
    "fpu_dyadic.bracket F (meanFlip F (fp_sort F ds)) target k 40 m"
    by (rule fpu_dyadic.calibration_loops [OF assms(1)])
  note br = l(5) [unfolded fpu_dyadic.bracket_def [OF assms(1)]]
  have m: "m < 2 ^ 40" using br by blast
  have less: "fp_less F (fp_of_rat F (dyadic k 40 m)) (fp_of_rat F (dyadic k 40 (Suc m)))"
    using fpu_dyadic.less_exact [OF assms(1), of m "Suc m" k 40] m l(2) by simp
  have mid: "sigma = fp_middle F (fp_of_rat F (dyadic k 40 m)) (fp_of_rat F (dyadic k 40 (Suc m)))"
    unfolding s l(1) by simp
  then have sg: "sigma = fp_of_rat F (dyadic k 41 (2 * m + 1))"
    using fpu_dyadic.middle_exact [OF assms(1), of m k 40] m l(2) by simp
  have zero: "m = 0 \<Longrightarrow> fp_of_rat F (dyadic k 40 m) = fp_zero"
    using fpu_dyadic.zero_exact [OF assms(1)] by (simp add: dyadic_def)
  have sides: "m = 0 \<and> fp_of_rat F (dyadic k 40 m) = fp_zero \<or>
      fp_less F (meanFlip F (fp_sort F ds) (fp_of_rat F (dyadic k 40 m))) target"
    "\<not> fp_less F (meanFlip F (fp_sort F ds) (fp_of_rat F (dyadic k 40 (Suc m)))) target \<or>
      k = 64 \<and> Suc m = 2 ^ 40"
    "sigma = fp_of_rat F (dyadic k 41 (Suc (2 * m)))"
    using br zero sg by auto
  note facts = ds len [OF ds] l(2-4) m less sides mid
  show ?thesis
    unfolding if_not_P [OF False] target_def [symmetric] dyadic_def [symmetric] Suc_eq_plus1 [symmetric]
    by (intro exI [of _ ds] exI [of _ k] exI [of _ m] exI [of _ "fp_of_rat F (dyadic k 40 m)"]
        exI [of _ "fp_of_rat F (dyadic k 40 (Suc m))"] conjI) (rule facts refl)+
qed

theorem calibration_brackets_target_witness:
  "\<exists>rng sigma rng'. sigmaForTargetBer float_fpu ref_ossl \<lparr>ar_w = replicate 129 0, ar_sigma = 0\<rparr>
       (fl_enc (1 / 4)) rng 1 = Some (sigma, rng') \<and>
     (\<exists>k m. k \<le> 64 \<and> m < 2 ^ 40 \<and> sigma = fl_enc (of_nat (2 * m + 1) * 2 ^ k / 2 ^ 41))"
proof -
  define rng where "rng = \<lparr>dk_key = [], dk_buffer = replicate 32 0, dk_offset = 0, dk_counter = 1, dk_drawn = 0,
    dk_haveSpareNormal = False, dk_spareNormal = 0\<rparr>"
  let ?p = "\<lparr>ar_w = replicate 129 0, ar_sigma = 0\<rparr>"
  have 1: "drbg_bytes ref_ossl 16 rng = Some (replicate 16 0, rng\<lparr>dk_offset := 16, dk_drawn := 16\<rparr>)"
    unfolding rng_def drbg_bytes_def by (subst drbg_loop.simps, simp, subst drbg_loop.simps, simp)
  have 2: "drbg_bytes ref_ossl 4 (rng\<lparr>dk_offset := 16, dk_drawn := 16\<rparr>) =
      Some (replicate 4 0, rng\<lparr>dk_offset := 20, dk_drawn := 20\<rparr>)"
    unfolding rng_def drbg_bytes_def by (subst drbg_loop.simps, simp, subst drbg_loop.simps, simp)
  have 3: "drbg_uniform ref_ossl 256 (rng\<lparr>dk_offset := 16, dk_drawn := 16\<rparr>) = Some (0, rng\<lparr>dk_offset := 20, dk_drawn := 20\<rparr>)"
    by (simp add: drbg_uniform_def uniform_loop.simps [of _ _ "rng\<lparr>dk_offset := 16, dk_drawn := 16\<rparr>"] 2 be32_word_def uniform_limit_def)
  have 4: "deriveSubChallenge ref_ossl (replicate 16 0) 0 = Some (take 16 (ref_digest 32 (replicate 16 0 @ be16 0)))"
    by (simp add: deriveSubChallenge_def ref_ossl_def)
  have sd: "sample_deltas float_fpu ref_ossl ?p (Suc 0) rng =
      Some ([fp_fabs float_fpu (deltaForSubChallengeRaw float_fpu ?p (take 16 (ref_digest 32 (replicate 16 0 @ be16 0))))],
        rng\<lparr>dk_offset := 20, dk_drawn := 20\<rparr>)"
    by (simp add: 1 3 4 deltaForSubChallenge_def kStages_def)
  have "\<not> fl_dec (fl_enc (1 / 4)) \<le> fl_dec fp_zero"
    using fl_dec_dyadic [of 1 0 2] fl_dec_dyadic [of 0 0 0] fl.zero_exact
    by (simp add: dyadic_def float_fpu_def)
  then have t: "\<not> fp_le float_fpu (fl_enc (1 / 4)) fp_zero" by (simp add: float_fpu_def)
  obtain sigma rng' where r: "sigmaForTargetBer float_fpu ref_ossl ?p (fl_enc (1 / 4)) rng 1 = Some (sigma, rng')"
    using that by (simp add: sigmaForTargetBer_def t sd split_beta Let_def del: sample_deltas.simps)
  from calibration_brackets_target [OF fl.fpu_dyadic_axioms r, unfolded if_not_P [OF t]] obtain k m where
    "k \<le> 64" "m < 2 ^ 40" "sigma = fp_of_rat float_fpu (of_nat (2 * m + 1) * 2 ^ k / 2 ^ 41)"
    by blast
  moreover have "fp_of_rat float_fpu = fl_enc" by (simp add: float_fpu_def)
  ultimately show ?thesis using r by metis
qed

end
