(* ===== verification/Xor_Arbiter.thy ===== *)
theory Xor_Arbiter
  imports Arbiter_Props
begin

text \<open>
  \<open>puf/XorArbiterPuf.{h,cc}\<close>, the exclusive or of several arbiter chains, and the choice of a PUF in
  \<open>nodes/UavNode.cc\<close>.  The lemmas show that a response is the bitwise parity of the chains'
  responses, that one chain alone is an arbiter PUF, and that every PUF the program
  creates honours \<open>puf_model\<close>.
\<close>

subsection \<open>The device\<close>

text \<open>\<open>std::to_string\<close>.\<close>

fun decimal :: "nat \<Rightarrow> string" where
  "decimal n = (if n < 10 then [char_of (48 + n)] else decimal (n div 10) @ [char_of (48 + n mod 10)])"

declare decimal.simps [simp del]

definition to_string :: "int \<Rightarrow> string" where
  "to_string i = (if i < 0 then ''-'' @ decimal (nat (- i)) else decimal (nat i))"

record xor_arbiter =
  xa_chains :: "arbiter list"
  xa_name :: string

definition kChainLabel :: string where "kChainLabel = ''uavauth/v1/puf/xor-chain''"

primrec xor_chain_loop :: "fpu \<Rightarrow> core_lib \<Rightarrow> ossl \<Rightarrow> bytes \<Rightarrow> nat list \<Rightarrow> arbiter list option" where
  "xor_chain_loop F C L deviceSeed [] = Some []"
| "xor_chain_loop F C L deviceSeed (i # is) = do {
     c \<leftarrow> arbiter_new F C L (fromString C kChainLabel @ u16be C (of_nat i) @ deviceSeed);
     cs \<leftarrow> xor_chain_loop F C L deviceSeed is;
     Some (c # cs) }"

definition xor_new :: "fpu \<Rightarrow> core_lib \<Rightarrow> ossl \<Rightarrow> bytes \<Rightarrow> int \<Rightarrow> xor_arbiter option" where
  "xor_new F C L deviceSeed k = do {
     require (\<not> k < 1);
     cs \<leftarrow> xor_chain_loop F C L deviceSeed [0..<nat k];
     Some \<lparr>xa_chains = cs, xa_name = ''xor-arbiter-'' @ to_string k\<rparr> }"

definition xor_setNoiseSigma :: "fpu \<Rightarrow> double \<Rightarrow> xor_arbiter \<Rightarrow> xor_arbiter" where
  "xor_setNoiseSigma F sigma x = x\<lparr>xa_chains := map (setNoiseSigma F sigma) (xa_chains x)\<rparr>"

definition setChainSigmaForTargetBer ::
    "fpu \<Rightarrow> ossl \<Rightarrow> double \<Rightarrow> drbg \<Rightarrow> int \<Rightarrow> xor_arbiter \<Rightarrow> (double \<times> drbg \<times> xor_arbiter) option" where
  "setChainSigmaForTargetBer F L perChainBer rng trials x = do {
     front \<leftarrow> nth_opt (xa_chains x) 0;
     (sigma, rng) \<leftarrow> sigmaForTargetBer F L front perChainBer rng trials;
     Some (sigma, rng, xor_setNoiseSigma F sigma x) }"

subsection \<open>Evaluation\<close>

definition xor_bit :: "fpu \<Rightarrow> arbiter list \<Rightarrow> bytes \<Rightarrow> bool" where
  "xor_bit F cs sub =
     fold (\<lambda>c bit. bit \<noteq> arbiter_bit F (deltaForSubChallengeRaw F c sub)) cs False"

definition xor_evaluateIdeal ::
    "fpu \<Rightarrow> core_lib \<Rightarrow> ossl \<Rightarrow> xor_arbiter \<Rightarrow> bytes \<Rightarrow> nat \<Rightarrow> bytes option" where
  "xor_evaluateIdeal F C L x challenge bitCount = do {
     requireValidBitCount bitCount;
     let out = replicate (bytesForBits C bitCount) 0;
     (if bitCount = 0 then Some out
      else do {
        subs \<leftarrow> subStream L challenge bitCount;
        Some (fold (\<lambda>j out. setBit C out j (xor_bit F (xa_chains x) (sub_at subs j))) [0..<bitCount] out) }) }"

text \<open>The inner loop over the chains, each given by its delay difference and its noise.\<close>

primrec chain_loop :: "fpu \<Rightarrow> ossl \<Rightarrow> (double \<times> double) list \<Rightarrow> bool \<Rightarrow> drbg \<Rightarrow> (bool \<times> drbg) option" where
  "chain_loop F L [] b rng = Some (b, rng)"
| "chain_loop F L (c # cs) b rng = do {
     (z, rng) \<leftarrow> drbg_normal F L rng;
     chain_loop F L cs (b \<noteq> arbiter_noisy_bit F (snd c) (fst c) z) rng }"

definition chain_pairs :: "fpu \<Rightarrow> arbiter list \<Rightarrow> bytes \<Rightarrow> (double \<times> double) list" where
  "chain_pairs F cs sub = map (\<lambda>c. (deltaForSubChallengeRaw F c sub, ar_sigma c)) cs"

primrec xor_noisy_loop ::
    "fpu \<Rightarrow> core_lib \<Rightarrow> ossl \<Rightarrow> xor_arbiter \<Rightarrow> bytes \<Rightarrow> nat list \<Rightarrow> drbg \<Rightarrow> bytes \<Rightarrow> (bytes \<times> drbg) option" where
  "xor_noisy_loop F C L x subs [] rng out = Some (out, rng)"
| "xor_noisy_loop F C L x subs (j # js) rng out = do {
     (bit, rng) \<leftarrow> chain_loop F L (chain_pairs F (xa_chains x) (sub_at subs j)) False rng;
     xor_noisy_loop F C L x subs js rng (setBit C out j bit) }"

definition xor_evaluateNoisy ::
    "fpu \<Rightarrow> core_lib \<Rightarrow> ossl \<Rightarrow> xor_arbiter \<Rightarrow> bytes \<Rightarrow> nat \<Rightarrow> drbg \<Rightarrow> (bytes \<times> drbg) option" where
  "xor_evaluateNoisy F C L x challenge bitCount rng = do {
     requireValidBitCount bitCount;
     let out = replicate (bytesForBits C bitCount) 0;
     (if bitCount = 0 then Some (out, rng)
      else do {
        subs \<leftarrow> subStream L challenge bitCount;
        xor_noisy_loop F C L x subs [0..<bitCount] rng out }) }"

definition xorArbiterPuf :: "fpu \<Rightarrow> core_lib \<Rightarrow> ossl \<Rightarrow> xor_arbiter \<Rightarrow> puf" where
  "xorArbiterPuf F C L x = \<lparr>pf_name = xa_name x, pf_challengeBits = kStages,
     pf_ideal = xor_evaluateIdeal F C L x, pf_noisy = xor_evaluateNoisy F C L x\<rparr>"

subsection \<open>Measurement\<close>

primrec xor_flip_row ::
    "fpu \<Rightarrow> ossl \<Rightarrow> ((double \<times> double) list \<times> bool) list \<Rightarrow> nat \<Rightarrow> drbg \<Rightarrow> (nat \<times> drbg) option" where
  "xor_flip_row F L [] flips rng = Some (flips, rng)"
| "xor_flip_row F L (r # rows) flips rng = do {
     (bit, rng) \<leftarrow> chain_loop F L (fst r) False rng;
     xor_flip_row F L rows (if bit \<noteq> snd r then flips + 1 else flips) rng }"

primrec xor_count_flips ::
    "fpu \<Rightarrow> ossl \<Rightarrow> ((double \<times> double) list \<times> bool) list \<Rightarrow> nat \<Rightarrow> nat \<Rightarrow> drbg \<Rightarrow> (nat \<times> drbg) option" where
  "xor_count_flips F L rows 0 flips rng = Some (flips, rng)"
| "xor_count_flips F L rows (Suc t) flips rng = do {
     (flips, rng) \<leftarrow> xor_flip_row F L rows flips rng;
     xor_count_flips F L rows t flips rng }"

definition xor_measureBer ::
    "fpu \<Rightarrow> ossl \<Rightarrow> xor_arbiter \<Rightarrow> bytes \<Rightarrow> nat \<Rightarrow> drbg \<Rightarrow> int \<Rightarrow> (double \<times> drbg) option" where
  "xor_measureBer F L x challenge bitCount rng trials =
     (if bitCount = 0 \<or> trials \<le> 0 then Some (fp_zero, rng)
      else do {
        subs \<leftarrow> subStream L challenge bitCount;
        let rows = map (\<lambda>j. (chain_pairs F (xa_chains x) (sub_at subs j), xor_bit F (xa_chains x) (sub_at subs j)))
          [0..<bitCount];
        (flips, rng) \<leftarrow> xor_count_flips F L rows (nat trials) 0 rng;
        Some (flip_rate F flips trials bitCount, rng) })"

definition predictedBer :: "fpu \<Rightarrow> double \<Rightarrow> int \<Rightarrow> double" where
  "predictedBer F perChainBer k =
     fp_mul F (fp_of_rat F (1 / 2)) (fp_sub F (fp_of_rat F 1)
       (fp_pow F (fp_sub F (fp_of_rat F 1) (fp_mul F (fp_of_rat F 2) perChainBer)) (fp_of_rat F (of_int k))))"

subsection \<open>The PUF of a node\<close>

text \<open>\<open>UavNode::initialize\<close>; an unknown model is an exception.\<close>

definition node_puf :: "fpu \<Rightarrow> core_lib \<Rightarrow> ossl \<Rightarrow> int \<Rightarrow> string \<Rightarrow> rat \<Rightarrow> puf option" where
  "node_puf F C L uavId model ber =
     (let seed = fromString C (''uav-puf-'' @ to_string uavId)
      in if model = ''ideal'' then do {
           p \<leftarrow> ideal_new C L seed;
           Some (idealPrfPuf C L (setNoiseBer ber p)) }
         else if model = ''arbiter'' then do {
           p \<leftarrow> arbiter_new F C L seed;
           (if 0 < ber then do {
              calibRng \<leftarrow> drbg_reseed L (fromString C (''calib-'' @ to_string uavId));
              (sigma, _) \<leftarrow> sigmaForTargetBer F L p (fp_of_rat F ber) calibRng 20000;
              Some (arbiterPuf F C L (setNoiseSigma F sigma p)) }
            else Some (arbiterPuf F C L (setNoiseSigma F fp_zero p))) }
         else None)"

subsection \<open>Draws and bits\<close>

lemma chain_loop_normals:
  "chain_loop F L ps b0 rng = do {
     (zs, rng) \<leftarrow> drbg_normals F L (length ps) rng;
     Some (fold (\<lambda>(c, z) b. b \<noteq> arbiter_noisy_bit F (snd c) (fst c) z) (zip ps zs) b0, rng) }"
  by (induction ps arbitrary: b0 rng) (auto split: Option.bind_split intro!: Option.bind_cong)

text \<open>The bits of one reading.\<close>

primrec xor_bits ::
    "fpu \<Rightarrow> ossl \<Rightarrow> (nat \<Rightarrow> (double \<times> double) list) \<Rightarrow> nat list \<Rightarrow> drbg \<Rightarrow> (bool list \<times> drbg) option" where
  "xor_bits F L ps [] rng = Some ([], rng)"
| "xor_bits F L ps (j # js) rng = do {
     (bit, rng) \<leftarrow> chain_loop F L (ps j) False rng;
     (bs, rng) \<leftarrow> xor_bits F L ps js rng;
     Some (bit # bs, rng) }"

lemma xor_noisy_loop_bits:
  "xor_noisy_loop F C L x subs js rng out = do {
     (bs, rng) \<leftarrow> xor_bits F L (\<lambda>j. chain_pairs F (xa_chains x) (sub_at subs j)) js rng;
     Some (fold (\<lambda>(j, b) out. setBit C out j b) (zip js bs) out, rng) }"
  by (induction js arbitrary: rng out) (auto split: Option.bind_split intro!: Option.bind_cong)

lemma xor_flip_row_bits:
  "xor_flip_row F L (map (\<lambda>j. (ps j, ideal j)) js) flips rng = do {
     (bs, rng) \<leftarrow> xor_bits F L ps js rng;
     Some (flips + length (filter id (map2 (\<lambda>j b. ideal j \<noteq> b) js bs)), rng) }"
  by (induction js arbitrary: rng flips) (auto split: Option.bind_split intro!: Option.bind_cong)

context ossl_laws
begin

text \<open>The draws of a reading depend on the number of chains only.\<close>

lemma xor_bits_ok:
  assumes "drbg_ok L rng"
  shows "\<exists>rng'. drbg_ok L rng' \<and> dk_key rng' = dk_key rng \<and>
    (\<forall>ps. (\<forall>j \<in> set js. length (ps j) = k) \<longrightarrow> (\<exists>bs. xor_bits F L ps js rng = Some (bs, rng') \<and> length bs = length js))"
  using assms
proof (induction js arbitrary: rng)
  case (Cons j js)
  obtain zs rng1 where z: "drbg_normals F L k rng = Some (zs, rng1)" "drbg_ok L rng1" "dk_key rng1 = dk_key rng"
    using drbg_normals_ok [OF Cons.prems] by blast
  from Cons.IH [OF z(2)] obtain rng' where r: "drbg_ok L rng'" "dk_key rng' = dk_key rng1"
    "\<And>ps. \<forall>j \<in> set js. length (ps j) = k \<Longrightarrow> \<exists>bs. xor_bits F L ps js rng1 = Some (bs, rng') \<and> length bs = length js"
    by blast
  have "\<exists>bs. xor_bits F L ps (j # js) rng = Some (bs, rng') \<and> length bs = length (j # js)"
    if "\<forall>i \<in> set (j # js). length (ps i) = k" for ps
    using r(3) [of ps] that z(1) by (auto simp: chain_loop_normals)
  with r z(3) show ?case by (intro exI [of _ rng']) simp
qed simp

end

lemma fold_parity:
  "fold (\<lambda>c bit. bit \<noteq> f c) cs b \<longleftrightarrow> b \<noteq> odd (length (filter f cs))"
  by (induction cs arbitrary: b) auto

lemma xor_bit_parity:
  "xor_bit F cs sub \<longleftrightarrow> odd (length (filter (\<lambda>c. arbiter_bit F (deltaForSubChallengeRaw F c sub)) cs))"
  unfolding xor_bit_def fold_parity by simp

context puf_env
begin

lemma xor_ideal_exact:
  assumes "n \<le> kMaxResponseBits" "subStream L ch n = Some subs"
  obtains r where "xor_evaluateIdeal F C L x ch n = Some r" "length r = bytesForBits C n"
    "\<forall>j < 8 * length r. getBit C r j = (j < n \<and> xor_bit F (xa_chains x) (sub_at subs j))"
proof -
  have b: "n \<le> 8 * length (replicate (bytesForBits C n) (0::u8))" using bytesForBits_bound by simp
  show thesis
  proof (cases "n = 0")
    case True
    with assms(1) that [of "replicate (bytesForBits C n) 0"] show thesis
      by (simp add: xor_evaluateIdeal_def requireValidBitCount_def)
  next
    case False
    with assms that [of "fold (\<lambda>j out. setBit C out j (xor_bit F (xa_chains x) (sub_at subs j)))
        [0..<n] (replicate (bytesForBits C n) 0)"] b fold_setBit_0 [OF b]
    show thesis by (simp add: xor_evaluateIdeal_def requireValidBitCount_def Let_def)
  qed
qed

lemma xor_noisy_total:
  assumes "n \<le> kMaxResponseBits" "subStream L ch n = Some subs" "drbg_ok L rng"
  obtains r rng' where "xor_evaluateNoisy F C L x ch n rng = Some (r, rng')" "length r = bytesForBits C n"
    "drbg_ok L rng'" "dk_key rng' = dk_key rng"
proof -
  have b: "n \<le> 8 * length (replicate (bytesForBits C n) (0::u8))" using bytesForBits_bound by simp
  let ?ps = "\<lambda>j. chain_pairs F (xa_chains x) (sub_at subs j)"
  have k: "\<forall>j \<in> set [0..<n]. length (?ps j) = length (xa_chains x)" by (simp add: chain_pairs_def)
  obtain rng' where ok: "drbg_ok L rng'" "dk_key rng' = dk_key rng" and ex: "\<forall>ps. (\<forall>j \<in> set [0..<n]. length (ps j) =
      length (xa_chains x)) \<longrightarrow> (\<exists>bs. xor_bits F L ps [0..<n] rng = Some (bs, rng') \<and> length bs = length [0..<n])"
    using xor_bits_ok [OF assms(3), of "[0..<n]" "length (xa_chains x)" F] by blast
  from ex [rule_format, of ?ps] k obtain bs where
    r: "xor_bits F L ?ps [0..<n] rng = Some (bs, rng')" "length bs = n" by auto
  show thesis
  proof (cases "n = 0")
    case True
    with assms that [of "replicate (bytesForBits C n) 0" rng] show thesis
      by (simp add: xor_evaluateNoisy_def requireValidBitCount_def)
  next
    case False
    with assms r ok that [of "fold (\<lambda>j out. setBit C out j (bs ! j)) [0..<n] (replicate (bytesForBits C n) 0)" rng']
      fold_setBit_0(1) [OF b]
    show thesis by (simp add: xor_evaluateNoisy_def requireValidBitCount_def Let_def
        xor_noisy_loop_bits fold_zip_upt)
  qed
qed

end

text \<open>Every exclusive-or PUF provides the interface.\<close>

sublocale puf_env \<subseteq> xor: puf_model C L "xorArbiterPuf F C L x" for F x
proof
  fix n ch rng r
  assume n: "n \<le> kMaxResponseBits" and ch: "length (ch :: bytes) \<le> 65535"
  obtain subs where s: "subStream L ch n = Some subs" using subStream_total [OF n ch] by blast
  show "\<exists>r. pf_ideal (xorArbiterPuf F C L x) ch n = Some r"
    by (rule xor_ideal_exact [OF n s, of F x]) (simp add: xorArbiterPuf_def)
  assume ok: "drbg_ok L rng"
  show "\<exists>r rng'. pf_noisy (xorArbiterPuf F C L x) ch n rng = Some (r, rng') \<and> length r = bytesForBits C n \<and>
      drbg_ok L rng' \<and> dk_key rng' = dk_key rng"
    by (rule xor_noisy_total [OF n s ok, of F x]) (auto simp: xorArbiterPuf_def)
next
  fix n ch r
  assume a: "pf_ideal (xorArbiterPuf F C L x) ch n = Some r"
  then have n: "n \<le> kMaxResponseBits"
    by (auto simp: xorArbiterPuf_def xor_evaluateIdeal_def requireValidBitCount_def Option.bind_eq_Some_conv
        split: if_splits)
  show "length r = bytesForBits C n"
  proof (cases "subStream L ch n")
    case None
    with a show ?thesis
      by (auto simp: xorArbiterPuf_def xor_evaluateIdeal_def Option.bind_eq_Some_conv Let_def split: if_splits)
  next
    case (Some subs)
    show ?thesis
      by (rule xor_ideal_exact [OF n Some, of F x]) (use a in \<open>simp add: xorArbiterPuf_def\<close>)
  qed
qed

context puf_env
begin

lemma puf_contracts:
  "puf_model C L (idealPrfPuf C L q)" "puf_model C L (arbiterPuf F C L p)" "puf_model C L (xorArbiterPuf F C L x)"
  by (rule ideal.puf_model_axioms, rule arbiter.puf_model_axioms, rule xor.puf_model_axioms)

end

lemma node_puf_contract:
  assumes "core_laws C" "ossl_laws L" "node_puf F C L uavId model ber = Some P"
  shows "puf_model C L P"
  using assms(3) puf_env.puf_contracts(1,2) [OF ideal_pufI [OF assms(1,2)]]
  by (auto simp: node_puf_def Let_def Option.bind_eq_Some_conv split: if_splits)

subsection \<open>One chain\<close>

lemma single_noisy_loop:
  assumes "xa_chains x = [p]"
  shows "xor_noisy_loop F C L x subs js rng out = arbiter_noisy_loop F C L p subs js rng out"
  by (induction js arbitrary: rng out)
    (auto simp: assms chain_pairs_def Let_def split: Option.bind_split intro!: Option.bind_cong)

lemma single_flip_row:
  "xor_flip_row F L (map (\<lambda>j. ([(d j, sigma)], arbiter_bit F (d j))) js) flips rng = do {
     (row, rng) \<leftarrow> flip_row F L sigma (map d js) rng;
     Some (flips + length (filter id row), rng) }"
  by (induction js arbitrary: flips rng) (auto simp: Let_def split: Option.bind_split intro!: Option.bind_cong)

lemma single_count_flips:
  "xor_count_flips F L (map (\<lambda>j. ([(d j, sigma)], arbiter_bit F (d j))) js) t flips rng =
   count_flips F L sigma (map d js) t flips rng"
  by (induction t arbitrary: flips rng) (auto simp: single_flip_row split: Option.bind_split intro!: Option.bind_cong)

text \<open>An exclusive or of one chain is that chain.\<close>

lemma single_chain_is_arbiter:
  assumes "xa_chains x = [p]"
  shows "xor_evaluateIdeal F C L x = arbiter_evaluateIdeal F C L p"
    "xor_evaluateNoisy F C L x = arbiter_evaluateNoisy F C L p"
    "xor_measureBer F L x = measureBer F L p"
proof -
  show "xor_evaluateIdeal F C L x = arbiter_evaluateIdeal F C L p"
    by (intro ext) (simp add: xor_evaluateIdeal_def arbiter_evaluateIdeal_def xor_bit_def assms Let_def
        cong: Option.bind_cong if_cong)
  show "xor_evaluateNoisy F C L x = arbiter_evaluateNoisy F C L p"
    by (intro ext) (simp add: xor_evaluateNoisy_def arbiter_evaluateNoisy_def single_noisy_loop [OF assms] Let_def
        cong: Option.bind_cong if_cong)
  show "xor_measureBer F L x = measureBer F L p"
  proof (intro ext)
    fix ch n rng t
    have "xor_bit F (xa_chains x) sub = arbiter_bit F (deltaForSubChallengeRaw F p sub)"
      "chain_pairs F (xa_chains x) sub = [(deltaForSubChallengeRaw F p sub, ar_sigma p)]" for sub
      by (simp_all add: xor_bit_def chain_pairs_def assms)
    then have rows: "map (\<lambda>j. (chain_pairs F (xa_chains x) (sub_at subs j), xor_bit F (xa_chains x) (sub_at subs j))) [0..<n] =
        map (\<lambda>j. ([(deltaForSubChallengeRaw F p (sub_at subs j), ar_sigma p)],
          arbiter_bit F (deltaForSubChallengeRaw F p (sub_at subs j)))) [0..<n]" for subs by simp
    show "xor_measureBer F L x ch n rng t = measureBer F L p ch n rng t"
    proof (cases "subStream L ch n")
      case None
      then show ?thesis by (simp add: xor_measureBer_def measureBer_def computeDeltas_def bind_eq_None_conv)
    next
      case (Some subs)
      then have "requireValidBitCount n = Some ()"
        by (auto simp: subStream_def Option.bind_eq_Some_conv)
      with Some show ?thesis
        by (simp only: xor_measureBer_def measureBer_def computeDeltas_def bind.bind_lunit rows Let_def
          single_count_flips) simp
    qed
  qed
qed

subsection \<open>Properties\<close>

text \<open>The response of an exclusive-or PUF is the bitwise parity of its chains' responses: for a
  challenge of at most 65535 bytes and a length of at most 65536 bits, every chain and the device answer,
  and bit \<open>j\<close> of the device's answer is set exactly when an odd number of chains has it set.  With a single
  chain, evaluation and measurement are those of the chain, noise and draws included.\<close>

theorem xor_arbiter_is_parity_of_chains:
  assumes "core_laws C" and "ossl_laws L" and "n \<le> kMaxResponseBits" and "length ch \<le> 65535"
  shows "(\<exists>rs r. map (\<lambda>c. arbiter_evaluateIdeal F C L c ch n) (xa_chains x) = map Some rs \<and>
      xor_evaluateIdeal F C L x ch n = Some r \<and> length r = bytesForBits C n \<and>
      (\<forall>j < n. getBit C r j = odd (length (filter (\<lambda>a. getBit C a j) rs)))) \<and>
    (\<forall>p rng trials. xa_chains x = [p] \<longrightarrow>
      xor_evaluateNoisy F C L x ch n rng = arbiter_evaluateNoisy F C L p ch n rng \<and>
      xor_measureBer F L x ch n rng trials = measureBer F L p ch n rng trials)"
proof -
  note env = ideal_pufI [OF assms(1,2)]
  obtain subs where s: "subStream L ch n = Some subs"
    using ossl_laws.subStream_total [OF assms(2-4)] by blast
  define a where "a c = the (arbiter_evaluateIdeal F C L c ch n)" for c
  have a: "arbiter_evaluateIdeal F C L c ch n = Some (a c) \<and>
      (\<forall>j < n. getBit C (a c) j = arbiter_bit F (deltaForSubChallengeRaw F c (sub_at subs j)))" for c
  proof (rule puf_env.arbiter_ideal_exact [OF env assms(3) s, of F c])
    fix r assume "arbiter_evaluateIdeal F C L c ch n = Some r" "length r = bytesForBits C n"
      "\<forall>j < 8 * length r. getBit C r j = (j < n \<and> arbiter_bit F (deltaForSubChallengeRaw F c (sub_at subs j)))"
    moreover have "n \<le> 8 * bytesForBits C n"
      using core_bits.bytesForBits_bound assms(1) by (simp add: core_laws_def)
    ultimately show ?thesis by (simp add: a_def)
  qed
  obtain r where r: "xor_evaluateIdeal F C L x ch n = Some r" "length r = bytesForBits C n"
    "\<forall>j < 8 * length r. getBit C r j = (j < n \<and> xor_bit F (xa_chains x) (sub_at subs j))"
    by (rule puf_env.xor_ideal_exact [OF env assms(3) s, of F x])
  have "getBit C r j = odd (length (filter (\<lambda>a. getBit C a j) (map a (xa_chains x))))" if "j < n" for j
  proof -
    have "j < 8 * length r" using that core_bits.bytesForBits_bound [of C n] assms(1) r(2)
      by (simp add: core_laws_def)
    then show ?thesis using r(3) that a by (simp add: xor_bit_parity filter_map comp_def)
  qed
  then show ?thesis
    using r(1,2) a single_chain_is_arbiter
    by (intro conjI exI [of _ "map a (xa_chains x)"] exI [of _ r]) auto
qed

theorem xor_arbiter_is_parity_of_chains_witness:
  "\<exists>a b r. arbiter_evaluateIdeal ref_fpu ref_core ref_ossl \<lparr>ar_w = replicate 129 0x100000, ar_sigma = 0\<rparr> [2] 64 = Some a \<and>
     arbiter_evaluateIdeal ref_fpu ref_core ref_ossl \<lparr>ar_w = replicate 129 1, ar_sigma = 0\<rparr> [2] 64 = Some b \<and>
     xor_evaluateIdeal ref_fpu ref_core ref_ossl \<lparr>xa_chains = [\<lparr>ar_w = replicate 129 0x100000, ar_sigma = 0\<rparr>,
       \<lparr>ar_w = replicate 129 1, ar_sigma = 0\<rparr>], xa_name = ''xor-arbiter-2''\<rparr> [2] 64 = Some r \<and>
     (\<forall>j < 64. getBit ref_core r j = (getBit ref_core a j \<noteq> getBit ref_core b j))"
proof -
  let ?x = "\<lparr>xa_chains = [\<lparr>ar_w = replicate 129 0x100000, ar_sigma = 0\<rparr>,
       \<lparr>ar_w = replicate 129 1, ar_sigma = 0\<rparr>], xa_name = ''xor-arbiter-2''\<rparr>"
  have "\<exists>rs r. map (\<lambda>c. arbiter_evaluateIdeal ref_fpu ref_core ref_ossl c [2] 64) (xa_chains ?x) = map Some rs \<and>
      xor_evaluateIdeal ref_fpu ref_core ref_ossl ?x [2] 64 = Some r \<and> length r = bytesForBits ref_core 64 \<and>
      (\<forall>j < 64. getBit ref_core r j = odd (length (filter (\<lambda>a. getBit ref_core a j) rs)))"
    by (rule xor_arbiter_is_parity_of_chains [OF ref_core_laws refo.ossl_laws_axioms, THEN conjunct1])
      (simp_all add: kMaxResponseBits_def)
  then obtain rs r where "map (\<lambda>c. arbiter_evaluateIdeal ref_fpu ref_core ref_ossl c [2] 64) (xa_chains ?x) = map Some rs"
    "xor_evaluateIdeal ref_fpu ref_core ref_ossl ?x [2] 64 = Some r"
    "\<forall>j < 64. getBit ref_core r j = odd (length (filter (\<lambda>a. getBit ref_core a j) rs))" by blast
  moreover from arg_cong [OF this(1), of length] obtain a b where "rs = [a, b]"
    by (auto simp: Suc_length_conv length_Suc_conv)
  ultimately show ?thesis by (intro exI [of _ a] exI [of _ b] exI [of _ r]) auto
qed

text \<open>C30. Every PUF the program creates honours the contract enrollment and reproduction rely on: the
  one a UAV node builds for either model and any error rate, and every exclusive-or PUF; and a node
  refuses every other model name.\<close>

theorem node_pufs_meet_contract:
  assumes "core_laws C" and "ossl_laws L"
  shows "(\<forall>P. node_puf F C L uavId model ber = Some P \<longrightarrow> puf_model C L P) \<and>
    puf_model C L (xorArbiterPuf F C L x) \<and>
    (model = ''ideal'' \<or> model = ''arbiter'' \<and> ber \<le> 0 \<longrightarrow> node_puf F C L uavId model ber \<noteq> None) \<and>
    (model \<notin> {''ideal'', ''arbiter''} \<longrightarrow> node_puf F C L uavId model ber = None)"
proof -
  note env = ideal_pufI [OF assms]
  have new: "\<exists>p. arbiter_new F C L seed = Some p" for seed
  proof -
    obtain st where "drbg_reseed L (fromString C kWeightLabel @ seed) = Some st" "drbg_ok L st"
      using ossl_laws.drbg_reseed_total [OF assms(2), of "fromString C kWeightLabel @ seed"]
      by (auto simp: drbg_ok_def)
    with ossl_laws.drbg_normals_ok [OF assms(2) this(2), of F "kStages + 1"] show ?thesis
      by (auto simp: arbiter_new_def simp del: drbg_normals.simps)
  qed
  have ideal: "\<exists>p. ideal_new C L seed = Some p" for seed
    using ossl_laws.sha3 [OF assms(2), of "fromString C kKeyLabel @ seed"] by (auto simp: ideal_new_def)
  have "puf_model C L P" if "node_puf F C L uavId model ber = Some P" for P
    by (rule node_puf_contract [OF assms that])
  moreover have "node_puf F C L uavId model ber \<noteq> None"
    if m: "model = ''ideal'' \<or> model = ''arbiter'' \<and> ber \<le> 0"
    using new [of "fromString C (''uav-puf-'' @ to_string uavId)"]
      ideal [of "fromString C (''uav-puf-'' @ to_string uavId)"] m
    by (auto simp: node_puf_def Let_def)
  ultimately show ?thesis using puf_env.puf_contracts(3) [OF env] by (auto simp: node_puf_def)
qed

theorem node_pufs_meet_contract_witness:
  "\<exists>P. node_puf ref_fpu ref_core ref_ossl 3 ''arbiter'' 0 = Some P \<and> puf_model ref_core ref_ossl P \<and>
     node_puf ref_fpu ref_core ref_ossl 3 ''sram'' 0 = None"
  using node_pufs_meet_contract [OF ref_core_laws refo.ossl_laws_axioms, of ref_fpu 3 "''arbiter''" 0]
    node_pufs_meet_contract [OF ref_core_laws refo.ossl_laws_axioms, of ref_fpu 3 "''sram''" 0] by auto

end
