(* ===== verification/Arbiter_Run.thy ===== *)
theory Arbiter_Run
  imports Phase2 Xor_Arbiter
begin

text \<open>
  The arbiter PUF in the protocol: an enrolled UAV whose PUF has no delay noise completes Phase 2.
\<close>

context protocol_env
begin

text \<open>A noiseless arbiter PUF reproduces what was enrolled.\<close>

lemma noiseless_reading:
  assumes F: "fpu_laws F" and "ar_sigma q = fp_zero" and "length ch \<le> 65535"
    and ideal: "arbiter_evaluateIdeal F C L q ch (requiredPufBits p) = Some r"
    and "0 < fp_repFactor p" and rng: "drbg_ok L urng" "spare_ok urng"
  obtains urng1 where "reading_agrees C (arbiterPuf F C L q) p ch urng urng1" "drbg_ok L urng1"
proof -
  note env = ideal_pufI [OF core_laws_axioms ossl_laws_axioms]
  have n: "requiredPufBits p \<le> kMaxResponseBits"
    using ideal by (auto simp: arbiter_evaluateIdeal_def requireValidBitCount_def Option.bind_eq_Some_conv
        split: if_splits)
  obtain subs where s: "subStream L ch (requiredPufBits p) = Some subs"
    using subStream_total [OF n assms(3)] by blast
  obtain noisy urng1 where r: "arbiter_evaluateNoisy F C L q ch (requiredPufBits p) urng = Some (noisy, urng1)"
    "drbg_ok L urng1"
    using puf_model.noisy_total [OF puf_env.puf_contracts(2) [OF env] n assms(3) rng(1), of F q]
    by (auto simp: arbiterPuf_def)
  have "noisy = r" by (rule puf_env.arbiter_noiseless [OF env n s rng F assms(2) ideal r(1)])
  with r ideal assms(5) have "reading_agrees C (arbiterPuf F C L q) p ch urng urng1"
    by (simp add: reading_agrees_def arbiterPuf_def copies_agree_def)
  then show thesis using r(2) by (rule that)
qed

end

text \<open>C29. An arbiter PUF in the protocol: a UAV enrolled with an arbiter PUF whose delay noise is 0
  regenerates its master key from a fresh reading and completes M1 to M4 with a ground station in any
  reachable state, whatever the device's weights and the challenge, provided the clocks agree and both
  replay caches are empty; both sides then hold the same session key.\<close>

theorem noiseless_arbiter_authenticates:
  assumes "core_laws C" and "ossl_laws L" and "crypto_suite S" and "fpu_laws F" and "ar_sigma q = fp_zero"
    and "gs_reach C L S p w g0 grng0" and "fe_sizes p" and "8 \<le> fp_keyBits p" and "0 \<le> i" and "i < 65535"
    and "enroll C L S i (arbiterPuf F C L q) grng0 g0 = Some (Some (rec, st), grng, g)"
    and "findByTid (dr_tid rec) g0 = None" and "uv_state u = st" and "uv_feParams u = p"
    and "drbg_ok L urng" and "spare_ok urng"
    and "timestampFresh t2 t1 (gs_windowMs g)" and "timestampFresh t3 t2 (uv_windowMs u)"
    and "rc_seen (gs_replay g) = {}" and "rc_seen (uv_replay u) = {}"
  shows "\<exists>urng' u' grng' g'.
    phase2_run C L S (arbiterPuf F C L q) (t1, t2, t3) (urng, u) (grng, g) = Some ((urng', u'), (grng', g')) \<and>
    phase2_agreed C S u g rec u' g'"
proof -
  note env = protocol_envI [OF assms(1-3)]
  have kb: "fp_keyBits p \<le> 65280" using assms(7) by (simp add: fe_sizes_def)
  have g0: "gs_feParams g0 = p" "drbg_ok L grng0" using gs_reach_inv [OF env assms(8) kb assms(6)] by simp_all
  obtain f ch rng1 r where e: "fe_new p = Some f" "drbg_bytes L 16 grng0 = Some (ch, rng1)"
    "arbiter_evaluateIdeal F C L q ch (requiredPufBits p) = Some r" "dr_challenge rec = ch"
    by (rule protocol_env.enroll_Some [OF env assms(11)]) (simp add: g0 arbiterPuf_def)
  have ch: "length ch \<le> 65535" using ossl_laws.drbg_bytes_ok [OF assms(2) g0(2), of 16] e(2) by auto
  have rep: "0 < fp_repFactor p" using fe_new_Some(6) [OF e(1)] by auto
  obtain urng1 where r: "reading_agrees C (arbiterPuf F C L q) p (dr_challenge rec) urng urng1" "drbg_ok L urng1"
    unfolding e(4)
    by (rule protocol_env.noiseless_reading [OF env assms(4,5) ch e(3) rep assms(15,16)])
  have puf: "puf_model C L (arbiterPuf F C L q)"
    by (rule puf_env.puf_contracts(2) [OF ideal_pufI [OF assms(1,2)]])
  note h = protocol_env.enrolled [OF env puf assms(6-14) r(1)]
  from protocol_env.phase2_run_honest [OF env h(1) r(2) h(2-5) assms(17,18)] assms(19,20)
  show ?thesis by auto
qed

theorem noiseless_arbiter_authenticates_witness:
  "\<exists>q g0 grng0 rec st grng g u urng urng' u' grng' g'.
     gs_reach ref_core ref_ossl demo_suite fe_default 5000 g0 grng0 \<and>
     enroll ref_core ref_ossl demo_suite 1 (arbiterPuf ref_fpu ref_core ref_ossl q) grng0 g0 = Some (Some (rec, st), grng, g) \<and>
     u = provision st (uav_new 1 fe_default 5000) \<and>
     phase2_run ref_core ref_ossl demo_suite (arbiterPuf ref_fpu ref_core ref_ossl q) (100, 130, 160) (urng, u) (grng, g) =
       Some ((urng', u'), (grng', g')) \<and> phase2_agreed ref_core demo_suite u g rec u' g'"
proof -
  obtain rng where rng0: "drbg_reseed ref_ossl [] = Some rng" "drbg_at ref_ossl rng 0"
    using refo.drbg_reseed_total by blast
  then have rng: "drbg_ok ref_ossl rng" "spare_ok rng"
    by (auto simp: drbg_ok_def spare_ok_def drbg_reseed_def Option.bind_eq_Some_conv)
  define q where "q = \<lparr>ar_w = replicate 129 0x100000, ar_sigma = fp_zero\<rparr>"
  obtain k grng0 where "drbg_bytes ref_ossl (su_keyLen demo_suite) rng = Some (k, grng0)"
    using refo.drbg_bytes_ok [OF rng(1)] by blast
  then obtain g0 where g0: "gs_new ref_ossl demo_suite fe_default 5000 rng = Some (g0, grng0)"
    "gs_devices g0 = []" "rc_seen (gs_replay g0) = {}" "gs_windowMs g0 = 5000"
    by (simp add: gs_new_def rc_inv_new)
  note inv = ref_proto.gs_new_inv [OF rng(1) g0(1)]
  have puf: "puf_model ref_core ref_ossl (arbiterPuf ref_fpu ref_core ref_ossl q)"
    by (rule ref_puf.puf_contracts(2))
  obtain rec st grng g where e: "enroll ref_core ref_ossl demo_suite 1 (arbiterPuf ref_fpu ref_core ref_ossl q) grng0 g0 =
      Some (Some (rec, st), grng, g)"
    using ref_proto.enroll_total [OF puf, of g0 fe_18] demo_params inv fe_18 by metis
  have g: "g = g0\<lparr>gs_devices := om_set 1 rec (gs_devices g0)\<rparr>" by (rule ref_proto.enroll_Some [OF e])
  let ?u = "provision st (uav_new 1 fe_default 5000)"
  have u: "uv_state ?u = st" "uv_feParams ?u = fe_default" "rc_seen (uv_replay ?u) = {}" "uv_windowMs ?u = 5000"
    by (simp_all add: provision_def uav_new_def rc_inv_new)
  have t: "timestampFresh 130 100 (gs_windowMs g)" "timestampFresh 160 130 (uv_windowMs ?u)"
    by (simp_all add: timestampFresh_iff g g0 u)
  have none: "findByTid (dr_tid rec) g0 = None" by (simp add: findByTid_def g0)
  have reach: "gs_reach ref_core ref_ossl demo_suite fe_default 5000 g0 grng0" by (rule reach_new [OF rng(1) g0(1)])
  have sigma: "ar_sigma q = fp_zero" by (simp add: q_def)
  from noiseless_arbiter_authenticates [OF ref_core_laws refo.ossl_laws_axioms ref_env.sha3.crypto_suite_axioms
      ref_fp.fpu_laws_axioms sigma reach demo_params(1,2) _ _ e none u(1,2) rng t] g0(3) u(3)
  obtain urng' u' grng' g' where "phase2_run ref_core ref_ossl demo_suite (arbiterPuf ref_fpu ref_core ref_ossl q)
      (100, 130, 160) (rng, ?u) (grng, g) = Some ((urng', u'), (grng', g'))"
    "phase2_agreed ref_core demo_suite ?u g rec u' g'" by (auto simp: g)
  with reach e show ?thesis by blast
qed

end
