(* ===== verification/Min_Entropy.thy ===== *)
theory Min_Entropy
  imports Fpu Core Ref_Core
begin

text \<open>
  \<open>puf/MinEntropy.{h,cc}\<close>: the two estimators of the min-entropy of PUF responses over a population of
  devices.  The counting is on \<open>nat\<close>, the estimates on the doubles of \<open>Fpu\<close>.  The lemmas show what the
  counters hold: the ones of a bit position, and one observation for every bit that has a full context.
\<close>

subsection \<open>The estimators\<close>

record entropy_estimate =
  ee_mcvBitsPerBlock :: double
  ee_mcvRatePerBit :: double
  ee_compressionBitsPerBlock :: double
  ee_minOfEstimates :: double
  ee_devices :: nat
  ee_blockBits :: nat
  ee_mcvRateUncorrectedPerBit :: double
  ee_contextBits :: nat
  ee_maxPositionBias :: double

definition ee_empty :: entropy_estimate where
  "ee_empty = \<lparr>ee_mcvBitsPerBlock = fp_zero, ee_mcvRatePerBit = fp_zero, ee_compressionBitsPerBlock = fp_zero,
     ee_minOfEstimates = fp_zero, ee_devices = 0, ee_blockBits = 0, ee_mcvRateUncorrectedPerBit = fp_zero,
     ee_contextBits = 0, ee_maxPositionBias = fp_zero\<rparr>"

definition upperBound99 :: "fpu \<Rightarrow> double \<Rightarrow> nat \<Rightarrow> double" where
  "upperBound99 F pHat samples =
     (if samples < 2 then fp_of_rat F 1
      else let n = fp_nat F (samples - 1);
               halfWidth = fp_mul F (fp_of_rat F (2576 / 1000))
                 (fp_sqrt F (fp_div F (fp_mul F pHat (fp_sub F (fp_of_rat F 1) pHat)) n))
           in fp_min F (fp_of_rat F 1) (fp_add F pHat halfWidth))"

definition minEntropyOf :: "fpu \<Rightarrow> double \<Rightarrow> double" where
  "minEntropyOf F p =
     (if fp_le F (fp_of_rat F 1) p then fp_zero
      else if fp_le F p fp_zero then fp_zero
      else fp_neg F (fp_log2 F p))"

text \<open>The loop over \<open>k = 1, 2, \<dots>, 8\<close> with its two breaks.\<close>

primrec context_loop :: "fpu \<Rightarrow> nat \<Rightarrow> nat \<Rightarrow> nat list \<Rightarrow> nat \<Rightarrow> nat" where
  "context_loop F devices blockBits [] best = best"
| "context_loop F devices blockBits (k # ks) best =
     (if blockBits \<le> k then best
      else let observations = fp_mul F (fp_nat F devices) (fp_nat F (blockBits - k))
           in if fp_less F observations (fp_mul F (fp_of_rat F 16384) (fp_pow F (fp_of_rat F 2) (fp_nat F k))) then best
              else context_loop F devices blockBits ks k)"

definition chooseContextBits :: "fpu \<Rightarrow> nat \<Rightarrow> nat \<Rightarrow> nat" where
  "chooseContextBits F devices blockBits = context_loop F devices blockBits [1..<9] 0"

text \<open>Ones per bit position.\<close>

definition count_ones :: "core_lib \<Rightarrow> nat \<Rightarrow> bytes list \<Rightarrow> nat list" where
  "count_ones C blockBits rs =
     fold (\<lambda>r ones. fold (\<lambda>i ones. if getBit C r i then ones[i := ones ! i + 1] else ones) [0..<blockBits] ones)
       rs (replicate blockBits 0)"

text \<open>The loop over the positions, with the bits, their bounded versions and the largest bias.\<close>

definition mcv_step :: "fpu \<Rightarrow> nat \<Rightarrow> nat \<Rightarrow> double \<times> double \<times> double \<Rightarrow> double \<times> double \<times> double" where
  "mcv_step F devices ones st =
     (case st of (bits, raw, bias) \<Rightarrow>
        let major = max ones (devices - ones);
            pHat = fp_div F (fp_nat F major) (fp_nat F devices)
        in (fp_add F bits (minEntropyOf F (upperBound99 F pHat devices)),
            fp_add F raw (minEntropyOf F pHat),
            fp_max F bias (fp_sub F pHat (fp_of_rat F (1 / 2)))))"

text \<open>One bit of a response: the context, the counters \<open>counts[2 * ctx + bit]\<close>, the observations.\<close>

definition ctx_step :: "core_lib \<Rightarrow> nat \<Rightarrow> bytes \<Rightarrow> nat \<Rightarrow> nat \<times> nat list \<times> nat \<Rightarrow> nat \<times> nat list \<times> nat" where
  "ctx_step C k r i st =
     (case st of (ctx, counts, obs) \<Rightarrow>
        let b = (if getBit C r i then 1 else 0);
            slot = ctx * 2 + b;
            (counts, obs) = (if k \<le> i then (counts[slot := counts ! slot + 1], obs + 1) else (counts, obs));
            ctx = (if 0 < k then (push_bit 1 ctx OR b) AND (push_bit k 1 - 1) else ctx)
        in (ctx, counts, obs))"

definition ctx_response :: "core_lib \<Rightarrow> nat \<Rightarrow> nat \<Rightarrow> bytes \<Rightarrow> nat list \<times> nat \<Rightarrow> nat list \<times> nat" where
  "ctx_response C k blockBits r st = snd (fold (ctx_step C k r) [0..<blockBits] (0, st))"

definition ctx_counts :: "core_lib \<Rightarrow> nat \<Rightarrow> nat \<Rightarrow> bytes list \<Rightarrow> nat list \<times> nat" where
  "ctx_counts C k blockBits rs =
     fold (ctx_response C k blockBits) rs (replicate (push_bit k 1 * 2) 0, 0)"

definition ctx_correct :: "nat \<Rightarrow> nat list \<Rightarrow> nat" where
  "ctx_correct k counts =
     fold (\<lambda>c correct. correct + max (counts ! (c * 2)) (counts ! (c * 2 + 1))) [0..<push_bit k 1] 0"

definition estimateMinEntropy ::
    "fpu \<Rightarrow> core_lib \<Rightarrow> bytes list \<Rightarrow> nat \<Rightarrow> entropy_estimate option" where
  "estimateMinEntropy F C rs blockBits =
     (let devices = length rs; est = ee_empty\<lparr>ee_devices := devices, ee_blockBits := blockBits\<rparr>
      in if devices = 0 \<or> blockBits = 0 then Some est
         else do {
           require (\<forall>r \<in> set rs. \<not> length r < bytesForBits C blockBits);
           let (bits, raw, bias) = fold (mcv_step F devices) (count_ones C blockBits rs) (fp_zero, fp_zero, fp_zero);
           let k = chooseContextBits F devices blockBits;
           let (counts, observations) = ctx_counts C k blockBits rs;
           let compression = (if 2 \<le> observations
             then fp_mul F (minEntropyOf F (upperBound99 F
                 (fp_div F (fp_nat F (ctx_correct k counts)) (fp_nat F observations)) observations))
               (fp_nat F blockBits)
             else fp_zero);
           Some (est\<lparr>ee_mcvBitsPerBlock := bits,
             ee_mcvRatePerBit := fp_div F bits (fp_nat F blockBits),
             ee_mcvRateUncorrectedPerBit := fp_div F raw (fp_nat F blockBits),
             ee_maxPositionBias := bias,
             ee_contextBits := k,
             ee_compressionBitsPerBlock := compression,
             ee_minOfEstimates := fp_min F bits compression\<rparr>) })"

subsection \<open>What the counters hold\<close>

lemma count_inner:
  "length ones = n \<Longrightarrow> m \<le> n \<Longrightarrow>
   fold (\<lambda>i ones. if f i then ones[i := ones ! i + 1] else ones) [0..<m] ones =
     map (\<lambda>i. if i < m \<and> f i then ones ! i + 1 else ones ! i) [0..<n]"
  for ones :: "nat list"
proof (induction m)
  case 0
  then show ?case by (simp add: map_nth flip: \<open>length ones = n\<close>)
next
  case (Suc m)
  have "(map (\<lambda>i. if i < m \<and> f i then ones ! i + 1 else ones ! i) [0..<n])[m := ones ! m + 1] =
      map (\<lambda>i. if i < Suc m \<and> f i then ones ! i + 1 else ones ! i) [0..<n]" if "f m"
    using that Suc.prems by (intro nth_equalityI) (auto simp: nth_list_update less_Suc_eq)
  moreover have "map (\<lambda>i. if i < m \<and> f i then ones ! i + 1 else ones ! i) [0..<n] =
      map (\<lambda>i. if i < Suc m \<and> f i then ones ! i + 1 else ones ! i) [0..<n]" if "\<not> f m"
    using that by (auto simp: less_Suc_eq)
  ultimately show ?case using Suc by simp
qed

lemma count_ones_eq:
  "count_ones C n rs = map (\<lambda>i. length (filter (\<lambda>r. getBit C r i) rs)) [0..<n]"
proof (induction rs rule: rev_induct)
  case Nil
  then show ?case by (simp add: count_ones_def map_replicate_const)
next
  case (snoc r rs)
  have "count_ones C n (rs @ [r]) =
      fold (\<lambda>i ones. if getBit C r i then ones[i := ones ! i + 1] else ones) [0..<n] (count_ones C n rs)"
    by (simp add: count_ones_def)
  also have "\<dots> = map (\<lambda>i. if i < n \<and> getBit C r i then count_ones C n rs ! i + 1 else count_ones C n rs ! i) [0..<n]"
    by (rule count_inner) (simp_all add: snoc)
  finally show ?case by (simp add: snoc)
qed

text \<open>The context before bit \<open>i\<close>: the \<open>k\<close> bits before it, the latest least significant.\<close>

definition context_value :: "core_lib \<Rightarrow> nat \<Rightarrow> bytes \<Rightarrow> nat \<Rightarrow> nat" where
  "context_value C k r i = horner_sum of_bool 2 (map (\<lambda>j. j < i \<and> getBit C r (i - 1 - j)) [0..<k])"

lemma context_value_0 [simp]: "context_value C k r 0 = 0"
  by (induction k) (simp_all add: context_value_def horner_sum_append)

lemma context_value_lt: "context_value C k r i < 2 ^ k"
  using horner_sum_of_bool_2_less [of "map (\<lambda>j. j < i \<and> getBit C r (i - 1 - j)) [0..<k]"]
  by (simp add: context_value_def)

lemma context_value_Suc:
  "context_value C k r (Suc i) = take_bit k (2 * context_value C k r i + of_bool (getBit C r i))"
proof -
  let ?xs = "map (\<lambda>j. j < i \<and> getBit C r (i - 1 - j)) [0..<k]"
  have "2 * context_value C k r i + of_bool (getBit C r i) = horner_sum of_bool 2 (getBit C r i # ?xs)"
    by (simp add: context_value_def)
  then have "take_bit k (2 * context_value C k r i + of_bool (getBit C r i)) =
      horner_sum of_bool 2 (take k (getBit C r i # ?xs))"
    by (simp only: take_bit_horner_sum_bit_eq)
  also have "take k (getBit C r i # ?xs) = map (\<lambda>j. j < Suc i \<and> getBit C r (Suc i - 1 - j)) [0..<k]"
  proof (rule nth_equalityI)
    fix j assume "j < length (take k (getBit C r i # ?xs))"
    then show "take k (getBit C r i # ?xs) ! j = map (\<lambda>j. j < Suc i \<and> getBit C r (Suc i - 1 - j)) [0..<k] ! j"
      by (cases j) auto
  qed simp
  finally show ?thesis by (simp add: context_value_def)
qed

lemma shift_in:
  "(push_bit 1 x OR (if b then 1 else 0)) AND (push_bit k 1 - 1) = take_bit k (2 * x + of_bool b)" for x :: nat
proof -
  have "push_bit 1 x OR (if b then 1 else 0) = 2 * x + of_bool b"
    by (cases b) (simp_all add: push_bit_eq_mult or_one_eq [of "x * 2", unfolded One_nat_def])
  moreover have "push_bit k 1 - 1 = (mask k :: nat)" by (simp add: mask_eq_exp_minus_1 push_bit_eq_mult)
  ultimately show ?thesis by (simp add: take_bit_eq_mask)
qed

text \<open>How often a context was followed by a bit, among the first \<open>n\<close> bits of a response.\<close>

definition followed :: "core_lib \<Rightarrow> nat \<Rightarrow> nat \<Rightarrow> bytes \<Rightarrow> nat \<Rightarrow> nat" where
  "followed C k n r slot =
     card {i. k \<le> i \<and> i < n \<and> context_value C k r i * 2 + (if getBit C r i then 1 else 0) = slot}"

lemma followed_Suc:
  "followed C k (Suc n) r slot = followed C k n r slot +
     (if k \<le> n \<and> context_value C k r n * 2 + (if getBit C r n then 1 else 0) = slot then 1 else 0)"
proof -
  have "{i. k \<le> i \<and> i < Suc n \<and> context_value C k r i * 2 + (if getBit C r i then 1 else 0) = slot} =
    {i. k \<le> i \<and> i < n \<and> context_value C k r i * 2 + (if getBit C r i then 1 else 0) = slot} \<union>
    (if k \<le> n \<and> context_value C k r n * 2 + (if getBit C r n then 1 else 0) = slot then {n} else {})" (is "_ = ?A \<union> ?B")
    by (auto simp: less_Suc_eq)
  moreover have "card (?A \<union> ?B) = card ?A + card ?B" by (rule card_Un_disjoint) auto
  ultimately show ?thesis unfolding followed_def by simp
qed

lemma ctx_fold:
  assumes "length counts = 2 * 2 ^ k"
  shows "fold (ctx_step C k r) [0..<n] (0, counts, obs) =
    (context_value C k r n, map (\<lambda>s. counts ! s + followed C k n r s) [0..<2 * 2 ^ k], obs + (n - k))"
proof (induction n)
  case 0
  have "followed C k 0 r s = 0" for s by (simp add: followed_def)
  then show ?case using assms by (simp add: map_nth flip: assms)
next
  case (Suc n)
  let ?c = "context_value C k r n" and ?b = "if getBit C r n then 1 else (0::nat)"
  have slot: "?c * 2 + ?b < 2 * 2 ^ k" using context_value_lt [of C k r n] by auto
  have ctx: "(if 0 < k then (push_bit 1 ?c OR ?b) AND (push_bit k 1 - 1) else ?c) = context_value C k r (Suc n)"
  proof (cases "k = 0")
    case True
    then show ?thesis using context_value_lt [of C 0 r] by simp
  qed (simp only: shift_in context_value_Suc if_True neq0_conv)
  have m: "(map (\<lambda>s. counts ! s + followed C k n r s) [0..<2 * 2 ^ k])
      [?c * 2 + ?b := (map (\<lambda>s. counts ! s + followed C k n r s) [0..<2 * 2 ^ k]) ! (?c * 2 + ?b) + 1] =
      map (\<lambda>s. counts ! s + followed C k (Suc n) r s) [0..<2 * 2 ^ k]" if "k \<le> n"
    using slot that by (intro nth_equalityI) (auto simp: nth_list_update followed_Suc)
  have e: "map (\<lambda>s. counts ! s + followed C k n r s) [0..<2 * 2 ^ k] =
      map (\<lambda>s. counts ! s + followed C k (Suc n) r s) [0..<2 * 2 ^ k]" if "\<not> k \<le> n"
    using that by (simp add: followed_Suc)
  have "fold (ctx_step C k r) [0..<Suc n] (0, counts, obs) = ctx_step C k r n
      (?c, map (\<lambda>s. counts ! s + followed C k n r s) [0..<2 * 2 ^ k], obs + (n - k))"
    by (simp add: Suc)
  also have "\<dots> = (context_value C k r (Suc n), map (\<lambda>s. counts ! s + followed C k (Suc n) r s) [0..<2 * 2 ^ k],
      obs + (Suc n - k))"
  proof (cases "k \<le> n")
    case True
    then show ?thesis unfolding ctx_step_def prod.case Let_def ctx using m [OF True] by (simp add: Suc_diff_le)
  next
    case False
    then show ?thesis unfolding ctx_step_def prod.case Let_def ctx using e [OF False] by simp
  qed
  finally show ?case .
qed

lemma ctx_counts_eq:
  "ctx_counts C k n rs =
     (map (\<lambda>s. sum_list (map (\<lambda>r. followed C k n r s) rs)) [0..<2 * 2 ^ k], length rs * (n - k))"
proof (induction rs rule: rev_induct)
  case Nil
  then show ?case by (simp add: ctx_counts_def map_replicate_const push_bit_eq_mult mult.commute)
next
  case (snoc r rs)
  have "ctx_counts C k n (rs @ [r]) = ctx_response C k n r (ctx_counts C k n rs)"
    by (simp add: ctx_counts_def)
  then show ?case
    by (simp add: snoc ctx_response_def ctx_fold)
qed

lemma sum_followed: "(\<Sum>s < 2 * 2 ^ k. followed C k n r s) = n - k"
proof -
  let ?g = "\<lambda>i. context_value C k r i * 2 + (if getBit C r i then 1 else 0)"
  have "?g i < 2 * 2 ^ k" for i using context_value_lt [of C k r i] by (cases "getBit C r i") simp_all
  then have g: "?g ` {k..<n} \<subseteq> {..<2 * 2 ^ k}" by blast
  have "followed C k n r s = (\<Sum>i \<in> {i \<in> {k..<n}. ?g i = s}. 1)" for s
    unfolding followed_def by (simp add: conj_assoc)
  then have "(\<Sum>s < 2 * 2 ^ k. followed C k n r s) = (\<Sum>s < 2 * 2 ^ k. \<Sum>i \<in> {i \<in> {k..<n}. ?g i = s}. 1)" by simp
  also have "\<dots> = (\<Sum>i \<in> {k..<n}. 1)" by (rule sum.group) (use g in simp_all)
  finally show ?thesis by simp
qed

lemma sum_counts: "sum_list (fst (ctx_counts C k n rs)) = length rs * (n - k)"
proof -
  have "sum_list (map (\<lambda>s. sum_list (map (\<lambda>r. followed C k n r s) rs)) [0..<2 * 2 ^ k]) =
      sum_list (map (\<lambda>r. n - k) rs)"
  proof (induction rs)
    case (Cons r rs)
    have "sum_list (map (\<lambda>s. followed C k n r s) [0..<2 * 2 ^ k]) = n - k"
      using sum_followed [where C = C and k = k and n = n and r = r]
      by (simp add: interv_sum_list_conv_sum_set_nat atLeast0LessThan)
    with Cons show ?case by (simp add: sum_list_addf)
  qed simp
  then show ?thesis by (simp add: ctx_counts_eq sum_list_triv)
qed

lemma ctx_correct_sum:
  "ctx_correct k counts = (\<Sum>c < 2 ^ k. max (counts ! (c * 2)) (counts ! (c * 2 + 1)))"
proof -
  have "fold (\<lambda>c acc. acc + max (counts ! (c * 2)) (counts ! (c * 2 + 1))) [0..<n] 0 =
      (\<Sum>c < n. max (counts ! (c * 2)) (counts ! (c * 2 + 1)))" for n
    by (induction n) simp_all
  then show ?thesis by (simp add: ctx_correct_def push_bit_eq_mult)
qed

lemma sum_pairs: "length counts = 2 * n \<Longrightarrow> sum_list counts = (\<Sum>c < n. counts ! (c * 2) + counts ! (c * 2 + 1))"
  for counts :: "nat list"
proof (induction n arbitrary: counts)
  case (Suc n)
  from Suc.prems obtain ys b where 1: "counts = ys @ [b]" by (cases counts rule: rev_cases) simp_all
  with Suc.prems obtain xs a where 2: "ys = xs @ [a]" by (cases ys rule: rev_cases) simp_all
  have c: "counts = xs @ [a, b]" "length xs = 2 * n" using 1 2 Suc.prems by simp_all
  have "(\<Sum>c < n. counts ! (c * 2) + counts ! (c * 2 + 1)) = (\<Sum>c < n. xs ! (c * 2) + xs ! (c * 2 + 1))"
    by (rule sum.cong) (use c in \<open>simp_all add: nth_append\<close>)
  then show ?case using Suc.IH [OF c(2)] c by (simp add: nth_append)
qed simp

lemma ctx_correct_bounds:
  assumes "length counts = 2 * 2 ^ k"
  shows "ctx_correct k counts \<le> sum_list counts" "sum_list counts \<le> 2 * ctx_correct k counts"
  unfolding ctx_correct_sum sum_pairs [OF assms] sum_distrib_left by (intro sum_mono, simp)+

lemma context_loop_range:
  "context_loop F d n ks best \<in> insert best {k \<in> set ks. k < n}"
proof (induction ks arbitrary: best)
  case (Cons k ks)
  show ?case using Cons [of k] by (auto simp: Let_def)
qed simp

lemma chooseContextBits_range: "chooseContextBits F d n \<le> 8 \<and> (0 < n \<longrightarrow> chooseContextBits F d n < n)"
  using context_loop_range [of F d n "[1..<9]" 0] by (auto simp: chooseContextBits_def)

subsection \<open>Properties\<close>

text \<open>What the estimators count, for any responses, block length and context length: the ones of
  position \<open>i\<close> are the responses with bit \<open>i\<close> set; slot \<open>2 * c + b\<close> holds how often, in all responses, the \<open>k\<close> bits
  with value \<open>c\<close> were followed by \<open>b\<close>; there is one observation for every bit with a full context and the
  slots sum up to them; and the best guesses are at least half and at most all of the observations.  The
  context chosen has at most 8 bits and is shorter than the block.  The estimate throws exactly when
  there are devices and bits and some response is too short.\<close>

theorem entropy_counters_exact:
  "count_ones C n rs = map (\<lambda>i. length (filter (\<lambda>r. getBit C r i) rs)) [0..<n] \<and>
   ctx_counts C k n rs =
     (map (\<lambda>s. sum_list (map (\<lambda>r. followed C k n r s) rs)) [0..<2 * 2 ^ k], length rs * (n - k)) \<and>
   sum_list (fst (ctx_counts C k n rs)) = snd (ctx_counts C k n rs) \<and>
   ctx_correct k (fst (ctx_counts C k n rs)) \<le> snd (ctx_counts C k n rs) \<and>
   snd (ctx_counts C k n rs) \<le> 2 * ctx_correct k (fst (ctx_counts C k n rs)) \<and>
   chooseContextBits F d n \<le> 8 \<and> chooseContextBits F d (Suc n) < Suc n \<and>
   (estimateMinEntropy F C rs n = None) = (rs \<noteq> [] \<and> n \<noteq> 0 \<and> (\<exists>r \<in> set rs. length r < bytesForBits C n))"
proof -
  have len: "length (fst (ctx_counts C k n rs)) = 2 * 2 ^ k" by (simp add: ctx_counts_eq)
  have s: "snd (ctx_counts C k n rs) = length rs * (n - k)" by (simp add: ctx_counts_eq)
  have "(estimateMinEntropy F C rs n = None) = (rs \<noteq> [] \<and> n \<noteq> 0 \<and> (\<exists>r \<in> set rs. length r < bytesForBits C n))"
    by (auto simp: estimateMinEntropy_def Let_def split_beta bind_eq_None_conv)
  then show ?thesis
    using count_ones_eq [of C n rs] ctx_counts_eq [of C k n rs] sum_counts [of C k n rs] s
      ctx_correct_bounds [OF len] chooseContextBits_range [of F d] by simp
qed

end
