(* ===== verification/Counters.thy ===== *)
theory Counters
  imports Arbiter
begin

text \<open>
  \<open>crypto/PrimitiveCounters.{h,cc}\<close>: the cost statistics of the primitives.  A clock reading is an
  argument.  \<open>kMaxSamples\<close> bounds the
  samples kept, so mean and total cover all calls, the percentiles and the deviation only the first 4096.
\<close>

subsection \<open>One primitive\<close>

record primitive_stat =
  ps_calls :: u64
  ps_inputBytes :: u64
  ps_totalNs :: double
  ps_maxNs :: double
  ps_samplesNs :: "double list"

definition ps_empty :: primitive_stat where
  "ps_empty = \<lparr>ps_calls = 0, ps_inputBytes = 0, ps_totalNs = fp_zero, ps_maxNs = fp_zero, ps_samplesNs = []\<rparr>"

definition kMaxSamples :: nat where "kMaxSamples = 4096"

definition ps_add :: "fpu \<Rightarrow> double \<Rightarrow> nat \<Rightarrow> primitive_stat \<Rightarrow> primitive_stat" where
  "ps_add F ns inBytes s =
     s\<lparr>ps_calls := ps_calls s + 1,
       ps_inputBytes := ps_inputBytes s + of_nat inBytes,
       ps_totalNs := fp_add F (ps_totalNs s) ns,
       ps_maxNs := (if fp_less F (ps_maxNs s) ns then ns else ps_maxNs s),
       ps_samplesNs := (if length (ps_samplesNs s) < kMaxSamples then ps_samplesNs s @ [ns] else ps_samplesNs s)\<rparr>"

definition ps_meanNs :: "fpu \<Rightarrow> primitive_stat \<Rightarrow> double" where
  "ps_meanNs F s = (if ps_calls s = 0 then fp_zero
     else fp_div F (ps_totalNs s) (fp_nat F (unat (ps_calls s))))"

definition ps_percentileNs :: "fpu \<Rightarrow> primitive_stat \<Rightarrow> double \<Rightarrow> double" where
  "ps_percentileNs F s q =
     (if ps_samplesNs s = [] then fp_zero
      else let sorted = fp_sort F (ps_samplesNs s)
        in if fp_le F q fp_zero then hd sorted
           else if fp_le F (fp_of_rat F 1) q then last sorted
           else let pos = fp_mul F q (fp_nat F (length sorted - 1));
                  lo = fp_to_nat F pos;
                  hi = min (lo + 1) (length sorted - 1);
                  frac = fp_sub F pos (fp_nat F lo)
             in fp_add F (fp_mul F (sorted ! lo) (fp_sub F (fp_of_rat F 1) frac)) (fp_mul F (sorted ! hi) frac))"

definition ps_medianNs :: "fpu \<Rightarrow> primitive_stat \<Rightarrow> double" where
  "ps_medianNs F s = ps_percentileNs F s (fp_of_rat F (1 / 2))"

definition ps_sdNs :: "fpu \<Rightarrow> primitive_stat \<Rightarrow> double" where
  "ps_sdNs F s =
     (if length (ps_samplesNs s) < 2 then fp_zero
      else let total = foldl (fp_add F) fp_zero (ps_samplesNs s);
             mean = fp_div F total (fp_nat F (length (ps_samplesNs s)));
             acc = foldl (\<lambda>acc v. fp_add F acc (fp_mul F (fp_sub F v mean) (fp_sub F v mean))) fp_zero (ps_samplesNs s)
        in fp_sqrt F (fp_div F acc (fp_nat F (length (ps_samplesNs s) - 1))))"

subsection \<open>All primitives\<close>

text \<open>The array has one entry per primitive and none for \<open>COUNT\<close>.\<close>

type_synonym counters = "primitive \<Rightarrow> primitive_stat"

definition all_primitives :: "primitive list" where
  "all_primitives = [Hash160, Mac, MacVerify, Kdf, Extract, AeadSeal, AeadOpen, DhKeygen, DhDerive,
     PufEval, FeGen, FeRep, BchEncode, BchDecode, Rng, Sign, Verify]"

definition pc_add :: "fpu \<Rightarrow> primitive \<Rightarrow> double \<Rightarrow> nat \<Rightarrow> counters \<Rightarrow> counters option" where
  "pc_add F p ns inputBytes c = do {
     require (p \<noteq> COUNT);
     Some (c(p := ps_add F ns inputBytes (c p))) }"

definition pc_get :: "primitive \<Rightarrow> counters \<Rightarrow> primitive_stat option" where
  "pc_get p c = do { require (p \<noteq> COUNT); Some (c p) }"

definition pc_reset :: "counters \<Rightarrow> counters" where
  "pc_reset c = (\<lambda>p. if p \<in> set all_primitives then ps_empty else c p)"

definition pc_totalMs :: "fpu \<Rightarrow> counters \<Rightarrow> double" where
  "pc_totalMs F c = fp_div F (foldl (\<lambda>ns p. fp_add F ns (ps_totalNs (c p))) fp_zero all_primitives)
     (fp_of_rat F 1000000)"

text \<open>\<open>ScopedTimer\<close>: the destructor books the time since the constructor; both clock readings are arguments.\<close>

definition scoped_timer :: "fpu \<Rightarrow> primitive \<Rightarrow> nat \<Rightarrow> int \<Rightarrow> int \<Rightarrow> counters \<Rightarrow> counters option" where
  "scoped_timer F p inputBytes startNs nowNs c = pc_add F p (fp_of_rat F (of_int (nowNs - startNs))) inputBytes c"

definition elapsedMs :: "fpu \<Rightarrow> int \<Rightarrow> int \<Rightarrow> double" where
  "elapsedMs F startNs nowNs = fp_div F (fp_of_rat F (of_int (nowNs - startNs))) (fp_of_rat F 1000000)"

subsection \<open>Lemmas\<close>

definition ps_adds :: "fpu \<Rightarrow> (double \<times> nat) list \<Rightarrow> primitive_stat" where
  "ps_adds F xs = fold (\<lambda>(ns, b). ps_add F ns b) xs ps_empty"

lemma ps_adds_books:
  "ps_calls (ps_adds F xs) = of_nat (length xs)"
  "ps_inputBytes (ps_adds F xs) = of_nat (sum_list (map snd xs))"
  "ps_totalNs (ps_adds F xs) = foldl (fp_add F) fp_zero (map fst xs)"
  "ps_samplesNs (ps_adds F xs) = take kMaxSamples (map fst xs)"
  by (induction xs rule: rev_induct) (auto simp: ps_adds_def ps_empty_def ps_add_def)

lemma length_fp_sort [simp]: "length (fp_sort F xs) = length xs"
proof -
  have "length (fp_insort F x ys) = Suc (length ys)" for x ys by (induction ys) simp_all
  then show ?thesis by (induction xs) (simp_all add: fp_sort_def)
qed

lemma mset_fp_sort: "set (fp_sort F xs) = set xs"
proof -
  have "set (fp_insort F x ys) = insert x (set ys)" for x ys by (induction ys) auto
  then show ?thesis by (induction xs) (simp_all add: fp_sort_def)
qed

lemma set_all_primitives: "p \<in> set all_primitives \<longleftrightarrow> p \<noteq> COUNT"
  by (cases p) (simp_all add: all_primitives_def)

subsection \<open>Properties\<close>

text \<open>The books of a primitive after any sequence of measurements: the calls and input bytes counted
  modulo 2^64, the total in the order of the calls, and the samples the first 4096 of them; so every
  percentile, the median and the deviation are those of the first 4096 calls and later calls never
  change them.\<close>

theorem primitive_stat_books:
  "ps_calls (ps_adds F xs) = of_nat (length xs) \<and>
   ps_inputBytes (ps_adds F xs) = of_nat (sum_list (map snd xs)) \<and>
   ps_totalNs (ps_adds F xs) = foldl (fp_add F) fp_zero (map fst xs) \<and>
   ps_samplesNs (ps_adds F xs) = take 4096 (map fst xs) \<and>
   ps_percentileNs F (ps_adds F xs) q = ps_percentileNs F (ps_adds F (take 4096 xs)) q \<and>
   ps_medianNs F (ps_adds F xs) = ps_medianNs F (ps_adds F (take 4096 xs)) \<and>
   ps_sdNs F (ps_adds F xs) = ps_sdNs F (ps_adds F (take 4096 xs))"
  by (simp add: ps_adds_books kMaxSamples_def ps_medianNs_def ps_percentileNs_def ps_sdNs_def take_map min_def)

end
