(* ===== verification/Scalars.thy ===== *)
theory Scalars
  imports "HOL-Library.List_Lexorder" "HOL-Library.Char_ord" Counters Xor_Arbiter Gs_Node Uav_Node Attacker_Node Baseline_Nodes Inet_Apps
begin

text \<open>
  The \<open>finish\<close> functions of the modules (\<open>nodes/*.cc\<close>, \<open>src_inet/apps/*.cc\<close>): the list of the scalars a
  module records at the end of a simulation, name and value, in the order of the calls.  A member that was
  accumulated from clock readings or message delays is not in the records of the nodes; its value is
  \<open>clk\<close> of the name it is recorded under.  \<open>ms t\<close> is \<open>t.dbl() * 1000.0\<close> of a simulation time.  The
  attacker's map is iterated in the order of its keys.
\<close>

type_synonym scalar = "string \<times> double"

abbreviation fp_int :: "fpu \<Rightarrow> int \<Rightarrow> double" where
  "fp_int F i \<equiv> fp_of_rat F (of_int i)"

definition fp_flag :: "fpu \<Rightarrow> bool \<Rightarrow> double" where
  "fp_flag F b = (if b then fp_of_rat F 1 else fp_zero)"

text \<open>\<open>b > 0 ? a / b : 0\<close>, the two rates.\<close>

definition rate :: "fpu \<Rightarrow> int \<Rightarrow> int \<Rightarrow> double" where
  "rate F a b = (if 0 < b then fp_div F (fp_int F a) (fp_int F b) else fp_zero)"

text \<open>The prefix of the scalars of one entry of a map.\<close>

definition entry_prefix :: "string \<Rightarrow> int \<Rightarrow> string" where
  "entry_prefix p i = p @ to_string i @ ''_''"

subsection \<open>Costs of the primitives\<close>

definition stat_scalars :: "fpu \<Rightarrow> string \<Rightarrow> primitive \<Rightarrow> primitive_stat \<Rightarrow> scalar list" where
  "stat_scalars F prefix prim stat =
     (if ps_calls stat = 0 then []
      else let p = prefix @ primitiveName prim @ ''_''
        in [(p @ ''calls'', fp_nat F (unat (ps_calls stat))),
            (p @ ''total_ms'', fp_div F (ps_totalNs stat) (fp_of_rat F 1000000)),
            (p @ ''mean_us'', fp_div F (ps_meanNs F stat) (fp_of_rat F 1000)),
            (p @ ''median_us'', fp_div F (ps_medianNs F stat) (fp_of_rat F 1000)),
            (p @ ''p95_us'', fp_div F (ps_percentileNs F stat (fp_of_rat F (95 / 100))) (fp_of_rat F 1000))])"

text \<open>The loop over all primitives and, within it, over the counter sets of the module.\<close>

definition prim_scalars :: "fpu \<Rightarrow> string \<Rightarrow> counters list \<Rightarrow> scalar list" where
  "prim_scalars F prefix cs =
     concat (map (\<lambda>prim. concat (map (\<lambda>c. stat_scalars F prefix prim (c prim)) cs)) all_primitives)"

subsection \<open>The ground station node\<close>

definition gn_phase1_scalars :: "fpu \<Rightarrow> (string \<Rightarrow> double) \<Rightarrow> int \<times> gs_phase1_record \<Rightarrow> scalar list" where
  "gn_phase1_scalars F clk = (\<lambda>(i, r). let p = entry_prefix ''phase1_uav_'' i in
     [(p @ ''puf_eval_ms'', clk (p @ ''puf_eval_ms'')), (p @ ''fe_gen_ms'', clk (p @ ''fe_gen_ms'')),
      (p @ ''total_ms'', clk (p @ ''total_ms'')), (p @ ''helper_bytes'', fp_nat F (ge_helperBytes r)),
      (p @ ''challenge_bytes'', fp_nat F (ge_challengeBytes r)), (p @ ''success'', fp_flag F (ge_success r))])"

definition gn_phase2_scalars :: "fpu \<Rightarrow> (string \<Rightarrow> double) \<Rightarrow> int \<times> gs_phase2_record \<Rightarrow> scalar list" where
  "gn_phase2_scalars F clk = (\<lambda>(i, r). let p = entry_prefix ''phase2Gs_uav_'' i in
     [(p @ ''success'', fp_flag F (gp_success r)),
      (p @ ''m1_net_ms'', clk (p @ ''m1_net_ms'')), (p @ ''m1_gs_compute_ms'', clk (p @ ''m1_gs_compute_ms'')),
      (p @ ''m3_net_ms'', clk (p @ ''m3_net_ms'')), (p @ ''m3_gs_compute_ms'', clk (p @ ''m3_gs_compute_ms'')),
      (p @ ''mac_ms'', clk (p @ ''mac_ms'')), (p @ ''kdf_ms'', clk (p @ ''kdf_ms'')),
      (p @ ''dh_ms'', clk (p @ ''dh_ms'')), (p @ ''aead_ms'', clk (p @ ''aead_ms'')),
      (p @ ''bytes_m2'', fp_nat F (gp_bytesM2 r)), (p @ ''bytes_m4'', fp_nat F (gp_bytesM4 r))])"

definition gn_finish :: "fpu \<Rightarrow> (string \<Rightarrow> double) \<Rightarrow> string \<Rightarrow> counters \<Rightarrow> gs_node \<Rightarrow> scalar list" where
  "gn_finish F clk suiteName c n =
     [(''numUAVs'', fp_int F (gn_numUavs n)), (''suite'', fp_flag F (suiteName = ''spongent'')),
      (''hashMode'', fp_flag F (suiteName = ''spongent'')),
      (''totalAuthAttempts'', fp_int F (gn_authAttempts n)), (''totalAuthSuccess'', fp_int F (gn_authSuccesses n)),
      (''authSuccessRate'', rate F (gn_authSuccesses n) (gn_authAttempts n)),
      (''numEnrolled'', fp_int F (gn_numUavs n)),
      (''deviceAuthSuccessRate'', rate F (gn_authSuccesses n) (gn_numUavs n)),
      (''feReproductionFailures'', fp_int F (gn_numUavs n - gn_authAttempts n))]
     @ concat (map (gn_phase1_scalars F clk) (gn_phase1 n))
     @ concat (map (gn_phase2_scalars F clk) (gn_phase2 n))
     @ prim_scalars F ''prim_gs_'' [c]"

subsection \<open>The UAV node\<close>

text \<open>The sum of clock members, from left to right.\<close>

definition clk_total :: "fpu \<Rightarrow> (string \<Rightarrow> double) \<Rightarrow> string list \<Rightarrow> double" where
  "clk_total F clk names = (case map clk names of [] \<Rightarrow> fp_zero | x # xs \<Rightarrow> foldl (fp_add F) x xs)"

definition un_phase3_scalars ::
    "fpu \<Rightarrow> (string \<Rightarrow> double) \<Rightarrow> (simtime \<Rightarrow> double) \<Rightarrow> int \<times> u_phase3_record \<Rightarrow> scalar list" where
  "un_phase3_scalars F clk ms = (\<lambda>(i, r).
     let p = entry_prefix ''phase3_peer_'' i;
         c = clk_total F clk [p @ ''p1_i_compute_ms'', p @ ''p1_p2_j_compute_ms'', p @ ''p2_p3_i_compute_ms''];
         n = clk_total F clk [p @ ''p1_net_ms'', p @ ''p2_net_ms'', p @ ''p3_net_ms'']
     in [(p @ ''success'', fp_flag F (uq_success r)), (p @ ''initiator'', fp_flag F (uq_initiator r)),
         (p @ ''compute_ms'', c), (p @ ''net_ms'', n),
         (p @ ''latency_ms'', if fp_less F fp_zero (ms (uq_latency r)) then ms (uq_latency r) else fp_add F c n),
         (p @ ''overhead_bytes'', fp_nat F (uq_overheadBytes r)),
         (p @ ''p1_i_compute_ms'', clk (p @ ''p1_i_compute_ms'')),
         (p @ ''p1_p2_j_compute_ms'', clk (p @ ''p1_p2_j_compute_ms'')),
         (p @ ''p2_p3_i_compute_ms'', clk (p @ ''p2_p3_i_compute_ms'')),
         (p @ ''p1_net_ms'', clk (p @ ''p1_net_ms'')), (p @ ''p2_net_ms'', clk (p @ ''p2_net_ms'')),
         (p @ ''p3_net_ms'', clk (p @ ''p3_net_ms'')),
         (p @ ''mac_ms'', clk (p @ ''mac_ms'')), (p @ ''kdf_ms'', clk (p @ ''kdf_ms'')), (p @ ''dh_ms'', clk (p @ ''dh_ms''))])"

text \<open>\<open>bch_ms\<close> repeats \<open>fe_rep_ms\<close>.\<close>

definition un_finish ::
    "fpu \<Rightarrow> (string \<Rightarrow> double) \<Rightarrow> (simtime \<Rightarrow> double) \<Rightarrow> string \<Rightarrow> double \<times> double \<Rightarrow> double \<times> double \<Rightarrow> counters \<Rightarrow>
     uav_node \<Rightarrow> scalar list" where
  "un_finish F clk ms suiteName initialPos finalPos c n =
     (let p = un_phase2 n;
          compute = clk_total F clk [''m1_uav_compute_ms'', ''m2_uav_verify_ms'', ''m3_uav_compute_ms'', ''m4_uav_compute_ms''];
          net = clk_total F clk [''m1_net_ms'', ''m2_net_ms'', ''m3_net_ms'', ''m4_net_ms'']
      in [(''uavId'', fp_int F (un_uavId n)), (''hashMode'', fp_flag F (suiteName = ''spongent'')),
          (''isPhase2Authenticated'', fp_flag F (u2_established (uv_phase2 (un_proto n)))),
          (''numPeerSessionKeys'', fp_nat F (un_numPeerSessionKeys n)),
          (''initialXpos'', fst initialPos), (''initialYpos'', snd initialPos),
          (''finalXpos'', fst finalPos), (''finalYpos'', snd finalPos),
          (''phase2Success'', fp_flag F (up_success p)), (''phase2ComputeMs'', compute), (''phase2NetMs'', net),
          (''phase2LatencyMs'', fp_add F compute net), (''phase2_wall_latency_ms'', ms (up_latency p)),
          (''phase2OverheadBytes'', fp_nat F (up_overheadBytes p))]
         @ map (\<lambda>nm. (nm, clk nm)) [''m1_uav_compute_ms'', ''m2_uav_verify_ms'', ''m3_uav_compute_ms'',
             ''m4_uav_compute_ms'', ''m1_net_ms'', ''m2_net_ms'', ''m3_net_ms'', ''m4_net_ms'', ''puf_eval_ms'', ''fe_rep_ms'']
         @ [(''bch_ms'', clk ''fe_rep_ms'')]
         @ map (\<lambda>nm. (nm, clk nm)) [''mac_ms'', ''kdf_ms'', ''dh_ms'', ''aead_ms'']
         @ [(''bytes_m1'', fp_nat F (up_bytesM1 p)), (''bytes_m2'', fp_nat F (up_bytesM2 p)),
            (''bytes_m3'', fp_nat F (up_bytesM3 p)), (''bytes_m4'', fp_nat F (up_bytesM4 p)),
            (''ephemeral_erased'', fp_flag F (up_ephemeralErased p)),
            (''replay_cache_hits'', fp_nat F (rc_hits (uv_replay (un_proto n))))]
         @ concat (map (un_phase3_scalars F clk ms) (un_phase3 n))
         @ prim_scalars F ''prim_'' [c])"

subsection \<open>The attacker\<close>

definition at_scalars :: "fpu \<Rightarrow> attacker \<Rightarrow> string \<times> attack_stat \<Rightarrow> scalar list" where
  "at_scalars F a = (\<lambda>(nm, s). let p = ''atk_'' @ nm @ ''_'' in
     [(p @ ''attempts'', fp_int F (as_attempts s)), (p @ ''accepted'', fp_int F (as_accepted s)),
      (p @ ''rejected'', fp_int F (as_rejected s)), (p @ ''replies_elicited'', fp_int F (as_repliesElicited s)),
      (p @ ''credentials_exposed'', fp_int F (as_credentialsExposed s)),
      (p @ ''responses_leaked'', fp_int F (as_responsesLeaked s)),
      (p @ ''success_rate'', rate F (as_accepted s) (as_attempts s)),
      (p @ ''expected_success'', fp_flag F (attack_expected nm a)),
      (p @ ''outcome_matches_expectation'', fp_flag F (outcome_matches nm s a))])"

definition at_finish :: "fpu \<Rightarrow> attacker \<Rightarrow> scalar list" where
  "at_finish F a =
     [(''attack_observed_messages'', fp_int F (at_observedMessages a)), (''attack_observed_m4'', fp_int F (at_observedM4 a)),
      (''attack_plaintext_credential_bytes'', fp_int F (at_plaintextCredentialBytes a)),
      (''attack_expect_success'', fp_flag F (at_expectSuccess a))]
     @ concat (map (at_scalars F a) (sort_key fst (at_stats a)))"

subsection \<open>The baseline nodes\<close>

definition bn_record_scalars :: "fpu \<Rightarrow> (string \<Rightarrow> double) \<Rightarrow> int \<times> b_gs_record \<Rightarrow> scalar list" where
  "bn_record_scalars F clk = (\<lambda>(i, r). let p = entry_prefix ''baselineGs_uav_'' i in
     [(p @ ''success'', fp_flag F (br_success r)),
      (p @ ''m1_net_ms'', clk (p @ ''m1_net_ms'')), (p @ ''m1_gs_compute_ms'', clk (p @ ''m1_gs_compute_ms'')),
      (p @ ''m3_net_ms'', clk (p @ ''m3_net_ms'')), (p @ ''m3_gs_compute_ms'', clk (p @ ''m3_gs_compute_ms'')),
      (p @ ''sign_ms'', clk (p @ ''sign_ms'')), (p @ ''verify_ms'', clk (p @ ''verify_ms'')),
      (p @ ''mac_ms'', clk (p @ ''mac_ms'')), (p @ ''kdf_ms'', clk (p @ ''kdf_ms'')), (p @ ''dh_ms'', clk (p @ ''dh_ms'')),
      (p @ ''bytes_b2'', fp_nat F (br_bytesM2 r)), (p @ ''bytes_b4'', fp_nat F (br_bytesM4 r))])"

definition bn_finish ::
    "fpu \<Rightarrow> (string \<Rightarrow> double) \<Rightarrow> string \<Rightarrow> counters \<Rightarrow> counters \<Rightarrow> 'k b_gs_node \<Rightarrow> scalar list" where
  "bn_finish F clk sigSuiteName symC sigC n =
     [(''numUAVs'', fp_int F (bn_numUavs n)), (''baselineSuite'', fp_flag F (sigSuiteName = ''ecdsa-p256'')),
      (''totalAuthAttempts'', fp_int F (bn_authAttempts n)), (''totalAuthSuccess'', fp_int F (bn_authSuccesses n)),
      (''authSuccessRate'', rate F (bn_authSuccesses n) (bn_authAttempts n)),
      (''numEnrolled'', fp_int F (bn_numUavs n)),
      (''deviceAuthSuccessRate'', rate F (bn_authSuccesses n) (bn_numUavs n))]
     @ concat (map (bn_record_scalars F clk) (bn_records n))
     @ prim_scalars F ''prim_gs_'' [symC, sigC]"

text \<open>The members of the sums are not recorded one by one here; \<open>clk\<close> names them as the record does.\<close>

definition bw_finish ::
    "fpu \<Rightarrow> (string \<Rightarrow> double) \<Rightarrow> (simtime \<Rightarrow> double) \<Rightarrow> string \<Rightarrow> counters \<Rightarrow> counters \<Rightarrow> int \<Rightarrow> 'k b_uav_node \<Rightarrow>
     scalar list" where
  "bw_finish F clk ms sigSuiteName symC sigC uavId n =
     (let r = bw_rec n
      in [(''uavId'', fp_int F uavId), (''baselineSuite'', fp_flag F (sigSuiteName = ''ecdsa-p256'')),
          (''baselineSuccess'', fp_flag F (bv_success r)),
          (''baselineComputeMs'', clk_total F clk [''m1ComputeMs'', ''m2VerifyMs'', ''m3ComputeMs'', ''m4ComputeMs'']),
          (''baselineNetMs'', clk_total F clk [''m1NetMs'', ''m2NetMs'', ''m3NetMs'', ''m4NetMs'']),
          (''baselineWallLatencyMs'', ms (bv_latency r)), (''baselineOverheadBytes'', fp_nat F (bv_overheadBytes r)),
          (''baseline_sign_ms'', clk ''baseline_sign_ms''), (''baseline_verify_ms'', clk ''baseline_verify_ms''),
          (''baseline_mac_ms'', clk ''baseline_mac_ms''), (''baseline_kdf_ms'', clk ''baseline_kdf_ms''),
          (''baseline_dh_ms'', clk ''baseline_dh_ms''),
          (''bytes_b1'', fp_nat F (bv_bytesM1 r)), (''bytes_b2'', fp_nat F (bv_bytesM2 r)),
          (''bytes_b3'', fp_nat F (bv_bytesM3 r)), (''bytes_b4'', fp_nat F (bv_bytesM4 r)),
          (''baseline_replay_cache_hits'', fp_nat F (rc_hits (bu_replay (bw_proto n))))]
         @ prim_scalars F ''prim_'' [symC, sigC])"

subsection \<open>The INET applications\<close>

definition ga_finish :: "fpu \<Rightarrow> (string \<Rightarrow> double) \<Rightarrow> gs_app \<Rightarrow> scalar list" where
  "ga_finish F clk n =
     [(''inetM1Attempts'', fp_int F (ga_attemptsM1 n)), (''inetM4Successes'', fp_int F (ga_successesM4 n)),
      (''inetReplayHits'', fp_nat F (rc_hits (gs_replay (ga_proto n)))), (''inetGsComputeMs'', clk ''inetGsComputeMs'')]"

definition ua_peer_scalars :: "fpu \<Rightarrow> (string \<Rightarrow> double) \<Rightarrow> int \<times> peer_rec \<Rightarrow> scalar list" where
  "ua_peer_scalars F clk = (\<lambda>(i, r). let p = entry_prefix ''inetP3Peer_'' i in
     [(p @ ''success'', fp_flag F (pr_success r)), (p @ ''computeMs'', clk (p @ ''computeMs''))])"

definition ua_finish :: "fpu \<Rightarrow> (string \<Rightarrow> double) \<Rightarrow> (simtime \<Rightarrow> double) \<Rightarrow> 'a uav_app \<Rightarrow> scalar list" where
  "ua_finish F clk ms n =
     [(''uavId'', fp_int F (ua_uavId n)), (''inetPhase2Success'', fp_flag F (ua_phase2Success n)),
      (''inetPhase2WallLatencyMs'', ms (ua_wallLatency n)), (''inetPhase2ComputeMs'', clk ''inetPhase2ComputeMs''),
      (''inetBytesSent'', fp_nat F (ua_bytesSent n)), (''inetBytesReceived'', fp_nat F (ua_bytesReceived n)),
      (''inetPhase3Peers'', fp_nat F (length (ua_peers n))), (''inetPhase3Successes'', fp_int F (ua_p3Successes n)),
      (''inetPhase3ComputeMs'', clk ''inetPhase3ComputeMs'')]
     @ concat (map (ua_peer_scalars F clk) (ua_peers n))"

subsection \<open>Lemmas\<close>

text \<open>A number is followed by the separator, so the number of a name can be read back.\<close>

lemma digit_code: "k < 10 \<Longrightarrow> of_char (char_of (48 + k) :: char) = 48 + (k :: nat)"
  by simp

lemma decimal_codes: "c \<in> set (decimal n) \<Longrightarrow> 48 \<le> (of_char c :: nat) \<and> of_char c < (58 :: nat)"
proof (induction n rule: decimal.induct)
  case (1 n)
  then show ?case
  proof (cases "n < 10")
    case True
    then show ?thesis using 1(2) by (simp add: decimal.simps [of n] digit_code)
  next
    case False
    then show ?thesis using 1 digit_code [of "n mod 10"] by (auto simp: decimal.simps [of n])
  qed
qed

definition decimal_value :: "string \<Rightarrow> nat" where
  "decimal_value = foldl (\<lambda>v c. 10 * v + (of_char c - 48)) 0"

lemma decimal_value: "decimal_value (decimal n) = n"
proof (induction n rule: decimal.induct)
  case (1 n)
  then show ?case
    by (subst decimal.simps) (auto simp: decimal_value_def digit_code)
qed

lemma to_string_codes: "c \<in> set (to_string i) \<Longrightarrow> c \<noteq> CHR ''_''"
  using decimal_codes by (fastforce simp: to_string_def split: if_splits)

lemma to_string_inject: "to_string i = to_string j \<longleftrightarrow> i = j"
proof
  have no_minus: "decimal n \<noteq> CHR ''-'' # xs" for n xs
    using decimal_codes [of "CHR ''-''" n] by auto
  have inj: "m = n" if "decimal m = decimal n" for m n using that decimal_value by metis
  assume eq: "to_string i = to_string j"
  show "i = j"
  proof (cases "i < 0"; cases "j < 0")
    assume "i < 0" "j < 0"
    then show ?thesis using eq inj [of "nat (- i)" "nat (- j)"] by (simp add: to_string_def)
  next
    assume "\<not> i < 0" "\<not> j < 0"
    then show ?thesis using eq inj [of "nat i" "nat j"] by (simp add: to_string_def)
  qed (use eq no_minus in \<open>simp_all add: to_string_def, metis\<close>)
qed simp

lemma append_separator:
  assumes "c \<notin> set as" and "c \<notin> set bs" and "as @ c # x = bs @ c # y"
  shows "as = bs \<and> x = y"
  using assms
proof (induction as arbitrary: bs)
  case Nil
  then show ?case by (cases bs) auto
next
  case (Cons a as)
  then show ?case by (cases bs) auto
qed

lemma entry_prefix_inject:
  "entry_prefix p i @ x = entry_prefix p j @ y \<longleftrightarrow> i = j \<and> x = y"
proof
  assume "entry_prefix p i @ x = entry_prefix p j @ y"
  then have eq: "to_string i @ CHR ''_'' # x = to_string j @ CHR ''_'' # y" by (simp add: entry_prefix_def)
  have sep: "CHR ''_'' \<notin> set (to_string k)" for k using to_string_codes by blast
  from append_separator [OF sep sep eq] show "i = j \<and> x = y" by (simp add: to_string_inject)
qed simp

text \<open>The names of the entries of a map: pairwise different for different keys and suffixes.\<close>

lemma distinct_entries:
  assumes "distinct (map fst m)" and "distinct suffixes"
    and "\<And>k r. map fst (f (k, r)) = map (\<lambda>s. entry_prefix p k @ s) suffixes"
  shows "distinct (map fst (concat (map f m)))"
  using assms(1)
proof (induction m)
  case (Cons e m)
  obtain k r where e: "e = (k, r)" by (cases e)
  have names: "x \<in> set (map fst (concat (map f m))) \<Longrightarrow> \<exists>k' s. k' \<in> set (map fst m) \<and> x = entry_prefix p k' @ s" for x
  proof -
    assume "x \<in> set (map fst (concat (map f m)))"
    then obtain k' r' where "(k', r') \<in> set m" "x \<in> set (map fst (f (k', r')))" by force
    then show ?thesis unfolding assms(3) by force
  qed
  have "distinct (map fst (f e))"
    unfolding e assms(3) using assms(2) by (simp add: distinct_map inj_on_def)
  moreover have "set (map fst (f e)) \<inter> set (map fst (concat (map f m))) = {}"
    using names Cons.prems unfolding e assms(3) by (force simp: entry_prefix_inject)
  ultimately show ?case using Cons by (simp add: map_concat)
qed simp

end
