(* ===== verification/Node_Init.thy ===== *)
theory Node_Init
  imports Xor_Arbiter Uav_Invariant Gs_Node Uav_Node Attacker_Node Baseline_Nodes Inet_Apps
begin

text \<open>
  The \<open>initialize\<close> functions of the modules: how a configured simulation creates suites, PUFs, generators
  and protocol objects (\<open>nodes/*.cc\<close>, \<open>src_inet/apps/*.cc\<close>).  The NED parameters of a module are a record, the
  draws \<open>intrand(256)\<close> a function.  The lemmas connect a simulation with the reachability
  relations: what the modules create satisfies the hypotheses of the properties of the protocol.
\<close>

record sim_params =
  sp_numUAVs :: int
  sp_suite :: string
  sp_feProfile :: string
  sp_assumedMinEntropyRate :: rat
  sp_timestampWindowMs :: int
  sp_pufModel :: string
  sp_pufNoiseBer :: rat
  sp_fullMesh :: bool
  sp_protocolVariant :: string
  sp_peerAuthStartTime :: simtime
  sp_authStartTime :: simtime

text \<open>The seed of a module's generator: 32 draws below 256.\<close>

definition init_seed :: "(nat \<Rightarrow> int) \<Rightarrow> bytes" where
  "init_seed intrand = map (\<lambda>i. word_of_int (intrand i)) [0..<32]"

definition sim_feParams :: "sim_params \<Rightarrow> fe_params option" where
  "sim_feParams sp = map_option (\<lambda>p. p\<lparr>fp_minEntropyRate := sp_assumedMinEntropyRate sp\<rparr>) (fe_profile (sp_feProfile sp))"

subsection \<open>The nodes\<close>

text \<open>\<open>GroundStationNode::initialize\<close>, stage 0; stage 1 is \<open>gn_enrollAll\<close>.\<close>

definition gn_initialize ::
    "core_lib \<Rightarrow> ossl \<Rightarrow> sim_params \<Rightarrow> (nat \<Rightarrow> int) \<Rightarrow> (suite \<times> gs_node) option" where
  "gn_initialize C L sp intrand = do {
     S \<leftarrow> makeCryptoSuite C L (sp_suite sp);
     p \<leftarrow> sim_feParams sp;
     rng \<leftarrow> drbg_reseed L (init_seed intrand);
     (g, rng) \<leftarrow> gs_new L S p (word_of_int (sp_timestampWindowMs sp)) rng;
     Some (S, \<lparr>gn_numUavs = sp_numUAVs sp, gn_rng = rng, gn_proto = gs_setNumUavs (sp_numUAVs sp) g,
       gn_phase1 = [], gn_phase2 = [], gn_authAttempts = 0, gn_authSuccesses = 0\<rparr>) }"

text \<open>\<open>UavNode::initialize\<close>, both stages.\<close>

definition un_initialize ::
    "fpu \<Rightarrow> core_lib \<Rightarrow> ossl \<Rightarrow> sim_params \<Rightarrow> int \<Rightarrow> (nat \<Rightarrow> int) \<Rightarrow> (suite \<times> puf \<times> uav_node) option" where
  "un_initialize F C L sp uavId intrand = do {
     S \<leftarrow> makeCryptoSuite C L (sp_suite sp);
     p \<leftarrow> sim_feParams sp;
     P \<leftarrow> node_puf F C L uavId (sp_pufModel sp) (sp_pufNoiseBer sp);
     rng \<leftarrow> drbg_reseed L (init_seed intrand);
     let u = uav_new uavId p (word_of_int (sp_timestampWindowMs sp));
     let u = (if sp_protocolVariant sp = ''legacy'' then setLegacyNoGsAuth True u else u);
     Some (S, P, uav_node_new uavId (sp_numUAVs sp) (sp_fullMesh sp) (sp_peerAuthStartTime sp) rng u) }"

definition un_stage1 :: "sim_params \<Rightarrow> simtime \<Rightarrow> node_output list" where
  "un_stage1 sp now = [Schedule (now + sp_authStartTime sp) ''startPhase2'']"

text \<open>\<open>AttackerNode::initialize\<close>.\<close>

definition at_initialize ::
    "core_lib \<Rightarrow> ossl \<Rightarrow> sim_params \<Rightarrow> string \<Rightarrow> int \<Rightarrow> int \<Rightarrow> bool \<Rightarrow> (nat \<Rightarrow> int) \<Rightarrow> medium \<Rightarrow>
     (suite \<times> attacker \<times> medium) option" where
  "at_initialize C L sp mode target maxAttempts expect intrand md = do {
     S \<leftarrow> makeCryptoSuite C L (sp_suite sp);
     rng \<leftarrow> drbg_reseed L (init_seed intrand);
     Some (S, attacker_new mode target maxAttempts expect (sp_numUAVs sp) rng, registerAttacker Attacker md) }"

text \<open>\<open>WirelessMedium::initialize\<close>.\<close>

definition md_initialize :: "link_params \<Rightarrow> bool \<Rightarrow> string \<Rightarrow> medium \<times> link_params" where
  "md_initialize lk tapEnabled attackMode =
     (\<lparr>md_tapEnabled = tapEnabled, md_attackMode = attackMode, md_attacker = None, md_trace = []\<rparr>, lk)"

text \<open>The modules of the signature baseline.\<close>

definition bn_initialize ::
    "ossl \<Rightarrow> 'k evp \<Rightarrow> string \<Rightarrow> sim_params \<Rightarrow> (nat \<Rightarrow> int) \<Rightarrow> ('k sig_suite \<times> 'k b_gs_node) option" where
  "bn_initialize L E sigSuite sp intrand = do {
     G \<leftarrow> makeSignatureSuite E sigSuite;
     rng \<leftarrow> drbg_reseed L (init_seed intrand);
     Some (G, \<lparr>bn_numUavs = sp_numUAVs sp, bn_rng = rng,
       bn_proto = b_gs_new (word_of_int (sp_timestampWindowMs sp)), bn_records = [],
       bn_authAttempts = 0, bn_authSuccesses = 0\<rparr>) }"

definition bw_initialize ::
    "ossl \<Rightarrow> 'k evp \<Rightarrow> string \<Rightarrow> sim_params \<Rightarrow> int \<Rightarrow> (nat \<Rightarrow> int) \<Rightarrow> ('k sig_suite \<times> 'k b_uav_node) option" where
  "bw_initialize L E sigSuite sp uavId intrand = do {
     G \<leftarrow> makeSignatureSuite E sigSuite;
     rng \<leftarrow> drbg_reseed L (init_seed intrand);
     Some (G, \<lparr>bw_rng = rng, bw_proto = b_uav_new uavId (word_of_int (sp_timestampWindowMs sp)),
       bw_phase2Start = 0, bw_rec = bv_empty\<rparr>) }"

definition bw_stage1 :: "sim_params \<Rightarrow> simtime \<Rightarrow> node_output list" where
  "bw_stage1 sp now = [Schedule (now + sp_authStartTime sp) ''startBaselineAuth'']"

subsection \<open>The INET applications\<close>

definition ga_initialize ::
    "core_lib \<Rightarrow> ossl \<Rightarrow> sim_params \<Rightarrow> (nat \<Rightarrow> int) \<Rightarrow> (suite \<times> gs_app) option" where
  "ga_initialize C L sp intrand = do {
     S \<leftarrow> makeCryptoSuite C L (sp_suite sp);
     p \<leftarrow> fe_profile (sp_feProfile sp);
     rng \<leftarrow> drbg_reseed L (init_seed intrand);
     (g, rng) \<leftarrow> gs_new L S p (word_of_int (sp_timestampWindowMs sp)) rng;
     Some (S, \<lparr>ga_numUavs = sp_numUAVs sp, ga_rng = rng, ga_proto = gs_setNumUavs (sp_numUAVs sp) g,
       ga_attemptsM1 = 0, ga_successesM4 = 0\<rparr>) }"

text \<open>\<open>initialize\<close> and the address of the ground station from \<open>handleStartOperation\<close>.\<close>

definition ua_initialize ::
    "fpu \<Rightarrow> core_lib \<Rightarrow> ossl \<Rightarrow> sim_params \<Rightarrow> port \<Rightarrow> port \<Rightarrow> 'a \<Rightarrow> int \<Rightarrow> (nat \<Rightarrow> int) \<Rightarrow>
     (suite \<times> puf \<times> 'a uav_app) option" where
  "ua_initialize F C L sp gsPort peerBasePort gsAddr index intrand = do {
     S \<leftarrow> makeCryptoSuite C L (sp_suite sp);
     p \<leftarrow> sim_feParams sp;
     P \<leftarrow> node_puf F C L index (sp_pufModel sp) (sp_pufNoiseBer sp);
     rng \<leftarrow> drbg_reseed L (init_seed intrand);
     Some (S, P, \<lparr>ua_uavId = index, ua_numUavs = sp_numUAVs sp, ua_fullMesh = sp_fullMesh sp,
       ua_peerAuthStart = sp_peerAuthStartTime sp, ua_gsPort = gsPort, ua_peerBasePort = peerBasePort,
       ua_rng = rng, ua_proto = uav_new index p (word_of_int (sp_timestampWindowMs sp)), ua_gsAddr = gsAddr,
       ua_peerTimer = False, ua_phase2Start = 0, ua_phase2Success = False, ua_wallLatency = 0,
       ua_bytesSent = 0, ua_bytesReceived = 0, ua_peerAddr = [], ua_peers = [], ua_p3Successes = 0\<rparr>) }"

subsection \<open>What initialization establishes\<close>

lemma fe_profile_sizes:
  assumes "fe_profile name = Some p"
  shows "fe_sizes p" "8 \<le> fp_keyBits p" "fp_keyBits p \<le> 65280" "requiredPufBits p \<le> kMaxResponseBits"
  using assms
  by (auto simp: fe_profile_def fe_default_def fe_sizes_def requiredPufBits_def kMaxResponseBits_def Let_def
      split: if_splits)

lemma sim_feParams_sizes:
  assumes "sim_feParams sp = Some p"
  shows "fe_sizes p" "8 \<le> fp_keyBits p" "fp_keyBits p \<le> 65280" "requiredPufBits p \<le> kMaxResponseBits"
  using assms fe_profile_sizes [of "sp_feProfile sp"]
  by (auto simp: sim_feParams_def fe_sizes_def requiredPufBits_def)

lemma gn_initialize_reach:
  assumes "core_laws C" "ossl_laws L" "gn_initialize C L sp intrand = Some (S, n)"
  obtains p where "sim_feParams sp = Some p" "makeCryptoSuite C L (sp_suite sp) = Some S"
    "gs_reach C L S p (word_of_int (sp_timestampWindowMs sp)) (gn_proto n) (gn_rng n)"
    "gs_devices (gn_proto n) = []" "rc_seen (gs_replay (gn_proto n)) = {}"
    "gs_windowMs (gn_proto n) = word_of_int (sp_timestampWindowMs sp)" "gn_numUavs n = sp_numUAVs sp"
    "gs_sessions (gn_proto n) = []"
proof -
  from assms(3) obtain p rng g rng' where i: "makeCryptoSuite C L (sp_suite sp) = Some S" "sim_feParams sp = Some p"
    "drbg_reseed L (init_seed intrand) = Some rng"
    "gs_new L S p (word_of_int (sp_timestampWindowMs sp)) rng = Some (g, rng')"
    "n = \<lparr>gn_numUavs = sp_numUAVs sp, gn_rng = rng', gn_proto = gs_setNumUavs (sp_numUAVs sp) g,
       gn_phase1 = [], gn_phase2 = [], gn_authAttempts = 0, gn_authSuccesses = 0\<rparr>"
    by (auto simp: gn_initialize_def Option.bind_eq_Some_conv)
  have "drbg_ok L rng" using ossl_laws.drbg_reseed_at [OF assms(2) i(3)] by (auto simp: drbg_ok_def)
  then have "gs_reach C L S p (word_of_int (sp_timestampWindowMs sp)) (gn_proto n) (gn_rng n)"
    using reach_setNumUavs [OF reach_new [OF _ i(4)]] by (simp add: i(5))
  with i show thesis
    by (intro that) (auto simp: gs_new_def gs_setNumUavs_def rc_inv_new Option.bind_eq_Some_conv)
qed

text \<open>What the enrollment of UAV \<open>i\<close> left behind: the step, its record in the end, the device state.\<close>

definition enrolled_with ::
    "core_lib \<Rightarrow> ossl \<Rightarrow> suite \<Rightarrow> fe_params \<Rightarrow> u32 \<Rightarrow> int \<Rightarrow> puf \<Rightarrow> device_state \<Rightarrow> device_record \<Rightarrow> bool" where
  "enrolled_with C L S p w i P st rec \<longleftrightarrow> (\<exists>g0 rng0 rng g. gs_reach C L S p w g0 rng0 \<and>
     enroll C L S i P rng0 g0 = Some (Some (rec, st), rng, g))"

context protocol_env
begin

lemma enroll_loop_fleet:
  assumes "gn_enroll_loop C L S i Ps n = Some (sts, n')" "gs_reach C L S p w (gn_proto n) (gn_rng n)"
    and "0 \<le> i" "i + int (length Ps) \<le> 65535"
  shows "gs_reach C L S p w (gn_proto n') (gn_rng n') \<and> length sts = length Ps \<and>
    gs_replay (gn_proto n') = gs_replay (gn_proto n) \<and> gs_windowMs (gn_proto n') = gs_windowMs (gn_proto n) \<and>
    gs_sessions (gn_proto n') = gs_sessions (gn_proto n) \<and>
    (\<forall>k. k < i \<or> i + int (length Ps) \<le> k \<longrightarrow>
      om_find (gs_devices (gn_proto n')) k = om_find (gs_devices (gn_proto n)) k) \<and>
    (\<forall>j < length Ps. \<exists>rec. enrolled_with C L S p w (i + int j) (Ps ! j) (sts ! j) rec \<and>
      om_find (gs_devices (gn_proto n')) (i + int j) = Some rec)"
  using assms
proof (induction Ps arbitrary: i n sts)
  case (Cons P Ps)
  from Cons.prems(1) obtain rec st rng g sts1 p1 where e: "enroll C L S i P (gn_rng n) (gn_proto n) = Some (Some (rec, st), rng, g)"
    and l: "gn_enroll_loop C L S (i + 1) Ps
      (n\<lparr>gn_rng := rng, gn_proto := g, gn_phase1 := om_set i p1 (gn_phase1 n)\<rparr>) = Some (sts1, n')"
    and sts: "sts = st # sts1"
    by (auto simp: Let_def Option.bind_eq_Some_conv)
  have g: "g = (gn_proto n)\<lparr>gs_devices := om_set i rec (gs_devices (gn_proto n))\<rparr>" by (rule enroll_Some [OF e])
  have r: "gs_reach C L S p w g rng" by (rule reach_enroll [OF Cons.prems(2) _ _ e]) (use Cons.prems in simp_all)
  have ih: "gs_reach C L S p w (gn_proto n') (gn_rng n') \<and> length sts1 = length Ps \<and>
    gs_replay (gn_proto n') = gs_replay g \<and> gs_windowMs (gn_proto n') = gs_windowMs g \<and>
    gs_sessions (gn_proto n') = gs_sessions g \<and>
    (\<forall>k. k < i + 1 \<or> i + 1 + int (length Ps) \<le> k \<longrightarrow>
      om_find (gs_devices (gn_proto n')) k = om_find (gs_devices g) k) \<and>
    (\<forall>j < length Ps. \<exists>rec. enrolled_with C L S p w (i + 1 + int j) (Ps ! j) (sts1 ! j) rec \<and>
      om_find (gs_devices (gn_proto n')) (i + 1 + int j) = Some rec)"
    using Cons.IH [OF l] r Cons.prems(3,4) by simp
  have first: "enrolled_with C L S p w i P st rec" using e Cons.prems(2) by (auto simp: enrolled_with_def)
  have "\<exists>rec. enrolled_with C L S p w (i + int j) ((P # Ps) ! j) (sts ! j) rec \<and>
      om_find (gs_devices (gn_proto n')) (i + int j) = Some rec" if "j < length (P # Ps)" for j
  proof (cases j)
    case 0
    then show ?thesis using first ih g sts by (auto simp: om_find_set)
  next
    case (Suc k)
    then have "i + 1 + int k = i + int j" "k < length Ps" using that by simp_all
    with ih Suc sts show ?thesis by (metis nth_Cons_Suc)
  qed
  with ih g sts show ?case by (auto simp: om_find_set)
qed auto

end

lemma enrolled_with_record:
  assumes "enrolled_with C L S p w i P st rec" and env: "protocol_env C L S"
  shows "ds_tid st = dr_tid rec" "dr_pendingTid rec = []" "dr_enrolled rec" "ds_provisioned st"
    "ds_challenge st = dr_challenge rec"
  using assms(1) unfolding enrolled_with_def
  by (elim exE conjE; elim protocol_env.enroll_Some [OF env]; simp add: device_record_empty_def)+

text \<open>With pairwise different identities every device is found under its own.\<close>

lemma findByTid_unique:
  assumes "om_wf (gs_devices g)" "om_find (gs_devices g) k = Some r" "tid_matches tid r"
    and "\<And>k' r'. om_find (gs_devices g) k' = Some r' \<Longrightarrow> tid_matches tid r' \<Longrightarrow> r' = r"
  shows "findByTid tid g = Some r"
proof -
  have "r \<in> set (map snd (gs_devices g))" using om_find_in [OF assms(1), of k r] assms(2) by force
  then obtain r' where r': "findByTid tid g = Some r'"
    using assms(3) by (cases "findByTid tid g") (auto simp: findByTid_def find_None_iff)
  then have "r' \<in> set (map snd (gs_devices g))" "tid_matches tid r'"
    by (auto simp: findByTid_def find_Some_iff intro: nth_mem)
  then obtain k' where "(k', r') \<in> set (gs_devices g)" by auto
  then have "om_find (gs_devices g) k' = Some r'" using om_find_in [OF assms(1)] by blast
  then show ?thesis using assms(4) r' \<open>tid_matches tid r'\<close> by blast
qed

subsection \<open>Properties\<close>

text \<open>C8. What the modules create is what the protocol's properties are about: a ground station node that
  initializes has a suite that honours the contract, parameters within the bounds, and a protocol object in
  a reachable state with no device and no session; a UAV node that initializes has such a suite, a PUF that honours its
  contract, a generator at a position of its stream and a protocol object in a reachable state, in
  legacy mode exactly when configured; and initialization fails for unknown suites and
  profiles.\<close>

theorem initialized_nodes_are_sound:
  assumes "core_laws C" and "ossl_laws L"
    and "\<forall>k m. length k = 32 \<longrightarrow> o_kmac256 L k m 16 (Some [kDomainMac C]) \<noteq> None"
  shows "(\<forall>S n. gn_initialize C L sp intrand = Some (S, n) \<longrightarrow> crypto_suite S \<and>
      (\<exists>p. fe_sizes p \<and> 8 \<le> fp_keyBits p \<and> requiredPufBits p \<le> kMaxResponseBits \<and>
        gs_reach C L S p (word_of_int (sp_timestampWindowMs sp)) (gn_proto n) (gn_rng n)) \<and>
      gs_devices (gn_proto n) = [] \<and> gs_sessions (gn_proto n) = []) \<and>
    (\<forall>S P n. un_initialize F C L sp i intrand = Some (S, P, n) \<longrightarrow> crypto_suite S \<and> puf_model C L P \<and>
      drbg_ok L (un_rng n) \<and> uv_legacyNoGsAuth (un_proto n) = (sp_protocolVariant sp = ''legacy'') \<and>
      (\<exists>p. fe_sizes p \<and> uav_reach C L S P i p (word_of_int (sp_timestampWindowMs sp)) (un_proto n) (un_rng n))) \<and>
    (makeCryptoSuite C L (sp_suite sp) = None \<or> fe_profile (sp_feProfile sp) = None \<longrightarrow>
      gn_initialize C L sp intrand = None \<and> un_initialize F C L sp i intrand = None)"
proof (intro conjI allI impI)
  fix S n assume g: "gn_initialize C L sp intrand = Some (S, n)"
  obtain p where p: "sim_feParams sp = Some p" "makeCryptoSuite C L (sp_suite sp) = Some S"
    "gs_reach C L S p (word_of_int (sp_timestampWindowMs sp)) (gn_proto n) (gn_rng n)"
    "gs_devices (gn_proto n) = []" "gs_sessions (gn_proto n) = []"
    by (rule gn_initialize_reach [OF assms(1,2) g])
  show "crypto_suite S" by (rule makeCryptoSuite_contract [OF assms p(2)])
  show "\<exists>p. fe_sizes p \<and> 8 \<le> fp_keyBits p \<and> requiredPufBits p \<le> kMaxResponseBits \<and>
      gs_reach C L S p (word_of_int (sp_timestampWindowMs sp)) (gn_proto n) (gn_rng n)"
    using sim_feParams_sizes [OF p(1)] p(3) by blast
  show "gs_devices (gn_proto n) = []" "gs_sessions (gn_proto n) = []" by (fact p)+
next
  fix S P n assume "un_initialize F C L sp i intrand = Some (S, P, n)"
  then obtain p rng where u: "makeCryptoSuite C L (sp_suite sp) = Some S" "sim_feParams sp = Some p"
    "node_puf F C L i (sp_pufModel sp) (sp_pufNoiseBer sp) = Some P" "drbg_reseed L (init_seed intrand) = Some rng"
    "un_rng n = rng" "un_proto n = (if sp_protocolVariant sp = ''legacy''
       then setLegacyNoGsAuth True (uav_new i p (word_of_int (sp_timestampWindowMs sp)))
       else uav_new i p (word_of_int (sp_timestampWindowMs sp)))"
    by (auto simp: un_initialize_def uav_node_new_def Let_def Option.bind_eq_Some_conv)
  show "crypto_suite S" by (rule makeCryptoSuite_contract [OF assms u(1)])
  show "puf_model C L P" by (rule node_puf_contract [OF assms(1,2) u(3)])
  show "drbg_ok L (un_rng n)"
    using ossl_laws.drbg_reseed_at [OF assms(2) u(4)] by (auto simp: drbg_ok_def u(5))
  show "uv_legacyNoGsAuth (un_proto n) = (sp_protocolVariant sp = ''legacy'')"
    by (simp add: u(6) setLegacyNoGsAuth_def uav_new_def)
  show "\<exists>p. fe_sizes p \<and> uav_reach C L S P i p (word_of_int (sp_timestampWindowMs sp)) (un_proto n) (un_rng n)"
    using sim_feParams_sizes(1) [OF u(2)] u(6) ur_legacy ur_new by (metis (no_types))
next
  assume "makeCryptoSuite C L (sp_suite sp) = None \<or> fe_profile (sp_feProfile sp) = None"
  then show "gn_initialize C L sp intrand = None" "un_initialize F C L sp i intrand = None"
    by (auto simp: gn_initialize_def un_initialize_def sim_feParams_def bind_eq_None_conv)
qed

definition demo_sim :: sim_params where
  "demo_sim = \<lparr>sp_numUAVs = 1, sp_suite = ''sha3'', sp_feProfile = ''bch255-131-18'',
     sp_assumedMinEntropyRate = 95 / 100, sp_timestampWindowMs = 5000, sp_pufModel = ''ideal'',
     sp_pufNoiseBer = 0, sp_fullMesh = True, sp_protocolVariant = ''proposed'',
     sp_peerAuthStartTime = 30, sp_authStartTime = 1\<rparr>"

lemma demo_gn_initialize: "\<exists>n. gn_initialize ref_core ref_ossl demo_sim (\<lambda>_. 7) = Some (demo_suite, n)"
proof -
  obtain rng where "drbg_reseed ref_ossl (init_seed (\<lambda>_. 7)) = Some rng" "drbg_ok ref_ossl rng"
    using refo.drbg_reseed_total [of "init_seed (\<lambda>_. 7)"] by (auto simp: drbg_ok_def)
  with refo.drbg_bytes_ok [OF this(2), of "su_keyLen demo_suite"] show ?thesis
    by (auto simp: gn_initialize_def demo_sim_def sim_feParams_def makeCryptoSuite_def fe_profile_def
        Let_def gs_new_def)
qed

lemma demo_un_initialize: "\<exists>P n. un_initialize ref_fpu ref_core ref_ossl demo_sim 0 (\<lambda>_. 9) = Some (demo_suite, P, n)"
proof -
  obtain rng where "drbg_reseed ref_ossl (init_seed (\<lambda>_. 9)) = Some rng"
    using refo.drbg_reseed_total by blast
  then show ?thesis
    by (auto simp: un_initialize_def demo_sim_def sim_feParams_def makeCryptoSuite_def fe_profile_def
        Let_def node_puf_def ideal_new_def ref_ossl_def)
qed

lemma demo_kmac: "\<forall>k m. length k = 32 \<longrightarrow> o_kmac256 ref_ossl k m 16 (Some [kDomainMac ref_core]) \<noteq> None"
  by (simp add: ref_ossl_def)

theorem initialized_nodes_are_sound_witness:
  "\<exists>S n P v. gn_initialize ref_core ref_ossl demo_sim (\<lambda>_. 7) = Some (S, n) \<and> crypto_suite S \<and>
     gs_devices (gn_proto n) = [] \<and>
     un_initialize ref_fpu ref_core ref_ossl demo_sim 0 (\<lambda>_. 9) = Some (S, P, v) \<and> puf_model ref_core ref_ossl P \<and>
     \<not> uv_legacyNoGsAuth (un_proto v)"
proof -
  obtain n P v where n: "gn_initialize ref_core ref_ossl demo_sim (\<lambda>_. 7) = Some (demo_suite, n)"
    and v: "un_initialize ref_fpu ref_core ref_ossl demo_sim 0 (\<lambda>_. 9) = Some (demo_suite, P, v)"
    using demo_gn_initialize demo_un_initialize by blast
  note s = initialized_nodes_are_sound [OF ref_core_laws refo.ossl_laws_axioms demo_kmac]
  have "crypto_suite demo_suite" "gs_devices (gn_proto n) = []"
    using s [of demo_sim "\<lambda>_. 7", THEN conjunct1, rule_format, OF n] by blast+
  moreover have "puf_model ref_core ref_ossl P" "\<not> uv_legacyNoGsAuth (un_proto v)"
    using s [of demo_sim "\<lambda>_. 9", THEN conjunct2, THEN conjunct1, rule_format, OF v] by (simp_all add: demo_sim_def)
  ultimately show ?thesis using n v by blast
qed

end
