(* ===== verification/Fleet.thy ===== *)
theory Fleet
  imports Node_Init
begin

text \<open>
  From configuration to session key: a fleet whose modules were initialized and enrolled by the code of
  \<open>nodes/GroundStationNode.cc\<close> and \<open>nodes/UavNode.cc\<close> completes Phase 2.
\<close>

text \<open>Every enrolled device is found under the identity it was given.\<close>

lemma enrolled_findByTid:
  assumes env: "protocol_env C L S" and wf: "om_wf (gs_devices g)"
    and dev: "\<forall>j < length sts. \<exists>rec. enrolled_with C L S p w (int j) (Ps ! j) (sts ! j) rec \<and>
      om_find (gs_devices g) (int j) = Some rec"
    and out: "\<forall>k. k < 0 \<or> int (length sts) \<le> k \<longrightarrow> om_find (gs_devices g) k = None"
    and "distinct (map ds_tid sts)" and j: "j < length sts" and r: "om_find (gs_devices g) (int j) = Some r"
  shows "findByTid (ds_tid (sts ! j)) g = Some r"
proof (rule findByTid_unique [OF wf r])
  have each: "dr_tid r = ds_tid (sts ! i) \<and> dr_pendingTid r = [] \<and> dr_enrolled r"
    if "i < length sts" "om_find (gs_devices g) (int i) = Some r" for i r
    using dev that enrolled_with_record [OF _ env] by (metis option.inject)
  show "tid_matches (ds_tid (sts ! j)) r" using each [OF j r] by (simp add: tid_matches_def)
  fix k' r' assume k: "om_find (gs_devices g) k' = Some r'" and m: "tid_matches (ds_tid (sts ! j)) r'"
  have "0 \<le> k'" "k' < int (length sts)" using out k by (metis option.discI not_less)+
  then obtain i where i: "k' = int i" "i < length sts" by (metis nonneg_int_cases of_nat_less_iff)
  then have "ds_tid (sts ! i) = ds_tid (sts ! j)" using each [of i r'] k m by (simp add: tid_matches_def)
  then have "i = j" using assms(5) i(2) j by (auto simp: distinct_conv_nth)
  then show "r' = r" using i k r by simp
qed

subsection \<open>Properties\<close>

text \<open>C7. A configured fleet authenticates: let a ground station node initialize and enroll the fleet's
  devices, and let UAV \<open>j\<close> be initialized with the same parameters and be given its enrolled state.  If the
  temporary identities are pairwise different, the PUF reading agrees with the enrolled one up to what the
  code corrects, and the clocks agree, then Phase 2 between the two completes and
  both hold the same session key: suite, parameters, window and identity match by initialization.\<close>

theorem initialized_fleet_authenticates:
  assumes "core_laws C" and "ossl_laws L"
    and "\<forall>k m. length k = 32 \<longrightarrow> o_kmac256 L k m 16 (Some [kDomainMac C]) \<noteq> None"
    and "gn_initialize C L sp gsDraws = Some (S, n0)"
    and "sp_numUAVs sp = int (length Ps)" and "length Ps \<le> 65535"
    and "gn_enrollAll C L S Ps n0 = Some (sts, n1)" and "distinct (map ds_tid sts)" and "j < length Ps"
    and "un_initialize F C L sp (int j) draws = Some (S', Ps ! j, v)"
    and "sim_feParams sp = Some p" and "reading_agrees C (Ps ! j) p (ds_challenge (sts ! j)) (un_rng v) urng1"
    and "w = word_of_int (sp_timestampWindowMs sp)" and "timestampFresh t2 t1 w" and "timestampFresh t3 t2 w"
  shows "S' = S \<and> (\<exists>rec urng' u' grng' g'.
    om_find (gs_devices (gn_proto n1)) (int j) = Some rec \<and>
    phase2_run C L S (Ps ! j) (t1, t2, t3) (un_rng v, provision (sts ! j) (un_proto v)) (gn_rng n1, gn_proto n1) =
      Some ((urng', u'), (grng', g')) \<and>
    phase2_agreed C S (provision (sts ! j) (un_proto v)) (gn_proto n1) rec u' g')"
proof -
  obtain p' where "sim_feParams sp = Some p'" and n0: "makeCryptoSuite C L (sp_suite sp) = Some S"
    "gs_reach C L S p' (word_of_int (sp_timestampWindowMs sp)) (gn_proto n0) (gn_rng n0)"
    "gs_devices (gn_proto n0) = []" "rc_seen (gs_replay (gn_proto n0)) = {}"
    "gs_windowMs (gn_proto n0) = word_of_int (sp_timestampWindowMs sp)" "gn_numUavs n0 = sp_numUAVs sp"
    by (rule gn_initialize_reach [OF assms(1,2,4)])
  then have r0: "gs_reach C L S p w (gn_proto n0) (gn_rng n0)" using assms(11,13) by simp
  note p = sim_feParams_sizes [OF assms(11)]
  have S: "crypto_suite S" by (rule makeCryptoSuite_contract [OF assms(1-3) n0(1)])
  note env = protocol_envI [OF assms(1,2) S]
  have loop: "gn_enroll_loop C L S 0 Ps n0 = Some (sts, n1)"
    using assms(5,7) n0(6) by (simp add: gn_enrollAll_def require_def split: if_splits)
  note fl = protocol_env.enroll_loop_fleet [OF env loop r0]
  have fleet: "gs_reach C L S p w (gn_proto n1) (gn_rng n1)" "length sts = length Ps"
    "rc_seen (gs_replay (gn_proto n1)) = {}" "gs_windowMs (gn_proto n1) = w"
    "\<forall>k. k < 0 \<or> int (length sts) \<le> k \<longrightarrow> om_find (gs_devices (gn_proto n1)) k = None"
    "\<forall>j < length sts. \<exists>rec. enrolled_with C L S p w (int j) (Ps ! j) (sts ! j) rec \<and>
      om_find (gs_devices (gn_proto n1)) (int j) = Some rec"
    using fl assms(6,13) n0(3-5) by simp_all
  have inv: "gs_inv (gn_proto n1)" "drbg_ok L (gn_rng n1)"
    using gs_reach_inv [OF env p(2,3) fleet(1)] by simp_all
  obtain rec where rec: "enrolled_with C L S p w (int j) (Ps ! j) (sts ! j) rec"
    "om_find (gs_devices (gn_proto n1)) (int j) = Some rec" using fleet(2,6) assms(9) by auto
  note st = enrolled_with_record [OF rec(1) env]
  have found: "findByTid (ds_tid (sts ! j)) (gn_proto n1) = Some rec"
    using enrolled_findByTid [OF env _ fleet(6,5) assms(8) _ rec(2)] inv(1) fleet(2) assms(9)
    by (simp add: gs_inv_def)
  let ?u = "provision (sts ! j) (un_proto v)"
  have v: "makeCryptoSuite C L (sp_suite sp) = Some S'" "node_puf F C L (int j) (sp_pufModel sp) (sp_pufNoiseBer sp) = Some (Ps ! j)"
    "drbg_reseed L (init_seed draws) = Some (un_rng v)"
    "uv_feParams (un_proto v) = p" "rc_seen (uv_replay (un_proto v)) = {}" "uv_windowMs (un_proto v) = w"
    using assms(10,11,13)
    by (auto simp: un_initialize_def uav_node_new_def uav_new_def setLegacyNoGsAuth_def rc_inv_new Let_def
        Option.bind_eq_Some_conv split: if_splits)
  have u: "uv_state ?u = sts ! j" "uv_feParams ?u = p" "rc_seen (uv_replay ?u) = {}" "uv_windowMs ?u = w"
    using v by (simp_all add: provision_def)
  have puf: "puf_model C L (Ps ! j)" by (rule node_puf_contract [OF assms(1,2) v(2)])
  have vok: "drbg_ok L (un_rng v)" using ossl_laws.drbg_reseed_at [OF assms(2) v(3)] by (auto simp: drbg_ok_def)
  obtain g0 rng0 rng g where e: "gs_reach C L S p w g0 rng0"
    "enroll C L S (int j) (Ps ! j) rng0 g0 = Some (Some (rec, sts ! j), rng, g)"
    using rec(1) by (auto simp: enrolled_with_def)
  have g0: "gs_feParams g0 = p" "drbg_ok L rng0" using gs_reach_inv [OF env p(2,3) e(1)] by simp_all
  have ch: "length (dr_challenge rec) = 16"
    by (rule protocol_env.enroll_Some [OF env e(2)]) (use ossl_laws.drbg_bytes_ok [OF assms(2) g0(2), of 16] in auto)
  have reading: "reading_agrees C (Ps ! j) p (dr_challenge rec) (un_rng v) urng1" using assms(12) st(5) by simp
  have ok1: "drbg_ok L urng1"
    using reading puf_model.noisy_total [OF puf p(4) _ vok, of "dr_challenge rec"] ch
    by (auto simp: reading_agrees_def)
  have regen: "regenerateMasterKey C S (Ps ! j) (un_rng v) ?u = Some (Some (dr_mk rec), urng1)"
    using protocol_env.regenerate_enrolled [OF env puf _ e(2) _ u(1)] g0(1) p(1) u(2) reading by simp
  have prov: "ds_provisioned (uv_state ?u)" and find_u: "findByTid (ds_tid (uv_state ?u)) (gn_proto n1) = Some rec"
    using st(4) found u(1) by simp_all
  have t: "timestampFresh t2 t1 (gs_windowMs (gn_proto n1))" "timestampFresh t3 t2 (uv_windowMs ?u)"
    using assms(14,15) fleet(4) u(4) by simp_all
  have "\<exists>urng' u' grng' g'. phase2_run C L S (Ps ! j) (t1, t2, t3) (un_rng v, ?u) (gn_rng n1, gn_proto n1) =
      Some ((urng', u'), (grng', g')) \<and> phase2_agreed C S ?u (gn_proto n1) rec u' g'"
    using protocol_env.phase2_run_honest [OF env inv(1) ok1 inv(2) find_u prov regen t] fleet(3) u(3) by auto
  then show ?thesis using rec(2) v(1) n0(1) by auto
qed


text \<open>The witness: one UAV with the keyed PUF and no noise.\<close>

lemma demo_fleet:
  obtains n0 P v st n1 rng1 where "gn_initialize ref_core ref_ossl demo_sim (\<lambda>_. 7) = Some (demo_suite, n0)"
    "un_initialize ref_fpu ref_core ref_ossl demo_sim 0 (\<lambda>_. 9) = Some (demo_suite, P, v)"
    "gn_enrollAll ref_core ref_ossl demo_suite [P] n0 = Some ([st], n1)"
    "reading_agrees ref_core P fe_default (ds_challenge st) (un_rng v) rng1"
proof -
  obtain n0 where n0: "gn_initialize ref_core ref_ossl demo_sim (\<lambda>_. 7) = Some (demo_suite, n0)"
    using demo_gn_initialize by blast
  obtain P v where v: "un_initialize ref_fpu ref_core ref_ossl demo_sim 0 (\<lambda>_. 9) = Some (demo_suite, P, v)"
    using demo_un_initialize by blast
  have p: "sim_feParams demo_sim = Some fe_default"
    by (simp add: sim_feParams_def demo_sim_def fe_profile_def fe_default_def)
  obtain k where k: "P = idealPrfPuf ref_core ref_ossl k" "ip_ber k = 0" and rng: "drbg_ok ref_ossl (un_rng v)"
    using v refo.drbg_reseed_at
    by (fastforce simp: un_initialize_def node_puf_def demo_sim_def Let_def setNoiseBer_def uav_node_new_def
        drbg_ok_def Option.bind_eq_Some_conv)
  have puf: "puf_model ref_core ref_ossl P" unfolding k(1) by (rule ref_puf.puf_contracts(1))
  obtain r0: "gs_reach ref_core ref_ossl demo_suite fe_default (word_of_int (sp_timestampWindowMs demo_sim)) (gn_proto n0) (gn_rng n0)"
    and num: "gn_numUavs n0 = 1"
    by (rule gn_initialize_reach [OF ref_core_laws refo.ossl_laws_axioms n0]) (use p in \<open>simp add: demo_sim_def\<close>)
  note inv = gs_reach_inv [OF ref_proto.protocol_env_axioms demo_params(2,3) r0]
  obtain rec st rng' g' where e: "enroll ref_core ref_ossl demo_suite 0 P (gn_rng n0) (gn_proto n0) = Some (Some (rec, st), rng', g')"
    using ref_proto.enroll_total [OF puf, of "gn_proto n0" fe_18] demo_params inv fe_18 by metis
  obtain n1 where "gn_enrollAll ref_core ref_ossl demo_suite [P] n0 = Some ([st], n1)"
    by (simp add: gn_enrollAll_def require_def num e)
  with noiseless_keyed_reading [OF rng k(2)] n0 v k(1) show thesis by (blast intro: that)
qed

theorem initialized_fleet_authenticates_witness:
  "\<exists>n0 P v st n1 rec urng' u' grng' g'. gn_initialize ref_core ref_ossl demo_sim (\<lambda>_. 7) = Some (demo_suite, n0) \<and>
     un_initialize ref_fpu ref_core ref_ossl demo_sim 0 (\<lambda>_. 9) = Some (demo_suite, P, v) \<and>
     gn_enrollAll ref_core ref_ossl demo_suite [P] n0 = Some ([st], n1) \<and>
     phase2_run ref_core ref_ossl demo_suite P (100, 130, 160) (un_rng v, provision st (un_proto v)) (gn_rng n1, gn_proto n1) =
       Some ((urng', u'), (grng', g')) \<and>
     phase2_agreed ref_core demo_suite (provision st (un_proto v)) (gn_proto n1) rec u' g'"
proof -
  obtain n0 P v st n1 rng1 where d: "gn_initialize ref_core ref_ossl demo_sim (\<lambda>_. 7) = Some (demo_suite, n0)"
    "un_initialize ref_fpu ref_core ref_ossl demo_sim 0 (\<lambda>_. 9) = Some (demo_suite, P, v)"
    "gn_enrollAll ref_core ref_ossl demo_suite [P] n0 = Some ([st], n1)"
    "reading_agrees ref_core P fe_default (ds_challenge st) (un_rng v) rng1" by (rule demo_fleet)
  have p: "sim_feParams demo_sim = Some fe_default"
    by (simp add: sim_feParams_def demo_sim_def fe_profile_def fe_default_def)
  have t: "timestampFresh 130 100 (word_of_int (sp_timestampWindowMs demo_sim))"
    "timestampFresh 160 130 (word_of_int (sp_timestampWindowMs demo_sim))"
    by (simp_all add: timestampFresh_iff demo_sim_def)
  show ?thesis
    using initialized_fleet_authenticates [OF ref_core_laws refo.ossl_laws_axioms demo_kmac d(1), of "[P]" "[st]" n1 0
        ref_fpu "\<lambda>_. 9" demo_suite v fe_default rng1 _ 130 100 160] d p t
    by (auto simp: demo_sim_def)
qed

end
