(* ===== verification/Report.thy ===== *)
theory Report
  imports Scalars Fleet Gs_Accounting
begin

text \<open>
  What the ground station of a simulation reports (\<open>nodes/GroundStationNode.cc\<close>): from \<open>initialize\<close> through
  \<open>enrollAll\<close> and the messages of a run to \<open>finish\<close>.
\<close>

subsection \<open>Names\<close>

lemma map_fst_entries:
  "map fst (gn_phase1_scalars F clk (i, r)) = map (\<lambda>s. entry_prefix ''phase1_uav_'' i @ s)
     [''puf_eval_ms'', ''fe_gen_ms'', ''total_ms'', ''helper_bytes'', ''challenge_bytes'', ''success'']"
  "map fst (gn_phase2_scalars F clk (i, q)) = map (\<lambda>s. entry_prefix ''phase2Gs_uav_'' i @ s)
     [''success'', ''m1_net_ms'', ''m1_gs_compute_ms'', ''m3_net_ms'', ''m3_gs_compute_ms'', ''mac_ms'',
      ''kdf_ms'', ''dh_ms'', ''aead_ms'', ''bytes_m2'', ''bytes_m4'']"
  by (simp_all add: gn_phase1_scalars_def gn_phase2_scalars_def Let_def)

definition stat_suffixes :: "string list" where
  "stat_suffixes = [''_calls'', ''_total_ms'', ''_mean_us'', ''_median_us'', ''_p95_us'']"

definition stat_names :: "primitive \<Rightarrow> string list" where
  "stat_names prim = map (\<lambda>s. primitiveName prim @ s) stat_suffixes"

lemma distinct_concat_if:
  "distinct (concat (map f xs)) \<Longrightarrow> distinct (concat (map (\<lambda>x. if P x then [] else f x) xs))"
  by (induction xs) auto

lemma prim_scalars_names:
  "map fst (prim_scalars F prefix [c]) =
     map (\<lambda>s. prefix @ s) (concat (map (\<lambda>p. if ps_calls (c p) = 0 then [] else stat_names p) all_primitives))"
  by (simp add: prim_scalars_def map_concat comp_def stat_names_def stat_suffixes_def stat_scalars_def Let_def if_distrib [of "map _"]
      cong: if_cong)

lemma primitiveName_inject: "primitiveName p = primitiveName q \<Longrightarrow> p = q"
  by (cases p; cases q) simp_all

text \<open>The last six letters tell which of the five values a name belongs to.\<close>

lemma stat_names_disjoint:
  assumes "x \<in> set (stat_names p)" and "x \<in> set (stat_names q)"
  shows "p = q"
proof -
  have inj: "inj_on (\<lambda>s. take 6 (rev s)) (set stat_suffixes)" by (simp add: stat_suffixes_def)
  from assms obtain s t where x: "x = primitiveName p @ s" "x = primitiveName q @ t"
    and st: "s \<in> set stat_suffixes" "t \<in> set stat_suffixes"
    unfolding stat_names_def set_map by blast
  have "\<forall>s \<in> set stat_suffixes. 6 \<le> length s" by (simp add: stat_suffixes_def)
  then have tail: "take 6 (rev (y @ s)) = take 6 (rev s)" if "s \<in> set stat_suffixes" for y s
    using that by simp
  have "take 6 (rev s) = take 6 (rev t)" using x tail [OF st(1)] tail [OF st(2)] by metis
  then have "s = t" using inj st by (simp add: inj_on_def)
  then show ?thesis using x primitiveName_inject by simp
qed

lemma distinct_stat_names: "distinct ps \<Longrightarrow> distinct (concat (map stat_names ps))"
proof (induction ps)
  case (Cons p ps)
  have "distinct stat_suffixes" by (simp add: stat_suffixes_def)
  then have "distinct (stat_names p)" by (simp add: stat_names_def distinct_map inj_on_def)
  then show ?case using Cons stat_names_disjoint by auto
qed simp

lemma distinct_prim_scalars: "distinct (map fst (prim_scalars F prefix [c]))"
proof -
  have "distinct all_primitives" by (simp add: all_primitives_def)
  from distinct_concat_if [OF distinct_stat_names [OF this], of "\<lambda>p. ps_calls (c p) = 0"] show ?thesis
    unfolding prim_scalars_names by (simp add: distinct_map inj_on_def)
qed

text \<open>Entries of a map start with the prefix of the map.\<close>

lemma entry_names:
  assumes "\<And>k r. map fst (f (k, r)) = map (\<lambda>s. entry_prefix p k @ s) suffixes"
    and "x \<in> set (map fst (concat (map f m)))"
  shows "\<exists>t. x = p @ t"
proof -
  obtain k r where "x \<in> set (map fst (f (k, r)))" using assms(2) by force
  then show ?thesis unfolding assms(1) by (auto simp: entry_prefix_def)
qed

lemma disjoint_images:
  assumes "\<And>x. x \<in> A \<Longrightarrow> g x = a" and "\<And>x. x \<in> B \<Longrightarrow> g x = b" and "a \<noteq> b"
  shows "A \<inter> B = {}"
  using assms by blast

definition gn_header :: "string list" where
  "gn_header = [''numUAVs'', ''suite'', ''hashMode'', ''totalAuthAttempts'', ''totalAuthSuccess'', ''authSuccessRate'',
     ''numEnrolled'', ''deviceAuthSuccessRate'', ''feReproductionFailures'']"

lemma gn_finish_names:
  assumes "om_wf (gn_phase1 n)" and "om_wf (gn_phase2 n)"
  shows "distinct (map fst (gn_finish F clk suiteName c n))"
proof -
  let ?e1 = "concat (map (gn_phase1_scalars F clk) (gn_phase1 n))"
  let ?e2 = "concat (map (gn_phase2_scalars F clk) (gn_phase2 n))"
  let ?e3 = "prim_scalars F ''prim_gs_'' [c]"
  have d1: "distinct (map fst ?e1)" and d2: "distinct (map fst ?e2)"
    by (rule distinct_entries [OF om_wf_distinct [OF assms(1)] _ map_fst_entries(1)], simp)
      (rule distinct_entries [OF om_wf_distinct [OF assms(2)] _ map_fst_entries(2)], simp)
  have p1: "take 7 x = ''phase1_''" if "x \<in> set (map fst ?e1)" for x
    using entry_names [OF map_fst_entries(1) that] by auto
  have p2: "take 7 x = ''phase2G''" if "x \<in> set (map fst ?e2)" for x
    using entry_names [OF map_fst_entries(2) that] by auto
  have p3: "take 7 x = ''prim_gs''" if "x \<in> set (map fst ?e3)" for x
    using that unfolding prim_scalars_names by auto
  have "set (map fst ?e1) \<inter> set (map fst ?e2) = {}" by (rule disjoint_images [OF p1 p2]) simp_all
  moreover have "set (map fst ?e1) \<inter> set (map fst ?e3) = {}" by (rule disjoint_images [OF p1 p3]) simp_all
  moreover have "set (map fst ?e2) \<inter> set (map fst ?e3) = {}" by (rule disjoint_images [OF p2 p3]) simp_all
  ultimately have tail: "distinct (map fst (?e1 @ ?e2 @ ?e3))"
    using d1 d2 distinct_prim_scalars [of F "''prim_gs_''" c] unfolding map_append distinct_append set_append by blast
  have "take 7 x \<in> {''phase1_'', ''phase2G'', ''prim_gs''}" if "x \<in> set (map fst (?e1 @ ?e2 @ ?e3))" for x
    using that p1 [of x] p2 [of x] p3 [of x] unfolding map_append set_append by blast
  moreover have "\<forall>x \<in> set gn_header. take 7 x \<notin> {''phase1_'', ''phase2G'', ''prim_gs''}" "distinct gn_header"
    by (simp_all add: gn_header_def)
  ultimately have "distinct (gn_header @ map fst (?e1 @ ?e2 @ ?e3))"
    using tail unfolding distinct_append by blast
  then show ?thesis unfolding gn_finish_def map_append gn_header_def by simp
qed

subsection \<open>The books of a run\<close>

definition received :: "message_type \<Rightarrow> (u32 \<times> sim_message) list \<Rightarrow> nat" where
  "received ty ms = length (filter (\<lambda>(t, msg). m_type (sm_payload msg) = ty) ms)"

text \<open>Handling a message keeps the order of the records and counts every M1.\<close>

lemma gn_handleMessage_books:
  assumes "gn_handleMessage C L S t msg n = Some (out, n')" and "om_wf (gn_phase2 n)"
  shows "om_wf (gn_phase2 n')" "gn_phase1 n' = gn_phase1 n" "gn_numUavs n' = gn_numUavs n"
    "gn_authAttempts n' = gn_authAttempts n + (if m_type (sm_payload msg) = P2_M1_AUTH_REQUEST then 1 else 0)"
  using assms
  by (auto simp: gn_handleMessage_def Let_def gn_refuse_def gp_put_def Option.bind_eq_Some_conv
      split: message_type.splits if_splits)

lemma gn_run_books:
  assumes "gn_run C L S ms n = Some (outs, n')" and "om_wf (gn_phase2 n)"
  shows "om_wf (gn_phase2 n') \<and> gn_phase1 n' = gn_phase1 n \<and> gn_numUavs n' = gn_numUavs n \<and>
    gn_authAttempts n' = gn_authAttempts n + int (received P2_M1_AUTH_REQUEST ms)"
  using assms
proof (induction ms arbitrary: n outs)
  case (Cons x ms)
  obtain t msg where x: "x = (t, msg)" by (cases x)
  obtain out n1 outs1 where s: "gn_handleMessage C L S t msg n = Some (out, n1)" "gn_run C L S ms n1 = Some (outs1, n')"
    using Cons.prems(1) x by (auto simp: Option.bind_eq_Some_conv)
  note b = gn_handleMessage_books [OF s(1) Cons.prems(2)]
  from Cons.IH [OF s(2) b(1)] b(2-4) show ?case by (simp add: x received_def)
qed (simp add: received_def)

lemma gn_enroll_loop_books:
  assumes "gn_enroll_loop C L S i Ps n = Some (sts, n')" and "om_wf (gn_phase1 n)"
  shows "om_wf (gn_phase1 n') \<and> gn_phase2 n' = gn_phase2 n \<and> gn_numUavs n' = gn_numUavs n \<and>
    gn_authAttempts n' = gn_authAttempts n \<and> gn_authSuccesses n' = gn_authSuccesses n"
  using assms
proof (induction Ps arbitrary: i n sts)
  case (Cons P Ps)
  then obtain n1 sts1 where "gn_enroll_loop C L S (i + 1) Ps n1 = Some (sts1, n')"
    and n1: "om_wf (gn_phase1 n1)" "gn_phase2 n1 = gn_phase2 n" "gn_numUavs n1 = gn_numUavs n"
      "gn_authAttempts n1 = gn_authAttempts n" "gn_authSuccesses n1 = gn_authSuccesses n"
    by (fastforce simp: Let_def Option.bind_eq_Some_conv)
  from Cons.IH [OF this(1,2)] n1 show ?case by simp
qed simp

subsection \<open>Property\<close>

text \<open>C37. The report of the ground station, for every configured simulation and every sequence of
  messages, honest or forged: no scalar is recorded under the name of another; \<open>totalAuthAttempts\<close> is the
  number of M1 received, \<open>totalAuthSuccess\<close> the number of M4 sent, which is at most the number of M2 sent, which is at most
  the number of M1 received.  \<open>feReproductionFailures\<close> is the number of devices minus the number of M1
  messages, so it counts messages where its name says devices: repeated or forged M1 lower it.\<close>

theorem ground_station_report:
  assumes "core_laws C" and "ossl_laws L"
    and "\<forall>k m. length k = 32 \<longrightarrow> o_kmac256 L k m 16 (Some [kDomainMac C]) \<noteq> None"
    and "gn_initialize C L sp intrand = Some (S, n0)" and "length Ps \<le> 65535"
    and "sp_numUAVs sp = int (length Ps)" and "gn_enrollAll C L S Ps n0 = Some (sts, n1)"
    and "gn_run C L S ms n1 = Some (outs, n2)"
  shows "distinct (map fst (gn_finish F clk suiteName c n2)) \<and>
    map_of (gn_finish F clk suiteName c n2) ''totalAuthAttempts'' = Some (fp_int F (int (received P2_M1_AUTH_REQUEST ms))) \<and>
    map_of (gn_finish F clk suiteName c n2) ''totalAuthSuccess'' = Some (fp_int F (int (sent P2_M4_GS_CONFIRM outs))) \<and>
    sent P2_M4_GS_CONFIRM outs \<le> sent P2_M2_GS_RESPONSE outs \<and>
    sent P2_M2_GS_RESPONSE outs \<le> received P2_M1_AUTH_REQUEST ms \<and>
    map_of (gn_finish F clk suiteName c n2) ''feReproductionFailures'' =
      Some (fp_int F (sp_numUAVs sp - int (received P2_M1_AUTH_REQUEST ms)))"
proof -
  obtain p where p: "sim_feParams sp = Some p" and n0: "makeCryptoSuite C L (sp_suite sp) = Some S"
    "gs_reach C L S p (word_of_int (sp_timestampWindowMs sp)) (gn_proto n0) (gn_rng n0)"
    "gn_numUavs n0 = sp_numUAVs sp" "gs_sessions (gn_proto n0) = []"
    by (rule gn_initialize_reach [OF assms(1,2,4)])
  have new: "gn_phase1 n0 = []" "gn_phase2 n0 = []" "gn_authAttempts n0 = 0" "gn_authSuccesses n0 = 0"
    using assms(4) by (auto simp: gn_initialize_def Option.bind_eq_Some_conv)
  note env = protocol_envI [OF assms(1,2) makeCryptoSuite_contract [OF assms(1-3) n0(1)]]
  have loop: "gn_enroll_loop C L S 0 Ps n0 = Some (sts, n1)"
    using assms(6,7) n0(3) by (simp add: gn_enrollAll_def require_def split: if_splits)
  have fleet: "gs_reach C L S p (word_of_int (sp_timestampWindowMs sp)) (gn_proto n1) (gn_rng n1)"
    "gs_sessions (gn_proto n1) = []"
    using protocol_env.enroll_loop_fleet [OF env loop n0(2)] assms(5) n0(4) by simp_all
  have n1: "om_wf (gn_phase1 n1)" "gn_phase2 n1 = []" "gn_numUavs n1 = sp_numUAVs sp"
    "gn_authAttempts n1 = 0" "gn_authSuccesses n1 = 0"
    using gn_enroll_loop_books [OF loop] new n0(3) by simp_all
  have n2: "om_wf (gn_phase2 n2)" "gn_phase1 n2 = gn_phase1 n1" "gn_numUavs n2 = sp_numUAVs sp"
    "gn_authAttempts n2 = int (received P2_M1_AUTH_REQUEST ms)"
    using gn_run_books [OF assms(8)] n1 by simp_all
  have "gn_ok L n1" using gs_reach_inv [OF env sim_feParams_sizes(2,3) [OF p] fleet(1)] by (simp add: gn_ok_def)
  from protocol_env.gn_run_balanced [OF env this assms(8)] n1(4,5) n2(4) fleet(2)
  have books: "gn_authSuccesses n2 = int (sent P2_M4_GS_CONFIRM outs)"
    "sent P2_M4_GS_CONFIRM outs \<le> sent P2_M2_GS_RESPONSE outs"
    "sent P2_M2_GS_RESPONSE outs \<le> received P2_M1_AUTH_REQUEST ms"
    by (auto simp: balanced_def open_sessions_def)
  have "distinct (map fst (gn_finish F clk suiteName c n2))"
    using gn_finish_names n1(1) n2(1,2) by simp
  moreover have "map_of (gn_finish F clk suiteName c n2) ''totalAuthAttempts'' = Some (fp_int F (gn_authAttempts n2))"
    "map_of (gn_finish F clk suiteName c n2) ''totalAuthSuccess'' = Some (fp_int F (gn_authSuccesses n2))"
    "map_of (gn_finish F clk suiteName c n2) ''feReproductionFailures'' = Some (fp_int F (gn_numUavs n2 - gn_authAttempts n2))"
    by (simp_all add: gn_finish_def)
  ultimately show ?thesis using books n2(3,4) by simp
qed

text \<open>One device is enrolled and two empty messages arrive as M1: the report has -1 failures.\<close>

definition empty_M1 :: message where
  "empty_M1 = emptyMessage\<lparr>m_type := P2_M1_AUTH_REQUEST\<rparr>"

lemma gn_run_empty_M1:
  "\<exists>n'. gn_run C L S (replicate k (t, sim_message empty_M1)) n =
    Some (replicate k (Emit ''authSuccess'' 0), n')"
proof (induction k arbitrary: n)
  case (Suc k)
  obtain n1 where "gn_handleMessage C L S t (sim_message empty_M1) n =
      Some ([Emit ''authSuccess'' 0], n1)"
    by (simp add: gn_handleMessage_def gs_handleM1_def sim_message_def empty_M1_def emptyMessage_def msg_has_def gn_refuse_def Let_def)
  moreover obtain n' where "gn_run C L S (replicate k (t, sim_message empty_M1)) n1 =
      Some (replicate k (Emit ''authSuccess'' 0), n')" using Suc by blast
  ultimately show ?case by simp
qed simp

theorem ground_station_report_witness:
  "\<exists>n0 n1 sts n2 outs P. gn_initialize ref_core ref_ossl demo_sim (\<lambda>_. 7) = Some (demo_suite, n0) \<and>
     gn_enrollAll ref_core ref_ossl demo_suite [P] n0 = Some (sts, n1) \<and>
     gn_run ref_core ref_ossl demo_suite (replicate 2 (130, sim_message empty_M1)) n1 = Some (outs, n2) \<and>
     map_of (gn_finish ref_fpu (\<lambda>_. 0) ''sha3'' (\<lambda>_. ps_empty) n2) ''feReproductionFailures'' = Some (fp_int ref_fpu (- 1))"
proof -
  obtain n0 P v st n1 rng1 where d: "gn_initialize ref_core ref_ossl demo_sim (\<lambda>_. 7) = Some (demo_suite, n0)"
    "gn_enrollAll ref_core ref_ossl demo_suite [P] n0 = Some ([st], n1)" by (rule demo_fleet)
  obtain n2 where r: "gn_run ref_core ref_ossl demo_suite
      (replicate 2 (130, sim_message empty_M1)) n1 = Some (replicate 2 (Emit ''authSuccess'' 0), n2)"
    using gn_run_empty_M1 by blast
  have size: "length [P] \<le> 65535" "sp_numUAVs demo_sim = int (length [P])" by (simp_all add: demo_sim_def)
  have "received P2_M1_AUTH_REQUEST (replicate 2 (130, sim_message empty_M1)) = 2"
    by (simp add: received_def sim_message_def empty_M1_def emptyMessage_def)
  with ground_station_report [OF ref_core_laws refo.ossl_laws_axioms demo_kmac d(1) size d(2) r,
      of ref_fpu "\<lambda>_. 0" "''sha3''" "\<lambda>_. ps_empty"] size(2)
  have "map_of (gn_finish ref_fpu (\<lambda>_. 0) ''sha3'' (\<lambda>_. ps_empty) n2) ''feReproductionFailures'' = Some (fp_int ref_fpu (- 1))"
    by simp
  with d r show ?thesis by blast
qed

end
