(* ===== verification/Inet_Start.thy ===== *)
theory Inet_Start
  imports Node_Init
begin

text \<open>
  The start of the INET applications (\<open>src_inet/apps/*.cc\<close>): which port a socket is bound to.
  \<open>handleStartOperation\<close> binds the socket and schedules the first timer; \<open>initialize\<close> reads the ports from the
  parameters.  As the comments of the source say, the base class may call the first from inside its own
  \<open>initialize\<close>, which the application calls before it reads any parameter; \<open>early\<close> says that it does.
\<close>

text \<open>The members with their initial values, and the port of the socket once bound.\<close>

record ua_ports =
  ap_uavId :: int
  ap_localPort :: port
  ap_gsPort :: port
  ap_peerBasePort :: port
  ap_bound :: "port option"

definition ua_ports_init :: ua_ports where
  "ua_ports_init = \<lparr>ap_uavId = - 1, ap_localPort = 9300, ap_gsPort = 9200, ap_peerBasePort = 9300, ap_bound = None\<rparr>"

definition ua_handleStartOperation ::
    "int \<Rightarrow> simtime \<Rightarrow> simtime \<Rightarrow> ua_ports \<Rightarrow> 'a app_output list \<times> ua_ports" where
  "ua_handleStartOperation index now authStart m =
     (let m = m\<lparr>ap_uavId := index\<rparr>;
          m = m\<lparr>ap_localPort := ap_peerBasePort m + ap_uavId m\<rparr>;
          m = m\<lparr>ap_bound := Some (ap_localPort m)\<rparr>
      in ([ScheduleTimer (max now authStart) ''startPhase2Inet''], m))"

definition ua_readPorts :: "int \<Rightarrow> port \<Rightarrow> port \<Rightarrow> ua_ports \<Rightarrow> ua_ports" where
  "ua_readPorts index gsPort peerBasePort m =
     (let m = m\<lparr>ap_uavId := index, ap_gsPort := gsPort, ap_peerBasePort := peerBasePort\<rparr>
      in m\<lparr>ap_localPort := ap_peerBasePort m + ap_uavId m\<rparr>)"

definition ua_startup ::
    "bool \<Rightarrow> int \<Rightarrow> simtime \<Rightarrow> simtime \<Rightarrow> port \<Rightarrow> port \<Rightarrow> 'a app_output list \<times> ua_ports" where
  "ua_startup early index now authStart gsPort peerBasePort =
     (if early then
        let (out, m) = ua_handleStartOperation index now authStart ua_ports_init
        in (out, ua_readPorts index gsPort peerBasePort m)
      else ua_handleStartOperation index now authStart (ua_readPorts index gsPort peerBasePort ua_ports_init))"

record ga_ports =
  lp_localPort :: port
  lp_bound :: "port option"

definition ga_ports_init :: ga_ports where
  "ga_ports_init = \<lparr>lp_localPort = 9200, lp_bound = None\<rparr>"

definition ga_handleStartOperation :: "simtime \<Rightarrow> ga_ports \<Rightarrow> 'a app_output list \<times> ga_ports" where
  "ga_handleStartOperation now m = ([ScheduleTimer now ''enrollAllInet''], m\<lparr>lp_bound := Some (lp_localPort m)\<rparr>)"

definition ga_readPorts :: "port \<Rightarrow> ga_ports \<Rightarrow> ga_ports" where
  "ga_readPorts localPort m = m\<lparr>lp_localPort := localPort\<rparr>"

definition ga_startup :: "bool \<Rightarrow> simtime \<Rightarrow> port \<Rightarrow> 'a app_output list \<times> ga_ports" where
  "ga_startup early now localPort =
     (if early then let (out, m) = ga_handleStartOperation now ga_ports_init in (out, ga_readPorts localPort m)
      else ga_handleStartOperation now (ga_readPorts localPort ga_ports_init))"

subsection \<open>Property\<close>

text \<open>The ports agree only in the default configuration.  When the base class starts the application early,
  a UAV is bound to 9300 plus its index and the ground station to 9200, whatever is configured; a peer sends to
  the configured base plus the index and a UAV to the configured port of the ground station, so the datagrams
  arrive exactly when the defaults were configured.  Started after the parameters are read, the
  ports always agree.\<close>

theorem inet_ports_agree:
  fixes out :: "'a app_output list"
  assumes "ua_initialize F C L sp gsPort peerBasePort gsAddr sender intrand = Some (S, P, n)"
    and "ua_startup early peer now authStart gsPort peerBasePort = (out, m)"
    and "ga_startup early now gsPort = (gout :: 'a app_output list, g)"
  shows "(ap_bound m = Some (ua_peerBasePort n + peer) \<longleftrightarrow> early \<longrightarrow> peerBasePort = 9300) \<and>
    (lp_bound g = Some (ua_gsPort n) \<longleftrightarrow> early \<longrightarrow> gsPort = 9200) \<and>
    out = [ScheduleTimer (max now authStart) ''startPhase2Inet''] \<and> gout = [ScheduleTimer now ''enrollAllInet'']"
proof -
  have "ua_peerBasePort n = peerBasePort" "ua_gsPort n = gsPort"
    using assms(1) by (auto simp: ua_initialize_def Option.bind_eq_Some_conv)
  then show ?thesis
    using assms(2,3) unfolding ua_startup_def ga_startup_def ua_handleStartOperation_def ga_handleStartOperation_def
    by (auto simp: ua_readPorts_def ga_readPorts_def ua_ports_init_def ga_ports_init_def Let_def split: if_splits)
qed

end
