(* ===== verification/Spec2Isabelle.thy ===== *)
theory Spec2Isabelle
  imports Wire Drbg X25519 Ascon Spongent_Suite Sha3_Suite Bch_Profiles Fuzzy
    Replay Puf Credentials Session Ground_Station Uav Peer Phase2 Phase2_Safety Phase3
    Uav_Invariant Peer_Safety Baseline_Run Baseline_Nodes Gs_Node_Safety
    Uav_Node_Safety Attack_Safety Inet_Run Calibration Arbiter_Run Min_Entropy Report Inet_Start
begin

text \<open>
  The UAV authentication code base: verification development.

  \<^bold>\<open>The program.\<close>  A fleet of UAVs, each with a physically unclonable function (PUF), authenticates to a
  ground station and then pairwise to each other.  Enrollment (Phase 1) interrogates the PUF, derives a
  master key with a fuzzy extractor and hands the device public helper data and a temporary identity.
  Phase 2 is a four message handshake M1 to M4 that mutually authenticates device and ground station and
  delivers, under an AEAD, one credential per peer and a rotated identity.  Phase 3 is a three message
  handshake P1 to P3 between two devices over such a credential.  For comparison there is a
  handshake B1 to B4 with RSA or ECDSA signatures.  Around the protocol objects stand the modules of an
  OMNeT++ simulation: nodes, a wireless medium with a tap, and an attacker that measures attacks.

  \<^bold>\<open>Code under parameters.\<close>  The directory \<open>core/\<close> (byte and bit helpers, the field encoder) is not part of the
  repository and is the record \<open>core_lib\<close> (theory \<open>Core\<close>); OpenSSL is the record \<open>ossl\<close> (\<open>Ossl\<close>), its
  \<open>EVP_PKEY\<close> calls the record \<open>evp\<close> (\<open>Signature\<close>); the arithmetic unit and \<open>libm\<close> are the record \<open>fpu\<close> on
  64 bit words (\<open>Fpu\<close>), so every other operation on \<open>double\<close> stands where the code has it.  What the code
  relies on is stated in the locales \<open>core_laws\<close>, \<open>core_tlv\<close>, \<open>ossl_laws\<close>, \<open>evp_laws\<close>, \<open>fpu_laws\<close>, \<open>fpu_dyadic\<close>: documented behaviour such as
  lengths, decoding what was encoded, verifying what was signed, commutation of X25519, exact sums and halves of short
  dyadic numbers.  No cryptographic hardness is assumed.
  \<open>Ref_Core\<close>, \<open>Signature\<close>, \<open>Fpu\<close> and \<open>Calibration\<close> (a floating point format) instantiate them with concrete functions, and every witness runs on these instances.

  \<^bold>\<open>Conventions.\<close>  An exception is \<open>None\<close>; a refused step is an ordinary \<open>step_result\<close>.  \<open>uint8_t\<close>,
  \<open>uint32_t\<close> and \<open>uint64_t\<close> are words of that width, with wrap-around; \<open>int\<close> is \<open>int\<close>, \<open>size_t\<close> is
  \<open>nat\<close>.  An iterated \<open>std::map\<close> is a sorted association list (\<open>omap\<close>, in \<open>Prelude\<close>), other maps are
  functions.  State (protocol objects, generator) is passed and returned; clock readings are arguments.  The
  entropy budget of the fuzzy extractor and the noise threshold of the keyed PUF are computed on rationals.

  \<^bold>\<open>Theories.\<close>
  \<^item> \<open>Prelude\<close>, \<open>Core\<close>, \<open>Ref_Core\<close>, \<open>Ossl\<close>, \<open>Fpu\<close>: shared lemmas, parameters and their instance.
  \<^item> \<open>Wire\<close> (\<open>protocol/Wire\<close>): message types, tags, encoding, MAC inputs.  Decoding accepts exactly the canonical
    encodings; a MAC input determines suite, type and all fields.
  \<^item> \<open>Drbg\<close>, \<open>X25519\<close> (\<open>crypto/\<close>): generator and key exchange.  Any sequence of requests reads consecutive
    bytes of one stream; \<open>uniform\<close> is unbiased by construction and below its bound; \<open>normal\<close> caches the second
    deviate of the Box-Muller transform.
  \<^item> \<open>Ascon\<close>, \<open>Spongent\<close>, \<open>Spongent_Suite\<close>, \<open>Sha3_Suite\<close>, \<open>Suite\<close>: primitives, the suite interface as the locale
    \<open>crypto_suite\<close>, and the proof that every suite of the factory meets it.
  \<^item> \<open>Bch_GF\<close>, \<open>Bch_Codec\<close>, \<open>Bch_Profiles\<close>, \<open>Fuzzy\<close> (\<open>fe/\<close>): the field GF(256), constructor, encoder and decoder
    of the BCH code, the profiles, the fuzzy extractor.
  \<^item> \<open>Puf\<close> (\<open>puf/PufModel\<close>, \<open>puf/IdealPrfPuf\<close>): the interface as the locale \<open>puf_model\<close> and the keyed PUF.
  \<^item> \<open>Arbiter\<close>, \<open>Arbiter_Props\<close>, \<open>Calibration\<close>, \<open>Xor_Arbiter\<close>, \<open>Arbiter_Run\<close> (\<open>puf/ArbiterPuf\<close>, \<open>puf/XorArbiterPuf\<close>): the delay
    models with noise, calibration and measurements.  The running product equals the parity model, the
    measurements equal those of successive readings, the calibration returns the middle of the one step of a grid of \<open>2^40\<close> where the flip rate
    crosses its target, every PUF a node
    creates meets \<open>puf_model\<close>, and a noiseless arbiter PUF authenticates.
  \<^item> \<open>Min_Entropy\<close> (\<open>puf/MinEntropy\<close>), \<open>Counters\<close> (\<open>crypto/PrimitiveCounters\<close>): the estimators with the meaning of
    their counters, and the cost statistics.
  \<^item> \<open>Replay\<close>, \<open>Credentials\<close>, \<open>Session\<close>: the parts \<open>protocol/Protocol\<close> is made of; the cache refines a window
    over the list of accepted nonces.
  \<^item> \<open>Ground_Station\<close>, \<open>Uav\<close>, \<open>Peer\<close> (\<open>protocol/Protocol.cc\<close>): all handlers with all early returns, with case rules
    (\<open>gs_handleM1_cases\<close>, \<open>uav_handleM2_cases\<close>, ...) that the properties use, and the reachability
    relations \<open>gs_reach\<close> and \<open>uav_reach\<close>.
  \<^item> \<open>Phase2\<close>, \<open>Phase2_Safety\<close>, \<open>Phase3\<close>, \<open>Peer_Safety\<close>, \<open>Uav_Invariant\<close>: the composition.  Honest runs
    succeed and agree; only authentic messages are answered; refused ones change nothing but the replay cache
    and, when only the key exchange fails, a mark in the session; session invariants over all reachable states; the legacy mode as an oracle; the identity that is lost
    with M4.
  \<^item> \<open>Signature\<close>, \<open>Baseline\<close>, \<open>Baseline_Safety\<close>, \<open>Baseline_Run\<close> (\<open>crypto/SignatureSuite\<close>, \<open>EcdsaSuite\<close>,
    \<open>RsaSuite\<close>, \<open>protocol/BaselineSigAuth\<close>, enrollment in \<open>nodes/BaselineGroundStationNode.cc\<close>).
  \<^item> \<open>Medium\<close>, \<open>Gs_Node\<close>, \<open>Uav_Node\<close>, \<open>Attacker_Node\<close>, \<open>Baseline_Nodes\<close> (\<open>nodes/\<close>) and \<open>Gs_Accounting\<close>,
    \<open>Gs_Node_Safety\<close>, \<open>Uav_Node_Safety\<close>, \<open>Attack_Safety\<close>: a handler of a module returns the node and the list of
    what it does to the simulation (transmissions, scheduled self messages, statistics).  The counters of
    the ground station balance against its sessions, a refused replay changes exactly a counter, a reason and a hit count, and the verdicts of the
    attack experiments are computed through node, medium and attacker.
  \<^item> \<open>Inet_Apps\<close>, \<open>Inet_Run\<close> (\<open>src_inet/apps/\<close>): the protocol behind UDP sockets.  Phase 2 completes over encoded
    datagrams; a repeated M4 schedules a pending timer, and after the timer has fired it restarts Phase 3.
  \<^item> \<open>Node_Init\<close>, \<open>Fleet\<close>, \<open>Scalars\<close>, \<open>Report\<close>, \<open>Inet_Start\<close>: \<open>initialize\<close> and \<open>finish\<close> of all modules.  What
    initialization creates satisfies the hypotheses of the protocol's properties, a configured fleet
    authenticates, the ground station reports what happened in a run, and the ports of the INET
    applications agree unless they are bound before they are configured.

  \<^bold>\<open>Bounds and loops.\<close>  Loops of the code that run over a container or to a fixed count are structural.
  \<open>Drbg::uniform\<close> rejects draws in a loop without bound; its model \<open>uniform_loop\<close> is a
  \<open>partial_function (option)\<close> and the theorem states the value for the first accepted draw.
  The closure of the BCH roots and the attacker's eight forgeries
  have their exact bounds.  Key and transcript lengths in the hypotheses are those of the buffers the library
  accepts (65535 for a KDF input, 8160 for a derived key).  The calibration doubles at most 64 times and bisects 40 times, as the code does.

  \<^bold>\<open>Not modelled.\<close>  The clock: clock readings are arguments, and \<open>StepTiming\<close>, which carries sums of them through the protocol,
  is left out.  \<open>OsslCommon\<close> fetches and frees OpenSSL handles and formats its error queue.
  Binding sockets and displaying strings are calls of the simulator.  \<open>wipe\<close> and \<open>secureZero\<close> of dead memory
  have no observable effect.  The Python and Tamarin models, tests and simulation data are not the program.
\<close>

end
